(* ===== verification/Prelude.thy ===== *)
theory Prelude
  imports
    Complex_Main
    "HOL-Library.AList"
    "HOL-Library.List_Lexorder"
    "HOL-Library.Char_ord"
    "HOL-Library.Product_Lexorder"
    "HOL-Library.Option_ord"
    "HOL-Library.Multiset"
    "HOL-Library.Sublist"
begin

text \<open>
  Shared vocabulary of the development: the Python idioms the modelled modules have in common and
  the lemmas about them.  Python's \<open>x or d\<close> and truthiness of strings, \<open>round\<close> (half to even),
  \<open>min\<close>/\<open>max\<close> with a key (first winner), \<open>next((i for i in range(...) if ...), None)\<close>, \<open>list.pop(i)\<close>,
  insertion-ordered dictionaries (association lists with \<^const>\<open>AList.update\<close>), \<open>setdefault(k, []).append\<close>
  grouping and the "seen" loops that keep the first row per key.  Nothing here is specific to one
  module; each definition names the idiom it stands for.
\<close>

named_theorems py "unfolding rules for the small Python idioms"

section \<open>Truthiness and defaults\<close>

definition or_else :: "'a option \<Rightarrow> 'a \<Rightarrow> 'a" where
  \<comment> \<open>\<open>d.get(k) or v\<close> where a falsy present value equals the default \<open>v\<close>\<close>
  "or_else x d = (case x of None \<Rightarrow> d | Some v \<Rightarrow> v)"

lemma or_else_simps [simp]: "or_else None d = d" "or_else (Some v) d = v"
  by (simp_all add: or_else_def)

definition truthy_str :: "string option \<Rightarrow> bool" where
  "truthy_str s = (s \<noteq> None \<and> s \<noteq> Some [])"

lemma truthy_str_simps [simp]:
  "truthy_str None = False" "truthy_str (Some []) = False" "truthy_str (Some (c # cs)) = True"
  by (simp_all add: truthy_str_def)

lemma truthy_strE: "truthy_str s \<Longrightarrow> (\<And>c cs. s = Some (c # cs) \<Longrightarrow> P) \<Longrightarrow> P"
  by (cases s) (auto simp: truthy_str_def neq_Nil_conv)

definition str_or :: "string option \<Rightarrow> string option \<Rightarrow> string option" where
  \<comment> \<open>\<open>a or b\<close> on optional strings\<close>
  "str_or a b = (if truthy_str a then a else b)"

definition and_then :: "'e + 'a \<Rightarrow> ('a \<Rightarrow> 'e + 'b) \<Rightarrow> 'e + 'b" where
  \<comment> \<open>sequencing of computations that may raise\<close>
  "and_then x f = (case x of Inl e \<Rightarrow> Inl e | Inr v \<Rightarrow> f v)"

lemma and_then_simps [simp]: "and_then (Inl e) f = Inl e" "and_then (Inr v) f = f v"
  by (simp_all add: and_then_def)

lemma and_then_Inr [simp]: "and_then x f = Inr w \<longleftrightarrow> (\<exists>v. x = Inr v \<and> f v = Inr w)"
  by (simp add: and_then_def split: sum.split)

section \<open>Numbers\<close>

definition py_round :: "'a::floor_ceiling \<Rightarrow> int" where
  \<comment> \<open>\<open>round(x)\<close>: to nearest, ties to even\<close>
  "py_round x = (let f = floor x; d = x - of_int f in
     if d < 1/2 then f else if 1/2 < d then f + 1 else if even f then f else f + 1)"

definition py_round_to :: "nat \<Rightarrow> 'a::floor_ceiling \<Rightarrow> 'a" where
  \<comment> \<open>\<open>round(x, n)\<close>\<close>
  "py_round_to n x = of_int (py_round (x * 10 ^ n)) / 10 ^ n"

definition py_trunc :: "'a::floor_ceiling \<Rightarrow> int" where
  \<comment> \<open>\<open>int(x)\<close> of a float: toward zero\<close>
  "py_trunc x = (if 0 \<le> x then \<lfloor>x\<rfloor> else \<lceil>x\<rceil>)"

lemma py_round_near: "\<bar>of_int (py_round x) - x\<bar> \<le> (1/2 :: 'a::floor_ceiling)"
proof -
  have "of_int (floor x) \<le> x" and "x < of_int (floor x) + 1"
    by linarith+
  then show ?thesis by (auto simp: py_round_def Let_def abs_le_iff)
qed

lemma py_round_of_int [simp]: "py_round (of_int n) = n"
  by (simp add: py_round_def)

lemma py_round_0 [simp]: "py_round 0 = 0"
  by (simp add: py_round_def)

lemma py_round_mono:
  assumes "x \<le> y" shows "py_round x \<le> py_round y"
proof (cases "floor x = floor y")
  case True
  then show ?thesis using assms by (auto simp: py_round_def Let_def)
next
  case False
  then have "floor x + 1 \<le> floor y" using floor_mono[OF assms] by linarith
  then show ?thesis by (auto simp: py_round_def Let_def)
qed

lemma py_round_nonneg: "0 \<le> x \<Longrightarrow> 0 \<le> py_round x"
  using py_round_mono[of 0 x] by (simp add: py_round_def)

definition py_floor_div :: "int \<Rightarrow> int \<Rightarrow> int" where
  "py_floor_div a b = a div b"

fun show_nat :: "nat \<Rightarrow> string" where
  "show_nat n = (if n < 10 then [char_of (48 + n)]
                 else show_nat (n div 10) @ [char_of (48 + n mod 10)])"

declare show_nat.simps [simp del]

definition show_int :: "int \<Rightarrow> string" where
  "show_int i = (if i < 0 then ''-'' @ show_nat (nat (- i)) else show_nat (nat i))"

definition pad2 :: "nat \<Rightarrow> string" where
  \<comment> \<open>the format \<open>{:02d}\<close>\<close>
  "pad2 n = (if n < 10 then ''0'' @ show_nat n else show_nat n)"

section \<open>Sorting, minimum and maximum by a key\<close>

fun min_by :: "('a \<Rightarrow> 'k::linorder) \<Rightarrow> 'a list \<Rightarrow> 'a option" where
  \<comment> \<open>\<open>min(xs, key=f, default=None)\<close>: the first element whose key is minimal\<close>
  "min_by f [] = None"
| "min_by f (x # xs) = (case min_by f xs of None \<Rightarrow> Some x
     | Some y \<Rightarrow> if f x \<le> f y then Some x else Some y)"

fun max_by :: "('a \<Rightarrow> 'k::linorder) \<Rightarrow> 'a list \<Rightarrow> 'a option" where
  \<comment> \<open>\<open>max(xs, key=f, default=None)\<close>: the first element whose key is maximal\<close>
  "max_by f [] = None"
| "max_by f (x # xs) = (case max_by f xs of None \<Rightarrow> Some x
     | Some y \<Rightarrow> if f y \<le> f x then Some x else Some y)"

lemma min_by_None [simp]: "min_by f xs = None \<longleftrightarrow> xs = []"
  by (cases xs) (auto split: option.splits)

lemma max_by_None [simp]: "max_by f xs = None \<longleftrightarrow> xs = []"
  by (cases xs) (auto split: option.splits)

lemma min_by_in: "min_by f xs = Some m \<Longrightarrow> m \<in> set xs"
  by (induction xs arbitrary: m) (auto split: option.splits if_splits)

lemma min_by_le: "min_by f xs = Some m \<Longrightarrow> x \<in> set xs \<Longrightarrow> f m \<le> f x"
  by (induction xs arbitrary: m) (fastforce split: option.splits if_splits)+

lemma max_by_in: "max_by f xs = Some m \<Longrightarrow> m \<in> set xs"
  by (induction xs arbitrary: m) (auto split: option.splits if_splits)

lemma max_by_ge: "max_by f xs = Some m \<Longrightarrow> x \<in> set xs \<Longrightarrow> f x \<le> f m"
  by (induction xs arbitrary: m) (fastforce split: option.splits if_splits)+

lemma set_sort_key [simp]: "set (sort_key f xs) = set xs"
  by (rule set_sort)

lemma sort_key_min_first:
  "sort_key f xs = y # ys \<Longrightarrow> x \<in> set xs \<Longrightarrow> f y \<le> f x"
  by (metis list.simps(9) set_ConsD set_sort sorted_simps(2) sorted_sort_key order_refl image_eqI list.set_map)

lemma distinct_sort_key [simp]: "distinct (sort_key f xs) = distinct xs"
  by (metis distinct_sort)

lemma distinct_map_sort_key [simp]: "distinct (map f (sort_key k xs)) = distinct (map f xs)"
  by (rule mset_eq_imp_distinct_iff) (simp only: mset_map mset_sort)

section \<open>Lists: removal by index, first occurrences\<close>

definition remove_at :: "nat \<Rightarrow> 'a list \<Rightarrow> 'a list" where
  \<comment> \<open>\<open>xs.pop(i)\<close> for an index in range\<close>
  "remove_at i xs = take i xs @ drop (Suc i) xs"

lemma length_remove_at: "i < length xs \<Longrightarrow> length (remove_at i xs) = length xs - 1"
  by (simp add: remove_at_def)

lemma mset_remove_at: "i < length xs \<Longrightarrow> mset xs = add_mset (xs ! i) (mset (remove_at i xs))"
  by (metis add_mset_add_single id_take_nth_drop mset.simps(2) mset_append remove_at_def union_mset_add_mset_right)

lemma subseq_remove_at: "subseq (remove_at i xs) xs"
  unfolding remove_at_def
  by (metis Cons_nth_drop_Suc append_take_drop_id drop_all drop_append linorder_not_le
      list_emb_append_mono subseq_Cons' subseq_order.order_refl subseq_append_iff
      append.right_neutral order.refl Suc_leD not_less_eq_eq)

lemma set_remove_at: "set (remove_at i xs) \<subseteq> set xs"
  using set_take_subset set_drop_subset by (auto simp: remove_at_def dest: in_set_takeD in_set_dropD)

lemma in_remove_at: "x \<in> set xs \<Longrightarrow> i < length xs \<Longrightarrow> xs ! i \<noteq> x \<Longrightarrow> x \<in> set (remove_at i xs)"
  by (metis id_take_nth_drop remove_at_def Un_iff set_ConsD set_append)

lemma hd_remove_at: "0 < i \<Longrightarrow> i < length xs \<Longrightarrow> hd (remove_at i xs) = hd xs"
  by (cases xs) (auto simp: remove_at_def take_Cons split: nat.splits)

fun uniq_by :: "('a \<Rightarrow> 'k option) \<Rightarrow> 'k list \<Rightarrow> 'a list \<Rightarrow> 'a list" where
  \<comment> \<open>a loop with a \<open>seen\<close> collection: rows whose key was seen are skipped, rows with no key always kept\<close>
  "uniq_by key seen [] = []"
| "uniq_by key seen (x # xs) = (case key x of
     None \<Rightarrow> x # uniq_by key seen xs
   | Some k \<Rightarrow> if k \<in> set seen then uniq_by key seen xs else x # uniq_by key (k # seen) xs)"

lemma subseq_uniq_by: "subseq (uniq_by key seen xs) xs"
  by (induction key seen xs rule: uniq_by.induct) (auto split: option.splits)

lemma set_uniq_by: "set (uniq_by key seen xs) \<subseteq> set xs"
  by (induction key seen xs rule: uniq_by.induct) (auto split: option.splits)

lemma uniq_by_fresh: "x \<in> set (uniq_by key seen xs) \<Longrightarrow> key x = Some k \<Longrightarrow> k \<notin> set seen"
  by (induction key seen xs rule: uniq_by.induct) (auto split: option.splits if_splits)

lemma uniq_by_distinct: "distinct (List.map_filter key (uniq_by key seen xs))"
proof (induction key seen xs rule: uniq_by.induct)
  case (1 key seen)
  then show ?case by (simp add: List.map_filter_simps)
next
  case (2 key seen x xs)
  show ?case
  proof (cases "key x")
    case None
    with 2 show ?thesis by (simp add: List.map_filter_simps)
  next
    case (Some k)
    show ?thesis
    proof (cases "k \<in> set seen")
      case True
      with 2 Some show ?thesis by simp
    next
      case False
      have "k \<notin> set (List.map_filter key (uniq_by key (k # seen) xs))"
        using uniq_by_fresh[of _ key "k # seen" xs k] by (auto simp: List.map_filter_def)
      with 2 Some False show ?thesis by (simp add: List.map_filter_simps)
    qed
  qed
qed

lemma uniq_by_covers:
  "x \<in> set xs \<Longrightarrow> key x = Some k \<Longrightarrow> k \<in> set seen \<or> (\<exists>y \<in> set (uniq_by key seen xs). key y = Some k)"
  by (induction key seen xs rule: uniq_by.induct) (auto split: option.splits if_splits)

lemma uniq_by_keeps_unkeyed: "x \<in> set xs \<Longrightarrow> key x = None \<Longrightarrow> x \<in> set (uniq_by key seen xs)"
  by (induction key seen xs rule: uniq_by.induct) (auto split: option.splits if_splits)

section \<open>Insertion-ordered dictionaries and grouping\<close>

definition group_add :: "('a \<Rightarrow> 'k) \<Rightarrow> 'a \<Rightarrow> ('k \<times> 'a list) list \<Rightarrow> ('k \<times> 'a list) list" where
  \<comment> \<open>\<open>groups.setdefault(f(x), []).append(x)\<close>\<close>
  "group_add f x g = AList.update (f x)
     ((case map_of g (f x) of None \<Rightarrow> [] | Some ys \<Rightarrow> ys) @ [x]) g"

definition group_by :: "('a \<Rightarrow> 'k) \<Rightarrow> 'a list \<Rightarrow> ('k \<times> 'a list) list" where
  "group_by f xs = fold (group_add f) xs []"

lemma group_by_Nil [simp]: "group_by f [] = []"
  by (simp add: group_by_def)

lemma group_by_snoc: "group_by f (xs @ [x]) = group_add f x (group_by f xs)"
  by (simp add: group_by_def)

lemma map_of_group_by:
  "map_of (group_by f xs) k =
     (if \<exists>x \<in> set xs. f x = k then Some (filter (\<lambda>x. f x = k) xs) else None)"
proof (induction xs rule: rev_induct)
  case Nil
  then show ?case by simp
next
  case (snoc x xs)
  have *: "map_of (group_by f (xs @ [x])) =
    (map_of (group_by f xs))(f x \<mapsto> (case map_of (group_by f xs) (f x) of None \<Rightarrow> [] | Some ys \<Rightarrow> ys) @ [x])"
    by (simp add: group_by_snoc group_add_def update_conv')
  show ?case
  proof (cases "f x = k")
    case True
    have "(case map_of (group_by f xs) k of None \<Rightarrow> [] | Some ys \<Rightarrow> ys) = filter (\<lambda>x. f x = k) xs"
      using snoc.IH by (auto split: if_splits simp: filter_empty_conv)
    with True show ?thesis by (simp add: *)
  next
    case False
    then show ?thesis using snoc.IH by (auto simp: *)
  qed
qed

lemma distinct_group_keys: "distinct (map fst (group_by f xs))"
  by (induction xs rule: rev_induct) (simp_all add: group_by_snoc group_add_def distinct_update)

lemma set_group_keys: "fst ` set (group_by f xs) = f ` set xs"
  by (induction xs rule: rev_induct) (simp_all add: group_by_snoc group_add_def dom_update)

lemma group_by_mem:
  "(k, ys) \<in> set (group_by f xs) \<longleftrightarrow> ys = filter (\<lambda>x. f x = k) xs \<and> (\<exists>x \<in> set xs. f x = k)"
proof -
  have "(k, ys) \<in> set (group_by f xs) \<longleftrightarrow> map_of (group_by f xs) k = Some ys"
    using distinct_group_keys by (metis map_of_eq_Some_iff)
  then show ?thesis by (auto simp: map_of_group_by)
qed

lemma group_by_nonempty: "(k, ys) \<in> set (group_by f xs) \<Longrightarrow> ys \<noteq> []"
  by (auto simp: group_by_mem filter_empty_conv)

lemma group_by_sub: "(k, ys) \<in> set (group_by f xs) \<Longrightarrow> y \<in> set ys \<Longrightarrow> y \<in> set xs \<and> f y = k"
  by (auto simp: group_by_mem)

lemma group_by_cover: "x \<in> set xs \<Longrightarrow> \<exists>ys. (f x, ys) \<in> set (group_by f xs) \<and> x \<in> set ys"
  by (auto simp: group_by_mem)

lemma update_absent: "k \<notin> fst ` set xs \<Longrightarrow> AList.update k v xs = xs @ [(k, v)]"
  by (induction xs) auto

lemma mset_concat_update:
  "mset (concat (map snd (AList.update k v g))) + mset (case map_of g k of None \<Rightarrow> [] | Some old \<Rightarrow> old) =
   mset (concat (map snd g)) + mset v"
  by (induction g) (auto simp: ac_simps)

lemma mset_concat_groups: "mset (concat (map snd (group_by f xs))) = mset xs"
proof (induction xs rule: rev_induct)
  case (snoc x xs)
  let ?old = "case map_of (group_by f xs) (f x) of None \<Rightarrow> [] | Some ys \<Rightarrow> ys"
  have "mset (concat (map snd (group_by f (xs @ [x])))) + mset ?old =
      mset (concat (map snd (group_by f xs))) + mset (?old @ [x])"
    unfolding group_by_snoc group_add_def by (rule mset_concat_update)
  with snoc show ?case by simp
qed simp

lemma subseq_imp_set: "subseq xs ys \<Longrightarrow> set xs \<subseteq> set ys"
  by (induction xs ys rule: list_emb.induct) auto

lemma subseq_imp_distinct: "subseq xs ys \<Longrightarrow> distinct ys \<Longrightarrow> distinct xs"
  by (induction xs ys rule: list_emb.induct) (auto dest: subseq_imp_set)

lemma set_map_filter_id: "set (List.map_filter id xs) = {x. Some x \<in> set xs}"
  by (induction xs) (auto simp: List.map_filter_simps split: option.split)

lemma in_map_filter: "y \<in> set (List.map_filter f xs) \<longleftrightarrow> (\<exists>x \<in> set xs. f x = Some y)"
  by (induction xs) (auto simp: List.map_filter_simps split: option.split)

lemma map_of_filter_keep:
  "distinct (map fst kvs) \<Longrightarrow> map_of kvs k = Some v \<Longrightarrow> P (k, v) \<Longrightarrow> map_of (filter P kvs) k = Some v"
proof (induction kvs)
  case (Cons x kvs)
  then show ?case by (cases x) (auto dest: map_of_SomeD intro: rev_image_eqI split: if_splits)
qed simp

lemma list_all2_in: "list_all2 P xs ys \<Longrightarrow> x \<in> set xs \<Longrightarrow> \<exists>y \<in> set ys. P x y"
  by (induction rule: list_all2_induct) auto

section \<open>Making room in a bounded list\<close>

lemma last_index_Some:
  "find P (rev [lo..<n]) = Some i \<Longrightarrow> lo \<le> i \<and> i < n \<and> P i"
  by (auto simp: find_Some_iff rev_nth)

lemma last_index_None_pos:
  "find P (rev [Suc 0..<n]) = None \<Longrightarrow> 0 < i \<Longrightarrow> i < n \<Longrightarrow> \<not> P i"
  by (auto simp: find_None_iff)

lemma last_index_None: "find P (rev [lo..<n]) = None \<Longrightarrow> lo \<le> i \<Longrightarrow> i < n \<Longrightarrow> \<not> P i"
  by (auto simp: find_None_iff)

function make_room :: "('a list \<Rightarrow> nat option) \<Rightarrow> nat \<Rightarrow> 'a list \<Rightarrow> 'a list" where
  \<comment> \<open>\<open>while len(chosen) >= cap: idx = pick(chosen); if idx is None: break; chosen.pop(idx)\<close>;
      \<open>pop\<close> of an index out of range cannot happen for the pickers of the code (\<open>picker\<close> below)\<close>
  "make_room pick cap xs = (if cap \<le> length xs then
     (case pick xs of None \<Rightarrow> xs
      | Some i \<Rightarrow> if i < length xs then make_room pick cap (remove_at i xs) else xs)
   else xs)"
  by pat_completeness auto
termination
  by (relation "measure (\<lambda>(pick, cap, xs). length xs)") (auto simp: length_remove_at)

declare make_room.simps [simp del]

text \<open>
  The contract of a picker: an index in range, of a row that may go.  The merges of
  \<open>routers/plan.py\<close> and \<open>parkride.py\<close> differ only in the picker, so the facts about the loop are
  proved once here and instantiated there.
\<close>

locale picker =
  fixes pick :: "'a list \<Rightarrow> nat option" and may_go :: "'a \<Rightarrow> bool" and spare_first :: bool
  assumes pick_range: "pick xs = Some i \<Longrightarrow> i < length xs"
    and pick_may_go: "pick xs = Some i \<Longrightarrow> may_go (xs ! i)"
    and pick_first: "pick xs = Some i \<Longrightarrow> spare_first \<Longrightarrow> 0 < i"
    and pick_none: "pick xs = None \<Longrightarrow> i < length xs \<Longrightarrow> spare_first \<longrightarrow> 0 < i \<Longrightarrow> \<not> may_go (xs ! i)"
begin

lemma make_room_step:
  "make_room pick cap xs = (if cap \<le> length xs then
     (case pick xs of None \<Rightarrow> xs | Some i \<Rightarrow> make_room pick cap (remove_at i xs)) else xs)"
  by (subst make_room.simps) (auto split: option.splits dest: pick_range)

lemma make_room_induct [case_names fits stuck drop]:
  assumes "\<And>xs. length xs < cap \<Longrightarrow> P xs"
    and "\<And>xs. cap \<le> length xs \<Longrightarrow> pick xs = None \<Longrightarrow> P xs"
    and "\<And>xs i. cap \<le> length xs \<Longrightarrow> pick xs = Some i \<Longrightarrow> i < length xs \<Longrightarrow> P (remove_at i xs) \<Longrightarrow> P xs"
  shows "P xs"
proof (induction xs rule: length_induct)
  case (1 xs)
  show ?case
  proof (cases "cap \<le> length xs")
    case True
    show ?thesis
    proof (cases "pick xs")
      case (Some i)
      then have i: "i < length xs" by (rule pick_range)
      then have "length (remove_at i xs) < length xs" by (simp add: length_remove_at)
      with 1 have "P (remove_at i xs)" by blast
      with True Some i show ?thesis by (rule assms(3))
    qed (use True assms(2) in blast)
  qed (use assms(1) in simp)
qed

lemma subseq_make_room: "subseq (make_room pick cap xs) xs"
proof (induction xs rule: make_room_induct[of cap])
  case (drop xs i)
  then have "make_room pick cap xs = make_room pick cap (remove_at i xs)"
    by (subst make_room_step) simp
  with drop show ?case by (metis subseq_order.trans subseq_remove_at)
qed (simp_all add: make_room_step)

lemma set_make_room: "set (make_room pick cap xs) \<subseteq> set xs"
  by (rule subseq_imp_set[OF subseq_make_room])

lemma filter_make_room:
  assumes "\<And>x. Q x \<Longrightarrow> \<not> may_go x"
  shows "filter Q (make_room pick cap xs) = filter Q xs"
proof (induction xs rule: make_room_induct[of cap])
  case (drop xs i)
  then have "\<not> Q (xs ! i)" using pick_may_go assms by blast
  then have "filter Q (remove_at i xs) = filter Q xs"
    using drop by (subst (2) id_take_nth_drop[of i xs]) (simp_all add: remove_at_def)
  with drop show ?case by (subst make_room_step) simp
qed (simp_all add: make_room_step)

lemma make_room_keeps:
  "x \<in> set xs \<Longrightarrow> \<not> may_go x \<Longrightarrow> x \<in> set (make_room pick cap xs)"
proof (induction xs rule: make_room_induct[of cap])
  case (drop xs i)
  then have "xs ! i \<noteq> x" using pick_may_go by blast
  with drop have "x \<in> set (make_room pick cap (remove_at i xs))" by (simp add: in_remove_at)
  with drop show ?case by (subst make_room_step) simp
qed (simp_all add: make_room_step)

lemma make_room_keeps_first:
  "spare_first \<Longrightarrow> xs \<noteq> [] \<Longrightarrow> make_room pick cap xs \<noteq> [] \<and> hd (make_room pick cap xs) = hd xs"
proof (induction xs rule: make_room_induct[of cap])
  case (drop xs i)
  from drop have "0 < i" using pick_first by blast
  with drop have "hd (remove_at i xs) = hd xs" "remove_at i xs \<noteq> []"
    by (auto simp: hd_remove_at) (auto simp: remove_at_def)
  with drop show ?case by (subst (1 2) make_room_step) simp
qed (simp_all add: make_room_step)

lemma length_make_room: "length (make_room pick cap xs) \<le> length xs"
  by (rule list_emb_length[OF subseq_make_room])

lemma make_room_full:
  "cap \<le> length (make_room pick cap xs) \<Longrightarrow> i < length (make_room pick cap xs) \<Longrightarrow>
   spare_first \<longrightarrow> 0 < i \<Longrightarrow> \<not> may_go (make_room pick cap xs ! i)"
proof (induction xs rule: make_room_induct[of cap])
  case (drop xs j)
  then have "make_room pick cap xs = make_room pick cap (remove_at j xs)"
    by (subst make_room_step) simp
  with drop show ?case by simp
next
  case (stuck xs)
  then show ?case using pick_none by (simp add: make_room_step)
qed (simp_all add: make_room_step)

end

end
