(* ===== verification/Trip_Model.thy ===== *)
theory Trip_Model
  imports Prelude
begin

text \<open>
  The itinerary as the planner hands it around: the dictionaries \<open>app/normalize.py\<close> builds
  (\<open>leg_from_otp\<close>, \<open>itinerary_from_otp\<close>) with the fields \<open>app/models.py\<close> publishes.  A key that may be
  absent or null is an \<open>option\<close>; times are the ISO strings the code carries and compares as text.
  Python passes these dictionaries by reference and compares some of them with \<open>is\<close>, so an
  itinerary carries its object identity (\<open>obj\<close>); assigning a key keeps the identity.
\<close>

record place =
  place_name :: "string option"
  place_lat :: "rat option"
  place_lon :: "rat option"
  place_stop_id :: "string option"
  place_stop_code :: "string option"
  rental_station_id :: "string option"

definition no_place :: place where
  \<comment> \<open>the \<open>{}\<close> of \<open>leg.get("from") or {}\<close>\<close>
  "no_place = \<lparr>place_name = None, place_lat = None, place_lon = None, place_stop_id = None,
               place_stop_code = None, rental_station_id = None\<rparr>"

record route_ref =
  route_id :: "string option"
  short_name :: "string option"
  long_name :: "string option"
  route_mode :: "string option"
  route_component :: "string option"

record price_estimate =
  pe_amount :: "rat option"
  pe_currency :: "string option"
  pe_label :: "string option"

record rental_info =
  network_id :: string
  network_name :: "string option"
  vehicle_type :: "string option"
  rental_price :: "price_estimate option"

record price_line =
  line_label :: string
  line_amount :: rat

record on_demand_price =
  odp_amount :: rat
  odp_min :: rat
  odp_max :: rat
  odp_currency :: string
  odp_breakdown :: "price_line list"
  odp_surcharges :: "string list"
  odp_note :: "string option"
  odp_tariff_id :: "string option"

record on_demand_quote =
  provider_id :: string
  quote_name :: string
  quote_kind :: string
  quote_price :: "on_demand_price option"
  quote_source :: string
  price_label :: "string option"
  handoff_url :: "string option"

record leg_on_demand =
  od_kind :: string
  od_providers :: "on_demand_quote list"
  od_recommended :: "string option"

record leg =
  leg_mode :: "string option"
  transit :: bool
  leg_start :: "string option"
  leg_end :: "string option"
  leg_duration :: "int option"
  leg_distance :: "rat option"
  leg_from :: "place option"
  leg_to :: "place option"
  leg_route :: "route_ref option"
  leg_trip_id :: "string option"
  leg_realtime :: bool
  leg_rental :: "rental_info option"
  leg_on_demand :: "leg_on_demand option"
  duration_factor :: "rat option"
  park_ride :: bool

record fare_item =
  item_label :: string
  item_amount :: "rat option"
  item_route :: "string option"
  item_kind :: string

record fare =
  fare_amount :: rat
  fare_currency :: string
  fare_breakdown :: "fare_item list"
  fare_note :: "string option"

record itinerary =
  obj :: nat
  it_id :: string
  it_start :: "string option"
  it_end :: "string option"
  it_duration :: "int option"
  walk_distance :: "rat option"
  it_transfers :: "int option"
  it_fare :: "fare option"
  rental_legs :: "int option"
  modes_used :: "string list"
  it_source :: "string option"
  legs :: "leg list"

definition no_leg :: leg where
  \<comment> \<open>a leg dictionary with no key set\<close>
  "no_leg = \<lparr>leg_mode = None, transit = False, leg_start = None, leg_end = None, leg_duration = None,
             leg_distance = None, leg_from = None, leg_to = None, leg_route = None, leg_trip_id = None,
             leg_realtime = False, leg_rental = None, leg_on_demand = None, duration_factor = None,
             park_ride = False\<rparr>"

definition no_itinerary :: itinerary where
  \<comment> \<open>an itinerary dictionary with no key set\<close>
  "no_itinerary = \<lparr>obj = 0, it_id = [], it_start = None, it_end = None, it_duration = None,
             walk_distance = None, it_transfers = None, it_fare = None, rental_legs = None,
             modes_used = [], it_source = None, legs = []\<rparr>"

definition leg_origin :: "leg \<Rightarrow> place" where
  "leg_origin lg = or_else (leg_from lg) no_place"

definition leg_dest :: "leg \<Rightarrow> place" where
  "leg_dest lg = or_else (leg_to lg) no_place"

definition leg_route_id :: "leg \<Rightarrow> string option" where
  \<comment> \<open>\<open>(leg.get("route") or {}).get("id")\<close>\<close>
  "leg_route_id lg = Option.bind (leg_route lg) route_id"

definition has_rental :: "itinerary \<Rightarrow> bool" where
  \<comment> \<open>truthiness of \<open>it.get("rentalLegs")\<close>\<close>
  "has_rental it = (or_else (rental_legs it) 0 \<noteq> 0)"

definition has_transit :: "itinerary \<Rightarrow> bool" where
  "has_transit it = (\<exists>lg \<in> set (legs it). transit lg)"

definition duration_of :: "itinerary \<Rightarrow> int" where
  \<comment> \<open>\<open>it.get("durationSeconds") or 0\<close>\<close>
  "duration_of it = or_else (it_duration it) 0"

definition arrival_key :: "itinerary \<Rightarrow> string \<times> int" where
  \<comment> \<open>the sort key \<open>(it.get("endTime") or "", it.get("durationSeconds") or 0)\<close>\<close>
  "arrival_key it = (or_else (it_end it) [], duration_of it)"

lemma has_transit_code [code]: "has_transit it = list_ex transit (legs it)"
  by (simp add: has_transit_def list_ex_iff)

end
