(* ===== verification/Plan_Merge.thy ===== *)
theory Plan_Merge
  imports Trip_Model
begin

text \<open>
  The merging half of \<open>app/routers/plan.py\<close> and \<open>merge_park_ride\<close> of \<open>app/parkride.py\<close>: several OTP
  searches are folded into one list of itineraries.  Every merge makes room in a list of bounded
  length by popping a row its picker allows (\<^const>\<open>make_room\<close>), appends its candidates, sorts by
  arrival and renumbers.  The pickers are instances of the prelude's \<open>picker\<close> contract, from which
  what survives a merge follows.
\<close>

section \<open>Signatures and ranking\<close>

type_synonym leg_sig = "string option \<times> string option \<times> string option \<times> string option \<times> string"

definition leg_signature :: "leg \<Rightarrow> leg_sig" where
  "leg_signature lg = (let f = leg_origin lg; t = leg_dest lg in
     (leg_mode lg, leg_route_id lg, str_or (place_stop_id f) (rental_station_id f),
      str_or (place_stop_id t) (rental_station_id t), take 16 (or_else (leg_start lg) [])))"

definition signature :: "itinerary \<Rightarrow> leg_sig list" where
  "signature it = map leg_signature (legs it)"

definition shape_of :: "leg_sig list \<Rightarrow> (string option \<times> string option \<times> string option \<times> string option) list" where
  \<comment> \<open>\<open>tuple(x[:4] for x in sig)\<close>: the signature without the times\<close>
  "shape_of sig = map (\<lambda>(m, r, f, t, s). (m, r, f, t)) sig"

definition uses_car :: "itinerary \<Rightarrow> bool" where
  "uses_car it = (\<exists>lg \<in> set (legs it). or_else (leg_mode lg) [] \<in> {''CAR'', ''CAR_ONDEMAND''})"

lemma uses_car_code [code]:
  "uses_car it = list_ex (\<lambda>lg. or_else (leg_mode lg) [] = ''CAR'' \<or> or_else (leg_mode lg) [] = ''CAR_ONDEMAND'') (legs it)"
  by (auto simp: uses_car_def list_ex_iff)

definition plain_transit :: "itinerary \<Rightarrow> bool" where
  "plain_transit it = (or_else (it_source it) ''primary'' = ''primary'' \<and> \<not> has_rental it
     \<and> has_transit it \<and> \<not> uses_car it)"

definition best_plain_transit :: "itinerary list \<Rightarrow> itinerary option" where
  "best_plain_transit chosen = min_by arrival_key (filter plain_transit chosen)"

definition is_primary :: "itinerary \<Rightarrow> bool" where
  "is_primary it = (it_source it = Some ''primary'')"

definition is_not :: "itinerary \<Rightarrow> itinerary option \<Rightarrow> bool" where
  \<comment> \<open>\<open>it is not keep\<close>: object identity\<close>
  "is_not it keep = (case keep of None \<Rightarrow> True | Some k \<Rightarrow> obj it \<noteq> obj k)"

definition droppable_index :: "itinerary option \<Rightarrow> itinerary list \<Rightarrow> nat option" where
  "droppable_index keep chosen = find (\<lambda>i. is_primary (chosen ! i) \<and> \<not> has_rental (chosen ! i)
     \<and> is_not (chosen ! i) keep) (rev [1..<length chosen])"

definition renumber :: "itinerary list \<Rightarrow> itinerary list" where
  "renumber its = map (\<lambda>(i, it). it\<lparr>it_id := ''it-'' @ show_nat i\<rparr>) (enumerate 0 its)"

definition ranked :: "itinerary list \<Rightarrow> itinerary list" where
  \<comment> \<open>the tail every merge ends with: sort by arrival, renumber\<close>
  "ranked its = renumber (sort_key arrival_key its)"

section \<open>The merges\<close>

definition rental_droppable :: "itinerary list \<Rightarrow> nat option" where
  "rental_droppable chosen = find (\<lambda>i. is_primary (chosen ! i) \<and> \<not> has_rental (chosen ! i))
     (rev [0..<length chosen])"

fun add_rentals :: "nat \<Rightarrow> nat \<Rightarrow> nat \<Rightarrow> itinerary list \<Rightarrow> itinerary list \<Rightarrow> itinerary list" where
  "add_rentals min_rental cap already chosen [] = chosen"
| "add_rentals min_rental cap already chosen (it # its) =
     (if \<not> already < min_rental \<and> cap \<le> length chosen then chosen
      else let room = make_room rental_droppable cap chosen in
        if cap \<le> length room then room
        else add_rentals min_rental cap (Suc already) (room @ [it]) its)"

definition primary_rows :: "itinerary list \<Rightarrow> nat \<Rightarrow> itinerary list" where
  "primary_rows primary num = map (\<lambda>it. it\<lparr>it_source := Some ''primary''\<rparr>)
     (uniq_by (Some \<circ> signature) [] (take num primary))"

definition rental_candidates :: "itinerary list \<Rightarrow> itinerary list list \<Rightarrow> nat \<Rightarrow> itinerary list" where
  "rental_candidates primary searches num = map (\<lambda>it. it\<lparr>it_source := Some ''rental''\<rparr>)
     (uniq_by (Some \<circ> signature) (map signature (take num primary)) (filter has_rental (concat searches)))"

definition merge_plans :: "itinerary list \<Rightarrow> itinerary list list \<Rightarrow> nat \<Rightarrow> nat \<Rightarrow> itinerary list" where
  "merge_plans primary rental_searches num min_rental =
     (let chosen = primary_rows primary num;
          candidates = sort_key duration_of (rental_candidates primary rental_searches num);
          already = length (filter has_rental chosen)
      in ranked (add_rentals min_rental (num + 2) already chosen candidates))"

fun add_picks :: "(itinerary list \<Rightarrow> nat option) \<Rightarrow> nat \<Rightarrow> itinerary list \<Rightarrow> itinerary list \<Rightarrow> itinerary list" where
  "add_picks pick cap chosen [] = chosen"
| "add_picks pick cap chosen (it # its) =
     (let room = make_room pick cap chosen in
      if cap \<le> length room then room else add_picks pick cap (room @ [it]) its)"

definition is_ondemand_leg :: "leg \<Rightarrow> bool" where
  "is_ondemand_leg lg = (leg_mode lg = Some ''CAR'' \<and> \<not> transit lg \<and> leg_rental lg = None \<and> \<not> park_ride lg)"

fun fresh_rides :: "leg_sig list list \<Rightarrow> (string option \<times> string option \<times> string option \<times> string option) list list
    \<Rightarrow> itinerary list \<Rightarrow> itinerary list" where
  \<comment> \<open>the candidate loop: rides with a car leg whose signature and time-less shape are new\<close>
  "fresh_rides seen shapes [] = []"
| "fresh_rides seen shapes (it # its) =
     (if filter is_ondemand_leg (legs it) = [] then fresh_rides seen shapes its
      else let sig = signature it; shape = shape_of sig in
        if sig \<in> set seen \<or> shape \<in> set shapes then fresh_rides seen shapes its
        else it\<lparr>it_source := Some ''ondemand''\<rparr> # fresh_rides (sig # seen) (shape # shapes) its)"

definition within_feeder :: "rat \<Rightarrow> itinerary \<Rightarrow> bool" where
  "within_feeder max_feeder_m it =
     list_all (\<lambda>lg. or_else (leg_distance lg) 0 \<le> max_feeder_m) (filter is_ondemand_leg (legs it))"

definition ondemand_picks :: "itinerary list \<Rightarrow> itinerary list list \<Rightarrow> rat \<Rightarrow> bool \<Rightarrow> nat \<Rightarrow> nat \<Rightarrow> itinerary list" where
  "ondemand_picks chosen searches max_feeder_m show_when_transit_faster max_direct max_combos =
     (let fresh = fresh_rides (map signature chosen) [] (concat (map (sort_key duration_of) searches));
          direct = filter (\<lambda>it. \<not> has_transit it) fresh;
          combos = filter (\<lambda>it. has_transit it \<and> within_feeder max_feeder_m it) fresh;
          quick = (\<lambda>its. case find has_transit chosen of
             Some b \<Rightarrow> if show_when_transit_faster then its
                       else filter (\<lambda>it. duration_of it \<le> duration_of b) its
           | None \<Rightarrow> its)
      in take max_direct (sort_key duration_of (quick direct))
         @ take max_combos (sort_key duration_of (quick combos)))"

definition merge_ondemand :: "itinerary list \<Rightarrow> itinerary list list \<Rightarrow> nat \<Rightarrow> rat \<Rightarrow> bool \<Rightarrow> nat \<Rightarrow> nat \<Rightarrow> itinerary list" where
  "merge_ondemand chosen searches num max_feeder_m show_when_transit_faster max_direct max_combos =
     ranked (add_picks (droppable_index (best_plain_transit chosen)) (num + 3) chosen
       (ondemand_picks chosen searches max_feeder_m show_when_transit_faster max_direct max_combos))"

fun direct_picks :: "leg_sig list list \<Rightarrow> itinerary list list \<Rightarrow> itinerary list" where
  \<comment> \<open>the shortest of each search that is not already there\<close>
  "direct_picks seen [] = []"
| "direct_picks seen (s # ss) =
     (case find (\<lambda>it. signature it \<notin> set seen) (sort_key duration_of s) of
        None \<Rightarrow> direct_picks seen ss
      | Some it \<Rightarrow> it\<lparr>it_source := Some ''primary''\<rparr> # direct_picks (signature it # seen) ss)"

definition direct_droppable :: "itinerary option \<Rightarrow> itinerary list \<Rightarrow> nat option" where
  "direct_droppable keep chosen = find (\<lambda>i. is_primary (chosen ! i) \<and> is_not (chosen ! i) keep)
     (rev [1..<length chosen])"

fun add_all :: "(itinerary list \<Rightarrow> nat option) \<Rightarrow> nat \<Rightarrow> itinerary list \<Rightarrow> itinerary list \<Rightarrow> itinerary list" where
  \<comment> \<open>a requested ride is added even when nothing can go\<close>
  "add_all pick cap chosen [] = chosen"
| "add_all pick cap chosen (it # its) = add_all pick cap (make_room pick cap chosen @ [it]) its"

definition merge_direct :: "itinerary list \<Rightarrow> itinerary list list \<Rightarrow> nat \<Rightarrow> itinerary list" where
  "merge_direct chosen direct_searches num =
     ranked (add_all (direct_droppable (best_plain_transit chosen)) (num + length direct_searches) chosen
       (direct_picks (map signature chosen) direct_searches))"

definition merge_park_ride :: "itinerary list \<Rightarrow> itinerary list \<Rightarrow> nat \<Rightarrow> nat \<Rightarrow> itinerary list" where
  "merge_park_ride chosen park num max_combos =
     ranked (add_picks (droppable_index (best_plain_transit chosen)) (num + 3) chosen
       (take max_combos (sort_key duration_of park)))"

section \<open>The pickers meet their contract\<close>

interpretation rental_pick: picker rental_droppable "\<lambda>it. is_primary it \<and> \<not> has_rental it" False
  by unfold_locales (auto simp: rental_droppable_def dest: last_index_Some last_index_None)

interpretation od_pick: picker "droppable_index keep"
    "\<lambda>it. is_primary it \<and> \<not> has_rental it \<and> is_not it keep" True for keep
  by unfold_locales (fastforce simp: droppable_index_def dest: last_index_Some last_index_None_pos)+

interpretation direct_pick: picker "direct_droppable keep" "\<lambda>it. is_primary it \<and> is_not it keep" True for keep
  by unfold_locales (fastforce simp: direct_droppable_def dest: last_index_Some last_index_None_pos)+

section \<open>Ranking\<close>

lemma legs_upd [simp]:
  "signature (it\<lparr>it_source := x\<rparr>) = signature it" "signature (it\<lparr>it_id := y\<rparr>) = signature it"
  "has_rental (it\<lparr>it_source := x\<rparr>) = has_rental it" "has_rental (it\<lparr>it_id := y\<rparr>) = has_rental it"
  "arrival_key (it\<lparr>it_source := x\<rparr>) = arrival_key it" "arrival_key (it\<lparr>it_id := y\<rparr>) = arrival_key it"
  by (simp_all add: signature_def has_rental_def arrival_key_def duration_of_def)

lemma map_renumber:
  assumes "\<And>it y. f (it\<lparr>it_id := y\<rparr>) = f it"
  shows "map f (renumber its) = map f its"
  by (rule nth_equalityI) (simp_all add: renumber_def nth_enumerate_eq assms)

lemma length_renumber [simp]: "length (renumber its) = length its"
  by (simp add: renumber_def)

lemma length_ranked [simp]: "length (ranked its) = length its"
  by (simp add: ranked_def)

lemma mset_map_ranked:
  assumes "\<And>it y. f (it\<lparr>it_id := y\<rparr>) = f it"
  shows "mset (map f (ranked its)) = mset (map f its)"
proof -
  have "map f (ranked its) = map f (sort_key arrival_key its)"
    by (simp add: ranked_def map_renumber[of f, OF assms])
  then show ?thesis by (simp only: mset_map mset_sort)
qed

lemma set_map_ranked:
  assumes "\<And>it y. f (it\<lparr>it_id := y\<rparr>) = f it"
  shows "f ` set (ranked its) = f ` set its"
  using mset_map_ranked[of f its, OF assms] by (metis list.set_map mset_eq_setD)

lemma filter_length_ranked:
  assumes "\<And>it y. P (it\<lparr>it_id := y\<rparr>) = P it"
  shows "length (filter P (ranked its)) = length (filter P its)"
proof -
  have "mset (map P (ranked its)) = mset (map P its)"
    by (rule mset_map_ranked) (rule assms)
  then have "count_list (map P (ranked its)) True = count_list (map P its) True"
    by (metis count_mset)
  moreover have "count_list (map P xs) True = length (filter P xs)" for xs :: "itinerary list"
    by (induction xs) auto
  ultimately show ?thesis by simp
qed

lemma ranked_sorted: "sorted (map arrival_key (ranked its))"
  by (simp add: ranked_def map_renumber)

lemma ranked_ids: "map it_id (ranked its) = map (\<lambda>i. ''it-'' @ show_nat i) [0..<length its]"
  by (rule nth_equalityI) (simp_all add: ranked_def renumber_def nth_enumerate_eq)

section \<open>The rental merge\<close>

lemma length_add_rentals:
  "length chosen \<le> cap \<Longrightarrow> length (add_rentals m cap already chosen its) \<le> cap"
proof (induction m cap already chosen its rule: add_rentals.induct)
  case (2 m cap already chosen it its)
  have "length (make_room rental_droppable cap chosen) \<le> cap"
    using 2(2) rental_pick.length_make_room[of cap chosen] by linarith
  with 2 show ?case by (auto simp: Let_def)
qed simp

lemma length_uniq_by: "length (uniq_by key seen xs) \<le> length xs"
  by (rule list_emb_length[OF subseq_uniq_by])

lemma length_primary_rows: "length (primary_rows primary num) \<le> num"
  using length_uniq_by[of "Some \<circ> signature" "[]" "take num primary"]
  by (simp add: primary_rows_def)

lemma rentals_guaranteed:
  assumes "m \<le> cap" and "\<forall>it \<in> set its. has_rental it"
    and "\<forall>it \<in> set chosen. is_primary it \<or> has_rental it"
    and "already = length (filter has_rental chosen)"
  shows "min m (already + length its) \<le> length (filter has_rental (add_rentals m cap already chosen its))"
  using assms
proof (induction m cap already chosen its rule: add_rentals.induct)
  case (2 m cap already chosen it its)
  let ?room = "make_room rental_droppable cap chosen"
  have count: "filter has_rental ?room = filter has_rental chosen"
    by (rule rental_pick.filter_make_room) simp
  have sub: "set ?room \<subseteq> set chosen"
    by (rule rental_pick.set_make_room)
  show ?case
  proof (cases "\<not> already < m \<and> cap \<le> length chosen")
    case True
    with 2 show ?thesis by simp
  next
    case False
    show ?thesis
    proof (cases "cap \<le> length ?room")
      case True
      have "has_rental (?room ! i)" if "i < length ?room" for i
        using rental_pick.make_room_full[OF True that] 2(4) sub that by (meson nth_mem subsetD)
      then have "filter has_rental ?room = ?room"
        by (metis filter_True in_set_conv_nth)
      with True have "cap \<le> length (filter has_rental ?room)" by simp
      with True False 2(2) show ?thesis by (auto simp: Let_def)
    next
      case fits: False
      have "min m (Suc already + length its)
        \<le> length (filter has_rental (add_rentals m cap (Suc already) (?room @ [it]) its))"
        using 2(1)[OF False refl fits] 2(2-5) count sub by auto
      with False fits show ?thesis by (auto simp: Let_def)
    qed
  qed
qed simp

lemma signatures_add_rentals:
  "distinct (map signature (chosen @ its)) \<Longrightarrow> distinct (map signature (add_rentals m cap already chosen its))"
proof (induction m cap already chosen its rule: add_rentals.induct)
  case (2 m cap already chosen it its)
  let ?room = "make_room rental_droppable cap chosen"
  have "subseq (map signature (?room @ it # its)) (map signature (chosen @ it # its))"
    by (rule subseq_map) (simp add: list_emb_append_mono rental_pick.subseq_make_room)
  then have d: "distinct (map signature (?room @ it # its))"
    using 2(2) by (rule subseq_imp_distinct)
  then have "distinct (map signature ?room)" by simp
  with d 2 show ?case by (auto simp: Let_def)
qed simp

lemma signatures_merge_plans_parts:
  "distinct (map signature (primary_rows primary num @ sort_key duration_of (rental_candidates primary searches num)))"
proof -
  let ?seen = "map signature (take num primary)"
  let ?cands = "uniq_by (Some \<circ> signature) ?seen (filter has_rental (concat searches))"
  have d: "distinct (map signature (uniq_by (Some \<circ> signature) seen xs))" for seen xs
    using uniq_by_distinct[of "Some \<circ> signature" seen xs] by (simp add: List.map_filter_def comp_def)
  have "signature x \<notin> set ?seen" if "x \<in> set ?cands" for x
    using uniq_by_fresh[OF that, of "signature x"] by simp
  then have fresh: "signature ` set ?cands \<inter> signature ` set (take num primary) = {}"
    by (auto simp del: set_take_subset)
  have "signature ` set (uniq_by (Some \<circ> signature) [] (take num primary)) \<subseteq> signature ` set (take num primary)"
    by (rule image_mono) (rule set_uniq_by)
  with fresh have disj: "signature ` set (uniq_by (Some \<circ> signature) [] (take num primary)) \<inter> signature ` set ?cands = {}"
    by blast
  have "distinct (map signature (sort_key duration_of (rental_candidates primary searches num)))"
    using d by (simp add: rental_candidates_def comp_def)
  moreover have "distinct (map signature (primary_rows primary num))"
    using d by (simp add: primary_rows_def comp_def)
  ultimately show ?thesis
    using disj by (simp add: primary_rows_def rental_candidates_def image_image)
qed

section \<open>The capped and the forced merges\<close>

lemma length_add_picks: "length (add_picks (droppable_index keep) cap chosen its) \<le> max (length chosen) cap"
proof (induction "droppable_index keep" cap chosen its rule: add_picks.induct)
  case (2 cap chosen it its)
  have "length (make_room (droppable_index keep) cap chosen) \<le> length chosen"
    by (rule od_pick.length_make_room)
  with 2 show ?case by (fastforce simp: Let_def)
qed simp

lemma add_picks_keeps:
  assumes "it \<in> set chosen" and "\<not> (is_primary it \<and> \<not> has_rental it \<and> is_not it keep)"
  shows "it \<in> set (add_picks (droppable_index keep) cap chosen its)"
  using assms
proof (induction "droppable_index keep" cap chosen its rule: add_picks.induct)
  case (2 cap chosen p its)
  then have "it \<in> set (make_room (droppable_index keep) cap chosen)"
    by (blast intro: od_pick.make_room_keeps)
  with 2 show ?case by (auto simp: Let_def)
qed simp

lemma add_picks_keeps_first:
  "chosen \<noteq> [] \<Longrightarrow> hd chosen \<in> set (add_picks (droppable_index keep) cap chosen its)"
proof (induction "droppable_index keep" cap chosen its rule: add_picks.induct)
  case (2 cap chosen p its)
  let ?room = "make_room (droppable_index keep) cap chosen"
  have room: "?room \<noteq> []" "hd ?room = hd chosen"
    using od_pick.make_room_keeps_first[OF _ 2(2)] by auto
  then have "hd chosen \<in> set ?room" by (metis hd_in_set)
  with 2 room show ?case by (auto simp: Let_def)
qed simp

lemma add_all_keeps:
  assumes "it \<in> set chosen" and "\<not> (is_primary it \<and> is_not it keep)"
  shows "it \<in> set (add_all (direct_droppable keep) cap chosen its)"
  using assms
proof (induction "direct_droppable keep" cap chosen its rule: add_all.induct)
  case (2 cap chosen p its)
  then have "it \<in> set (make_room (direct_droppable keep) cap chosen)"
    by (blast intro: direct_pick.make_room_keeps)
  with 2 show ?case by simp
qed simp

lemma best_plain_transit_in: "best_plain_transit chosen = Some k \<Longrightarrow> k \<in> set chosen \<and> plain_transit k"
  using min_by_in by (fastforce simp: best_plain_transit_def)

lemma add_all_room:
  "length chosen + length its \<le> cap \<Longrightarrow> add_all pick cap chosen its = chosen @ its"
  by (induction pick cap chosen its rule: add_all.induct) (simp_all add: make_room.simps)

lemma length_direct_picks: "length (direct_picks seen searches) \<le> length searches"
  by (induction seen searches rule: direct_picks.induct) (auto split: option.splits)

lemma add_all_last: "its \<noteq> [] \<Longrightarrow> last its \<in> set (add_all pick cap chosen its)"
  by (induction pick cap chosen its rule: add_all.induct) (auto split: if_splits)

lemma add_picks_survivors:
  assumes "best_plain_transit chosen = Some best" and "it \<in> set chosen"
    and "it = best \<or> it = hd chosen \<or> \<not> is_primary it \<or> has_rental it"
  shows "it \<in> set (add_picks (droppable_index (best_plain_transit chosen)) cap chosen its)"
proof (cases "it = hd chosen")
  case True
  moreover have "chosen \<noteq> []" using assms(2) by auto
  ultimately show ?thesis using add_picks_keeps_first by simp
next
  case False
  with assms show ?thesis by (intro add_picks_keeps) (auto simp: is_not_def)
qed

lemma in_ranked: "it \<in> set its \<Longrightarrow> \<exists>y. it\<lparr>it_id := y\<rparr> \<in> set (ranked its)"
proof -
  assume "it \<in> set its"
  then obtain i where i: "i < length its" "sort_key arrival_key its ! i = it"
    by (metis in_set_conv_nth length_sort set_sort)
  then have "ranked its ! i = it\<lparr>it_id := ''it-'' @ show_nat i\<rparr>"
    by (simp add: ranked_def renumber_def nth_enumerate_eq)
  with i show ?thesis by (metis length_ranked nth_mem)
qed

section \<open>Properties\<close>

text \<open>C28: the rental merge never returns more than \<open>num + 2\<close> itineraries.\<close>
theorem merge_plans_bounded:
  "length (merge_plans primary rental_searches num min_rental) \<le> num + 2"
  using length_primary_rows[of primary num]
  by (simp add: merge_plans_def Let_def length_add_rentals)

text \<open>C29: whenever the promised number of rental options fits in the list, the merge returns at least
  that many of them, or all the distinct ones the searches found if there are fewer.\<close>
theorem merge_plans_guarantees_rentals:
  assumes "min_rental \<le> num + 2"
  shows "min min_rental (length (filter has_rental (primary_rows primary num))
           + length (rental_candidates primary rental_searches num))
         \<le> length (filter has_rental (merge_plans primary rental_searches num min_rental))"
proof -
  have "\<forall>it \<in> set (rental_candidates primary rental_searches num). has_rental it"
    using set_uniq_by by (fastforce simp: rental_candidates_def)
  moreover have "\<forall>it \<in> set (primary_rows primary num). is_primary it \<or> has_rental it"
    by (auto simp: primary_rows_def is_primary_def)
  ultimately show ?thesis
    using rentals_guaranteed[OF assms, of "sort_key duration_of (rental_candidates primary rental_searches num)"
        "primary_rows primary num"]
    by (simp add: merge_plans_def Let_def filter_length_ranked)
qed

definition demo_rental :: "nat \<Rightarrow> itinerary" where
  "demo_rental n = no_itinerary\<lparr>obj := n, rental_legs := Some 1, it_end := Some (show_nat n),
     legs := [no_leg\<lparr>leg_mode := Some ''BICYCLE'', leg_start := Some (show_nat n)\<rparr>]\<rparr>"

lemma merge_plans_guarantees_rentals_witness:
  "2 \<le> length (filter has_rental (merge_plans [] [[demo_rental 3, demo_rental 4, demo_rental 5]] 0 2))"
proof -
  have "length (rental_candidates [] [[demo_rental 3, demo_rental 4, demo_rental 5]] 0) = 3" by code_simp
  then show ?thesis
    using merge_plans_guarantees_rentals[of 2 0 "[]" "[[demo_rental 3, demo_rental 4, demo_rental 5]]"] by simp
qed

text \<open>no journey (same vehicles, stops and start minute) is listed twice by the rental merge.\<close>
theorem merge_plans_no_duplicates:
  "distinct (map signature (merge_plans primary rental_searches num min_rental))"
proof -
  let ?out = "add_rentals min_rental (num + 2) (length (filter has_rental (primary_rows primary num)))
    (primary_rows primary num) (sort_key duration_of (rental_candidates primary rental_searches num))"
  have "distinct (map signature ?out)"
    by (rule signatures_add_rentals) (rule signatures_merge_plans_parts)
  moreover have "mset (map signature (ranked ?out)) = mset (map signature ?out)"
    by (rule mset_map_ranked) simp
  ultimately show ?thesis
    unfolding merge_plans_def Let_def by (metis mset_eq_imp_distinct_iff)
qed

text \<open>C30: the taxi merge grows the list to at most \<open>num + 3\<close> rows, and never displaces the best plain
  transit itinerary, the first row, or any row that is not a plain primary one.\<close>
theorem merge_ondemand_keeps_transit:
  fixes chosen searches num max_feeder_m faster max_direct max_combos
  defines "out \<equiv> merge_ondemand chosen searches num max_feeder_m faster max_direct max_combos"
  assumes "best_plain_transit chosen = Some best"
  shows "length out \<le> max (length chosen) (num + 3)
    \<and> (\<forall>it \<in> set chosen. it = best \<or> it = hd chosen \<or> \<not> is_primary it \<or> has_rental it
         \<longrightarrow> (\<exists>y. it\<lparr>it_id := y\<rparr> \<in> set out))"
  unfolding out_def merge_ondemand_def
  using add_picks_survivors[OF assms(2)] by (auto intro!: in_ranked simp: length_add_picks)

definition bus_leg :: leg where
  "bus_leg = no_leg\<lparr>leg_mode := Some ''BUS'', transit := True\<rparr>"

definition bus_row :: itinerary where
  "bus_row = no_itinerary\<lparr>obj := 1, it_source := Some ''primary'', legs := [bus_leg]\<rparr>"

lemma best_bus_row: "best_plain_transit [bus_row] = Some bus_row"
  by (simp add: best_plain_transit_def plain_transit_def bus_row_def bus_leg_def no_itinerary_def no_leg_def
      has_rental_def has_transit_def uses_car_def)

theorem merge_ondemand_keeps_transit_witness:
  "\<exists>y. bus_row\<lparr>it_id := y\<rparr> \<in> set (merge_ondemand [bus_row] [[bus_row]] 0 1000 False 1 2)"
  using merge_ondemand_keeps_transit[OF best_bus_row, of "[[bus_row]]" 0 1000 False 1 2] by simp

text \<open>park & ride obeys the same rules as the taxi merge: bounded growth, and the best plain transit
  itinerary, the first row and every row that is not a plain primary one survive.\<close>
theorem merge_park_ride_keeps_transit:
  assumes "best_plain_transit chosen = Some best"
  shows "length (merge_park_ride chosen park num max_combos) \<le> max (length chosen) (num + 3)
    \<and> (\<forall>it \<in> set chosen. it = best \<or> it = hd chosen \<or> \<not> is_primary it \<or> has_rental it
         \<longrightarrow> (\<exists>y. it\<lparr>it_id := y\<rparr> \<in> set (merge_park_ride chosen park num max_combos)))"
  unfolding merge_park_ride_def
  using add_picks_survivors[OF assms] by (auto intro!: in_ranked simp: length_add_picks)

theorem merge_park_ride_keeps_transit_witness:
  "\<exists>y. bus_row\<lparr>it_id := y\<rparr> \<in> set (merge_park_ride [bus_row] [no_itinerary] 0 2)"
  using merge_park_ride_keeps_transit[OF best_bus_row, of "[no_itinerary]" 0 2] by simp

text \<open>direct rides (own bike, car) are answered: when the list is not over its size the merge keeps
  every row and adds the shortest new journey of every direct search, and in any case the last such
  journey and the best plain transit itinerary are in the result.\<close>
theorem merge_direct_answers:
  assumes "(length chosen \<le> num \<and> ride \<in> set (chosen @ direct_picks (map signature chosen) searches))
    \<or> best_plain_transit chosen = Some ride
    \<or> (direct_picks (map signature chosen) searches \<noteq> []
        \<and> ride = last (direct_picks (map signature chosen) searches))"
  shows "\<exists>y. ride\<lparr>it_id := y\<rparr> \<in> set (merge_direct chosen searches num)"
proof -
  let ?picks = "direct_picks (map signature chosen) searches"
  let ?out = "add_all (direct_droppable (best_plain_transit chosen)) (num + length searches) chosen ?picks"
  have "ride \<in> set ?out"
    using assms
  proof (elim disjE conjE)
    assume "length chosen \<le> num" and ride: "ride \<in> set (chosen @ ?picks)"
    then have "length chosen + length ?picks \<le> num + length searches"
      using length_direct_picks[of "map signature chosen" searches] by linarith
    then show ?thesis using ride by (simp only: add_all_room)
  next
    assume best: "best_plain_transit chosen = Some ride"
    then show ?thesis
      using best_plain_transit_in[OF best] by (intro add_all_keeps) (auto simp: is_not_def)
  qed (simp add: add_all_last)
  then show ?thesis by (auto simp: merge_direct_def intro: in_ranked)
qed

theorem merge_direct_answers_witness:
  "\<exists>y. bus_row\<lparr>it_id := y\<rparr> \<in> set (merge_direct [] [[bus_row]] 0)"
  using merge_direct_answers[of "[]" 0 bus_row "[[bus_row]]"] by (simp add: bus_row_def)

definition taxi_row :: "nat \<Rightarrow> itinerary" where
  "taxi_row n = no_itinerary\<lparr>obj := n, it_source := Some ''ondemand'',
     legs := [no_leg\<lparr>leg_mode := Some ''CAR'', leg_start := Some (show_nat n)\<rparr>]\<rparr>"

definition own_ride :: "string \<Rightarrow> itinerary" where
  "own_ride m = no_itinerary\<lparr>obj := 9, it_source := Some ''primary'', legs := [no_leg\<lparr>leg_mode := Some m\<rparr>]\<rparr>"

text \<open>once taxi or parking rows have filled the list past its size, the merge drops the ride it added
  for one direct search to make room for the next one, although both were asked for and new.\<close>
theorem merge_direct_drops_a_requested_ride:
  "\<exists>chosen searches num ride. ride \<in> set (direct_picks (map signature chosen) searches)
     \<and> signature ride \<notin> signature ` set (merge_direct chosen searches num)"
proof (intro exI conjI)
  let ?chosen = "[bus_row, taxi_row 2, taxi_row 3, taxi_row 4]"
  let ?searches = "[[own_ride ''BICYCLE''], [own_ride ''CAR'']]"
  show "own_ride ''BICYCLE'' \<in> set (direct_picks (map signature ?chosen) ?searches)"
    by code_simp
  show "signature (own_ride ''BICYCLE'') \<notin> signature ` set (merge_direct ?chosen ?searches 1)"
    by code_simp
qed

text \<open>every merge returns its rows in order of arrival and numbers them \<open>it-0\<close>, \<open>it-1\<close>, ... in that order.\<close>
theorem merges_ranked:
  assumes "out \<in> {merge_plans primary searches num min_rental,
                  merge_ondemand chosen searches num max_feeder_m faster max_direct max_combos,
                  merge_direct chosen searches num, merge_park_ride chosen park num max_combos}"
  shows "sorted (map arrival_key out) \<and> map it_id out = map (\<lambda>i. ''it-'' @ show_nat i) [0..<length out]"
  using assms
  by (auto simp: merge_plans_def merge_ondemand_def merge_direct_def merge_park_ride_def Let_def
      ranked_sorted ranked_ids)

theorem merges_ranked_witness:
  "sorted (map arrival_key (merge_direct [bus_row] [[bus_row]] 1))"
  using merges_ranked[of "merge_direct [bus_row] [[bus_row]] 1" "[]" "[[bus_row]]" 1 0 "[bus_row]" 0 True 0 0 "[]"]
  by simp

end
