(* ===== verification/Py_Text.thy ===== *)
theory Py_Text
  imports Prelude
begin

text \<open>
  Text handling of the Python standard library as far as the modules use it, on ASCII text:
  \<open>strip\<close>, \<open>lower\<close>, \<open>split\<close>, \<open>join\<close>, \<open>int(...)\<close> of a string and the printing of integers.  A string
  is a list of bytes, so a character outside ASCII is the bytes of its UTF-8 encoding: it compares
  and sorts as in Python, while case mapping and white space are those of ASCII.
\<close>

definition is_space :: "char \<Rightarrow> bool" where
  "is_space c = (let n = of_char c :: nat in n = 32 \<or> 9 \<le> n \<and> n \<le> 13 \<or> 28 \<le> n \<and> n \<le> 31)"

definition is_digit :: "char \<Rightarrow> bool" where
  "is_digit c = (let n = of_char c :: nat in 48 \<le> n \<and> n \<le> 57)"

definition digit_val :: "char \<Rightarrow> nat" where
  "digit_val c = of_char c - 48"

definition lower_char :: "char \<Rightarrow> char" where
  "lower_char c = (let n = of_char c :: nat in if 65 \<le> n \<and> n \<le> 90 then char_of (n + 32) else c)"

definition upper_char :: "char \<Rightarrow> char" where
  "upper_char c = (let n = of_char c :: nat in if 97 \<le> n \<and> n \<le> 122 then char_of (n - 32) else c)"

definition lower :: "string \<Rightarrow> string" where
  "lower s = map lower_char s"

definition upper :: "string \<Rightarrow> string" where
  "upper s = map upper_char s"

definition lstrip :: "string \<Rightarrow> string" where
  "lstrip s = dropWhile is_space s"

definition rstrip :: "string \<Rightarrow> string" where
  "rstrip s = rev (dropWhile is_space (rev s))"

definition strip :: "string \<Rightarrow> string" where
  "strip s = rstrip (lstrip s)"

fun split_on :: "char \<Rightarrow> string \<Rightarrow> string list" where
  \<comment> \<open>\<open>s.split(c)\<close> for a one-character separator\<close>
  "split_on c [] = [[]]"
| "split_on c (x # xs) = (if x = c then [] # split_on c xs
     else (case split_on c xs of [] \<Rightarrow> [[x]] | w # ws \<Rightarrow> (x # w) # ws))"

fun join_with :: "string \<Rightarrow> string list \<Rightarrow> string" where
  "join_with sep [] = []"
| "join_with sep [w] = w"
| "join_with sep (w # v # ws) = w @ sep @ join_with sep (v # ws)"

definition startswith :: "string \<Rightarrow> string \<Rightarrow> bool" where
  "startswith s p = prefix p s"

definition contains_char :: "char \<Rightarrow> string \<Rightarrow> bool" where
  "contains_char c s = (c \<in> set s)"

definition split_once :: "char \<Rightarrow> string \<Rightarrow> (string \<times> string) option" where
  \<comment> \<open>the pieces of \<open>s.split(c, 1)\<close> when the separator occurs\<close>
  "split_once c s = (if c \<in> set s then Some (takeWhile (\<lambda>x. x \<noteq> c) s, tl (dropWhile (\<lambda>x. x \<noteq> c) s)) else None)"

definition parse_nat :: "string \<Rightarrow> nat option" where
  \<comment> \<open>a non-empty run of decimal digits\<close>
  "parse_nat s = (if s \<noteq> [] \<and> list_all is_digit s then Some (foldl (\<lambda>n c. 10 * n + digit_val c) 0 s) else None)"

definition parse_int :: "string \<Rightarrow> int option" where
  \<comment> \<open>\<open>int(s)\<close>: white space around, one optional sign; \<open>None\<close> is the \<open>ValueError\<close>\<close>
  "parse_int s = (let t = strip s in
     case t of [] \<Rightarrow> None
     | c # cs \<Rightarrow> if c = CHR ''-'' then map_option (\<lambda>n. - int n) (parse_nat cs)
                else if c = CHR ''+'' then map_option int (parse_nat cs)
                else map_option int (parse_nat t))"

lemma digit_char [simp]:
  "n < 10 \<Longrightarrow> is_digit (char_of (48 + n))" "n < 10 \<Longrightarrow> digit_val (char_of (48 + n :: nat)) = n"
  by (simp_all add: is_digit_def digit_val_def Let_def)

lemma digit_char0 [simp]: "is_digit (CHR ''0'')" "digit_val (CHR ''0'') = 0"
  by (simp_all add: is_digit_def digit_val_def)

lemma show_nat_nonempty [simp]: "show_nat n \<noteq> []"
  by (subst show_nat.simps) simp

lemma show_nat_digits: "list_all is_digit (show_nat n)"
proof (induction n rule: show_nat.induct)
  case (1 n)
  then show ?case by (subst show_nat.simps) simp
qed

lemma show_nat_value: "foldl (\<lambda>n c. 10 * n + digit_val c) 0 (show_nat n) = n"
proof (induction n rule: show_nat.induct)
  case (1 n)
  then show ?case by (subst show_nat.simps) (simp add: mult.commute)
qed

lemma parse_show_nat [simp]: "parse_nat (show_nat n) = Some n"
  by (simp add: parse_nat_def show_nat_digits show_nat_value)

lemma show_nat_inj: "show_nat m = show_nat n \<Longrightarrow> m = n"
  by (metis option.inject parse_show_nat)

lemma parse_pad2 [simp]: "parse_nat (pad2 n) = Some n"
  by (simp add: pad2_def parse_nat_def show_nat_digits show_nat_value)

lemma length_show_nat_small: "n < 10 \<Longrightarrow> length (show_nat n) = 1"
  by (subst show_nat.simps) simp

lemma length_pad2: "n < 100 \<Longrightarrow> length (pad2 n) = 2"
  by (auto simp: pad2_def length_show_nat_small) (subst show_nat.simps, simp add: length_show_nat_small)

lemma pad2_digits: "list_all is_digit (pad2 n)"
  by (simp add: pad2_def show_nat_digits)

lemma digit_not_space: "is_digit c \<Longrightarrow> \<not> is_space c"
  by (auto simp: is_digit_def is_space_def Let_def)

lemma strip_no_space: "list_all (\<lambda>c. \<not> is_space c) s \<Longrightarrow> strip s = s"
proof -
  assume *: "list_all (\<lambda>c. \<not> is_space c) s"
  then have "dropWhile is_space s = s" "dropWhile is_space (rev s) = rev s"
    by (metis dropWhile_eq_self_iff hd_in_set list_all_iff)
      (metis * dropWhile_eq_self_iff hd_in_set list_all_iff set_rev)
  then show ?thesis by (simp add: strip_def rstrip_def lstrip_def)
qed

lemma parse_int_digits: "s \<noteq> [] \<Longrightarrow> list_all is_digit s \<Longrightarrow> parse_int s = map_option int (parse_nat s)"
proof -
  assume s: "s \<noteq> []" "list_all is_digit s"
  then have st: "strip s = s"
    by (intro strip_no_space) (auto simp: list_all_iff digit_not_space)
  from s obtain c cs where c: "s = c # cs" "is_digit c" by (cases s) auto
  then have "c \<noteq> CHR ''-''" "c \<noteq> CHR ''+''" by (auto simp: is_digit_def)
  with st c show ?thesis by (simp add: parse_int_def Let_def)
qed

lemma parse_int_show_nat [simp]: "parse_int (show_nat n) = Some (int n)"
  by (simp add: parse_int_digits show_nat_digits)

lemma parse_int_pad2 [simp]: "parse_int (pad2 n) = Some (int n)"
  using pad2_digits[of n] parse_pad2[of n] by (subst parse_int_digits) (auto simp: pad2_def)

lemma strip_ends:
  "strip s \<noteq> [] \<Longrightarrow> \<not> is_space (hd (strip s)) \<and> \<not> is_space (last (strip s))"
proof -
  assume ne: "strip s \<noteq> []"
  let ?l = "dropWhile is_space s" and ?r = "dropWhile is_space (rev (dropWhile is_space s))"
  from ne have r: "?r \<noteq> []" by (simp add: strip_def rstrip_def lstrip_def)
  then have last: "\<not> is_space (hd ?r)" by (rule hd_dropWhile)
  from r have l: "?l \<noteq> []" by (metis dropWhile.simps(1) rev.simps(1))
  have "last ?r = last (rev ?l)" using r by (metis last_append dropWhile_eq_drop append_take_drop_id last_drop linorder_not_le drop_eq_Nil)
  then have "last ?r = hd ?l" using l by (simp add: last_rev)
  then have "\<not> is_space (last ?r)" using l hd_dropWhile by metis
  with last r show ?thesis by (simp add: strip_def rstrip_def lstrip_def hd_rev last_rev)
qed

lemma strip_idem [simp]: "strip (strip s) = strip s"
proof (cases "strip s = []")
  case True
  then show ?thesis by (simp only: True) (simp add: strip_def rstrip_def lstrip_def)
next
  case False
  from strip_ends[OF this] False
  have "dropWhile is_space (strip s) = strip s" "dropWhile is_space (rev (strip s)) = rev (strip s)"
    by (auto simp: dropWhile_eq_self_iff hd_rev)
  then show ?thesis by (simp add: strip_def[of "strip s"] rstrip_def lstrip_def)
qed

lemma lower_lower [simp]: "lower (lower s) = lower s"
  by (auto simp: lower_def lower_char_def Let_def)

lemma split_on_nonempty [simp]: "split_on c s \<noteq> []"
  by (cases s) (auto split: list.splits)

lemma split_on_free: "c \<notin> set s \<Longrightarrow> split_on c s = [s]"
  by (induction s) auto

lemma split_on_append: "c \<notin> set s \<Longrightarrow> split_on c (s @ c # t) = s # split_on c t"
  by (induction s) auto

end
