(* ===== verification/Json_Value.thy ===== *)
theory Json_Value
  imports Py_Text
begin

text \<open>
  The values of a decoded JSON body and the Python operations the handlers apply to them:
  \<open>d.get(k)\<close>, truthiness, \<open>str(v)\<close>, \<open>int(v)\<close>, \<open>float(v)\<close>.  An object is an association list in the
  insertion order a Python dictionary keeps.  \<open>repr\<close> of floats, lists and objects is an argument
  (\<open>str\<close> of such a value is only ever cut to a length by the code).
\<close>

datatype json = JNull | JBool bool | JInt int | JFloat rat | JStr string
  | JArr "json list" | JObj "(string \<times> json) list"

datatype py_error = TypeError | ValueError | KeyError | AttributeError

definition jget :: "json \<Rightarrow> string \<Rightarrow> json option" where
  \<comment> \<open>\<open>d[k]\<close> if present; only objects have keys\<close>
  "jget j k = (case j of JObj kvs \<Rightarrow> map_of kvs k | _ \<Rightarrow> None)"

definition jfield :: "json \<Rightarrow> string \<Rightarrow> json" where
  \<comment> \<open>\<open>d.get(k)\<close>: null when absent\<close>
  "jfield j k = (case jget j k of None \<Rightarrow> JNull | Some v \<Rightarrow> v)"

fun truthy :: "json \<Rightarrow> bool" where
  "truthy JNull = False"
| "truthy (JBool b) = b"
| "truthy (JInt n) = (n \<noteq> 0)"
| "truthy (JFloat x) = (x \<noteq> 0)"
| "truthy (JStr s) = (s \<noteq> [])"
| "truthy (JArr xs) = (xs \<noteq> [])"
| "truthy (JObj kvs) = (kvs \<noteq> [])"

definition jor :: "json \<Rightarrow> json \<Rightarrow> json" where
  "jor a b = (if truthy a then a else b)"

definition is_obj :: "json \<Rightarrow> bool" where
  "is_obj j = (case j of JObj _ \<Rightarrow> True | _ \<Rightarrow> False)"

fun py_str :: "(json \<Rightarrow> string) \<Rightarrow> json \<Rightarrow> string" where
  "py_str repr JNull = ''None''"
| "py_str repr (JBool b) = (if b then ''True'' else ''False'')"
| "py_str repr (JInt n) = show_int n"
| "py_str repr (JStr s) = s"
| "py_str repr j = repr j"

definition truncate :: "rat \<Rightarrow> int" where
  "truncate x = (if x < 0 then - floor (- x) else floor x)"

fun py_int :: "json \<Rightarrow> py_error + int" where
  "py_int (JInt n) = Inr n"
| "py_int (JBool b) = Inr (if b then 1 else 0)"
| "py_int (JFloat x) = Inr (truncate x)"
| "py_int (JStr s) = (case parse_int s of None \<Rightarrow> Inl ValueError | Some n \<Rightarrow> Inr n)"
| "py_int _ = Inl TypeError"

fun py_float :: "(string \<Rightarrow> rat option) \<Rightarrow> json \<Rightarrow> py_error + rat" where
  \<comment> \<open>\<open>float(v)\<close>; the decimal reader for strings is an argument\<close>
  "py_float dec (JInt n) = Inr (of_int n)"
| "py_float dec (JBool b) = Inr (if b then 1 else 0)"
| "py_float dec (JFloat x) = Inr x"
| "py_float dec (JStr s) = (case dec s of None \<Rightarrow> Inl ValueError | Some x \<Rightarrow> Inr x)"
| "py_float dec _ = Inl TypeError"

definition items :: "json \<Rightarrow> json list" where
  \<comment> \<open>\<open>x or []\<close> of an array\<close>
  "items j = (case j of JArr xs \<Rightarrow> xs | _ \<Rightarrow> [])"

lemma jfield_simps [simp]:
  "jfield JNull k = JNull" "jfield (JObj ((k, v) # kvs)) k = v"
  "k \<noteq> k' \<Longrightarrow> jfield (JObj ((k', v) # kvs)) k = jfield (JObj kvs) k" "jfield (JObj []) k = JNull"
  by (simp_all add: jfield_def jget_def)

section \<open>Assigning keys\<close>

definition jput :: "string \<Rightarrow> json \<Rightarrow> json \<Rightarrow> json" where
  "jput k v j = (case j of JObj kvs \<Rightarrow> JObj (AList.update k v kvs) | _ \<Rightarrow> j)"

definition jdefault :: "string \<Rightarrow> json \<Rightarrow> json \<Rightarrow> json" where
  \<comment> \<open>\<open>setdefault\<close>\<close>
  "jdefault k v j = (if jget j k = None then jput k v j else j)"

definition jpop :: "string \<Rightarrow> json \<Rightarrow> json" where
  "jpop k j = (case j of JObj kvs \<Rightarrow> JObj (AList.delete k kvs) | _ \<Rightarrow> j)"

lemma jget_jput: "is_obj j \<Longrightarrow> jget (jput k v j) k' = (if k' = k then Some v else jget j k')"
  by (cases j) (simp_all add: is_obj_def jget_def jput_def update_conv')

lemma is_obj_jput [simp]: "is_obj (jput k v j) = is_obj j"
  by (cases j) (simp_all add: is_obj_def jput_def)

lemma is_obj_jdefault [simp]: "is_obj (jdefault k v j) = is_obj j"
  by (simp add: jdefault_def)

lemma jget_jdefault: "is_obj j \<Longrightarrow> jget (jdefault k v j) k' = (if k' = k \<and> jget j k = None then Some v else jget j k')"
  by (simp add: jdefault_def jget_jput)

end
