(* ===== verification/Api_Error.thy ===== *)
theory Api_Error
  imports Json_Value
begin

text \<open>
  \<open>app/errors.py\<close>: the error a handler raises and the envelope it becomes.  A raised \<open>ApiError\<close> is
  the left side of a sum; its subclasses only fix the default status and code.
\<close>

record api_error =
  err_status :: nat
  err_code :: string
  err_message :: string

datatype store_error = UniqueViolation | DataError

datatype raised = Api api_error | Uncaught py_error | Database store_error

type_synonym 'a outcome = "api_error + 'a"

definition raise_error :: "nat \<Rightarrow> string \<Rightarrow> string \<Rightarrow> string option \<Rightarrow> nat option \<Rightarrow> api_error" where
  \<comment> \<open>\<open>ApiError.__init__\<close>: class defaults, overridden by a truthy \<open>code\<close> or \<open>status\<close>\<close>
  "raise_error dstatus dcode message code status =
     \<lparr>err_status = (case status of Some n \<Rightarrow> if n \<noteq> 0 then n else dstatus | None \<Rightarrow> dstatus),
      err_code = (if truthy_str code then the code else dcode),
      err_message = message\<rparr>"

definition bad_request :: "string \<Rightarrow> nat \<Rightarrow> api_error" where
  "bad_request message status = raise_error 400 ''BAD_REQUEST'' message None (Some status)"

definition city_not_found :: "string \<Rightarrow> api_error" where
  "city_not_found m = raise_error 404 ''CITY_NOT_FOUND'' m None None"

definition unauthorized :: "string \<Rightarrow> api_error" where
  "unauthorized m = raise_error 401 ''UNAUTHORIZED'' m None None"

definition forbidden :: "string \<Rightarrow> api_error" where
  "forbidden m = raise_error 403 ''FORBIDDEN'' m None None"

definition http_code :: "nat \<Rightarrow> string" where
  \<comment> \<open>the code of the plain \<open>HTTPException\<close> handler\<close>
  "http_code status = (if status = 401 then ''UNAUTHORIZED'' else if status = 404 then ''NOT_FOUND''
                       else ''BAD_REQUEST'')"

lemma error_fields [simp]:
  "err_status (unauthorized m) = 401" "err_status (forbidden m) = 403"
  "err_message (unauthorized m) = m" "err_message (forbidden m) = m"
  "err_code (unauthorized m) = ''UNAUTHORIZED''" "err_code (forbidden m) = ''FORBIDDEN''"
  by (simp_all add: unauthorized_def forbidden_def raise_error_def)

lemma unauthorized_not_forbidden [simp]: "unauthorized a \<noteq> forbidden b" "forbidden a \<noteq> unauthorized b"
  by (auto dest: arg_cong[of _ _ err_status])

definition elements :: "json \<Rightarrow> raised + json list" where
  \<comment> \<open>\<open>for x in v or []\<close>\<close>
  "elements j = (if \<not> truthy j then Inr [] else case j of JArr xs \<Rightarrow> Inr xs
     | JObj kvs \<Rightarrow> Inr (map (JStr \<circ> fst) kvs) | JStr s \<Rightarrow> Inr (map (\<lambda>c. JStr [c]) s) | _ \<Rightarrow> Inl (Uncaught TypeError))"

fun traverse :: "('a \<Rightarrow> 'e + 'b) \<Rightarrow> 'a list \<Rightarrow> 'e + 'b list" where
  "traverse f [] = Inr []"
| "traverse f (x # xs) = and_then (f x) (\<lambda>y. and_then (traverse f xs) (\<lambda>ys. Inr (y # ys)))"

lemma traverse_Inr: "traverse f xs = Inr ys \<longleftrightarrow> list_all2 (\<lambda>x y. f x = Inr y) xs ys"
  by (induction xs arbitrary: ys) (auto simp: list_all2_Cons1)

definition unprocessable :: "string \<Rightarrow> raised" where
  "unprocessable m = Api (bad_request m 422)"

end
