(* ===== verification/Rate_Limit.thy ===== *)
theory Rate_Limit
  imports Prelude
begin

text \<open>
  The three in-memory limiters: \<open>RateLimiter\<close> of \<open>app/analytics.py\<close> and \<open>SessionLimiter\<close> of
  \<open>app/assistant/budget.py\<close> (fixed windows, one contract), and the sliding \<open>LoginThrottle\<close> of
  \<open>app/admin_auth.py\<close>.  Dictionaries are association lists, the clock value is an argument; a call
  returns the new state and the answer.
\<close>

section \<open>Fixed windows\<close>

type_synonym hits = "(string \<times> int \<times> nat) list"

definition window_of :: "nat \<Rightarrow> rat \<Rightarrow> int" where
  \<comment> \<open>\<open>int(now // self.window)\<close>\<close>
  "window_of window now = floor (now / of_nat window)"

definition bump :: "nat \<Rightarrow> hits \<Rightarrow> string \<Rightarrow> rat \<Rightarrow> hits \<times> nat" where
  \<comment> \<open>the body the two limiters share: count the call, prune stale windows above 10000 keys\<close>
  "bump window hits key now = (let win = window_of window now;
     (w, n) = (case map_of hits key of None \<Rightarrow> (win, 0) | Some v \<Rightarrow> v);
     n = (if w \<noteq> win then 0 else n) + 1;
     hits' = AList.update key (win, n) hits;
     hits'' = (if 10000 < length hits' then filter (\<lambda>(k, v). fst v = win) hits' else hits')
   in (hits'', n))"

record rate_limiter =
  rl_limit :: nat
  rl_window :: nat
  rl_hits :: hits

definition rate_allow :: "rate_limiter \<Rightarrow> string \<Rightarrow> rat \<Rightarrow> rate_limiter \<times> bool" where
  "rate_allow s key now = (let (h, n) = bump (rl_window s) (rl_hits s) key now
     in (s\<lparr>rl_hits := h\<rparr>, n \<le> rl_limit s))"

record session_limiter =
  sl_window :: nat
  sl_hits :: hits

definition session_allow :: "nat \<Rightarrow> session_limiter \<Rightarrow> string \<Rightarrow> rat \<Rightarrow> session_limiter \<times> bool" where
  "session_allow limit s key now = (let (h, n) = bump (sl_window s) (sl_hits s) key now
     in (s\<lparr>sl_hits := h\<rparr>, n \<le> limit))"

definition used :: "hits \<Rightarrow> string \<Rightarrow> int \<Rightarrow> nat" where
  \<comment> \<open>calls of a key counted in a window\<close>
  "used hits key win = (case map_of hits key of Some (w, n) \<Rightarrow> if w = win then n else 0 | None \<Rightarrow> 0)"

fun run_calls :: "('s \<Rightarrow> string \<Rightarrow> rat \<Rightarrow> 's \<times> bool) \<Rightarrow> 's \<Rightarrow> (string \<times> rat) list \<Rightarrow> (string \<times> bool) list" where
  \<comment> \<open>the answers to a sequence of requests\<close>
  "run_calls allow s [] = []"
| "run_calls allow s ((k, t) # cs) = (let (s', ok) = allow s k t in (k, ok) # run_calls allow s' cs)"

lemma map_of_filter_window:
  "distinct (map fst hits) \<Longrightarrow> used (filter (\<lambda>(k, v). fst v = win) hits) key win = used hits key win"
proof (induction hits)
  case (Cons h hits)
  obtain k w n where h: "h = (k, w, n)" by (cases h) auto
  have "map_of (filter (\<lambda>(k, v). fst v = win) hits) k = None" if "k \<notin> fst ` set hits"
    using that by (force simp: map_of_eq_None_iff)
  with Cons h show ?case by (auto simp: used_def split: option.splits)
qed (simp add: used_def)

lemma bump_distinct: "distinct (map fst hits) \<Longrightarrow> distinct (map fst (fst (bump window hits key now)))"
  by (simp add: bump_def Let_def distinct_update distinct_map_filter split: prod.splits)

lemma bump_count:
  assumes "distinct (map fst hits)" and "window_of window now = win"
  shows "snd (bump window hits key now) = Suc (used hits key win)"
    and "used (fst (bump window hits key now)) k win = used hits k win + (if k = key then 1 else 0)"
proof -
  define n where "n = Suc (used hits key win)"
  have b: "bump window hits key now =
      (let hits' = AList.update key (win, n) hits in
       (if 10000 < length hits' then filter (\<lambda>(k, v). fst v = win) hits' else hits', n))"
    using assms(2) by (auto simp: bump_def n_def used_def Let_def split: option.splits)
  show "snd (bump window hits key now) = Suc (used hits key win)"
    by (simp add: b Let_def n_def)
  have "used (AList.update key (win, n) hits) k win = used hits k win + (if k = key then 1 else 0)"
    by (auto simp: used_def update_conv' n_def)
  moreover have "distinct (map fst (AList.update key (win, n) hits))"
    using assms(1) by (simp add: distinct_update)
  ultimately show "used (fst (bump window hits key now)) k win = used hits k win + (if k = key then 1 else 0)"
    by (auto simp: b Let_def map_of_filter_window)
qed

text \<open>
  What a caller may rely on: in a window, a call is let through exactly while the calls its key has
  made there are below the limit, and only that key's count grows.
\<close>

locale fixed_window =
  fixes allow :: "'s \<Rightarrow> string \<Rightarrow> rat \<Rightarrow> 's \<times> bool"
    and spent :: "'s \<Rightarrow> string \<Rightarrow> int \<Rightarrow> nat"
    and window :: "rat \<Rightarrow> int" and limit :: nat and ok :: "'s \<Rightarrow> bool"
  assumes answer: "ok s \<Longrightarrow> snd (allow s k t) \<longleftrightarrow> spent s k (window t) < limit"
    and counted: "ok s \<Longrightarrow> spent (fst (allow s k t)) k' (window t) = spent s k' (window t) + (if k' = k then 1 else 0)"
    and keeps: "ok s \<Longrightarrow> ok (fst (allow s k t))"
begin

lemma granted_count:
  assumes "ok s" and "\<forall>(k', t) \<in> set cs. window t = win"
  shows "length (filter (\<lambda>a. a = (k, True)) (run_calls allow s cs)) =
         min (limit - spent s k win) (length (filter (\<lambda>c. fst c = k) cs))"
  using assms
proof (induction cs arbitrary: s)
  case (Cons c cs)
  obtain k' t where c: "c = (k', t)" by (cases c)
  with Cons.prems have t: "window t = win" by simp
  obtain s' b where a: "allow s k' t = (s', b)" by (cases "allow s k' t")
  have "ok s'" and sp: "spent s' k win = spent s k win + (if k = k' then 1 else 0)"
    and b: "b \<longleftrightarrow> spent s k' win < limit"
    using keeps counted answer Cons.prems(1) a t by (metis fst_conv, metis fst_conv, metis snd_conv)
  with Cons.IH[of s'] Cons.prems(2)
  have "length (filter (\<lambda>a. a = (k, True)) (run_calls allow s' cs)) =
    min (limit - spent s' k win) (length (filter (\<lambda>c. fst c = k) cs))" by simp
  with sp b c a show ?case by (auto simp: Let_def min_def)
qed simp

end

definition hits_ok :: "hits \<Rightarrow> bool" where
  "hits_ok h = distinct (map fst h)"

lemma bump_facts:
  assumes "hits_ok hits"
  shows "hits_ok (fst (bump w hits key now))"
    and "snd (bump w hits key now) = Suc (used hits key (window_of w now))"
    and "used (fst (bump w hits key now)) k (window_of w now) = used hits k (window_of w now) + (if k = key then 1 else 0)"
  using assms bump_distinct bump_count by (simp_all add: hits_ok_def)

lemma rate_allow_parts:
  "fst (rate_allow s k t) = s\<lparr>rl_hits := fst (bump (rl_window s) (rl_hits s) k t)\<rparr>"
  "snd (rate_allow s k t) \<longleftrightarrow> snd (bump (rl_window s) (rl_hits s) k t) \<le> rl_limit s"
  by (simp_all add: rate_allow_def split: prod.splits)

lemma session_allow_parts:
  "fst (session_allow cap s k t) = s\<lparr>sl_hits := fst (bump (sl_window s) (sl_hits s) k t)\<rparr>"
  "snd (session_allow cap s k t) \<longleftrightarrow> snd (bump (sl_window s) (sl_hits s) k t) \<le> cap"
  by (simp_all add: session_allow_def split: prod.splits)

interpretation rate: fixed_window
    rate_allow "\<lambda>s. used (rl_hits s)" "window_of w" cap
    "\<lambda>s. hits_ok (rl_hits s) \<and> rl_window s = w \<and> rl_limit s = cap" for w cap
  by unfold_locales (auto simp: rate_allow_parts bump_facts Suc_le_eq)

interpretation session: fixed_window
    "session_allow cap" "\<lambda>s. used (sl_hits s)" "window_of w" cap
    "\<lambda>s. hits_ok (sl_hits s) \<and> sl_window s = w" for w cap
  by unfold_locales (auto simp: session_allow_parts bump_facts Suc_le_eq)

text \<open>Within one window the rate limiter that guards sharing, reports and analytics answers
  exactly the first \<open>limit\<close> calls of a key with yes, however calls of other keys (and the pruning of the
  table above 10000 keys) interleave, whatever the table held before.\<close>
theorem rate_limit_exact:
  assumes "hits_ok (rl_hits s)" and "\<forall>(k', t) \<in> set cs. window_of (rl_window s) t = win"
  shows "length (filter (\<lambda>a. a = (k, True)) (run_calls rate_allow s cs)) =
         min (rl_limit s - used (rl_hits s) k win) (length (filter (\<lambda>c. fst c = k) cs))"
  by (rule rate.granted_count[of _ "rl_window s" "rl_limit s"]) (use assms in auto)

lemma rate_limit_exact_witness:
  "length (filter (\<lambda>a. a = (''a'', True))
     (run_calls rate_allow \<lparr>rl_limit = 2, rl_window = 60, rl_hits = []\<rparr>
       [(''a'', 60), (''b'', 61), (''a'', 62), (''a'', 63)])) = 2"
  by (subst rate_limit_exact[where win = 1]) (simp_all add: hits_ok_def used_def window_of_def floor_eq_iff)

text \<open>The assistant's session limiter, whose limit is read from the city's configuration at each
  call, keeps the same promise for a fixed limit.\<close>
theorem session_limit_exact:
  assumes "hits_ok (sl_hits s)" and "\<forall>(k', t) \<in> set cs. window_of (sl_window s) t = win"
  shows "length (filter (\<lambda>a. a = (k, True)) (run_calls (session_allow limit) s cs)) =
         min (limit - used (sl_hits s) k win) (length (filter (\<lambda>c. fst c = k) cs))"
  by (rule session.granted_count[of _ "sl_window s"]) (use assms in auto)

lemma session_limit_exact_witness:
  "length (filter (\<lambda>a. a = (''a'', True))
     (run_calls (session_allow 1) \<lparr>sl_window = 60, sl_hits = [(''a'', 0, 7)]\<rparr>
       [(''a'', 60), (''a'', 62)])) = 1"
  by (subst session_limit_exact[where win = 1]) (simp_all add: hits_ok_def used_def window_of_def floor_eq_iff)

section \<open>The sliding login throttle\<close>

record throttle =
  th_limit :: nat
  th_window :: rat
  th_fails :: "(string \<times> rat list) list"

definition fails_in :: "(string \<times> rat list) list \<Rightarrow> string \<Rightarrow> rat list" where
  "fails_in f key = or_else (map_of f key) []"

definition throttle_blocked :: "throttle \<Rightarrow> string \<Rightarrow> rat \<Rightarrow> throttle \<times> bool" where
  "throttle_blocked s key now = (let hits = filter (\<lambda>t. now - t < th_window s) (fails_in (th_fails s) key)
     in (s\<lparr>th_fails := AList.update key hits (th_fails s)\<rparr>, th_limit s \<le> length hits))"

definition throttle_fail :: "throttle \<Rightarrow> string \<Rightarrow> rat \<Rightarrow> throttle" where
  "throttle_fail s key now = (let f = AList.update key (fails_in (th_fails s) key @ [now]) (th_fails s)
     in s\<lparr>th_fails := if 5000 < length f
          then filter (\<lambda>(k, v). v \<noteq> [] \<and> now - last v < th_window s) f else f\<rparr>)"

definition throttle_clear :: "throttle \<Rightarrow> string \<Rightarrow> throttle" where
  "throttle_clear s key = s\<lparr>th_fails := AList.delete key (th_fails s)\<rparr>"

datatype login_event = Failed string rat | Succeeded string | Asked string rat

fun throttle_step :: "throttle \<Rightarrow> login_event \<Rightarrow> throttle" where
  "throttle_step s (Failed k t) = throttle_fail s k t"
| "throttle_step s (Succeeded k) = throttle_clear s k"
| "throttle_step s (Asked k t) = fst (throttle_blocked s k t)"

fun failures :: "string \<Rightarrow> login_event list \<Rightarrow> rat list" where
  \<comment> \<open>what the throttle stands for: the failures of a key since it last succeeded, newest event first in
      the argument, oldest failure first in the result\<close>
  "failures k [] = []"
| "failures k (Failed k' t # evs) = failures k evs @ (if k' = k then [t] else [])"
| "failures k (Succeeded k' # evs) = (if k' = k then [] else failures k evs)"
| "failures k (Asked _ _ # evs) = failures k evs"

fun event_times :: "login_event list \<Rightarrow> rat list" where
  "event_times [] = []"
| "event_times (Failed k t # evs) = t # event_times evs"
| "event_times (Succeeded k # evs) = event_times evs"
| "event_times (Asked k t # evs) = t # event_times evs"

definition recent :: "rat \<Rightarrow> rat \<Rightarrow> rat list \<Rightarrow> rat list" where
  "recent w now ts = filter (\<lambda>t. now - t < w) ts"

definition faithful :: "rat \<Rightarrow> (string \<times> rat list) list \<Rightarrow> login_event list \<Rightarrow> rat \<Rightarrow> bool" where
  "faithful w f evs t0 \<longleftrightarrow> distinct (map fst f) \<and>
     (\<forall>k. sorted (fails_in f k) \<and> (\<forall>t \<in> set (fails_in f k). t \<le> t0) \<and>
       (\<forall>now \<ge> t0. recent w now (fails_in f k) = recent w now (failures k evs)))"

lemma fails_in_update [simp]:
  "fails_in (AList.update k v f) k' = (if k' = k then v else fails_in f k')"
  by (simp add: fails_in_def update_conv')

lemma fails_in_delete [simp]:
  "fails_in (AList.delete k f) k' = (if k' = k then [] else fails_in f k')"
  by (simp add: fails_in_def delete_conv')

lemma recent_Nil [simp]: "recent w now [] = []"
  by (simp add: recent_def)

lemma recent_append [simp]: "recent w now (xs @ ys) = recent w now xs @ recent w now ys"
  by (simp add: recent_def)

lemma recent_recent: "t0 \<le> now \<Longrightarrow> recent w now (filter (\<lambda>t. t0 - t < w) ts) = recent w now ts"
  unfolding recent_def filter_filter by (rule filter_cong) auto

lemma recent_stale:
  assumes "sorted ts" and "ts \<noteq> []" and "\<not> t0 - last ts < w" and "t0 \<le> now"
  shows "recent w now ts = []"
proof -
  have "sorted (butlast ts @ [last ts])" using assms(1,2) by simp
  then have "\<forall>t \<in> set (butlast ts @ [last ts]). t \<le> last ts" by (simp add: sorted_append)
  then have "\<forall>t \<in> set ts. t \<le> last ts" using assms(2) by simp
  then show ?thesis using assms(3,4) unfolding recent_def by (force simp: filter_empty_conv)
qed

definition live_key :: "rat \<Rightarrow> rat \<Rightarrow> rat list \<Rightarrow> bool" where
  "live_key w now v = (v \<noteq> [] \<and> now - last v < w)"

lemma fails_in_prune:
  "distinct (map fst f) \<Longrightarrow> fails_in (filter (\<lambda>(k, v). live_key w now v) f) k =
    (if live_key w now (fails_in f k) then fails_in f k else [])"
proof (induction f)
  case (Cons h f)
  obtain k' v where h: "h = (k', v)" by (cases h)
  have "map_of (filter (\<lambda>(k, v). live_key w now v) f) k' = None" if "k' \<notin> fst ` set f"
    using that by (force simp: map_of_eq_None_iff)
  with Cons h show ?case by (auto simp: fails_in_def)
qed (simp add: fails_in_def)

lemma faithful_prune:
  assumes "faithful w f evs t"
  shows "faithful w (filter (\<lambda>(k, v). live_key w t v) f) evs t"
proof -
  have d: "distinct (map fst f)" using assms by (simp add: faithful_def)
  have "recent w now (fails_in f k) = []" if "\<not> live_key w t (fails_in f k)" "t \<le> now" for k now
    using that recent_stale[of "fails_in f k" t w now] assms
    by (cases "fails_in f k = []") (auto simp: live_key_def faithful_def)
  then show ?thesis using assms d
    by (auto simp: faithful_def fails_in_prune distinct_map_filter)
qed

lemma faithful_fail:
  assumes "faithful w f evs t0" and "t0 \<le> t"
  shows "faithful w (AList.update k (fails_in f k @ [t]) f) (Failed k t # evs) t"
  using assms by (auto simp: faithful_def distinct_update sorted_append intro: order_trans)

lemma faithful_clear:
  "faithful w f evs t0 \<Longrightarrow> faithful w (AList.delete k f) (Succeeded k # evs) t0"
  by (auto simp: faithful_def distinct_delete)

lemma faithful_asked:
  assumes "faithful w f evs t0" and "t0 \<le> t"
  shows "faithful w (AList.update k (filter (\<lambda>x. t - x < w) (fails_in f k)) f) (Asked k t # evs) t"
  using assms by (auto simp: faithful_def distinct_update recent_recent sorted_wrt_filter intro: order_trans)

lemma faithful_later: "faithful w f evs t0 \<Longrightarrow> t0 \<le> t1 \<Longrightarrow> faithful w f evs t1"
  by (auto simp: faithful_def intro: order_trans)

definition event_end :: "login_event \<Rightarrow> rat \<Rightarrow> rat" where
  "event_end e t0 = (case e of Failed k t \<Rightarrow> t | Asked k t \<Rightarrow> t | Succeeded k \<Rightarrow> t0)"

lemma faithful_step:
  assumes "faithful (th_window s) (th_fails s) evs t0" and "\<forall>t \<in> set (event_times [e]). t0 \<le> t"
  shows "faithful (th_window (throttle_step s e)) (th_fails (throttle_step s e)) (e # evs) (event_end e t0)
    \<and> th_limit (throttle_step s e) = th_limit s \<and> th_window (throttle_step s e) = th_window s"
proof (cases e)
  case (Failed k t)
  have "faithful (th_window s) (AList.update k (fails_in (th_fails s) k @ [t]) (th_fails s)) (Failed k t # evs) t"
    using assms Failed by (simp add: faithful_fail)
  with faithful_prune[OF this] Failed show ?thesis
    by (simp add: throttle_fail_def Let_def event_end_def live_key_def)
qed (use assms faithful_clear faithful_asked in
    \<open>auto simp: throttle_clear_def throttle_blocked_def Let_def event_end_def\<close>)

lemma faithful_run:
  "sorted (t0 # event_times evs @ [t1]) \<Longrightarrow> faithful (th_window s) (th_fails s) past t0 \<Longrightarrow>
   faithful (th_window s) (th_fails (foldl throttle_step s evs)) (rev evs @ past) t1 \<and>
   th_limit (foldl throttle_step s evs) = th_limit s \<and> th_window (foldl throttle_step s evs) = th_window s"
proof (induction evs arbitrary: s past t0)
  case (Cons e evs)
  have "\<forall>t \<in> set (event_times [e]). t0 \<le> t" using Cons.prems(1) by (cases e) auto
  note st = faithful_step[OF Cons.prems(2) this]
  moreover have "sorted (event_end e t0 # event_times evs @ [t1])"
    using Cons.prems(1) by (cases e) (auto simp: event_end_def)
  ultimately show ?case
    using Cons.IH[of "event_end e t0" "throttle_step s e" "e # past"] by (metis append.assoc append_Cons
        append_Nil foldl_Cons rev.simps(2))
qed (auto intro: faithful_later)

text \<open>C36: After any history of failed sign-ins, successes and checks in time order, a key is blocked
  exactly when it failed at least \<open>limit\<close> times within the last window and has not succeeded since; the
  cleanup of the table above 5000 keys and the trimming done by each check never change an answer.\<close>
theorem login_throttle_exact:
  assumes "sorted (event_times evs @ [now])" and "s = \<lparr>th_limit = n, th_window = w, th_fails = []\<rparr>"
  shows "snd (throttle_blocked (foldl throttle_step s evs) k now) \<longleftrightarrow>
         n \<le> length (recent w now (failures k (rev evs)))"
proof -
  let ?t0 = "Min (insert now (set (event_times evs)))"
  have "sorted (?t0 # event_times evs @ [now])" using assms(1) by (auto simp: sorted_append)
  moreover have "faithful (th_window s) (th_fails s) [] ?t0"
    by (simp add: assms(2) faithful_def fails_in_def)
  ultimately have "faithful w (th_fails (foldl throttle_step s evs)) (rev evs @ []) now \<and>
     th_limit (foldl throttle_step s evs) = n \<and> th_window (foldl throttle_step s evs) = w"
    using faithful_run[of ?t0 evs now s "[]"] assms(2) by simp
  then show ?thesis
    by (auto simp: faithful_def throttle_blocked_def Let_def recent_def)
qed

lemma login_throttle_exact_witness:
  "snd (throttle_blocked (foldl throttle_step \<lparr>th_limit = 2, th_window = 300, th_fails = []\<rparr>
     [Failed ''a'' 0, Failed ''a'' 250, Asked ''a'' 260, Failed ''a'' 400]) ''a'' 500)"
  by (subst login_throttle_exact[OF _ refl]) (simp_all add: recent_def)

end
