(* ===== verification/Share.thy ===== *)
theory Share
  imports Api_Error Rate_Limit
begin

text \<open>
  Shareable ETA links: \<open>app/share.py\<close> (the rules and the two stores, in memory and Postgres) and the
  handlers of \<open>app/routers/share.py\<close>.  What the handlers need of a store is the locale
  \<open>share_store\<close>; both stores are interpreted.  Times are microseconds (\<open>int\<close>), the clock, the random
  tokens, SHA-256 and the length of the dumped JSON are arguments.  A JSONB column gives back the
  value it was given.
\<close>

section \<open>Rules\<close>

definition MAX_ITINERARY_BYTES :: nat where "MAX_ITINERARY_BYTES = 64 * 1024"

definition PROGRESS_STATES :: "string list" where
  "PROGRESS_STATES = [''on_time'', ''delayed'', ''arrived'', ''cancelled'']"

definition key_matches :: "(string \<Rightarrow> string) \<Rightarrow> json \<Rightarrow> string \<Rightarrow> py_error + bool" where
  \<comment> \<open>the key may come from a JSON body: encoding anything but a string raises\<close>
  "key_matches sha write_key stored_hash =
     (if \<not> truthy write_key then Inr False
      else case write_key of JStr s \<Rightarrow> Inr (sha s = stored_hash) | _ \<Rightarrow> Inl AttributeError)"

definition coarse :: "(string \<Rightarrow> rat option) \<Rightarrow> json \<Rightarrow> py_error + rat option" where
  "coarse dec v = (if v = JNull then Inr None
     else case py_float dec v of Inl e \<Rightarrow> Inl e | Inr x \<Rightarrow> Inr (Some (py_round_to 3 x)))"

definition clean_progress :: "(json \<Rightarrow> string) \<Rightarrow> (string \<Rightarrow> rat option) \<Rightarrow> json \<Rightarrow> py_error + json" where
  "clean_progress repr dec p = (case py_int (jfield p ''legIndex'') of Inl e \<Rightarrow> Inl e | Inr leg \<Rightarrow>
     (let out = [(''legIndex'', JInt leg), (''state'', jor (jfield p ''state'') (JStr ''on_time''))]
        @ (if truthy (jfield p ''atStopId'')
           then [(''atStopId'', JStr (take 120 (py_str repr (jfield p ''atStopId''))))] else [])
        @ (if truthy (jfield p ''etaAt'')
           then [(''etaAt'', JStr (take 40 (py_str repr (jfield p ''etaAt''))))] else [])
      in case coarse dec (jfield p ''lat'') of Inl e \<Rightarrow> Inl e | Inr lat \<Rightarrow>
         case coarse dec (jfield p ''lon'') of Inl e \<Rightarrow> Inl e | Inr lon \<Rightarrow>
         Inr (JObj (out @ (case (lat, lon) of
             (Some la, Some lo) \<Rightarrow> [(''lat'', JFloat la), (''lon'', JFloat lo)] | _ \<Rightarrow> [])))))"

definition minute :: int where "minute = 60 * 1000000"

definition expiry :: "int \<Rightarrow> int \<Rightarrow> int \<Rightarrow> int \<Rightarrow> int" where
  "expiry now ttl_minutes cfg_ttl cfg_max =
     (let minutes = (if ttl_minutes \<noteq> 0 then ttl_minutes else cfg_ttl)
      in now + max 1 (min minutes cfg_max) * minute)"

section \<open>The stores\<close>

record share_row =
  sh_key_hash :: string
  sh_itinerary :: json
  sh_label :: "string option"
  sh_started :: json
  sh_progress :: "json option"
  sh_expires :: int
  sh_updated :: int

type_synonym share_key = "string \<times> string"

record 's share_ops =
  op_create :: "'s \<Rightarrow> share_key \<Rightarrow> share_row \<Rightarrow> store_error + 's"
  op_get :: "'s \<Rightarrow> share_key \<Rightarrow> int \<Rightarrow> share_row option"
  op_patch :: "'s \<Rightarrow> share_key \<Rightarrow> json \<Rightarrow> int \<Rightarrow> 's \<times> bool"
  op_delete :: "'s \<Rightarrow> share_key \<Rightarrow> 's \<times> bool"
  op_sweep :: "'s \<Rightarrow> int \<Rightarrow> 's \<times> nat"

definition new_row :: "string \<Rightarrow> json \<Rightarrow> string option \<Rightarrow> json \<Rightarrow> int \<Rightarrow> int \<Rightarrow> share_row" where
  "new_row key_hash itinerary label started expires now =
     \<lparr>sh_key_hash = key_hash, sh_itinerary = itinerary, sh_label = label, sh_started = started,
      sh_progress = None, sh_expires = expires, sh_updated = now\<rparr>"

subsection \<open>\<open>MemoryShareStore\<close>\<close>

type_synonym mem_store = "(share_key \<times> share_row) list"

definition mem_create :: "mem_store \<Rightarrow> share_key \<Rightarrow> share_row \<Rightarrow> store_error + mem_store" where
  "mem_create rows k r = Inr (AList.update k r rows)"

definition mem_get :: "mem_store \<Rightarrow> share_key \<Rightarrow> int \<Rightarrow> share_row option" where
  "mem_get rows k now = (case map_of rows k of None \<Rightarrow> None
     | Some r \<Rightarrow> if sh_expires r \<le> now then None else Some r)"

definition mem_patch :: "mem_store \<Rightarrow> share_key \<Rightarrow> json \<Rightarrow> int \<Rightarrow> mem_store \<times> bool" where
  "mem_patch rows k progress now = (case mem_get rows k now of None \<Rightarrow> (rows, False)
     | Some r \<Rightarrow> (AList.update k (r\<lparr>sh_progress := Some progress, sh_updated := now\<rparr>) rows, True))"

definition mem_delete :: "mem_store \<Rightarrow> share_key \<Rightarrow> mem_store \<times> bool" where
  "mem_delete rows k = (AList.delete k rows, map_of rows k \<noteq> None)"

definition mem_sweep :: "mem_store \<Rightarrow> int \<Rightarrow> mem_store \<times> nat" where
  "mem_sweep rows now = (let rows' = filter (\<lambda>(k, v). now < sh_expires v) rows
     in (rows', length rows - length rows'))"

definition mem_ops :: "mem_store share_ops" where
  "mem_ops = \<lparr>op_create = mem_create, op_get = mem_get, op_patch = mem_patch,
              op_delete = mem_delete, op_sweep = mem_sweep\<rparr>"

subsection \<open>\<open>PgShareStore\<close>: the table \<open>share_eta\<close> with primary key \<open>(city_id, token)\<close>\<close>

record pg_share = share_row +
  pg_key :: share_key

type_synonym pg_table = "pg_share list"

definition pg_create :: "pg_table \<Rightarrow> share_key \<Rightarrow> share_row \<Rightarrow> store_error + pg_table" where
  \<comment> \<open>\<open>INSERT\<close>: a TEXT parameter must be a string or null, the primary key must be new\<close>
  "pg_create t k r = (case sh_started r of
       JArr _ \<Rightarrow> Inl DataError | JObj _ \<Rightarrow> Inl DataError | JBool _ \<Rightarrow> Inl DataError
     | JInt _ \<Rightarrow> Inl DataError | JFloat _ \<Rightarrow> Inl DataError
     | _ \<Rightarrow> if list_ex (\<lambda>x. pg_key x = k) t then Inl UniqueViolation
           else Inr (t @ [share_row.extend (share_row.truncate r) \<lparr>pg_key = k\<rparr>]))"

definition pg_get :: "pg_table \<Rightarrow> share_key \<Rightarrow> int \<Rightarrow> share_row option" where
  "pg_get t k now = map_option share_row.truncate (find (\<lambda>x. pg_key x = k \<and> now < sh_expires x) t)"

definition pg_patch :: "pg_table \<Rightarrow> share_key \<Rightarrow> json \<Rightarrow> int \<Rightarrow> pg_table \<times> bool" where
  "pg_patch t k progress now =
     (map (\<lambda>x. if pg_key x = k \<and> now < sh_expires x
               then x\<lparr>sh_progress := Some progress, sh_updated := now\<rparr> else x) t,
      length (filter (\<lambda>x. pg_key x = k \<and> now < sh_expires x) t) mod 10 = 1)"

definition pg_delete :: "pg_table \<Rightarrow> share_key \<Rightarrow> pg_table \<times> bool" where
  "pg_delete t k = (filter (\<lambda>x. pg_key x \<noteq> k) t, length (filter (\<lambda>x. pg_key x = k) t) mod 10 = 1)"

definition pg_sweep :: "pg_table \<Rightarrow> int \<Rightarrow> pg_table \<times> nat" where
  "pg_sweep t now = (filter (\<lambda>x. \<not> sh_expires x \<le> now) t, length (filter (\<lambda>x. sh_expires x \<le> now) t))"

definition pg_ops :: "pg_table share_ops" where
  "pg_ops = \<lparr>op_create = pg_create, op_get = pg_get, op_patch = pg_patch,
             op_delete = pg_delete, op_sweep = pg_sweep\<rparr>"

section \<open>The handlers\<close>

record share_config =
  sc_enabled :: bool
  sc_web_base_url :: "string option"
  sc_ttl_minutes :: int
  sc_max_ttl_minutes :: int

record share_env =
  \<comment> \<open>what a handler reads of the city, the settings and Python\<close>
  env_city :: string
  env_city_name :: string
  env_cfg :: share_config
  env_settings_web_base :: string
  env_base_url :: string
  env_sha :: "string \<Rightarrow> string"
  env_repr :: "json \<Rightarrow> string"
  env_dec :: "string \<Rightarrow> rat option"
  env_dumps_len :: "json \<Rightarrow> nat"
  env_exc :: "py_error \<Rightarrow> string"

definition share_not_found :: api_error where
  "share_not_found = raise_error 404 ''SHARE_NOT_FOUND'' ''this shared trip has expired or was revoked'' None None"

definition share_forbidden :: "string \<Rightarrow> api_error" where
  "share_forbidden m = raise_error 403 ''FORBIDDEN'' m None None"

definition too_many_requests :: "string \<Rightarrow> api_error" where
  "too_many_requests m = raise_error 429 ''RATE_LIMITED'' m None None"

definition unprocessable :: "string \<Rightarrow> api_error" where
  "unprocessable m = raise_error 400 ''BAD_REQUEST'' m None (Some 422)"

definition share_disabled :: "share_env \<Rightarrow> api_error" where
  "share_disabled e = raise_error 400 ''BAD_REQUEST'' (''sharing is disabled for '' @ env_city_name e)
     (Some ''SHARE_DISABLED'') (Some 404)"

definition client_key :: "string option \<Rightarrow> string option \<Rightarrow> string" where
  \<comment> \<open>first hop of \<open>X-Forwarded-For\<close>, else the peer address\<close>
  "client_key fwd host = (if truthy_str fwd then strip (hd (split_on (CHR '','') (the fwd)))
     else or_else host ''unknown'')"

definition rstrip_slash :: "string \<Rightarrow> string" where
  "rstrip_slash s = rev (dropWhile (\<lambda>c. c = CHR ''/'') (rev s))"

definition public_share_url :: "share_env \<Rightarrow> string \<Rightarrow> string" where
  "public_share_url e token = (let base = str_or (sc_web_base_url (env_cfg e)) (Some (env_settings_web_base e)) in
     if truthy_str base then rstrip_slash (the base) @ ''/'' @ env_city e @ ''/eta/'' @ token
     else rstrip_slash (env_base_url e) @ ''/v1/cities/'' @ env_city e @ ''/share/eta/'' @ token)"

record share_created =
  cr_token :: string
  cr_url :: string
  cr_write_key :: string
  cr_expires_at :: int

record share_view =
  vw_label :: "string option"
  vw_itinerary :: json
  vw_progress :: "json option"
  vw_started :: json
  vw_updated :: int
  vw_expires :: int

definition create_share :: "'s share_ops \<Rightarrow> share_env \<Rightarrow> string \<Rightarrow> rat \<Rightarrow> int \<Rightarrow> string \<Rightarrow> string \<Rightarrow> json
    \<Rightarrow> rate_limiter \<times> 's \<Rightarrow> (rate_limiter \<times> 's) \<times> (raised + share_created)" where
  "create_share ops e client secs now token write_key body st = (let (lim, s) = st in
     if \<not> sc_enabled (env_cfg e) then (st, Inl (Api (share_disabled e)))
     else let (lim', ok) = rate_allow lim client secs in
     if \<not> ok then ((lim', s), Inl (Api (too_many_requests ''too many shares created; retry later'')))
     else let itinerary = jfield body ''itinerary'' in
     if \<not> is_obj itinerary \<or> \<not> truthy (jfield itinerary ''legs'')
     then ((lim', s), Inl (Api (unprocessable ''itinerary: an itinerary with legs is required'')))
     else if MAX_ITINERARY_BYTES < env_dumps_len e itinerary
     then ((lim', s), Inl (Api (raise_error 400 ''BAD_REQUEST'' ''itinerary too large'' (Some ''PAYLOAD_TOO_LARGE'') (Some 413))))
     else let label = (if jfield body ''label'' = JNull then None
                       else Some (take 80 (py_str (env_repr e) (jfield body ''label''))));
              ttl = jfield body ''ttlMinutes'' in
     case (if truthy ttl then py_int ttl else Inr 0) of
       Inl x \<Rightarrow> ((lim', s), Inl (Uncaught x))
     | Inr t \<Rightarrow>
       let expires = expiry now t (sc_ttl_minutes (env_cfg e)) (sc_max_ttl_minutes (env_cfg e)) in
       (case op_create ops s (env_city e, token)
               (new_row (env_sha e write_key) itinerary label (jfield body ''startedAt'') expires now) of
          Inl x \<Rightarrow> ((lim', s), Inl (Database x))
        | Inr s' \<Rightarrow> ((lim', s'), Inr \<lparr>cr_token = token, cr_url = public_share_url e token,
                                     cr_write_key = write_key, cr_expires_at = expires\<rparr>)))"

definition read_share :: "'s share_ops \<Rightarrow> share_env \<Rightarrow> int \<Rightarrow> string \<Rightarrow> 's \<Rightarrow> raised + share_view" where
  "read_share ops e now token s = (if \<not> sc_enabled (env_cfg e) then Inl (Api (share_disabled e))
     else case op_get ops s (env_city e, token) now of None \<Rightarrow> Inl (Api share_not_found)
     | Some r \<Rightarrow> Inr \<lparr>vw_label = sh_label r, vw_itinerary = sh_itinerary r, vw_progress = sh_progress r,
                      vw_started = sh_started r, vw_updated = sh_updated r, vw_expires = sh_expires r\<rparr>)"

definition patch_key :: "string option \<Rightarrow> json \<Rightarrow> json" where
  \<comment> \<open>\<open>x_share_key or body.get("writeKey")\<close>\<close>
  "patch_key header body = (if truthy_str header then JStr (the header) else jfield body ''writeKey'')"

definition revoke_key :: "string option \<Rightarrow> json" where
  "revoke_key header = (case header of None \<Rightarrow> JNull | Some h \<Rightarrow> JStr h)"

definition patch_share :: "'s share_ops \<Rightarrow> share_env \<Rightarrow> int \<Rightarrow> string \<Rightarrow> string option \<Rightarrow> json
    \<Rightarrow> 's \<Rightarrow> 's \<times> (raised + json)" where
  "patch_share ops e now token header body s = (if \<not> sc_enabled (env_cfg e) then (s, Inl (Api (share_disabled e)))
     else case op_get ops s (env_city e, token) now of None \<Rightarrow> (s, Inl (Api share_not_found))
     | Some r \<Rightarrow>
       (case key_matches (env_sha e) (patch_key header body) (sh_key_hash r) of
          Inl x \<Rightarrow> (s, Inl (Uncaught x))
        | Inr False \<Rightarrow> (s, Inl (Api (share_forbidden ''a valid X-Share-Key is required to update this trip'')))
        | Inr True \<Rightarrow>
          let progress = jfield body ''progress'' in
          if \<not> is_obj progress \<or> jget progress ''legIndex'' = None
          then (s, Inl (Api (unprocessable ''progress.legIndex is required'')))
          else if jor (jfield progress ''state'') (JStr ''on_time'') \<notin> set (map JStr PROGRESS_STATES)
          then (s, Inl (Api (unprocessable (''progress.state must be one of '' @ join_with '', '' PROGRESS_STATES))))
          else case clean_progress (env_repr e) (env_dec e) progress of
            Inl x \<Rightarrow> if x = TypeError \<or> x = ValueError then (s, Inl (Api (unprocessable (''progress: '' @ env_exc e x))))
                     else (s, Inl (Uncaught x))
          | Inr cleaned \<Rightarrow> (fst (op_patch ops s (env_city e, token) cleaned now), Inr cleaned)))"

definition revoke_share :: "'s share_ops \<Rightarrow> share_env \<Rightarrow> int \<Rightarrow> string \<Rightarrow> string option \<Rightarrow> 's \<Rightarrow> 's \<times> (raised + unit)" where
  "revoke_share ops e now token header s = (if \<not> sc_enabled (env_cfg e) then (s, Inl (Api (share_disabled e)))
     else case op_get ops s (env_city e, token) now of None \<Rightarrow> (s, Inl (Api share_not_found))
     | Some r \<Rightarrow>
       (case key_matches (env_sha e) (revoke_key header) (sh_key_hash r) of
          Inl x \<Rightarrow> (s, Inl (Uncaught x))
        | Inr False \<Rightarrow> (s, Inl (Api (share_forbidden ''a valid X-Share-Key is required to revoke this trip'')))
        | Inr True \<Rightarrow> (fst (op_delete ops s (env_city e, token)), Inr ())))"

datatype share_request =
    Create string rat int string string json
  | Patch int string "string option" json
  | Revoke int string "string option"
  | Sweep int

fun share_step :: "'s share_ops \<Rightarrow> share_env \<Rightarrow> rate_limiter \<times> 's \<Rightarrow> share_request \<Rightarrow> rate_limiter \<times> 's" where
  \<comment> \<open>requests and the maintenance loop of \<open>main.py\<close>, each at its time\<close>
  "share_step ops e st (Create client secs now token key body) = fst (create_share ops e client secs now token key body st)"
| "share_step ops e (l, s) (Patch now token header body) = (l, fst (patch_share ops e now token header body s))"
| "share_step ops e (l, s) (Revoke now token header) = (l, fst (revoke_share ops e now token header s))"
| "share_step ops e (l, s) (Sweep now) = (l, fst (op_sweep ops s now))"

fun harmless :: "(string \<Rightarrow> string) \<Rightarrow> string \<Rightarrow> string \<Rightarrow> int \<Rightarrow> share_request \<Rightarrow> bool" where
  \<comment> \<open>a request by time \<open>t\<close> that does not hold the key of the share \<open>tok\<close>\<close>
  "harmless sha tok hash t (Create client secs now token key body) = (token \<noteq> tok)"
| "harmless sha tok hash t (Patch now token header body) =
     (now \<le> t \<and> (token = tok \<longrightarrow> key_matches sha (patch_key header body) hash \<noteq> Inr True))"
| "harmless sha tok hash t (Revoke now token header) =
     (now \<le> t \<and> (token = tok \<longrightarrow> key_matches sha (revoke_key header) hash \<noteq> Inr True))"
| "harmless sha tok hash t (Sweep now) = (now \<le> t)"

section \<open>What a store promises\<close>

definition touched :: "json \<Rightarrow> int \<Rightarrow> share_row \<Rightarrow> share_row" where
  "touched progress now r = r\<lparr>sh_progress := Some progress, sh_updated := now\<rparr>"

lemma patch_share_cases:
  "fst (patch_share ops e now tok hdr body s) = s \<or>
   (\<exists>r c. op_get ops s (env_city e, tok) now = Some r \<and>
      key_matches (env_sha e) (patch_key hdr body) (sh_key_hash r) = Inr True \<and>
      fst (patch_share ops e now tok hdr body s) = fst (op_patch ops s (env_city e, tok) c now))"
proof (cases "op_get ops s (env_city e, tok) now")
  case (Some r)
  show ?thesis
  proof (cases "key_matches (env_sha e) (patch_key hdr body) (sh_key_hash r)")
    case (Inr b)
    show ?thesis
      using Some Inr
      by (cases b; cases "clean_progress (env_repr e) (env_dec e) (jfield body ''progress'')")
        (simp_all add: patch_share_def Let_def, blast)
  qed (use Some in \<open>simp add: patch_share_def\<close>)
qed (simp add: patch_share_def)

lemma revoke_share_cases:
  "fst (revoke_share ops e now tok hdr s) = s \<or>
   (\<exists>r. op_get ops s (env_city e, tok) now = Some r \<and>
      key_matches (env_sha e) (revoke_key hdr) (sh_key_hash r) = Inr True \<and>
      fst (revoke_share ops e now tok hdr s) = fst (op_delete ops s (env_city e, tok)))"
  by (auto simp: revoke_share_def split: option.split sum.split bool.split)

locale share_store =
  fixes ops :: "'s share_ops" and ok :: "'s \<Rightarrow> bool"
  assumes get_create: "ok s \<Longrightarrow> op_create ops s k r = Inr s' \<Longrightarrow>
      op_get ops s' k' t = (if k' = k then if t < sh_expires r then Some r else None else op_get ops s k' t)"
    and ok_create: "ok s \<Longrightarrow> op_create ops s k r = Inr s' \<Longrightarrow> ok s'"
    and get_patch: "ok s \<Longrightarrow> op_get ops (fst (op_patch ops s k p now)) k' t =
      (if k' = k \<and> op_get ops s k now \<noteq> None then map_option (touched p now) (op_get ops s k t)
       else op_get ops s k' t)"
    and ok_patch: "ok s \<Longrightarrow> ok (fst (op_patch ops s k p now))"
    and get_delete: "ok s \<Longrightarrow> op_get ops (fst (op_delete ops s k)) k' t = (if k' = k then None else op_get ops s k' t)"
    and ok_delete: "ok s \<Longrightarrow> ok (fst (op_delete ops s k))"
    and get_sweep: "ok s \<Longrightarrow> now \<le> t \<Longrightarrow> op_get ops (fst (op_sweep ops s now)) k t = op_get ops s k t"
    and ok_sweep: "ok s \<Longrightarrow> ok (fst (op_sweep ops s now))"
    and get_live: "ok s \<Longrightarrow> op_get ops s k t = Some r \<Longrightarrow> t < sh_expires r"
    and get_earlier: "ok s \<Longrightarrow> op_get ops s k t = Some r \<Longrightarrow> t' \<le> t \<Longrightarrow> op_get ops s k t' = Some r"
begin

lemma patch_share_foreign:
  assumes "ok s" and "op_get ops s (env_city e, tok) t = Some r" and "now \<le> t"
    and "tok' = tok \<Longrightarrow> key_matches (env_sha e) (patch_key hdr body) (sh_key_hash r) \<noteq> Inr True"
  shows "ok (fst (patch_share ops e now tok' hdr body s)) \<and>
    op_get ops (fst (patch_share ops e now tok' hdr body s)) (env_city e, tok) t = Some r"
  using patch_share_cases[of ops e now tok' hdr body s]
proof (elim disjE exE conjE)
  fix r' c
  assume g: "op_get ops s (env_city e, tok') now = Some r'"
    and k: "key_matches (env_sha e) (patch_key hdr body) (sh_key_hash r') = Inr True"
    and p: "fst (patch_share ops e now tok' hdr body s) = fst (op_patch ops s (env_city e, tok') c now)"
  have "tok' \<noteq> tok" using get_earlier[OF assms(1,2,3)] assms(4) g k by auto
  then show ?thesis using assms(1,2) p by (simp add: ok_patch get_patch)
qed (use assms in simp)

lemma revoke_share_foreign:
  assumes "ok s" and "op_get ops s (env_city e, tok) t = Some r" and "now \<le> t"
    and "tok' = tok \<Longrightarrow> key_matches (env_sha e) (revoke_key hdr) (sh_key_hash r) \<noteq> Inr True"
  shows "ok (fst (revoke_share ops e now tok' hdr s)) \<and>
    op_get ops (fst (revoke_share ops e now tok' hdr s)) (env_city e, tok) t = Some r"
  using revoke_share_cases[of ops e now tok' hdr s]
proof (elim disjE exE conjE)
  fix r'
  assume g: "op_get ops s (env_city e, tok') now = Some r'"
    and k: "key_matches (env_sha e) (revoke_key hdr) (sh_key_hash r') = Inr True"
    and p: "fst (revoke_share ops e now tok' hdr s) = fst (op_delete ops s (env_city e, tok'))"
  have "tok' \<noteq> tok" using get_earlier[OF assms(1,2,3)] assms(4) g k by auto
  then show ?thesis using assms(1,2) p by (simp add: ok_delete get_delete)
qed (use assms in simp)

lemma create_share_other:
  assumes "ok s" and "create_share ops e client secs now token wk body (lm, s) = ((lm', s'), res)"
  shows "ok s' \<and> (tok \<noteq> token \<longrightarrow> op_get ops s' (env_city e, tok) t = op_get ops s (env_city e, tok) t)"
  using assms
  by (auto simp: create_share_def Let_def get_create ok_create split: if_splits sum.splits prod.splits)

lemma create_share_read:
  assumes "ok s" and "create_share ops e client secs now token wk body (lm, s) = ((lm', s'), Inr c)"
  shows "cr_write_key c = wk \<and> cr_token c = token \<and>
    (\<exists>r. sh_key_hash r = env_sha e wk \<and> sh_itinerary r = jfield body ''itinerary'' \<and> sh_progress r = None \<and>
      sh_expires r = cr_expires_at c \<and>
      (\<forall>t. op_get ops s' (env_city e, token) t = (if t < cr_expires_at c then Some r else None)))"
  using assms
  by (auto simp: create_share_def Let_def new_row_def get_create split: if_splits sum.splits prod.splits
      intro!: exI[of _ "new_row _ _ _ _ _ _"])

lemma harmless_step:
  assumes "ok s" and "op_get ops s (env_city e, tok) t = Some r" and "harmless (env_sha e) tok (sh_key_hash r) t q"
  shows "ok (snd (share_step ops e (l, s) q)) \<and> op_get ops (snd (share_step ops e (l, s) q)) (env_city e, tok) t = Some r"
proof (cases q)
  case (Create client secs now token key body)
  then show ?thesis
    using assms create_share_other[of s e client secs now token key body l]
    by (cases "create_share ops e client secs now token key body (l, s)") auto
next
  case (Patch now token header body)
  then show ?thesis using assms patch_share_foreign[of s e tok t r now token header body] by simp
next
  case (Revoke now token header)
  then show ?thesis using assms revoke_share_foreign[of s e tok t r now token header] by simp
next
  case (Sweep now)
  then show ?thesis using assms by (simp add: get_sweep ok_sweep)
qed

lemma harmless_run:
  "ok (snd st) \<Longrightarrow> op_get ops (snd st) (env_city e, tok) t = Some r \<Longrightarrow>
   (\<forall>q \<in> set qs. harmless (env_sha e) tok (sh_key_hash r) t q) \<Longrightarrow>
   op_get ops (snd (foldl (share_step ops e) st qs)) (env_city e, tok) t = Some r"
proof (induction qs arbitrary: st)
  case (Cons q qs)
  then show ?case using harmless_step[of "snd st" e tok t r q "fst st"] by (cases st) simp
qed simp

end

lemma map_of_filter_snd:
  "distinct (map fst xs) \<Longrightarrow> map_of (filter (\<lambda>(k, v). P v) xs) k =
     (case map_of xs k of Some v \<Rightarrow> if P v then Some v else None | None \<Rightarrow> None)"
proof (induction xs)
  case (Cons x xs)
  obtain k' v where x: "x = (k', v)" by (cases x)
  have "map_of (filter (\<lambda>(k, v). P v) xs) k' = None" if "k' \<notin> fst ` set xs"
    using that by (force simp: map_of_eq_None_iff)
  with Cons x show ?case by (auto split: option.splits)
qed simp

interpretation mem: share_store mem_ops "\<lambda>s. distinct (map fst s)"
  by unfold_locales
    (auto simp: mem_ops_def mem_create_def mem_get_def mem_patch_def mem_delete_def mem_sweep_def Let_def
      update_conv' distinct_update delete_conv' distinct_delete distinct_map_filter map_of_filter_snd touched_def
      simp del: map_of_eq_Some_iff map_of_eq_None_iff split: option.splits if_splits)

text \<open>The table is the in-memory dictionary: every Postgres operation is the memory operation on it.\<close>

definition pg_rows :: "pg_table \<Rightarrow> mem_store" where
  "pg_rows t = map (\<lambda>x. (pg_key x, share_row.truncate x)) t"

definition pg_ok :: "pg_table \<Rightarrow> bool" where
  "pg_ok t = distinct (map pg_key t)"

lemma keys_pg_rows [simp]: "map fst (pg_rows t) = map pg_key t"
  by (simp add: pg_rows_def)

lemma truncate_sel [simp]: "sh_expires (share_row.truncate x) = sh_expires x"
  by (simp add: share_row.truncate_def)

lemma map_of_pg_rows: "map_of (pg_rows t) k = map_option share_row.truncate (find (\<lambda>x. pg_key x = k) t)"
  by (induction t) (auto simp: pg_rows_def)

lemma pg_get_rows:
  assumes "pg_ok t"
  shows "pg_get t k now = mem_get (pg_rows t) k now"
  using assms
proof (induction t)
  case (Cons x t)
  have "find (\<lambda>y. pg_key y = k \<and> now < sh_expires y) t = None" if "pg_key x = k"
    using Cons.prems that by (auto simp: find_None_iff pg_ok_def image_iff)
  with Cons show ?case by (auto simp: pg_get_def mem_get_def pg_rows_def pg_ok_def)
qed (simp add: pg_get_def mem_get_def pg_rows_def)

lemma truncate_extend [simp]: "share_row.truncate (share_row.extend (share_row.truncate r) \<lparr>pg_key = k\<rparr>) = (r :: share_row)"
  by (cases r) (simp add: share_row.defs)

lemma key_extend [simp]: "pg_key (share_row.extend (share_row.truncate r) \<lparr>pg_key = k\<rparr>) = k"
  by (simp add: share_row.defs)

lemma pg_create_cases:
  "pg_create t k r = Inr t' \<Longrightarrow>
   k \<notin> pg_key ` set t \<and> t' = t @ [share_row.extend (share_row.truncate r) \<lparr>pg_key = k\<rparr>]"
  by (auto simp: pg_create_def list_ex_iff split: json.splits if_splits)

lemma pg_create_rows:
  assumes "pg_create t k r = Inr t'"
  shows "mem_create (pg_rows t) k r = Inr (pg_rows t')"
proof -
  have "k \<notin> fst ` set (pg_rows t)" using pg_create_cases[OF assms] by (auto simp: pg_rows_def)
  then show ?thesis using pg_create_cases[OF assms] by (simp add: mem_create_def update_absent pg_rows_def)
qed

lemma map_map_update:
  "distinct (map fst xs) \<Longrightarrow> map_of xs k = Some v \<Longrightarrow>
   AList.update k (f v) xs = map (\<lambda>(k', v'). if k' = k then (k', f v') else (k', v')) xs"
proof (induction xs)
  case (Cons x xs)
  have "map (\<lambda>(k', v'). if k' = k then (k', f v') else (k', v')) xs = xs" if "k \<notin> fst ` set xs"
    using that by (intro map_idI) force
  with Cons show ?case by (cases x) (auto split: if_splits)
qed simp

lemma pg_patch_rows:
  assumes "pg_ok t"
  shows "pg_rows (fst (pg_patch t k p now)) = fst (mem_patch (pg_rows t) k p now)"
proof (cases "mem_get (pg_rows t) k now")
  case None
  have "\<not> (pg_key x = k \<and> now < sh_expires x)" if "x \<in> set t" for x
    using None that pg_get_rows[OF assms, of k now] by (auto simp: pg_get_def find_None_iff)
  then have "fst (pg_patch t k p now) = t" by (auto simp: pg_patch_def intro!: map_idI)
  with None show ?thesis by (simp add: mem_patch_def)
next
  case (Some r)
  then have m: "map_of (pg_rows t) k = Some r" and live: "now < sh_expires r"
    by (auto simp: mem_get_def split: option.splits if_splits)
  have "now < sh_expires x" if "x \<in> set t" "pg_key x = k" for x
  proof -
    have "(k, share_row.truncate x) \<in> set (pg_rows t)" using that by (force simp: pg_rows_def)
    with m assms have "share_row.truncate x = r" by (simp add: pg_ok_def)
    with live show ?thesis by auto
  qed
  then have "pg_rows (fst (pg_patch t k p now)) =
      map (\<lambda>(k', v). if k' = k then (k', touched p now v) else (k', v)) (pg_rows t)"
    by (auto simp: pg_patch_def pg_rows_def touched_def share_row.defs)
  also have "\<dots> = AList.update k (touched p now r) (pg_rows t)"
    using assms m by (intro map_map_update[symmetric]) (simp_all add: pg_ok_def)
  finally show ?thesis using Some by (simp add: mem_patch_def touched_def)
qed

lemma delete_is_filter: "AList.delete k xs = filter (\<lambda>x. fst x \<noteq> k) xs"
  unfolding AList.delete_eq by (rule filter_cong) auto

lemma pg_delete_rows: "pg_rows (fst (pg_delete t k)) = fst (mem_delete (pg_rows t) k)"
  by (simp add: pg_delete_def mem_delete_def pg_rows_def delete_is_filter filter_map comp_def)

lemma pg_sweep_rows: "pg_rows (fst (pg_sweep t now)) = fst (mem_sweep (pg_rows t) now)"
  by (simp add: pg_sweep_def mem_sweep_def Let_def pg_rows_def filter_map comp_def case_prod_beta not_le)

lemma pg_ok_rows: "pg_ok t = distinct (map fst (pg_rows t))"
  by (simp add: pg_ok_def)

lemma pg_key_patch: "map pg_key (fst (pg_patch t k p now)) = map pg_key t"
  by (simp add: pg_patch_def)

lemma pg_steps_ok:
  "pg_ok t \<Longrightarrow> pg_create t k r = Inr t' \<Longrightarrow> pg_ok t'"
  "pg_ok t \<Longrightarrow> pg_ok (fst (pg_patch t k p now))"
  "pg_ok t \<Longrightarrow> pg_ok (fst (pg_delete t k))"
  "pg_ok t \<Longrightarrow> pg_ok (fst (pg_sweep t now))"
  by (auto simp: pg_ok_def pg_key_patch pg_delete_def pg_sweep_def distinct_map_filter dest: pg_create_cases)

interpretation pg: share_store pg_ops pg_ok
proof
  fix s :: pg_table and s' k k' t r p now t'
  assume ok: "pg_ok s"
  then have m: "distinct (map fst (pg_rows s))" by (simp add: pg_ok_rows)
  show "op_get pg_ops s' k' t = (if k' = k then if t < sh_expires r then Some r else None else op_get pg_ops s k' t)"
    if "op_create pg_ops s k r = Inr s'"
  proof -
    have "op_create mem_ops (pg_rows s) k r = Inr (pg_rows s')"
      using that pg_create_rows by (simp add: mem_ops_def pg_ops_def)
    from mem.get_create[OF m this, of k' t] show ?thesis
      using that ok pg_steps_ok(1)[of s k r s'] by (simp add: pg_ops_def mem_ops_def pg_get_rows)
  qed
  show "op_get pg_ops (fst (op_patch pg_ops s k p now)) k' t =
      (if k' = k \<and> op_get pg_ops s k now \<noteq> None then map_option (touched p now) (op_get pg_ops s k t)
       else op_get pg_ops s k' t)"
    using mem.get_patch[OF m, of k p now k' t] ok
    by (auto simp: pg_ops_def mem_ops_def pg_get_rows pg_steps_ok pg_patch_rows)
  show "op_get pg_ops (fst (op_delete pg_ops s k)) k' t = (if k' = k then None else op_get pg_ops s k' t)"
    using mem.get_delete[OF m, of k k' t] ok
    by (simp add: pg_ops_def mem_ops_def pg_get_rows pg_steps_ok pg_delete_rows)
  show "op_get pg_ops (fst (op_sweep pg_ops s now)) k t = op_get pg_ops s k t" if "now \<le> t"
    using mem.get_sweep[OF m that, of k] ok
    by (simp add: pg_ops_def mem_ops_def pg_get_rows pg_steps_ok pg_sweep_rows)
  show "t < sh_expires r" if "op_get pg_ops s k t = Some r"
    using mem.get_live[OF m, of k t r] that ok by (simp add: pg_ops_def mem_ops_def pg_get_rows)
  show "op_get pg_ops s k t' = Some r" if "op_get pg_ops s k t = Some r" "t' \<le> t"
    using mem.get_earlier[OF m, of k t r t'] that ok by (simp add: pg_ops_def mem_ops_def pg_get_rows)
qed (auto simp: pg_ops_def pg_steps_ok)

section \<open>Properties\<close>


definition demo_env :: share_env where
  "demo_env = \<lparr>env_city = ''bog'', env_city_name = ''Bogota'',
     env_cfg = \<lparr>sc_enabled = True, sc_web_base_url = None, sc_ttl_minutes = 180, sc_max_ttl_minutes = 720\<rparr>,
     env_settings_web_base = ''https://w'', env_base_url = ''https://a/'', env_sha = rev,
     env_repr = (\<lambda>_. []), env_dec = (\<lambda>_. None), env_dumps_len = (\<lambda>_. 20), env_exc = (\<lambda>_. ''e'')\<rparr>"

definition demo_row :: pg_share where
  "demo_row = \<lparr>sh_key_hash = ''yek'', sh_itinerary = JObj [(''legs'', JArr [JNull])], sh_label = None,
     sh_started = JNull, sh_progress = None, sh_expires = 100, sh_updated = 0, pg_key = (''bog'', ''t'')\<rparr>"


text \<open>A created share can be read at every moment before the expiry the creator was told and at no
  later one, with the published itinerary; the response carries the write key.\<close>
theorem created_share_is_readable:
  assumes "pg_ok s" and "create_share pg_ops e client secs now token wk body (l, s) = ((l', s'), Inr c)"
  shows "cr_write_key c = wk \<and>
    (\<exists>v. vw_itinerary v = jfield body ''itinerary'' \<and> vw_progress v = None \<and> vw_expires v = cr_expires_at c \<and>
      (\<forall>t. read_share pg_ops e t token s' = (if t < cr_expires_at c then Inr v else Inl (Api share_not_found))))"
proof -
  obtain r where r: "cr_write_key c = wk" "sh_itinerary r = jfield body ''itinerary''" "sh_progress r = None"
    "sh_expires r = cr_expires_at c"
    "\<And>t. op_get pg_ops s' (env_city e, token) t = (if t < cr_expires_at c then Some r else None)"
    using pg.create_share_read[OF assms] by blast
  have "sc_enabled (env_cfg e)" using assms(2) by (auto simp: create_share_def split: if_splits)
  with r show ?thesis
    by (intro conjI exI[of _ "\<lparr>vw_label = sh_label r, vw_itinerary = sh_itinerary r, vw_progress = sh_progress r,
          vw_started = sh_started r, vw_updated = sh_updated r, vw_expires = sh_expires r\<rparr>"])
      (simp_all add: read_share_def)
qed

lemma created_share_is_readable_witness:
  "\<exists>c v s'. create_share pg_ops demo_env ''ip'' 60 0 ''tok'' ''key''
      (JObj [(''itinerary'', JObj [(''legs'', JArr [JNull])])]) (\<lparr>rl_limit = 30, rl_window = 60, rl_hits = []\<rparr>, [])
      = s' \<and> snd s' = Inr c \<and> read_share pg_ops demo_env 5 ''tok'' (snd (fst s')) = Inr v"
proof -
  let ?b = "JObj [(''itinerary'', JObj [(''legs'', JArr [JNull])])]"
  let ?x = "create_share pg_ops demo_env ''ip'' 60 0 ''tok'' ''key'' ?b (\<lparr>rl_limit = 30, rl_window = 60, rl_hits = []\<rparr>, [])"
  obtain c where c: "snd ?x = Inr c" "5 < cr_expires_at c"
    by (simp add: create_share_def demo_env_def rate_allow_def bump_def Let_def window_of_def floor_eq_iff is_obj_def
        MAX_ITINERARY_BYTES_def pg_ops_def pg_create_def new_row_def expiry_def minute_def jfield_def jget_def)
  have "?x = ((fst (fst ?x), snd (fst ?x)), Inr c)" using c(1) by (metis prod.collapse)
  from created_share_is_readable[OF _ this] c show ?thesis by (auto simp: pg_ok_def)
qed

text \<open>The expiry is never more than the city's maximum away, never in the past, and is the requested
  time to live whenever that lies within the maximum.\<close>
theorem expiry_bounds:
  assumes "1 \<le> cfg_max"
  shows "now + minute \<le> expiry now ttl cfg_ttl cfg_max \<and> expiry now ttl cfg_ttl cfg_max \<le> now + cfg_max * minute
    \<and> (1 \<le> ttl \<and> ttl \<le> cfg_max \<longrightarrow> expiry now ttl cfg_ttl cfg_max = now + ttl * minute)"
  using assms by (auto simp: expiry_def Let_def minute_def max_def min_def)

lemma expiry_bounds_witness: "expiry 0 30 180 720 \<le> 720 * minute"
  using expiry_bounds[of 720 0 30 180] by simp

lemma py_round_to_near: "\<bar>py_round_to 3 (x :: rat) - x\<bar> \<le> 1 / 2000" "\<exists>n. py_round_to 3 (x :: rat) = of_int n / 1000"
proof -
  have "\<bar>of_int (py_round (x * 1000)) - x * 1000\<bar> \<le> (1/2 :: rat)" by (rule py_round_near)
  then show "\<bar>py_round_to 3 x - x\<bar> \<le> 1 / 2000" by (simp add: py_round_to_def abs_le_iff field_simps)
  show "\<exists>n. py_round_to 3 x = of_int n / 1000" by (auto simp: py_round_to_def)
qed

lemma coarse_Some:
  "coarse dec v = Inr (Some c) \<Longrightarrow> \<exists>x. py_float dec v = Inr x \<and> c = py_round_to 3 x"
  by (auto simp: coarse_def split: if_splits sum.splits)

text \<open>Progress is stored without a precise position: whatever the body holds, only the documented
  fields are kept, and a stored coordinate is a whole number of thousandths of a degree within half a
  thousandth of the one sent.\<close>
theorem progress_is_coarse:
  assumes "clean_progress repr dec p = Inr q"
  shows "\<exists>kvs. q = JObj kvs \<and> subseq (map fst kvs) [''legIndex'', ''state'', ''atStopId'', ''etaAt'', ''lat'', ''lon''] \<and>
    (\<forall>k v. k \<in> {''lat'', ''lon''} \<and> map_of kvs k = Some v \<longrightarrow>
      (\<exists>x n. py_float dec (jfield p k) = Inr x \<and> v = JFloat (of_int n / 1000) \<and> \<bar>of_int n / 1000 - x\<bar> \<le> 1 / 2000))"
proof -
  obtain leg lat lon where leg: "py_int (jfield p ''legIndex'') = Inr leg"
    and la: "coarse dec (jfield p ''lat'') = Inr lat" and lo: "coarse dec (jfield p ''lon'') = Inr lon"
    using assms by (auto simp: clean_progress_def Let_def split: sum.splits)
  have c: "\<exists>x n. py_float dec v = Inr x \<and> JFloat y = JFloat (of_int n / 1000) \<and> \<bar>of_int n / 1000 - x\<bar> \<le> 1 / 2000"
    if cy: "coarse dec v = Inr (Some y)" for v y
  proof -
    obtain x where x: "py_float dec v = Inr x" "y = py_round_to 3 x" using coarse_Some[OF cy] by blast
    obtain n where n: "py_round_to 3 x = of_int n / 1000" using py_round_to_near(2) by blast
    have "JFloat y = JFloat (of_int n / 1000)" unfolding x(2) n by (rule refl)
    moreover have "\<bar>of_int n / 1000 - x\<bar> \<le> 1 / 2000" using py_round_to_near(1)[of x] unfolding n .
    ultimately show ?thesis using x(1) by blast
  qed
  show ?thesis
  proof (cases "\<exists>a b. lat = Some a \<and> lon = Some b")
    case True
    then obtain a b where ab: "lat = Some a" "lon = Some b" by blast
    then show ?thesis using assms leg la lo c[of _ a] c[of _ b]
      by (cases "truthy (jfield p ''atStopId'')"; cases "truthy (jfield p ''etaAt'')")
        (auto simp: clean_progress_def Let_def)
  next
    case False
    then have "(case (lat, lon) of (Some la, Some lo) \<Rightarrow> [(''lat'', JFloat la), (''lon'', JFloat lo)] | _ \<Rightarrow> []) = []"
      by (auto split: option.splits)
    then show ?thesis using assms leg la lo
      by (cases "truthy (jfield p ''atStopId'')"; cases "truthy (jfield p ''etaAt'')")
        (auto simp: clean_progress_def Let_def)
  qed
qed

lemma progress_is_coarse_witness:
  "\<exists>kvs. clean_progress (\<lambda>_. []) (\<lambda>_. None) (JObj [(''legIndex'', JInt 2), (''lat'', JFloat (46123/10000)), (''lon'', JInt (-74)), (''secret'', JInt 1)])
    = Inr (JObj kvs) \<and> map_of kvs ''secret'' = None"
proof -
  let ?p = "JObj [(''legIndex'', JInt 2), (''lat'', JFloat (46123/10000)), (''lon'', JInt (-74)), (''secret'', JInt 1)]"
  obtain q where q: "clean_progress (\<lambda>_. []) (\<lambda>_. None) ?p = Inr q"
    by (simp add: clean_progress_def jfield_def jget_def coarse_def Let_def)
  from progress_is_coarse[OF q] obtain kvs where k: "q = JObj kvs"
    and sub: "subseq (map fst kvs) [''legIndex'', ''state'', ''atStopId'', ''etaAt'', ''lat'', ''lon'']" by auto
  have "''secret'' \<notin> fst ` set kvs" using subseq_imp_set[OF sub] by auto
  with q k show ?thesis by (auto simp: map_of_eq_None_iff)
qed

end
