(* ===== verification/Admin_Auth.thy ===== *)
theory Admin_Auth
  imports Api_Error Rate_Limit
begin

text \<open>
  Named admin accounts: \<open>app/admin_auth.py\<close> (rules, the Postgres store, sign-in) and the account
  handlers of \<open>app/routers/admin.py\<close>.  The three tables \<open>admin_user\<close>, \<open>admin_session\<close> and
  \<open>admin_identity\<close> are lists of rows with the constraints of \<open>sql/001_schema.sql\<close>.  Argon2, SHA-256,
  the random tokens and the clock are arguments; the text of a user agent and the log lines are not
  modelled.
\<close>

section \<open>Rules\<close>

definition ROLES :: "string list" where "ROLES = [''viewer'', ''admin'', ''owner'']"

definition rank :: "string \<Rightarrow> nat option" where
  "rank r = map_of [(''viewer'', 1), (''admin'', 2), (''machine'', 2), (''owner'', 3)] r"

definition MIN_PASSWORD_LEN :: nat where "MIN_PASSWORD_LEN = 12"
definition MAX_PASSWORD_LEN :: nat where "MAX_PASSWORD_LEN = 200"

definition unprocessable :: "string \<Rightarrow> api_error" where
  "unprocessable m = raise_error 400 ''BAD_REQUEST'' m None (Some 422)"

definition conflict :: "string \<Rightarrow> api_error" where
  "conflict m = raise_error 400 ''BAD_REQUEST'' m (Some ''CONFLICT'') (Some 409)"

definition no_account :: "nat \<Rightarrow> api_error" where
  "no_account uid = raise_error 400 ''BAD_REQUEST'' (''no account with id '' @ show_nat uid) (Some ''NOT_FOUND'') (Some 404)"

definition validate_password :: "string \<Rightarrow> unit outcome" where
  "validate_password p =
     (if length p < MIN_PASSWORD_LEN
      then Inl (unprocessable (''password: must be at least '' @ show_nat MIN_PASSWORD_LEN @ '' characters''))
      else if MAX_PASSWORD_LEN < length p
      then Inl (unprocessable (''password: must be at most '' @ show_nat MAX_PASSWORD_LEN @ '' characters''))
      else Inr ())"

definition normalize_email :: "string \<Rightarrow> string" where
  "normalize_email e = lower (strip e)"

definition email_shape :: "string \<Rightarrow> bool" where
  \<comment> \<open>\<open>^[^@\s]+@[^@\s.]+\.[^@\s]+$\<close> on a stripped string\<close>
  "email_shape e = (\<not> list_ex is_space e \<and>
     (case split_on (CHR ''@'') e of
        [local, domain] \<Rightarrow> local \<noteq> [] \<and>
          (case split_once (CHR ''.'') domain of Some (a, b) \<Rightarrow> a \<noteq> [] \<and> b \<noteq> [] | None \<Rightarrow> False)
      | _ \<Rightarrow> False))"

definition validate_email :: "string \<Rightarrow> string outcome" where
  "validate_email email = (let e = normalize_email email in
     if email_shape e then Inr e else Inl (unprocessable ''email: must be an email address''))"

definition validate_role :: "string \<Rightarrow> string outcome" where
  "validate_role r = (if r \<in> set ROLES then Inr r
     else Inl (unprocessable (''role: must be one of '' @ join_with '', '' ROLES)))"

definition validate_cities :: "string list option \<Rightarrow> string list \<Rightarrow> string list outcome" where
  "validate_cities cities known =
     (let out = sort (remdups (filter (\<lambda>c. c \<noteq> []) (map strip (or_else cities []))))
      in case filter (\<lambda>c. c \<notin> set known) out of
        [] \<Rightarrow> Inr out
      | u # _ \<Rightarrow> Inl (unprocessable (''cities: unknown city '' @ u)))"

section \<open>Principals\<close>

datatype principal_kind = User | Machine

record principal =
  p_kind :: principal_kind
  p_role :: string
  p_user_id :: "nat option"
  p_email :: string
  p_name :: string
  p_cities :: "string list"
  p_session :: "string option"

definition has_role :: "principal \<Rightarrow> string \<Rightarrow> bool" where
  "has_role p minimum = (or_else (rank minimum) 99 \<le> or_else (rank (p_role p)) 0)"

definition may_access :: "principal \<Rightarrow> string \<Rightarrow> bool" where
  "may_access p city = (p_cities p = [] \<or> city \<in> set (p_cities p))"

definition label :: "principal \<Rightarrow> string" where
  "label p = (if p_email p \<noteq> [] then p_email p else if p_name p \<noteq> [] then p_name p else ''machine'')"

definition can_manage_users :: "principal \<Rightarrow> bool" where
  "can_manage_users p = (p_kind p = User \<and> p_role p = ''owner'')"

definition visible_cities :: "principal \<Rightarrow> string list \<Rightarrow> string list" where
  "visible_cities p all = sort (filter (may_access p) all)"

definition machine_principal :: principal where
  "machine_principal = \<lparr>p_kind = Machine, p_role = ''machine'', p_user_id = None, p_email = [],
     p_name = ''machine token'', p_cities = [], p_session = None\<rparr>"

section \<open>The tables\<close>

record user =
  u_id :: nat
  u_email :: string
  u_hash :: string
  u_name :: string
  u_role :: string
  u_cities :: "string list"
  u_disabled :: bool
  u_created :: int
  u_last_login :: "int option"

record session =
  s_hash :: string
  s_user :: nat
  s_expires :: int
  s_seen :: int

record identity =
  i_provider :: string
  i_subject :: string
  i_user :: nat
  i_email :: string
  i_last_login :: int

record auth_db =
  users :: "user list"
  sessions :: "session list"
  identities :: "identity list"
  next_id :: nat

definition principal_from_user :: "user \<Rightarrow> string option \<Rightarrow> principal" where
  "principal_from_user r h = \<lparr>p_kind = User, p_role = u_role r, p_user_id = Some (u_id r),
     p_email = u_email r, p_name = u_name r, p_cities = u_cities r, p_session = h\<rparr>"

definition by_email :: "auth_db \<Rightarrow> string \<Rightarrow> user option" where
  "by_email db email = find (\<lambda>u. normalize_email (u_email u) = normalize_email email) (users db)"

definition by_id :: "auth_db \<Rightarrow> nat \<Rightarrow> user option" where
  "by_id db uid = find (\<lambda>u. u_id u = uid) (users db)"

definition list_users :: "auth_db \<Rightarrow> user list" where
  "list_users db = sort_key (\<lambda>u. normalize_email (u_email u)) (users db)"

definition create_user_row :: "auth_db \<Rightarrow> int \<Rightarrow> string \<Rightarrow> string \<Rightarrow> string \<Rightarrow> string \<Rightarrow> string list
    \<Rightarrow> auth_db \<times> user outcome" where
  \<comment> \<open>\<open>INSERT ... ON CONFLICT (email_norm) DO NOTHING\<close>; the sequence advances either way\<close>
  "create_user_row db now email hash name role cities = (let db' = db\<lparr>next_id := Suc (next_id db)\<rparr> in
     if by_email db email \<noteq> None
     then (db', Inl (conflict ''email: an account with that email already exists''))
     else let r = \<lparr>u_id = next_id db, u_email = strip email, u_hash = hash, u_name = name, u_role = role,
                   u_cities = cities, u_disabled = False, u_created = now, u_last_login = None\<rparr>
       in (db'\<lparr>users := users db @ [r]\<rparr>, Inr r))"

record user_fields =
  f_name :: "string option"
  f_role :: "string option"
  f_cities :: "string list option"
  f_disabled :: "bool option"
  f_hash :: "string option"

definition no_fields :: user_fields where
  "no_fields = \<lparr>f_name = None, f_role = None, f_cities = None, f_disabled = None, f_hash = None\<rparr>"

definition set_fields :: "user_fields \<Rightarrow> user \<Rightarrow> user" where
  "set_fields f u = u\<lparr>u_name := or_else (f_name f) (u_name u), u_role := or_else (f_role f) (u_role u),
     u_cities := or_else (f_cities f) (u_cities u), u_disabled := or_else (f_disabled f) (u_disabled u),
     u_hash := or_else (f_hash f) (u_hash u)\<rparr>"

definition update_user_row :: "auth_db \<Rightarrow> nat \<Rightarrow> user_fields \<Rightarrow> auth_db \<times> user option" where
  "update_user_row db uid f = (let db' = db\<lparr>users := map (\<lambda>u. if u_id u = uid then set_fields f u else u) (users db)\<rparr>
     in (db', by_id db' uid))"

definition touch_login :: "auth_db \<Rightarrow> nat \<Rightarrow> int \<Rightarrow> auth_db" where
  "touch_login db uid now = db\<lparr>users := map (\<lambda>u. if u_id u = uid then u\<lparr>u_last_login := Some now\<rparr> else u) (users db)\<rparr>"

definition create_session :: "auth_db \<Rightarrow> string \<Rightarrow> nat \<Rightarrow> int \<Rightarrow> int \<Rightarrow> store_error + auth_db" where
  \<comment> \<open>\<open>token_hash\<close> is the primary key, \<open>user_id\<close> references an account\<close>
  "create_session db th uid now expires =
     (if list_ex (\<lambda>s. s_hash s = th) (sessions db) then Inl UniqueViolation
      else if by_id db uid = None then Inl DataError
      else Inr (db\<lparr>sessions := sessions db @ [\<lparr>s_hash = th, s_user = uid, s_expires = expires, s_seen = now\<rparr>]\<rparr>))"

definition session_user :: "auth_db \<Rightarrow> string \<Rightarrow> int \<Rightarrow> user option" where
  \<comment> \<open>the join of \<open>session(token_hash, now)\<close>\<close>
  "session_user db th now = (case find (\<lambda>s. s_hash s = th \<and> now < s_expires s) (sessions db) of
     None \<Rightarrow> None | Some s \<Rightarrow> by_id db (s_user s))"

definition touch_session :: "auth_db \<Rightarrow> string \<Rightarrow> int \<Rightarrow> auth_db" where
  "touch_session db th now = db\<lparr>sessions := map (\<lambda>s. if s_hash s = th then s\<lparr>s_seen := now\<rparr> else s) (sessions db)\<rparr>"

definition delete_session :: "auth_db \<Rightarrow> string \<Rightarrow> auth_db" where
  "delete_session db th = db\<lparr>sessions := filter (\<lambda>s. s_hash s \<noteq> th) (sessions db)\<rparr>"

definition delete_sessions_of :: "auth_db \<Rightarrow> nat \<Rightarrow> auth_db" where
  "delete_sessions_of db uid = db\<lparr>sessions := filter (\<lambda>s. s_user s \<noteq> uid) (sessions db)\<rparr>"

definition drop_expired_sessions :: "auth_db \<Rightarrow> int \<Rightarrow> auth_db" where
  "drop_expired_sessions db now = db\<lparr>sessions := filter (\<lambda>s. \<not> s_expires s \<le> now) (sessions db)\<rparr>"

definition identity :: "auth_db \<Rightarrow> string \<Rightarrow> string \<Rightarrow> identity option" where
  "identity db provider subject = find (\<lambda>i. i_provider i = provider \<and> i_subject i = subject) (identities db)"

definition identity_for_user :: "auth_db \<Rightarrow> nat \<Rightarrow> string \<Rightarrow> identity option" where
  "identity_for_user db uid provider = find (\<lambda>i. i_user i = uid \<and> i_provider i = provider) (identities db)"

definition link_identity :: "auth_db \<Rightarrow> string \<Rightarrow> string \<Rightarrow> nat \<Rightarrow> string \<Rightarrow> int \<Rightarrow> store_error + auth_db" where
  \<comment> \<open>primary key \<open>(provider, subject)\<close>, unique index \<open>(user_id, provider)\<close>\<close>
  "link_identity db provider subject uid email now =
     (if identity db provider subject \<noteq> None \<or> identity_for_user db uid provider \<noteq> None then Inl UniqueViolation
      else Inr (db\<lparr>identities := identities db @ [\<lparr>i_provider = provider, i_subject = subject, i_user = uid,
                     i_email = email, i_last_login = now\<rparr>]\<rparr>))"

definition touch_identity :: "auth_db \<Rightarrow> string \<Rightarrow> string \<Rightarrow> string \<Rightarrow> int \<Rightarrow> auth_db" where
  "touch_identity db provider subject email now = db\<lparr>identities :=
     map (\<lambda>i. if i_provider i = provider \<and> i_subject i = subject
              then i\<lparr>i_email := email, i_last_login := now\<rparr> else i) (identities db)\<rparr>"

definition unlink_identity :: "auth_db \<Rightarrow> nat \<Rightarrow> string \<Rightarrow> auth_db" where
  "unlink_identity db uid provider =
     db\<lparr>identities := filter (\<lambda>i. \<not> (i_user i = uid \<and> i_provider i = provider)) (identities db)\<rparr>"

definition identities_of :: "auth_db \<Rightarrow> nat \<Rightarrow> identity list" where
  "identities_of db uid = sort_key i_provider (filter (\<lambda>i. i_user i = uid) (identities db))"

section \<open>Sign-in\<close>

record crypto =
  \<comment> \<open>Argon2 and SHA-256 as the code calls them\<close>
  c_verify :: "string \<Rightarrow> string \<Rightarrow> bool"
  c_needs_rehash :: "string \<Rightarrow> bool"
  c_argon :: "string \<Rightarrow> string"
  c_sha :: "string \<Rightarrow> string"

definition hash_password :: "crypto \<Rightarrow> string \<Rightarrow> string outcome" where
  "hash_password c p = (case validate_password p of Inl e \<Rightarrow> Inl e | Inr _ \<Rightarrow> Inr (c_argon c p))"

definition authenticate :: "crypto \<Rightarrow> auth_db \<Rightarrow> string \<Rightarrow> string \<Rightarrow> auth_db \<times> user option outcome" where
  "authenticate c db email password = (case by_email db email of
     None \<Rightarrow> (db, Inr None)
   | Some u \<Rightarrow>
       if \<not> c_verify c (u_hash u) password then (db, Inr None)
       else if u_disabled u then (db, Inr None)
       else if c_needs_rehash c (u_hash u)
       then (case hash_password c password of Inl e \<Rightarrow> (db, Inl e)
             | Inr h \<Rightarrow> (fst (update_user_row db (u_id u) (no_fields\<lparr>f_hash := Some h\<rparr>)), Inr (Some u)))
       else (db, Inr (Some u)))"

definition hours :: int where "hours = 3600 * 1000000"

definition open_session :: "crypto \<Rightarrow> auth_db \<Rightarrow> nat \<Rightarrow> int \<Rightarrow> int \<Rightarrow> string \<Rightarrow> store_error + auth_db \<times> int" where
  "open_session c db uid n now token = (let expires = now + max 1 n * hours in
     case create_session db (c_sha c token) uid now expires of Inl e \<Rightarrow> Inl e
     | Inr db' \<Rightarrow> Inr (touch_login db' uid now, expires))"

definition bootstrap_owner :: "crypto \<Rightarrow> auth_db \<Rightarrow> int \<Rightarrow> string \<Rightarrow> string \<Rightarrow> string \<Rightarrow> auth_db \<times> user option outcome" where
  "bootstrap_owner c db now email password name =
     (if 0 < length (users db) then (db, Inr None)
      else case validate_email email of Inl e \<Rightarrow> (db, Inl e)
      | Inr em \<Rightarrow> (case hash_password c password of Inl e \<Rightarrow> (db, Inl e)
        | Inr h \<Rightarrow> (case create_user_row db now em h name ''owner'' [] of
            (db', Inl e) \<Rightarrow> (db', Inl e) | (db', Inr r) \<Rightarrow> (db', Inr (Some r)))))"

record provider_identity =
  pi_provider :: string
  pi_subject :: string
  pi_email :: string
  pi_name :: string

type_synonym provisioner = "auth_db \<Rightarrow> provider_identity \<Rightarrow> auth_db \<times> user option outcome"

definition no_enabled_account :: api_error where
  "no_enabled_account = forbidden (''no enabled admin account for this address '' @ [CHR 0xE2, CHR 0x80, CHR 0x94]
     @ '' ask an owner to invite you'')"

definition sign_in_with_identity :: "provisioner option \<Rightarrow> auth_db \<Rightarrow> int \<Rightarrow> provider_identity
    \<Rightarrow> auth_db \<times> (raised + user)" where
  "sign_in_with_identity provision db now ident = (let email = normalize_email (pi_email ident) in
     case (case by_email db email of Some u \<Rightarrow> (db, Inr (Some u))
           | None \<Rightarrow> (case provision of None \<Rightarrow> (db, Inr None) | Some prov \<Rightarrow> prov db ident)) of
       (db1, Inl e) \<Rightarrow> (db1, Inl (Api e))
     | (db1, Inr None) \<Rightarrow> (db1, Inl (Api no_enabled_account))
     | (db1, Inr (Some u)) \<Rightarrow>
       if u_disabled u then (db1, Inl (Api no_enabled_account))
       else case identity db1 (pi_provider ident) (pi_subject ident) of
         Some l \<Rightarrow> if i_user l \<noteq> u_id u
           then (db1, Inl (Api (forbidden ''this provider account is already linked to a different admin account'')))
           else (touch_identity db1 (pi_provider ident) (pi_subject ident) email now, Inr u)
       | None \<Rightarrow> (case identity_for_user db1 (u_id u) (pi_provider ident) of
           Some x \<Rightarrow> if i_subject x \<noteq> pi_subject ident
             then (db1, Inl (Api (forbidden (''this account is linked to a different '' @ pi_provider ident
                       @ '' identity; ask an owner to unlink it first''))))
             else (case link_identity db1 (pi_provider ident) (pi_subject ident) (u_id u) email now of
                     Inl e \<Rightarrow> (db1, Inl (Database e)) | Inr db2 \<Rightarrow> (db2, Inr u))
         | None \<Rightarrow> (case link_identity db1 (pi_provider ident) (pi_subject ident) (u_id u) email now of
                     Inl e \<Rightarrow> (db1, Inl (Database e)) | Inr db2 \<Rightarrow> (db2, Inr u))))"

definition lstrip_at :: "string \<Rightarrow> string" where
  "lstrip_at s = dropWhile (\<lambda>c. c = CHR ''@'') s"

definition domain_provisioner :: "crypto \<Rightarrow> string \<Rightarrow> int \<Rightarrow> string list \<Rightarrow> string \<Rightarrow> string list \<Rightarrow> provisioner option" where
  \<comment> \<open>\<open>secret\<close>: the 32 random bytes nobody ever sees\<close>
  "domain_provisioner c secret now domains role cities =
     (let allowed = map (\<lambda>d. lstrip_at (lower (strip d))) (filter (\<lambda>d. strip d \<noteq> []) domains) in
      if allowed = [] then None
      else Some (\<lambda>db ident. let email = normalize_email (pi_email ident) in
        if last (split_on (CHR ''@'') email) \<notin> set allowed then (db, Inr None)
        else case create_user_row db now email (c_argon c secret) (take 120 (pi_name ident)) role cities of
          (db', Inl e) \<Rightarrow> (db', Inl e) | (db', Inr r) \<Rightarrow> (db', Inr (Some r))))"

section \<open>Requests\<close>

record request =
  r_authorization :: "string option"
  r_cookie :: "string option"
  r_admin_token :: "string option"
  r_host :: "string option"
  r_city :: "string option"

record admin_settings =
  as_token_enabled :: bool
  as_token :: string
  as_session_hours :: int

definition bearer :: "request \<Rightarrow> string option" where
  "bearer r = (let auth = or_else (r_authorization r) [] in
     if lower (take 7 auth) = ''bearer '' then (if strip (drop 7 auth) = [] then None else Some (strip (drop 7 auth)))
     else if truthy_str (r_cookie r) then r_cookie r else None)"

definition machine :: "admin_settings \<Rightarrow> request \<Rightarrow> principal outcome" where
  "machine cfg r =
     (if \<not> truthy_str (r_admin_token r)
      then Inl (unauthorized ''sign in at /v1/admin/auth/login, or send X-Admin-Token'')
      else if \<not> as_token_enabled cfg then Inl (unauthorized ''the machine credential is disabled on this deployment'')
      else if the (r_admin_token r) \<noteq> as_token cfg then Inl (unauthorized ''missing or invalid X-Admin-Token'')
      else Inr machine_principal)"

definition authenticate_request :: "crypto \<Rightarrow> admin_settings \<Rightarrow> auth_db \<Rightarrow> int \<Rightarrow> request \<Rightarrow> auth_db \<times> principal outcome" where
  "authenticate_request c cfg db now r = (case bearer r of
     Some token \<Rightarrow> (case session_user db (c_sha c token) now of
         None \<Rightarrow> (db, Inl (unauthorized ''session expired or revoked''))
       | Some u \<Rightarrow> if u_disabled u then (db, Inl (unauthorized ''session expired or revoked''))
           else (touch_session db (c_sha c token) now, Inr (principal_from_user u (Some (c_sha c token)))))
   | None \<Rightarrow> (db, machine cfg r))"

definition enforce_city :: "request \<Rightarrow> principal \<Rightarrow> unit outcome" where
  "enforce_city r p = (case r_city r of
     Some city \<Rightarrow> if city \<noteq> [] \<and> \<not> may_access p city then Inl (forbidden (''your account is not scoped to '' @ city)) else Inr ()
   | None \<Rightarrow> Inr ())"

definition require_admin :: "crypto \<Rightarrow> admin_settings \<Rightarrow> auth_db \<Rightarrow> int \<Rightarrow> request \<Rightarrow> auth_db \<times> principal outcome" where
  "require_admin c cfg db now r = (case authenticate_request c cfg db now r of
     (db', Inl e) \<Rightarrow> (db', Inl e)
   | (db', Inr p) \<Rightarrow> (db', case enforce_city r p of Inl e \<Rightarrow> Inl e | Inr _ \<Rightarrow> Inr p))"

definition require_editor :: "crypto \<Rightarrow> admin_settings \<Rightarrow> auth_db \<Rightarrow> int \<Rightarrow> request \<Rightarrow> auth_db \<times> principal outcome" where
  "require_editor c cfg db now r = (case require_admin c cfg db now r of
     (db', Inl e) \<Rightarrow> (db', Inl e)
   | (db', Inr p) \<Rightarrow> (db', if has_role p ''admin'' then Inr p else Inl (forbidden ''this action needs the admin role'')))"

definition require_owner :: "crypto \<Rightarrow> admin_settings \<Rightarrow> auth_db \<Rightarrow> int \<Rightarrow> request \<Rightarrow> auth_db \<times> principal outcome" where
  "require_owner c cfg db now r = (case authenticate_request c cfg db now r of
     (db', Inl e) \<Rightarrow> (db', Inl e)
   | (db', Inr p) \<Rightarrow> (db', if can_manage_users p then Inr p else Inl (forbidden ''only a signed-in owner may manage accounts'')))"

subsection \<open>Sign in and out\<close>

definition throttle_keys :: "request \<Rightarrow> string \<Rightarrow> string list" where
  "throttle_keys r email = [''e:'' @ email, ''a:'' @ or_else (r_host r) ''?'']"

fun any_blocked :: "throttle \<Rightarrow> string list \<Rightarrow> rat \<Rightarrow> throttle \<times> bool" where
  \<comment> \<open>\<open>any(...)\<close> stops at the first blocked key\<close>
  "any_blocked th [] now = (th, False)"
| "any_blocked th (k # ks) now = (case throttle_blocked th k now of
     (th', True) \<Rightarrow> (th', True) | (th', False) \<Rightarrow> any_blocked th' ks now)"

definition login :: "crypto \<Rightarrow> admin_settings \<Rightarrow> int \<Rightarrow> rat \<Rightarrow> string \<Rightarrow> request \<Rightarrow> string \<Rightarrow> string
    \<Rightarrow> throttle \<times> auth_db \<Rightarrow> (throttle \<times> auth_db) \<times> (raised + string \<times> user)" where
  \<comment> \<open>the token is the answer's \<open>token\<close>; \<open>_issue_session\<close> is \<open>open_session\<close>\<close>
  "login c cfg now secs token r email password st = (let (th, db) = st; email = lower (strip email);
       keys = throttle_keys r email; (th1, blocked) = any_blocked th keys secs in
     if blocked then ((th1, db), Inl (Api (raise_error 400 ''BAD_REQUEST''
         ''too many failed sign-ins; wait a few minutes'' (Some ''RATE_LIMITED'') (Some 429))))
     else case authenticate c db email password of
       (db1, Inl e) \<Rightarrow> ((th1, db1), Inl (Api e))
     | (db1, Inr None) \<Rightarrow> ((foldl (\<lambda>t k. throttle_fail t k secs) th1 keys, db1), Inl (Api (unauthorized ''wrong email or password'')))
     | (db1, Inr (Some u)) \<Rightarrow> (let th2 = foldl throttle_clear th1 keys in
         case open_session c db1 (u_id u) (as_session_hours cfg) now token of
           Inl e \<Rightarrow> ((th2, db1), Inl (Database e))
         | Inr (db2, _) \<Rightarrow> ((th2, db2), Inr (token, u))))"

definition logout :: "auth_db \<Rightarrow> principal \<Rightarrow> auth_db" where
  "logout db me = (if truthy_str (p_session me) then delete_session db (the (p_session me)) else db)"

definition oidc_callback :: "crypto \<Rightarrow> admin_settings \<Rightarrow> provisioner option \<Rightarrow> int \<Rightarrow> string \<Rightarrow> provider_identity
    \<Rightarrow> auth_db \<Rightarrow> auth_db \<times> (raised + string \<times> user)" where
  \<comment> \<open>the handler after \<open>OidcService.complete\<close> has verified the identity\<close>
  "oidc_callback c cfg provision now token ident db = (case sign_in_with_identity provision db now ident of
     (db1, Inl e) \<Rightarrow> (db1, Inl e)
   | (db1, Inr u) \<Rightarrow> (case open_session c db1 (u_id u) (as_session_hours cfg) now token of
       Inl e \<Rightarrow> (db1, Inl (Database e)) | Inr (db2, _) \<Rightarrow> (db2, Inr (token, u))))"

subsection \<open>Accounts (owner only)\<close>

record user_create =
  uc_email :: string
  uc_password :: string
  uc_name :: string
  uc_role :: string
  uc_cities :: "string list option"

definition create_user :: "crypto \<Rightarrow> string list \<Rightarrow> int \<Rightarrow> user_create \<Rightarrow> auth_db \<Rightarrow> auth_db \<times> user outcome" where
  "create_user c known now b db = (case validate_password (uc_password b) of Inl e \<Rightarrow> (db, Inl e) | Inr _ \<Rightarrow>
     case validate_email (uc_email b) of Inl e \<Rightarrow> (db, Inl e) | Inr _ \<Rightarrow>
     case hash_password c (uc_password b) of Inl e \<Rightarrow> (db, Inl e) | Inr h \<Rightarrow>
     case validate_role (uc_role b) of Inl e \<Rightarrow> (db, Inl e) | Inr role \<Rightarrow>
     case validate_cities (uc_cities b) known of Inl e \<Rightarrow> (db, Inl e) | Inr cities \<Rightarrow>
     create_user_row db now (strip (uc_email b)) h (take 120 (strip (uc_name b))) role cities)"

record user_patch =
  \<comment> \<open>outer option: is the field in the body; inner option: JSON null\<close>
  up_name :: "string option option"
  up_role :: "string option option"
  up_cities :: "string list option option"
  up_disabled :: "bool option option"
  up_password :: "string option option"

definition enabled_owners :: "auth_db \<Rightarrow> user list" where
  "enabled_owners db = filter (\<lambda>u. u_role u = ''owner'' \<and> \<not> u_disabled u) (list_users db)"

definition last_owner :: "auth_db \<Rightarrow> nat \<Rightarrow> bool" where
  "last_owner db uid = (map u_id (enabled_owners db) = [uid])"

definition demotes :: "user_fields \<Rightarrow> bool" where
  "demotes f = (f_disabled f = Some True \<or> (\<exists>r \<in> set_option (f_role f). r \<noteq> [] \<and> r \<noteq> ''owner''))"

definition lasting_change :: "user_fields \<Rightarrow> bool" where
  "lasting_change f = (f_hash f \<noteq> None \<or> f_role f \<noteq> None \<or> f_cities f \<noteq> None \<or> f_disabled f \<noteq> None)"

definition patch_fields :: "string list \<Rightarrow> user_patch \<Rightarrow> user_fields outcome" where
  \<comment> \<open>the fields before the owner check (the password comes after it)\<close>
  "patch_fields known b =
     (case (case up_role b of Some (Some r) \<Rightarrow> (case validate_role r of Inl e \<Rightarrow> Inl e | Inr r \<Rightarrow> Inr (Some r))
            | _ \<Rightarrow> Inr None) of Inl e \<Rightarrow> Inl e | Inr role \<Rightarrow>
      case (case up_cities b of Some cs \<Rightarrow> (case validate_cities cs known of Inl e \<Rightarrow> Inl e | Inr cs \<Rightarrow> Inr (Some cs))
            | None \<Rightarrow> Inr None) of Inl e \<Rightarrow> Inl e | Inr cities \<Rightarrow>
      Inr \<lparr>f_name = map_option (\<lambda>n. take 120 (strip (or_else n []))) (up_name b), f_role = role, f_cities = cities,
           f_disabled = (case up_disabled b of Some (Some d) \<Rightarrow> Some d | _ \<Rightarrow> None), f_hash = None\<rparr>)"

definition last_owner_error :: api_error where
  "last_owner_error = conflict ''this is the last enabled owner''"

definition update_user :: "crypto \<Rightarrow> string list \<Rightarrow> nat \<Rightarrow> user_patch \<Rightarrow> auth_db \<Rightarrow> auth_db \<times> user option outcome" where
  "update_user c known uid b db = (if by_id db uid = None then (db, Inl (no_account uid))
     else case patch_fields known b of Inl e \<Rightarrow> (db, Inl e) | Inr f \<Rightarrow>
     if demotes f \<and> last_owner db uid then (db, Inl last_owner_error)
     else case (case up_password b of Some (Some p) \<Rightarrow>
                  (case hash_password c p of Inl e \<Rightarrow> Inl e | Inr h \<Rightarrow> Inr (f\<lparr>f_hash := Some h\<rparr>))
                | _ \<Rightarrow> Inr f) of Inl e \<Rightarrow> (db, Inl e) | Inr f' \<Rightarrow>
     (let (db1, row) = update_user_row db uid f' in
       (if lasting_change f' then delete_sessions_of db1 uid else db1, Inr row)))"

definition disable_user :: "nat \<Rightarrow> auth_db \<Rightarrow> auth_db \<times> user option outcome" where
  "disable_user uid db = (if by_id db uid = None then (db, Inl (no_account uid))
     else if last_owner db uid then (db, Inl last_owner_error)
     else let (db1, row) = update_user_row db uid (no_fields\<lparr>f_disabled := Some True\<rparr>)
       in (delete_sessions_of db1 uid, Inr row))"

definition author :: "principal \<Rightarrow> string option \<Rightarrow> string option" where
  "author me claimed = (if p_kind me = Machine then claimed else Some (label me))"

section \<open>Histories\<close>

datatype admin_request =
    Login int rat string request string string
  | Logout int request
  | Callback "string list" string "string list" string int string provider_identity
  | Create_user int request user_create
  | Update_user int request nat user_patch
  | Disable_user int request nat
  | Maintenance int

definition guarded :: "auth_db \<times> principal outcome \<Rightarrow> (principal \<Rightarrow> auth_db \<Rightarrow> auth_db) \<Rightarrow> auth_db" where
  \<comment> \<open>a handler behind its dependency\<close>
  "guarded dep h = (case dep of (db, Inl e) \<Rightarrow> db | (db, Inr p) \<Rightarrow> h p db)"

fun admin_step :: "crypto \<Rightarrow> admin_settings \<Rightarrow> string list \<Rightarrow> throttle \<times> auth_db \<Rightarrow> admin_request \<Rightarrow> throttle \<times> auth_db" where
  "admin_step c cfg known st (Login now secs token r email password) = fst (login c cfg now secs token r email password st)"
| "admin_step c cfg known (th, db) (Logout now r) =
     (th, guarded (authenticate_request c cfg db now r) (\<lambda>p db. logout db p))"
| "admin_step c cfg known (th, db) (Callback domains role cities secret now token ident) =
     (th, fst (oidc_callback c cfg (domain_provisioner c secret now domains role cities) now token ident db))"
| "admin_step c cfg known (th, db) (Create_user now r b) =
     (th, guarded (require_owner c cfg db now r) (\<lambda>p db. fst (create_user c known now b db)))"
| "admin_step c cfg known (th, db) (Update_user now r uid b) =
     (th, guarded (require_owner c cfg db now r) (\<lambda>p db. fst (update_user c known uid b db)))"
| "admin_step c cfg known (th, db) (Disable_user now r uid) =
     (th, guarded (require_owner c cfg db now r) (\<lambda>p db. fst (disable_user uid db)))"
| "admin_step c cfg known (th, db) (Maintenance now) = (th, drop_expired_sessions db now)"

definition roster :: "auth_db \<Rightarrow> (nat \<times> string \<times> bool) list" where
  "roster db = map (\<lambda>u. (u_id u, u_role u, u_disabled u)) (users db)"

definition ids_ok :: "auth_db \<Rightarrow> bool" where
  "ids_ok db = (distinct (map u_id (users db)) \<and> list_all (\<lambda>u. u_id u < next_id db) (users db))"

definition has_owner :: "auth_db \<Rightarrow> bool" where
  "has_owner db = list_ex (\<lambda>u. u_role u = ''owner'' \<and> \<not> u_disabled u) (users db)"

definition safe :: "auth_db \<Rightarrow> bool" where
  "safe db = (ids_ok db \<and> has_owner db)"

lemma has_owner_roster: "has_owner db \<longleftrightarrow> (\<exists>i. (i, ''owner'', False) \<in> set (roster db))"
  by (force simp: has_owner_def roster_def list_ex_iff)

lemma safe_roster: "safe db \<longleftrightarrow> distinct (map fst (roster db)) \<and> (\<forall>x \<in> set (roster db). fst x < next_id db) \<and>
    (\<exists>i. (i, ''owner'', False) \<in> set (roster db))"
  by (simp add: safe_def ids_ok_def has_owner_roster) (simp add: roster_def list_all_iff comp_def)

lemma safe_cong: "roster db' = roster db \<Longrightarrow> next_id db' = next_id db \<Longrightarrow> safe db' = safe db"
  by (simp add: safe_roster)

lemma roster_simps [simp]:
  "roster (db\<lparr>sessions := s\<rparr>) = roster db" "roster (db\<lparr>identities := x\<rparr>) = roster db"
  "roster (db\<lparr>next_id := n\<rparr>) = roster db"
  by (simp_all add: roster_def)

lemma safe_simps [simp]:
  "safe (db\<lparr>sessions := s\<rparr>) = safe db" "safe (db\<lparr>identities := x\<rparr>) = safe db"
  by (rule safe_cong; simp)+

lemma safe_touch_login [simp]: "safe (touch_login db uid now) = safe db"
  by (rule safe_cong) (auto simp: touch_login_def roster_def)

lemma safe_sessions [simp]:
  "safe (touch_session db th now) = safe db" "safe (delete_session db th) = safe db"
  "safe (delete_sessions_of db uid) = safe db" "safe (drop_expired_sessions db now) = safe db"
  "safe (touch_identity db p sub e now) = safe db"
  by (simp_all add: touch_session_def delete_session_def delete_sessions_of_def drop_expired_sessions_def touch_identity_def)

lemma safe_create_session: "create_session db th uid now ex = Inr db' \<Longrightarrow> safe db' = safe db"
  by (auto simp: create_session_def split: if_splits)

lemma safe_link: "link_identity db p sub uid em now = Inr db' \<Longrightarrow> safe db' = safe db"
  by (auto simp: link_identity_def split: if_splits)

lemma safe_open_session: "open_session c db uid n now tok = Inr (db', ex) \<Longrightarrow> safe db' = safe db"
  by (auto simp: open_session_def Let_def safe_create_session split: sum.splits)

lemma safe_rehash: "safe (fst (update_user_row db uid (no_fields\<lparr>f_hash := h\<rparr>))) = safe db"
  by (rule safe_cong) (auto simp: update_user_row_def Let_def roster_def set_fields_def no_fields_def)

lemma safe_authenticate: "authenticate c db e p = (db', r) \<Longrightarrow> safe db' = safe db"
  by (auto simp: authenticate_def safe_rehash split: option.splits if_splits sum.splits)

lemma safe_create_user_row: "safe db \<Longrightarrow> safe (fst (create_user_row db now e h n role cs))"
  by (auto simp: safe_roster create_user_row_def Let_def roster_def)

lemma safe_create_user: "safe db \<Longrightarrow> safe (fst (create_user c known now b db))"
  by (auto simp: create_user_def safe_create_user_row split: sum.splits)

lemma safe_provisioner:
  "domain_provisioner c secret now doms role cs = Some prov \<Longrightarrow> safe db \<Longrightarrow> safe (fst (prov db ident))"
  using safe_create_user_row[of db now "normalize_email (pi_email ident)" "c_argon c secret" "take 120 (pi_name ident)" role cs]
  by (auto simp: domain_provisioner_def Let_def split: if_splits prod.splits sum.splits)

lemma enabled_owners_set: "set (enabled_owners db) = {u \<in> set (users db). u_role u = ''owner'' \<and> \<not> u_disabled u}"
  by (auto simp: enabled_owners_def list_users_def)

lemma distinct_enabled_owners: "distinct (map u_id (users db)) \<Longrightarrow> distinct (map u_id (enabled_owners db))"
  by (simp add: enabled_owners_def list_users_def distinct_map_filter)

lemma another_owner:
  assumes "safe db" and "\<not> last_owner db uid"
  shows "\<exists>u \<in> set (users db). u_role u = ''owner'' \<and> \<not> u_disabled u \<and> u_id u \<noteq> uid"
proof (rule ccontr)
  assume "\<not> ?thesis"
  then have all: "\<forall>i \<in> set (map u_id (enabled_owners db)). i = uid" by (auto simp: enabled_owners_set)
  have "distinct (map u_id (enabled_owners db))"
    using assms(1) by (simp add: safe_def ids_ok_def distinct_enabled_owners)
  moreover have "enabled_owners db \<noteq> []"
    using assms(1) enabled_owners_set[of db] by (auto simp: safe_def has_owner_def list_ex_iff)
  ultimately have "map u_id (enabled_owners db) = [uid]" using all
    by (cases "map u_id (enabled_owners db)"; cases "tl (map u_id (enabled_owners db))") auto
  with assms(2) show False by (simp add: last_owner_def)
qed

lemma safe_update_row:
  assumes "safe db" and "\<exists>u \<in> set (users db). u_role u = ''owner'' \<and> \<not> u_disabled u \<and>
      (u_id u = uid \<longrightarrow> f_role f \<in> {None, Some ''owner''} \<and> f_disabled f \<noteq> Some True)"
  shows "safe (fst (update_user_row db uid f))"
proof -
  let ?us = "map (\<lambda>u. if u_id u = uid then set_fields f u else u) (users db)"
  have id: "u_id (if u_id u = uid then set_fields f u else u) = u_id u" for u
    by (simp add: set_fields_def)
  have "map u_id ?us = map u_id (users db)" by (simp add: comp_def id)
  from assms(2) obtain u where u: "u \<in> set (users db)" "u_role u = ''owner''" "\<not> u_disabled u"
    "u_id u = uid \<longrightarrow> f_role f \<in> {None, Some ''owner''} \<and> f_disabled f \<noteq> Some True" by blast
  let ?v = "if u_id u = uid then set_fields f u else u"
  have "?v \<in> set ?us" using u(1) by (simp only: set_map) (rule imageI)
  moreover have "u_role ?v = ''owner'' \<and> \<not> u_disabled ?v"
    using u(2-4) by (cases "f_role f"; cases "f_disabled f"; cases "u_id u = uid") (auto simp: set_fields_def)
  ultimately have "\<exists>v \<in> set ?us. u_role v = ''owner'' \<and> \<not> u_disabled v" by blast
  moreover have "list_all (\<lambda>u. u_id u < next_id db) ?us"
    using assms(1) by (auto simp: safe_def ids_ok_def list_all_iff set_fields_def)
  moreover note \<open>map u_id ?us = map u_id (users db)\<close>
  ultimately show ?thesis using assms(1)
    by (simp add: safe_def ids_ok_def has_owner_def update_user_row_def Let_def list_ex_iff del: map_map bex_simps set_map)
qed

lemma patch_role: "patch_fields known b = Inr f \<Longrightarrow> f_role f = Some r \<Longrightarrow> r \<in> set ROLES"
  by (auto simp: patch_fields_def validate_role_def split: option.splits sum.splits if_splits)

lemma safe_update_user:
  assumes "safe db" shows "safe (fst (update_user c known uid b db))"
proof -
  have step: "safe (fst (update_user_row db uid f'))"
    if f: "patch_fields known b = Inr f" "\<not> (demotes f \<and> last_owner db uid)"
      "f_role f' = f_role f" "f_disabled f' = f_disabled f" for f f'
  proof (cases "demotes f")
    case True
    with f(2) have "\<not> last_owner db uid" by simp
    from another_owner[OF assms this] show ?thesis by (auto intro!: safe_update_row assms)
  next
    case False
    then have "f_role f \<in> {None, Some ''owner''} \<and> f_disabled f \<noteq> Some True"
      using patch_role[OF f(1)] by (cases "f_role f") (auto simp: demotes_def ROLES_def)
    moreover have "\<exists>u \<in> set (users db). u_role u = ''owner'' \<and> \<not> u_disabled u"
      using assms by (simp add: safe_def has_owner_def list_ex_iff)
    ultimately show ?thesis by (intro safe_update_row assms) (simp add: f)
  qed
  show ?thesis
  proof (cases "by_id db uid = None")
    case False
    show ?thesis
    proof (cases "patch_fields known b")
      case (Inr f)
      show ?thesis
      proof (cases "demotes f \<and> last_owner db uid")
        case ok: False
        note st = step[OF Inr ok]
        show ?thesis
          using False Inr ok st[of f] st[of "f\<lparr>f_hash := _\<rparr>"] assms
          by (auto simp: update_user_def Let_def case_prod_beta split: option.split sum.split)
      qed (use False Inr assms in \<open>simp add: update_user_def\<close>)
    qed (use False assms in \<open>simp add: update_user_def\<close>)
  qed (use assms in \<open>simp add: update_user_def\<close>)
qed

lemma safe_disable_user:
  assumes "safe db" shows "safe (fst (disable_user uid db))"
proof (cases "last_owner db uid")
  case False
  from another_owner[OF assms this] have "safe (fst (update_user_row db uid f))" for f
    by (auto intro!: safe_update_row assms)
  with assms show ?thesis by (simp add: disable_user_def Let_def case_prod_beta)
qed (use assms in \<open>simp add: disable_user_def\<close>)

lemma safe_dependency:
  "authenticate_request c cfg db now r = (db', p) \<Longrightarrow> safe db' = safe db"
  "require_owner c cfg db now r = (db', q) \<Longrightarrow> safe db' = safe db"
proof -
  show *: "authenticate_request c cfg db now r = (db', p) \<Longrightarrow> safe db' = safe db" for db' p
    by (auto simp: authenticate_request_def split: option.splits if_splits)
  show "require_owner c cfg db now r = (db', q) \<Longrightarrow> safe db' = safe db"
    by (auto simp: require_owner_def dest: * split: prod.splits sum.splits)
qed

lemma safe_guarded:
  assumes "safe (fst dep)" and "\<And>p db. safe db \<Longrightarrow> safe (h p db)"
  shows "safe (guarded dep h)"
  using assms by (auto simp: guarded_def split: prod.split sum.split)

lemma safe_require [simp]:
  "safe (fst (authenticate_request c cfg db now r)) = safe db"
  "safe (fst (require_owner c cfg db now r)) = safe db"
  using safe_dependency by (metis prod.collapse)+

lemma safe_login: "safe (snd st) \<Longrightarrow> safe (snd (fst (login c cfg now secs token r email pw st)))"
proof (cases st)
  case (Pair th db)
  assume s: "safe (snd st)"
  obtain db1 res where a: "authenticate c db (lower (strip email)) pw = (db1, res)" by (cases "authenticate c db (lower (strip email)) pw")
  obtain th1 b where b: "any_blocked th (throttle_keys r (lower (strip email))) secs = (th1, b)"
    by (cases "any_blocked th (throttle_keys r (lower (strip email))) secs")
  have "safe db1" using s Pair safe_authenticate[OF a] by simp
  then show ?thesis using s Pair a b
    by (auto simp: login_def Let_def dest: safe_open_session split: sum.split option.split prod.split)
qed

lemma safe_sign_in:
  assumes "safe db" and "\<And>prov. provision = Some prov \<Longrightarrow> safe (fst (prov db ident))"
  shows "safe (fst (sign_in_with_identity provision db now ident))"
proof -
  let ?x = "case by_email db (normalize_email (pi_email ident)) of Some u \<Rightarrow> (db, Inr (Some u))
           | None \<Rightarrow> (case provision of None \<Rightarrow> (db, Inr None) | Some prov \<Rightarrow> prov db ident)"
  obtain db1 res where x: "?x = (db1, res)" by (cases ?x)
  have "safe db1" using assms x by (auto split: option.splits simp: fst_def split: prod.splits)
  then show ?thesis using x
    by (auto simp: sign_in_with_identity_def Let_def safe_link split: sum.split option.split)
qed

lemma safe_callback:
  assumes "safe db" and "\<And>prov. provision = Some prov \<Longrightarrow> safe (fst (prov db ident))"
  shows "safe (fst (oidc_callback c cfg provision now token ident db))"
proof -
  obtain db1 res where x: "sign_in_with_identity provision db now ident = (db1, res)"
    by (cases "sign_in_with_identity provision db now ident")
  with safe_sign_in[of db provision ident now] assms have "safe db1" by simp
  then show ?thesis by (auto simp: oidc_callback_def x dest: safe_open_session split: sum.split prod.split)
qed

lemma safe_step:
  assumes "safe (snd st)" shows "safe (snd (admin_step c cfg known st q))"
proof -
  obtain th db where st: "st = (th, db)" by (cases st)
  have own: "safe (guarded (require_owner c cfg db now r) h)" if "\<And>p db. safe db \<Longrightarrow> safe (h p db)" for now r h
    using assms st that by (intro safe_guarded) auto
  show ?thesis
  proof (cases q)
    case (Login now secs token r email pw)
    then show ?thesis using safe_login[OF assms] by simp
  next
    case (Logout now r)
    have "safe (guarded (authenticate_request c cfg db now r) (\<lambda>p db. logout db p))"
      using assms st by (intro safe_guarded) (auto simp: logout_def)
    then show ?thesis using Logout st by simp
  next
    case (Callback doms role cs secret now token ident)
    then show ?thesis using assms st by (auto intro!: safe_callback dest: safe_provisioner)
  next
    case (Create_user now r b)
    then show ?thesis using st own[OF safe_create_user] by simp
  next
    case (Update_user now r uid b)
    then show ?thesis using st own[OF safe_update_user] by simp
  next
    case (Disable_user now r uid)
    then show ?thesis using st own[OF safe_disable_user] by simp
  qed (use assms st in simp)
qed

lemma safe_run: "safe (snd st) \<Longrightarrow> safe (snd (foldl (admin_step c cfg known) st qs))"
  by (induction qs arbitrary: st) (simp_all add: safe_step)

lemma set_fields_id [simp]: "u_id (set_fields f u) = u_id u"
  by (simp add: set_fields_def)

lemma by_id_update:
  "by_id (fst (update_user_row db uid f)) i =
     map_option (\<lambda>u. if u_id u = uid then set_fields f u else u) (by_id db i)"
proof -
  have "find (\<lambda>u. u_id u = i) (map (\<lambda>u. if u_id u = uid then set_fields f u else u) us) =
      map_option (\<lambda>u. if u_id u = uid then set_fields f u else u) (find (\<lambda>u. u_id u = i) us)" for us
    by (induction us) auto
  then show ?thesis by (simp add: by_id_def update_user_row_def Let_def)
qed

lemma by_id_sessions [simp]:
  "by_id (db\<lparr>sessions := x\<rparr>) i = by_id db i" "by_id (delete_sessions_of db uid) i = by_id db i"
  by (simp_all add: by_id_def delete_sessions_of_def)

lemma by_id_SomeD: "by_id db i = Some u \<Longrightarrow> u_id u = i \<and> u \<in> set (users db)"
  by (auto simp: by_id_def find_Some_iff)

lemma deleted_sessions: "session_user (delete_sessions_of db uid) th now = Some u \<Longrightarrow> u_id u \<noteq> uid"
  unfolding session_user_def delete_sessions_of_def
  by (auto simp: find_Some_iff split: option.splits dest!: by_id_SomeD nth_mem)

lemma update_user_result:
  assumes "update_user c known uid b db = (db', Inr row)"
  shows "\<exists>f u. by_id db uid = Some u \<and> row = Some (set_fields f u) \<and>
    (up_disabled b = Some (Some True) \<longrightarrow> f_disabled f = Some True) \<and>
    (case up_role b of Some (Some r) \<Rightarrow> f_role f = Some r | _ \<Rightarrow> f_role f = None) \<and>
    db' = (if lasting_change f then delete_sessions_of (fst (update_user_row db uid f)) uid
           else fst (update_user_row db uid f)) \<and>
    (lasting_change f \<longleftrightarrow> (\<exists>x. up_role b = Some (Some x)) \<or> up_cities b \<noteq> None \<or>
       (\<exists>x. up_disabled b = Some (Some x)) \<or> (\<exists>x. up_password b = Some (Some x)))"
proof -
  obtain u where u: "by_id db uid = Some u" using assms by (cases "by_id db uid") (auto simp: update_user_def)
  obtain f0 where f0: "patch_fields known b = Inr f0"
    using assms u by (auto simp: update_user_def split: sum.splits)
  have nl: "\<not> (demotes f0 \<and> last_owner db uid)" using assms u f0 by (auto simp: update_user_def)
  obtain f where f: "(case up_password b of Some (Some p) \<Rightarrow>
                  (case hash_password c p of Inl e \<Rightarrow> Inl e | Inr h \<Rightarrow> Inr (f0\<lparr>f_hash := Some h\<rparr>))
                | _ \<Rightarrow> Inr f0) = Inr f"
    using assms u f0 nl by (auto simp: update_user_def split: sum.splits)
  have "snd (update_user_row db uid f) = Some (set_fields f u)"
    using by_id_update[of db uid f uid] u by_id_SomeD[OF u] by (simp add: update_user_row_def Let_def)
  then have res: "row = Some (set_fields f u)" "db' = (if lasting_change f then
      delete_sessions_of (fst (update_user_row db uid f)) uid else fst (update_user_row db uid f))"
    using assms u f0 nl f by (auto simp: update_user_def case_prod_beta Let_def)
  have r: "case up_role b of Some (Some r) \<Rightarrow> f_role f0 = Some r | _ \<Rightarrow> f_role f0 = None"
    and d: "f_disabled f0 = (case up_disabled b of Some (Some d) \<Rightarrow> Some d | _ \<Rightarrow> None)"
    and ci: "f_cities f0 = None \<longleftrightarrow> up_cities b = None" and h: "f_hash f0 = None"
    using f0 by (auto simp: patch_fields_def validate_role_def split: option.splits sum.splits if_splits)
  have "f_role f = f_role f0" "f_disabled f = f_disabled f0" "f_cities f = f_cities f0"
    "f_hash f \<noteq> None \<longleftrightarrow> (\<exists>x. up_password b = Some (Some x))"
    using f h by (auto split: option.splits sum.splits)
  with r d ci u res show ?thesis
    by (intro exI[of _ f] exI[of _ u]) (auto simp: lasting_change_def split: option.splits)
qed

text \<open>C2: A deployment never loses its last enabled owner: from any state with one, every sequence of
  sign-ins (password or provider, with or without domain provisioning), sign-outs, account creations,
  patches, disablings and clean-ups, handled one after the other, ends in a state with one.\<close>
theorem an_owner_always_remains:
  assumes "safe (snd st)"
  shows "has_owner (snd (foldl (admin_step c cfg known) st qs))"
  using safe_run[OF assms, of c cfg known qs] by (simp add: safe_def)

definition demo_crypto :: crypto where
  "demo_crypto = \<lparr>c_verify = (\<lambda>stored p. stored = rev p), c_needs_rehash = (\<lambda>_. False), c_argon = rev, c_sha = rev\<rparr>"

definition demo_settings :: admin_settings where
  "demo_settings = \<lparr>as_token_enabled = True, as_token = ''ci'', as_session_hours = 12\<rparr>"

definition demo_owner :: "nat \<Rightarrow> user" where
  "demo_owner i = \<lparr>u_id = i, u_email = ''o'' @ show_nat i @ ''@x.co'', u_hash = ''1-retteb-terces'', u_name = [],
     u_role = ''owner'', u_cities = [], u_disabled = False, u_created = 0, u_last_login = None\<rparr>"

definition demo_db :: auth_db where
  "demo_db = \<lparr>users = [demo_owner 1, demo_owner 2], sessions = [\<lparr>s_hash = ''1t'', s_user = 1, s_expires = 100, s_seen = 0\<rparr>,
     \<lparr>s_hash = ''2t'', s_user = 2, s_expires = 100, s_seen = 0\<rparr>], identities = [], next_id = 3\<rparr>"

definition bearer_request :: "string \<Rightarrow> request" where
  "bearer_request tok = \<lparr>r_authorization = Some (''Bearer '' @ tok), r_cookie = None, r_admin_token = None,
     r_host = None, r_city = None\<rparr>"

definition demo_throttle :: throttle where
  "demo_throttle = \<lparr>th_limit = 10, th_window = 300, th_fails = []\<rparr>"

lemma an_owner_always_remains_witness:
  "has_owner (snd (foldl (admin_step demo_crypto demo_settings []) (demo_throttle, demo_db)
     [Disable_user 1 (bearer_request ''t1'') 2, Disable_user 2 (bearer_request ''t1'') 1]))"
  by (rule an_owner_always_remains) (simp add: safe_def ids_ok_def has_owner_def demo_db_def demo_owner_def)

text \<open>C3: An accepted change of password, role, cities or enabled state takes effect at once: no session
  token issued before still opens the account.\<close>
theorem changes_revoke_sessions:
  assumes "update_user c known uid b db = (db', Inr row)"
    and "up_cities b \<noteq> None \<or> (\<exists>x. up_role b = Some (Some x)) \<or> (\<exists>x. up_disabled b = Some (Some x)) \<or>
         (\<exists>x. up_password b = Some (Some x))"
  shows "\<forall>th now. (case session_user db' th now of Some u \<Rightarrow> u_id u \<noteq> uid | None \<Rightarrow> True)"
proof -
  obtain f where "db' = (if lasting_change f then delete_sessions_of (fst (update_user_row db uid f)) uid
           else fst (update_user_row db uid f))" "lasting_change f"
    using update_user_result[OF assms(1)] assms(2) by blast
  then show ?thesis by (auto split: option.split dest: deleted_sessions)
qed

lemma changes_revoke_sessions_witness:
  "\<exists>db'. fst (update_user demo_crypto [] 2 \<lparr>up_name = None, up_role = Some (Some ''viewer''), up_cities = None,
      up_disabled = None, up_password = None\<rparr> demo_db) = db' \<and>
    (case session_user db' ''2t'' 1 of Some u \<Rightarrow> u_id u \<noteq> 2 | None \<Rightarrow> True)"
proof -
  let ?b = "\<lparr>up_name = None, up_role = Some (Some ''viewer''), up_cities = None, up_disabled = None, up_password = None\<rparr>"
  have "case snd (update_user demo_crypto [] 2 ?b demo_db) of Inr _ \<Rightarrow> True | Inl _ \<Rightarrow> False"
    by code_simp
  then obtain db' row where u: "update_user demo_crypto [] 2 ?b demo_db = (db', Inr row)"
    by (cases "update_user demo_crypto [] 2 ?b demo_db") (auto split: sum.splits)
  from changes_revoke_sessions[OF u] show ?thesis by (simp add: u)
qed

lemma find_touch_session:
  "find (\<lambda>s. s_hash s = th \<and> now < s_expires s) (sessions (touch_session db th' t)) =
   map_option (\<lambda>s. if s_hash s = th' then s\<lparr>s_seen := t\<rparr> else s)
     (find (\<lambda>s. s_hash s = th \<and> now < s_expires s) (sessions db))"
proof -
  have "find (\<lambda>s. s_hash s = th \<and> now < s_expires s) (map (\<lambda>s. if s_hash s = th' then s\<lparr>s_seen := t\<rparr> else s) ss) =
    map_option (\<lambda>s. if s_hash s = th' then s\<lparr>s_seen := t\<rparr> else s) (find (\<lambda>s. s_hash s = th \<and> now < s_expires s) ss)" for ss
    by (induction ss) auto
  then show ?thesis by (simp add: touch_session_def)
qed

definition current_account :: "crypto \<Rightarrow> auth_db \<Rightarrow> int \<Rightarrow> request \<Rightarrow> user option" where
  \<comment> \<open>the enabled account whose live session the request carries\<close>
  "current_account c db now r = (case bearer r of None \<Rightarrow> None
     | Some token \<Rightarrow> (case session_user db (c_sha c token) now of
         Some u \<Rightarrow> if u_disabled u then None else Some u | None \<Rightarrow> None))"

text \<open>C4: Who gets through, and with what role: a request passes \<open>require_editor\<close> exactly when it carries
  the live session of an enabled account that is admin or owner and in scope of the city in the path, or
  carries no session and the enabled machine token.  \<open>require_owner\<close> needs the live session of an
  enabled owner: the machine token never manages accounts.\<close>
theorem who_may_edit_and_manage:
  "((\<exists>p. snd (require_editor c cfg db now r) = Inr p) \<longleftrightarrow>
      (case current_account c db now r of
        Some u \<Rightarrow> u_role u \<in> {''admin'', ''machine'', ''owner''} \<and>
          (r_city r \<in> {None, Some []} \<or> u_cities u = [] \<or> the (r_city r) \<in> set (u_cities u))
      | None \<Rightarrow> bearer r = None \<and> truthy_str (r_admin_token r) \<and> as_token_enabled cfg \<and>
          r_admin_token r = Some (as_token cfg))) \<and>
   ((\<exists>p. snd (require_owner c cfg db now r) = Inr p) \<longleftrightarrow>
      (\<exists>u \<in> set_option (current_account c db now r). u_role u = ''owner''))"
proof -
  have rank2: "has_role (principal_from_user u h) ''admin'' \<longleftrightarrow> u_role u \<in> {''admin'', ''machine'', ''owner''}" for u h
    by (auto simp: has_role_def rank_def principal_from_user_def)
  have m: "has_role machine_principal ''admin''" "may_access machine_principal x" for x
    by (simp_all add: has_role_def rank_def machine_principal_def may_access_def)
  have own: "can_manage_users (principal_from_user u h) \<longleftrightarrow> u_role u = ''owner''"
    "\<not> can_manage_users machine_principal" for u h
    by (simp_all add: can_manage_users_def principal_from_user_def machine_principal_def)
  have acc: "may_access (principal_from_user u h) x \<longleftrightarrow> u_cities u = [] \<or> x \<in> set (u_cities u)" for u h x
    by (simp add: may_access_def principal_from_user_def)
  show ?thesis
  proof (cases "bearer r")
    case None
    then show ?thesis
      by (cases "r_city r"; cases "r_admin_token r")
        (auto simp: require_editor_def require_owner_def require_admin_def authenticate_request_def enforce_city_def
          current_account_def machine_def m own)
  next
    case (Some tok)
    then show ?thesis
      by (cases "r_city r"; cases "session_user db (c_sha c tok) now")
        (auto simp: require_editor_def require_owner_def require_admin_def authenticate_request_def enforce_city_def
          current_account_def rank2 own acc)
  qed
qed


definition one_per_provider :: "auth_db \<Rightarrow> bool" where
  "one_per_provider db = distinct (map (\<lambda>i. (i_user i, i_provider i)) (identities db))"

lemma one_per_provider_unique:
  "one_per_provider db \<Longrightarrow> x \<in> set (identities db) \<Longrightarrow> y \<in> set (identities db) \<Longrightarrow>
   i_user x = i_user y \<Longrightarrow> i_provider x = i_provider y \<Longrightarrow> x = y"
  by (auto simp: one_per_provider_def distinct_map inj_on_def)

lemma touch_identity_keys:
  "map (\<lambda>i. (i_user i, i_provider i)) (identities (touch_identity db p sub e now)) =
   map (\<lambda>i. (i_user i, i_provider i)) (identities db)"
  by (simp add: touch_identity_def)

lemma link_identity_result:
  assumes "link_identity db p sub uid e now = Inr db'" and "one_per_provider db"
  shows "users db' = users db \<and> one_per_provider db' \<and>
    (\<exists>l \<in> set (identities db'). i_provider l = p \<and> i_subject l = sub \<and> i_user l = uid) \<and>
    (\<forall>x \<in> set (identities db). \<not> (i_user x = uid \<and> i_provider x = p))"
  using assms by (auto simp: link_identity_def identity_for_user_def find_None_iff one_per_provider_def split: if_splits)

lemma touch_identity_result:
  assumes "identity db p sub = Some l" and "one_per_provider db"
  shows "users (touch_identity db p sub e now) = users db \<and> one_per_provider (touch_identity db p sub e now) \<and>
    (\<exists>l' \<in> set (identities (touch_identity db p sub e now)). i_provider l' = p \<and> i_subject l' = sub \<and> i_user l' = i_user l) \<and>
    (\<forall>x \<in> set (identities db). i_user x = i_user l \<and> i_provider x = p \<longrightarrow> i_subject x = sub)"
proof -
  from assms(1) have l: "l \<in> set (identities db)" "i_provider l = p" "i_subject l = sub"
    by (auto simp: identity_def find_Some_iff)
  have "l\<lparr>i_email := e, i_last_login := now\<rparr> \<in> set (identities (touch_identity db p sub e now))"
    using l by (force simp: touch_identity_def)
  then have "\<exists>l' \<in> set (identities (touch_identity db p sub e now)). i_provider l' = p \<and> i_subject l' = sub \<and> i_user l' = i_user l"
    using l(2,3) by (intro bexI[of _ "l\<lparr>i_email := e, i_last_login := now\<rparr>"]) simp_all
  moreover have "users (touch_identity db p sub e now) = users db" by (simp add: touch_identity_def)
  moreover have "\<forall>x \<in> set (identities db). i_user x = i_user l \<and> i_provider x = p \<longrightarrow> i_subject x = sub"
  proof (intro ballI impI)
    fix x assume x: "x \<in> set (identities db)" "i_user x = i_user l \<and> i_provider x = p"
    have "x = l" by (rule one_per_provider_unique[OF assms(2) x(1) l(1)]) (use x l in simp_all)
    with l show "i_subject x = sub" by simp
  qed
  moreover have "one_per_provider (touch_identity db p sub e now)"
    using assms(2) by (simp add: one_per_provider_def touch_identity_keys)
  ultimately show ?thesis by blast
qed



text \<open>A password opens an account only when it verifies against the stored digest of the enabled
  account of that address; on every failure the answer is the same and nothing is stored, and a
  re-hash of an outdated digest changes nothing but the digest.\<close>
theorem authenticate_sound:
  "case authenticate c db email pw of (db', res) \<Rightarrow>
     roster db' = roster db \<and> sessions db' = sessions db \<and> identities db' = identities db \<and>
     (case res of Inr (Some u) \<Rightarrow> by_email db email = Some u \<and> c_verify c (u_hash u) pw \<and> \<not> u_disabled u
      | Inr None \<Rightarrow> db' = db \<and> (case by_email db email of Some u \<Rightarrow> \<not> (c_verify c (u_hash u) pw \<and> \<not> u_disabled u) | None \<Rightarrow> True)
      | Inl e \<Rightarrow> db' = db)"
proof -
  have r: "roster (fst (update_user_row db i (no_fields\<lparr>f_hash := h\<rparr>))) = roster db" for i h
    by (auto simp: update_user_row_def Let_def roster_def set_fields_def no_fields_def)
  have "sessions (fst (update_user_row db i f)) = sessions db" "identities (fst (update_user_row db i f)) = identities db" for i f
    by (simp_all add: update_user_row_def Let_def)
  with r show ?thesis
    by (auto simp: authenticate_def split: option.split sum.split)
qed

end
