(* ===== verification/Geo.thy ===== *)
theory Geo
  imports Py_Text
begin

text \<open>
  \<open>app/geo.py\<close>: great-circle distance and bearing (over the reals, \<open>atan2 y x\<close> is the argument of
  \<open>x + i y\<close>), Douglas-Peucker simplification with its explicit stack, the encoded-polyline codec, and
  projection on a polyline.  Points are \<open>(lon, lat)\<close> as in the code.
\<close>

type_synonym point = "real \<times> real"

section \<open>Distances and bearings\<close>

definition radians :: "real \<Rightarrow> real" where "radians d = d * pi / 180"
definition degrees :: "real \<Rightarrow> real" where "degrees r = r * 180 / pi"
definition atan2 :: "real \<Rightarrow> real \<Rightarrow> real" where "atan2 y x = Arg (Complex x y)"

definition fmod :: "real \<Rightarrow> real \<Rightarrow> real" where
  \<comment> \<open>Python's \<open>%\<close> on floats\<close>
  "fmod x m = x - m * of_int (floor (x / m))"

definition haversine_m :: "real \<Rightarrow> real \<Rightarrow> real \<Rightarrow> real \<Rightarrow> real" where
  "haversine_m lat1 lon1 lat2 lon2 = (let r = 6371000; p1 = radians lat1; p2 = radians lat2; dp = p2 - p1;
     dl = radians (lon2 - lon1);
     a = sin (dp / 2) ^ 2 + cos p1 * cos p2 * sin (dl / 2) ^ 2
   in 2 * r * arcsin (sqrt a))"

definition initial_bearing :: "real \<Rightarrow> real \<Rightarrow> real \<Rightarrow> real \<Rightarrow> real" where
  "initial_bearing lat1 lon1 lat2 lon2 = (let f1 = radians lat1; f2 = radians lat2; dl = radians (lon2 - lon1);
     y = sin dl * cos f2; x = cos f1 * sin f2 - sin f1 * cos f2 * cos dl
   in fmod (degrees (atan2 y x) + 360) 360)"

definition circular_mean :: "real list \<Rightarrow> real option" where
  \<comment> \<open>\<open>None\<close>: the \<open>ValueError\<close> on an empty list\<close>
  "circular_mean bs = (if bs = [] then None else
     let x = sum_list (map (\<lambda>b. cos (radians b)) bs); y = sum_list (map (\<lambda>b. sin (radians b)) bs)
     in if \<bar>x\<bar> < 1 / 10 ^ 12 \<and> \<bar>y\<bar> < 1 / 10 ^ 12 then Some (fmod (last bs) 360)
        else Some (fmod (degrees (atan2 y x) + 360) 360))"

lemma fmod_range: "0 < m \<Longrightarrow> 0 \<le> fmod x m \<and> fmod x m < m"
proof -
  assume m: "0 < m"
  have "m * of_int (floor (x / m)) \<le> m * (x / m)" "m * (x / m) < m * (of_int (floor (x / m)) + 1)"
    using m by (intro mult_left_mono mult_strict_left_mono; linarith)+
  with m show ?thesis by (simp add: fmod_def distrib_left)
qed

section \<open>Douglas-Peucker\<close>

definition hypot :: "real \<Rightarrow> real \<Rightarrow> real" where "hypot x y = sqrt (x ^ 2 + y ^ 2)"

definition deviation :: "point list \<Rightarrow> nat \<Rightarrow> nat \<Rightarrow> nat \<Rightarrow> real" where
  \<comment> \<open>distance of point \<open>k\<close> from the chord \<open>i\<close>, \<open>j\<close>\<close>
  "deviation pts i j k = (let (x1, y1) = pts ! i; (x2, y2) = pts ! j; (x0, y0) = pts ! k;
     dx = x2 - x1; dy = y2 - y1; den = hypot dx dy
   in if 0 < den then \<bar>dy * x0 - dx * y0 + x2 * y1 - y2 * x1\<bar> / den else hypot (x0 - x1) (y0 - y1))"

fun farthest :: "(nat \<Rightarrow> real) \<Rightarrow> real \<Rightarrow> nat \<Rightarrow> nat list \<Rightarrow> real \<times> nat" where
  \<comment> \<open>the inner loop: the first index with the greatest deviation\<close>
  "farthest d best bi [] = (best, bi)"
| "farthest d best bi (k # ks) = (if best < d k then farthest d (d k) k ks else farthest d best bi ks)"

lemma farthest_ge: "best \<le> fst (farthest d best bi ks)"
proof (induction ks arbitrary: best bi)
  case (Cons a ks)
  then show ?case using Cons.IH[of "d a" a] by (auto intro: order_trans less_imp_le)
qed simp

lemma farthest_max: "k \<in> set ks \<Longrightarrow> d k \<le> fst (farthest d best bi ks)"
proof (induction ks arbitrary: best bi)
  case (Cons a ks)
  then show ?case using farthest_ge[of "d a" d a ks] farthest_ge[of best d bi ks]
    by (cases "k = a") (auto intro: order_trans)
qed simp

lemma farthest_in:
  "farthest d best bi ks = (best, bi) \<or> snd (farthest d best bi ks) \<in> set ks"
  by (induction ks arbitrary: best bi) (simp_all, metis snd_conv)

lemma farthest_index: "best < fst (farthest d best bi ks) \<Longrightarrow> snd (farthest d best bi ks) \<in> set ks"
  using farthest_in[of d best bi ks] by auto

fun stack_size :: "(nat \<times> nat) list \<Rightarrow> nat" where
  "stack_size [] = 0"
| "stack_size ((i, j) # st) = max 1 (2 * (j - i) - 1) + stack_size st"

lemma deviation_nonneg: "0 \<le> deviation pts i j k"
  by (auto simp: deviation_def Let_def hypot_def split: prod.split)

lemma farthest_split:
  assumes "farthest (deviation pts i j) (-1) 0 [i + 1..<j] = (best, bi)" and "\<not> j \<le> i + 1"
  shows "i < bi \<and> bi < j \<and> (\<forall>k. i < k \<and> k < j \<longrightarrow> deviation pts i j k \<le> best)"
proof -
  have "i + 1 \<in> set [i + 1..<j]" using assms(2) by simp
  from farthest_max[OF this, of "deviation pts i j" "-1" 0] have "0 \<le> best"
    using deviation_nonneg[of pts i j "i + 1"] assms(1) by simp
  then have "bi \<in> set [i + 1..<j]" using farthest_index[of "-1" "deviation pts i j" 0 "[i + 1..<j]"] assms(1) by simp
  moreover have "\<forall>k \<in> set [i + 1..<j]. deviation pts i j k \<le> best"
    using farthest_max[of _ "[i + 1..<j]" "deviation pts i j" "-1" 0] assms(1) by simp
  ultimately show ?thesis by simp
qed

function rdp_loop :: "point list \<Rightarrow> real \<Rightarrow> bool list \<Rightarrow> (nat \<times> nat) list \<Rightarrow> bool list" where
  \<comment> \<open>the \<open>while stack\<close> loop; the head of the list is the top of the stack\<close>
  "rdp_loop pts eps keep [] = keep"
| "rdp_loop pts eps keep ((i, j) # stack) = (if j \<le> i + 1 then rdp_loop pts eps keep stack
     else let (best, bi) = farthest (deviation pts i j) (-1) 0 [i + 1..<j] in
       if eps < best then rdp_loop pts eps (keep[bi := True]) ((bi, j) # (i, bi) # stack)
       else rdp_loop pts eps keep stack)"
  by pat_completeness auto
termination
proof (relation "measure (\<lambda>(pts, eps, keep, stack). stack_size stack)", goal_cases)
  case (3 pts eps keep i j stack x best bi)
  then have "farthest (deviation pts i j) (-1) 0 [i + 1..<j] = (best, bi)" by simp
  from farthest_split[OF this 3(1)] have "i < bi" "bi < j" by blast+
  then show ?case by (simp add: max_def; linarith)
qed simp_all

declare rdp_loop.simps [simp del]

definition kept :: "bool list \<Rightarrow> 'a list \<Rightarrow> 'a list" where
  "kept keep xs = map fst (filter snd (zip xs keep))"

definition rdp :: "point list \<Rightarrow> real \<Rightarrow> point list" where
  "rdp pts eps = (let n = length pts in
     if n < 3 then pts
     else kept (rdp_loop pts eps ((replicate n False)[0 := True, n - 1 := True]) [(0, n - 1)]) pts)"

definition chord_ok :: "point list \<Rightarrow> real \<Rightarrow> nat \<Rightarrow> nat \<Rightarrow> bool" where
  \<comment> \<open>every point between \<open>i\<close> and \<open>j\<close> is within \<open>eps\<close> of their chord\<close>
  "chord_ok pts eps i j = (\<forall>k. i < k \<and> k < j \<longrightarrow> deviation pts i j k \<le> eps)"

definition neighbours :: "bool list \<Rightarrow> nat \<Rightarrow> nat \<Rightarrow> bool" where
  \<comment> \<open>kept, with nothing kept in between\<close>
  "neighbours keep i j = (i < j \<and> j < length keep \<and> keep ! i \<and> keep ! j \<and> (\<forall>k. i < k \<and> k < j \<longrightarrow> \<not> keep ! k))"

definition rdp_inv :: "point list \<Rightarrow> real \<Rightarrow> bool list \<Rightarrow> (nat \<times> nat) list \<Rightarrow> bool" where
  "rdp_inv pts eps keep stack = (length keep = length pts \<and> distinct stack \<and> keep ! 0 \<and> keep ! (length pts - 1) \<and>
     (\<forall>(i, j) \<in> set stack. neighbours keep i j) \<and>
     (\<forall>i j. neighbours keep i j \<longrightarrow> (i, j) \<in> set stack \<or> chord_ok pts eps i j))"

lemma neighbours_split:
  assumes "neighbours keep i j" and "i < b" and "b < j"
  shows "neighbours (keep[b := True]) x y \<longleftrightarrow>
    (x, y) = (i, b) \<or> (x, y) = (b, j) \<or> (neighbours keep x y \<and> (x, y) \<noteq> (i, j))"
proof -
  have b: "b < length keep" "\<not> keep ! b" using assms by (auto simp: neighbours_def)
  have i: "keep ! i" "keep ! j" "j < length keep" "\<And>k. i < k \<Longrightarrow> k < j \<Longrightarrow> \<not> keep ! k"
    using assms(1) by (auto simp: neighbours_def)
  have up: "keep[b := True] ! k \<longleftrightarrow> k = b \<or> keep ! k" for k
    using b by (cases "k = b") auto
  show ?thesis
  proof
    assume n: "neighbours (keep[b := True]) x y"
    have ij: "\<not> (x < i \<and> i < y)" "\<not> (x < j \<and> j < y)" "\<not> (x < b \<and> b < y)" "x < y" "y < length keep"
      "x = b \<or> keep ! x" "y = b \<or> keep ! y" "\<And>k. x < k \<Longrightarrow> k < y \<Longrightarrow> \<not> keep ! k"
      using n i(1,2) up by (auto simp: neighbours_def)
    show "(x, y) = (i, b) \<or> (x, y) = (b, j) \<or> (neighbours keep x y \<and> (x, y) \<noteq> (i, j))"
    proof (cases "x = b \<or> y = b")
      case True
      then show ?thesis
      proof
        assume x: "x = b"
        then have "\<not> j < y" using ij(2) assms(3) by simp
        moreover have "\<not> y < j" using i(4)[of y] ij(4,7) x assms(2) by auto
        ultimately show ?thesis using x by simp
      next
        assume y: "y = b"
        then have "\<not> x < i" using ij(1) assms(2) by simp
        moreover have "\<not> i < x" using i(4)[of x] ij(4,6) y assms(3) by auto
        ultimately show ?thesis using y by simp
      qed
    next
      case False
      then show ?thesis using ij assms(2,3) by (auto simp: neighbours_def)
    qed
  next
    assume "(x, y) = (i, b) \<or> (x, y) = (b, j) \<or> (neighbours keep x y \<and> (x, y) \<noteq> (i, j))"
    then show "neighbours (keep[b := True]) x y"
    proof (elim disjE conjE)
      assume n: "neighbours keep x y" and ne: "(x, y) \<noteq> (i, j)"
      have "\<not> (x < b \<and> b < y)"
      proof
        assume xb: "x < b \<and> b < y"
        from n have nn: "keep ! x" "keep ! y" "\<And>k. x < k \<Longrightarrow> k < y \<Longrightarrow> \<not> keep ! k" by (auto simp: neighbours_def)
        have "\<not> i < x" using i(4)[of x] nn(1) xb assms(3) by auto
        moreover have "\<not> x < i" using nn(3)[of i] i(1) xb assms(2) by auto
        moreover have "\<not> y < j" using i(4)[of y] nn(2) xb assms(2) by auto
        moreover have "\<not> j < y" using nn(3)[of j] i(2) xb assms(3) by auto
        ultimately show False using ne by simp
      qed
      with n up show ?thesis by (auto simp: neighbours_def)
    qed (use assms b i up in \<open>auto simp: neighbours_def\<close>)
  qed
qed

lemma rdp_loop_inv:
  "rdp_inv pts eps keep stack \<Longrightarrow> rdp_inv pts eps (rdp_loop pts eps keep stack) []"
proof (induction pts eps keep stack rule: rdp_loop.induct)
  case (2 pts eps keep i j stack)
  note inv = 2(4)
  show ?case
  proof (cases "j \<le> i + 1")
    case True
    then have "chord_ok pts eps i j" by (auto simp: chord_ok_def)
    with inv have "rdp_inv pts eps keep stack" by (auto simp: rdp_inv_def)
    with 2(1) True show ?thesis by (simp add: rdp_loop.simps)
  next
    case False
    obtain best bi where f: "farthest (deviation pts i j) (-1) 0 [i + 1..<j] = (best, bi)"
      by (cases "farthest (deviation pts i j) (-1) 0 [i + 1..<j]")
    note sp = farthest_split[OF f False]
    have nb: "neighbours keep i j" using inv by (simp add: rdp_inv_def)
    show ?thesis
    proof (cases "eps < best")
      case True
      note split = neighbours_split[OF nb, of bi]
      have len: "length keep = length pts" and bi: "bi < length pts" using inv sp nb by (auto simp: rdp_inv_def neighbours_def)
      have fresh: "(i, bi) \<notin> set stack" "(bi, j) \<notin> set stack"
        using inv sp nb by (auto simp: rdp_inv_def neighbours_def)
      have "rdp_inv pts eps (keep[bi := True]) ((bi, j) # (i, bi) # stack)"
        unfolding rdp_inv_def
      proof (intro conjI)
        show "distinct ((bi, j) # (i, bi) # stack)" using fresh sp inv by (auto simp: rdp_inv_def)
        show "keep[bi := True] ! 0" "keep[bi := True] ! (length pts - 1)"
          using inv len bi by (auto simp: rdp_inv_def nth_list_update)
        show "\<forall>(x, y) \<in> set ((bi, j) # (i, bi) # stack). neighbours (keep[bi := True]) x y"
          using inv sp split by (auto simp: rdp_inv_def)
        show "\<forall>x y. neighbours (keep[bi := True]) x y \<longrightarrow>
            (x, y) \<in> set ((bi, j) # (i, bi) # stack) \<or> chord_ok pts eps x y"
          using inv sp split by (auto simp: rdp_inv_def)
      qed (use len in simp)
      with 2(2) False f True show ?thesis by (simp add: rdp_loop.simps)
    next
      case le: False
      then have "chord_ok pts eps i j" using sp by (force simp: chord_ok_def)
      with inv have "rdp_inv pts eps keep stack" by (auto simp: rdp_inv_def)
      with 2(3) False f le show ?thesis by (simp add: rdp_loop.simps)
    qed
  qed
qed (simp add: rdp_loop.simps)

definition kept_indices :: "bool list \<Rightarrow> nat list" where
  "kept_indices keep = filter (\<lambda>k. keep ! k) [0..<length keep]"

lemma kept_nth: "length keep = length xs \<Longrightarrow> kept keep xs = map (\<lambda>k. xs ! k) (kept_indices keep)"
proof (induction xs arbitrary: keep rule: rev_induct)
  case (snoc x xs)
  then obtain ks b where k: "keep = ks @ [b]" by (cases keep rule: rev_cases) auto
  with snoc have IH: "kept ks xs = map (\<lambda>k. xs ! k) (kept_indices ks)" and len: "length ks = length xs" by auto
  have "kept_indices (ks @ [b]) = kept_indices ks @ (if b then [length ks] else [])"
    by (auto simp: kept_indices_def nth_append intro: filter_cong)
  moreover have "map (\<lambda>k. (xs @ [x]) ! k) (kept_indices ks) = map (\<lambda>k. xs ! k) (kept_indices ks)"
    using len by (auto simp: kept_indices_def nth_append)
  ultimately show ?case using IH k len by (simp add: kept_def)
qed (simp add: kept_def kept_indices_def)

lemma consecutive_kept:
  assumes "Suc m < length (kept_indices keep)"
  shows "neighbours keep (kept_indices keep ! m) (kept_indices keep ! Suc m)"
proof -
  let ?s = "kept_indices keep"
  have srt: "sorted_wrt (<) ?s" by (simp add: kept_indices_def sorted_wrt_filter)
  have mem: "?s ! m \<in> set ?s" "?s ! Suc m \<in> set ?s" using assms by auto
  then have "keep ! (?s ! m)" "keep ! (?s ! Suc m)" "?s ! Suc m < length keep" by (auto simp: kept_indices_def)
  moreover have "?s ! m < ?s ! Suc m" using srt assms by (auto simp: sorted_wrt_iff_nth_less)
  moreover have "\<not> keep ! k" if k: "?s ! m < k" "k < ?s ! Suc m" for k
  proof
    assume "keep ! k"
    then have "k \<in> set ?s" using k \<open>?s ! Suc m < length keep\<close> by (simp add: kept_indices_def)
    then obtain q where q: "q < length ?s" "?s ! q = k" by (auto simp: in_set_conv_nth)
    have "\<not> q \<le> m" using q k(1) srt assms by (metis Suc_lessD le_neq_implies_less less_asym' sorted_wrt_nth_less)
    moreover have "\<not> Suc m \<le> q" using q k(2) srt by (metis le_neq_implies_less less_asym' sorted_wrt_nth_less)
    ultimately show False by simp
  qed
  ultimately show ?thesis by (simp add: neighbours_def)
qed

lemma kept_all: "kept_indices (replicate n True) = [0..<n]"
  by (auto simp: kept_indices_def intro: filter_True)

lemma rdp_start:
  "2 < length pts \<Longrightarrow> rdp_inv pts eps ((replicate (length pts) False)[0 := True, length pts - 1 := True]) [(0, length pts - 1)]"
proof -
  assume n: "2 < length pts"
  define K where "K = (replicate (length pts) False)[0 := True, length pts - 1 := True]"
  have len: "length K = length pts" by (simp add: K_def)
  have k: "K ! i \<longleftrightarrow> i = 0 \<or> i = length pts - 1" if "i < length pts" for i
    using that n unfolding K_def by (cases "i = 0"; cases "i = length pts - 1") (auto simp: nth_list_update)
  have ends: "K ! 0" "K ! (length pts - 1)" using n by (subst k; linarith)+
  have nb: "neighbours K 0 (length pts - 1)" using n k len ends by (auto simp: neighbours_def)
  have only: "i = 0 \<and> j = length pts - 1" if "neighbours K i j" for i j
  proof -
    have ij: "i < j" "j < length pts" "K ! i" "K ! j" "\<not> (i < 0 \<and> 0 < j)" using that len by (auto simp: neighbours_def)
    have "i = 0 \<or> i = length pts - 1" "j = 0 \<or> j = length pts - 1" using k[of i] k[of j] ij by auto
    with ij show ?thesis by linarith
  qed
  have "\<forall>i j. neighbours K i j \<longrightarrow> (i, j) \<in> set [(0, length pts - 1)] \<or> chord_ok pts eps i j"
    using only by simp
  then have "rdp_inv pts eps K [(0, length pts - 1)]" unfolding rdp_inv_def using len ends nb by simp
  then show ?thesis by (simp only: K_def)
qed

text \<open>The simplified line is the given line with points left out: it keeps the first and the last
  point and the order, and every point left out lies within the tolerance of the chord that replaced
  it.\<close>
theorem rdp_within_tolerance:
  assumes "pts \<noteq> []"
  shows "\<exists>idx. rdp pts eps = map (\<lambda>k. pts ! k) idx \<and> sorted_wrt (<) idx \<and> hd idx = 0 \<and> last idx = length pts - 1 \<and>
    (\<forall>m k. Suc m < length idx \<and> idx ! m < k \<and> k < idx ! Suc m \<longrightarrow> deviation pts (idx ! m) (idx ! Suc m) k \<le> eps)"
proof (cases "length pts < 3")
  case True
  then have "rdp pts eps = map (\<lambda>k. pts ! k) [0..<length pts]" by (simp add: rdp_def map_nth)
  moreover have "hd [0..<length pts] = 0" "last [0..<length pts] = length pts - 1"
    using assms by (simp_all add: hd_map last_conv_nth)
  ultimately show ?thesis by (intro exI[of _ "[0..<length pts]"]) auto
next
  case False
  define keep where "keep = rdp_loop pts eps ((replicate (length pts) False)[0 := True, length pts - 1 := True]) [(0, length pts - 1)]"
  let ?idx = "kept_indices keep"
  have inv: "rdp_inv pts eps keep []" unfolding keep_def using False by (intro rdp_loop_inv rdp_start) simp
  then have len: "length keep = length pts" by (simp add: rdp_inv_def)
  have eq: "rdp pts eps = map (\<lambda>k. pts ! k) ?idx"
    using False kept_nth[OF len] unfolding rdp_def Let_def keep_def by simp
  have ends: "keep ! 0" "keep ! (length pts - 1)" using inv by (simp_all add: rdp_inv_def)
  have up: "[0..<length keep] = 0 # [1..<length keep]" using len assms by (simp add: upt_conv_Cons)
  have hd: "hd ?idx = 0" using ends unfolding kept_indices_def up by simp
  have dn: "[0..<length keep] = [0..<length keep - 1] @ [length keep - 1]"
    using len assms by (metis length_greater_0_conv Suc_pred' upt_Suc_append zero_le)
  have lst: "last ?idx = length pts - 1" using ends len unfolding kept_indices_def dn by simp
  have "deviation pts (?idx ! m) (?idx ! Suc m) k \<le> eps"
    if "Suc m < length ?idx" "?idx ! m < k" "k < ?idx ! Suc m" for m k
    using consecutive_kept[OF that(1)] inv that by (auto simp: rdp_inv_def chord_ok_def)
  then show ?thesis using eq hd lst
    by (intro exI[of _ ?idx]) (auto simp: kept_indices_def sorted_wrt_filter)
qed

lemma rdp_within_tolerance_witness: "\<exists>idx. rdp [(0, 0), (1, 5), (2, 0)] 1 = map (\<lambda>k. [(0, 0), (1, 5), (2, 0)] ! k) idx \<and> hd idx = 0"
  using rdp_within_tolerance[of "[(0, 0), (1, 5), (2, 0)]" 1] by blast

section \<open>Projection on a polyline\<close>

text \<open>An offset of \<open>None\<close> is the code's infinity.\<close>

definition closer :: "real \<Rightarrow> real option \<Rightarrow> bool" where
  "closer off best = (case best of None \<Rightarrow> True | Some b \<Rightarrow> off < b)"

fun along_from :: "real \<Rightarrow> real \<Rightarrow> real \<Rightarrow> real \<Rightarrow> real option \<Rightarrow> real \<Rightarrow> real \<Rightarrow> point list \<Rightarrow> real \<times> real option" where
  "along_from kx ky px py best_off best_along cum ((alon, alat) # (blon, blat) # line) =
     (let ax = alon * kx; ay = alat * ky; bx = blon * kx; by' = blat * ky; dx = bx - ax; dy = by' - ay; seg = hypot dx dy in
      if seg = 0 then along_from kx ky px py best_off best_along cum ((blon, blat) # line)
      else let t = max 0 (min 1 (((px - ax) * dx + (py - ay) * dy) / (seg * seg)));
               off = hypot (px - (ax + t * dx)) (py - (ay + t * dy))
        in if closer off best_off
           then along_from kx ky px py (Some off) (cum + t * seg) (cum + seg) ((blon, blat) # line)
           else along_from kx ky px py best_off best_along (cum + seg) ((blon, blat) # line))"
| "along_from kx ky px py best_off best_along cum line = (best_along, best_off)"

definition along_track :: "point list \<Rightarrow> real \<Rightarrow> real \<Rightarrow> real \<times> real option" where
  "along_track line lon lat = (case line of [] \<Rightarrow> (0, None)
     | _ \<Rightarrow> let kx = 111320 * cos (radians lat); ky = 110540; px = lon * kx; py = lat * ky in
       (case line of [(x, y)] \<Rightarrow> (0, Some (hypot (px - x * kx) (py - y * ky)))
        | _ \<Rightarrow> along_from kx ky px py None 0 0 line))"

fun polyline_length_m :: "point list \<Rightarrow> real" where
  "polyline_length_m ((x1, y1) # (x2, y2) # pts) = haversine_m y1 x1 y2 x2 + polyline_length_m ((x2, y2) # pts)"
| "polyline_length_m _ = 0"

definition within_tol :: "real \<Rightarrow> point \<Rightarrow> point list \<Rightarrow> bool" where
  "within_tol tol p line = (case snd (along_track line (fst p) (snd p)) of None \<Rightarrow> False | Some off \<Rightarrow> off \<le> tol)"

definition coverage_fraction :: "point list \<Rightarrow> point list list \<Rightarrow> real \<Rightarrow> real" where
  "coverage_fraction pts lines tol = (if pts = [] \<or> lines = [] then 0
     else of_nat (length (filter (\<lambda>p. list_ex (within_tol tol p) lines) pts)) / of_nat (length pts))"

lemma coverage_fraction_bounds: "0 \<le> coverage_fraction pts lines tol \<and> coverage_fraction pts lines tol \<le> 1"
  by (auto simp: coverage_fraction_def divide_le_eq_1)

end
