(* ===== verification/Polyline.thy ===== *)
theory Polyline
  imports Geo "HOL-Library.Word"
begin

unbundle bit_operations_syntax

text \<open>
  The encoded-polyline codec of \<open>app/geo.py\<close>.  Python integers are \<open>int\<close>; the shifts and masks are the
  bit operations of the library.  Reading past the end of the string (an \<open>IndexError\<close>) is \<open>None\<close>.
\<close>

definition ord :: "char \<Rightarrow> int" where "ord c = int (of_char c)"
definition chr :: "int \<Rightarrow> char" where "chr n = char_of (nat n)"

definition zigzag :: "int \<Rightarrow> int" where
  "zigzag v = (if v < 0 then NOT (push_bit 1 v) else push_bit 1 v)"

function enc_chunks :: "int \<Rightarrow> string" where
  "enc_chunks v = (if 32 \<le> v then chr ((32 OR (v AND 31)) + 63) # enc_chunks (drop_bit 5 v) else [chr (v + 63)])"
  by pat_completeness auto
termination
  by (relation "measure nat") (auto simp: drop_bit_eq_div)

declare enc_chunks.simps [simp del]

definition enc :: "int \<Rightarrow> string" where
  "enc v = enc_chunks (zigzag v)"

fun encode_from :: "int \<Rightarrow> int \<Rightarrow> (int \<times> int) list \<Rightarrow> string" where
  \<comment> \<open>the loop, on points already in units of 1e-5 (\<open>(lon, lat)\<close>)\<close>
  "encode_from plat plon [] = []"
| "encode_from plat plon ((lo, la) # pts) = enc (la - plat) @ enc (lo - plon) @ encode_from la lo pts"

definition quantise :: "point \<Rightarrow> int \<times> int" where
  "quantise p = (py_round (fst p * 10 ^ 5), py_round (snd p * 10 ^ 5))"

definition encode_polyline :: "point list \<Rightarrow> string" where
  "encode_polyline pts = encode_from 0 0 (map quantise pts)"

fun dec_chunks :: "nat \<Rightarrow> int \<Rightarrow> string \<Rightarrow> (int \<times> string) option" where
  "dec_chunks shift result [] = None"
| "dec_chunks shift result (c # s) = (let b = ord c - 63; result' = result OR push_bit shift (b AND 31) in
     if b < 32 then Some (result', s) else dec_chunks (shift + 5) result' s)"

definition unzigzag :: "int \<Rightarrow> int" where
  "unzigzag r = (if r AND 1 \<noteq> 0 then NOT (drop_bit 1 r) else drop_bit 1 r)"

definition dec :: "string \<Rightarrow> (int \<times> string) option" where
  "dec s = map_option (\<lambda>(r, rest). (unzigzag r, rest)) (dec_chunks 0 0 s)"

lemma dec_chunks_shorter: "dec_chunks sh r s = Some (x, s') \<Longrightarrow> length s' < length s"
  by (induction sh r s rule: dec_chunks.induct) (auto simp: Let_def split: if_splits, fastforce)

lemma dec_shorter: "dec s = Some (d, s') \<Longrightarrow> length s' < length s"
  by (auto simp: dec_def dest: dec_chunks_shorter)

function decode_from :: "int \<Rightarrow> int \<Rightarrow> string \<Rightarrow> (int \<times> int) list option" where
  "decode_from lat lon s = (if s = [] then Some [] else
     case dec s of None \<Rightarrow> None | Some (dlat, s1) \<Rightarrow>
     (case dec s1 of None \<Rightarrow> None | Some (dlon, s2) \<Rightarrow>
       map_option (\<lambda>pts. (lon + dlon, lat + dlat) # pts) (decode_from (lat + dlat) (lon + dlon) s2)))"
  by pat_completeness auto
termination
  by (relation "measure (\<lambda>(lat, lon, s). length s)") (auto dest!: dec_shorter)

declare decode_from.simps [simp del]

definition decode_polyline :: "string \<Rightarrow> point list option" where
  "decode_polyline s = map_option (map (\<lambda>(lo, la). (of_int lo / 10 ^ 5, of_int la / 10 ^ 5))) (decode_from 0 0 s)"

section \<open>Round trip\<close>

lemma and_31: "(v :: int) AND 31 = v mod 32"
proof -
  have "mask 5 = (31 :: int)" by (simp add: mask_eq_exp_minus_1)
  then show ?thesis using take_bit_eq_mask[of 5 v] by (simp add: take_bit_eq_mod)
qed

lemma or_high:
  assumes "0 \<le> (r :: int)" and "r < 2 ^ n"
  shows "r OR push_bit n x = r + x * 2 ^ n"
proof -
  have r: "take_bit n r = r" using assms by (simp add: take_bit_eq_mod)
  have "\<not> (bit r k \<and> n \<le> k)" for k
    using bit_take_bit_iff[of n r k] r by auto
  then have "r AND push_bit n x = 0" by (intro bit_eqI) (auto simp: bit_and_iff bit_push_bit_iff)
  then show ?thesis by (simp add: disjunctive_add_eq_or[symmetric] push_bit_eq_mult)
qed

lemma or_32: "0 \<le> (x :: int) \<Longrightarrow> x < 32 \<Longrightarrow> 32 OR x = 32 + x"
  using or_high[of x 5 1] by (simp add: push_bit_eq_mult or.commute)

lemma ord_chr: "0 \<le> n \<Longrightarrow> n < 256 \<Longrightarrow> ord (chr n) = n"
  by (simp add: ord_def chr_def of_char_of)

lemma dec_enc_chunks:
  assumes "0 \<le> v" and "0 \<le> r" and "r < 2 ^ sh"
  shows "dec_chunks sh r (enc_chunks v @ rest) = Some (r + v * 2 ^ sh, rest)"
  using assms
proof (induction v arbitrary: r sh rule: enc_chunks.induct)
  case (1 v)
  show ?case
  proof (cases "32 \<le> v")
    case True
    let ?x = "v mod 32"
    have x: "0 \<le> ?x" "?x < 32" by simp_all
    have o: "ord (chr (32 + ?x + 63)) = 32 + ?x + 63" using x by (intro ord_chr) linarith+
    have "(32 + ?x) AND 31 = ?x" using x by (simp add: and_31)
    then have st: "r OR push_bit sh ((32 + ?x) AND 31) = r + ?x * 2 ^ sh" using or_high[OF 1(3,4)] by simp
    have "?x * 2 ^ sh \<le> 31 * 2 ^ sh" by (intro mult_right_mono) (use x in linarith, simp)
    moreover have "(2 :: int) ^ (sh + 5) = 31 * 2 ^ sh + 2 ^ sh" by (simp add: power_add)
    ultimately have b: "r + ?x * 2 ^ sh < 2 ^ (sh + 5)" using 1(4) by linarith
    have b0: "0 \<le> r + ?x * 2 ^ sh" using 1(3) x(1) by simp
    have "dec_chunks sh r (enc_chunks v @ rest) = dec_chunks (sh + 5) (r + ?x * 2 ^ sh) (enc_chunks (v div 32) @ rest)"
      using True o st x(1)[folded not_less] by (subst enc_chunks.simps) (simp add: and_31 or_32 drop_bit_eq_div Let_def)
    also have "\<dots> = Some (r + ?x * 2 ^ sh + v div 32 * 2 ^ (sh + 5), rest)"
      using 1(1)[OF True] b b0 1(2) by (simp add: drop_bit_eq_div)
    also have "r + ?x * 2 ^ sh + v div 32 * 2 ^ (sh + 5) = r + (?x + 32 * (v div 32)) * 2 ^ sh"
      unfolding power_add distrib_right by (simp only: mult.assoc mult.commute mult.left_commute power_numeral
          add.assoc) simp
    also have "?x + 32 * (v div 32) = v" by (rule mod_mult_div_eq)
    finally show ?thesis .
  next
    case False
    then have "ord (chr (v + 63)) = v + 63" using 1(2) by (intro ord_chr) linarith+
    moreover have "v AND 31 = v" using False 1(2) by (simp add: and_31)
    ultimately show ?thesis using False or_high[OF 1(3,4), of v]
      by (subst enc_chunks.simps) (simp add: Let_def push_bit_and[symmetric] del: push_bit_and)
  qed
qed

lemma zigzag_nonneg: "0 \<le> zigzag v"
  by (simp add: zigzag_def push_bit_eq_mult not_int_def)

lemma unzigzag_zigzag: "unzigzag (zigzag v) = v"
proof (cases "v < 0")
  case True
  have z: "zigzag v = 2 * (- v - 1) + 1" using True by (simp add: zigzag_def push_bit_eq_mult not_int_def)
  have "(2 * (- v - 1) + 1) AND 1 = (1 :: int)" unfolding and_one_eq by presburger
  moreover have "drop_bit 1 (2 * (- v - 1) + 1) = - v - (1 :: int)" by (simp add: drop_bit_eq_div)
  ultimately show ?thesis unfolding z unzigzag_def by (simp add: not_int_def)
next
  case False
  then show ?thesis by (simp add: zigzag_def unzigzag_def push_bit_eq_mult drop_bit_eq_div and_one_eq)
qed

lemma dec_enc: "dec (enc v @ rest) = Some (v, rest)"
  using dec_enc_chunks[OF zigzag_nonneg[of v], of 0 0 rest] by (simp add: dec_def enc_def unzigzag_zigzag)

lemma enc_nonempty: "enc v \<noteq> []"
  by (simp add: enc_def enc_chunks.simps)

lemma decode_encode_from: "decode_from lat lon (encode_from lat lon pts) = Some pts"
proof (induction pts arbitrary: lat lon)
  case (Cons p pts)
  obtain lo la where p: "p = (lo, la)" by (cases p)
  show ?case by (subst decode_from.simps) (simp add: p enc_nonempty dec_enc Cons)
qed (simp add: decode_from.simps)

text \<open>C35: Decoding an encoded line gives back its points rounded to five decimals, for every line.\<close>
theorem polyline_roundtrip:
  "decode_polyline (encode_polyline pts) =
     Some (map (\<lambda>p. (of_int (py_round (fst p * 10 ^ 5)) / 10 ^ 5, of_int (py_round (snd p * 10 ^ 5)) / 10 ^ 5)) pts)"
  by (simp add: decode_polyline_def encode_polyline_def decode_encode_from quantise_def comp_def)

end
