(* ===== verification/Network.thy ===== *)
theory Network
  imports Polyline
begin

text \<open>
  What the network map shows once: \<open>app/network_dedupe.py\<close> (shapes that repeat a street) and
  \<open>app/route_merge.py\<close> (routes a feed lists more than once).
\<close>

section \<open>\<open>route_merge.py\<close>\<close>

record route_row =
  rr_id :: "string option"
  rr_component :: "string option"
  rr_short :: "string option"
  rr_long :: "string option"
  rr_mode :: "string option"
  rr_merged :: "string list option"

type_synonym route_key = "string option \<times> string \<times> string \<times> string option"

definition route_key_of :: "route_row \<Rightarrow> route_key" where
  "route_key_of r = (rr_component r, strip (or_else (rr_short r) []), strip (or_else (rr_long r) []), rr_mode r)"

definition unnamed :: "route_row \<Rightarrow> bool" where
  "unnamed r = (case route_key_of r of (_, short, long, _) \<Rightarrow> short = [] \<and> long = [])"

definition id_text :: "route_row \<Rightarrow> string" where
  \<comment> \<open>\<open>str(r.get("id"))\<close>\<close>
  "id_text r = (case rr_id r of None \<Rightarrow> ''None'' | Some i \<Rightarrow> i)"

definition merge_group :: "route_row list \<Rightarrow> route_row" where
  "merge_group rows = (case sort_key (\<lambda>r. or_else (rr_id r) []) rows of
     [] \<Rightarrow> undefined
   | h # t \<Rightarrow> if t \<noteq> [] then h\<lparr>rr_merged := Some (map id_text t)\<rparr> else h)"

definition merge_duplicate_routes :: "route_row list \<Rightarrow> route_row list" where
  "merge_duplicate_routes routes =
     map (\<lambda>(k, rows). merge_group rows) (group_by route_key_of (filter (\<lambda>r. \<not> unnamed r) routes))
     @ filter unnamed routes"

definition ids_shown :: "route_row \<Rightarrow> string list" where
  \<comment> \<open>the ids a row answers for\<close>
  "ids_shown r = id_text r # or_else (rr_merged r) []"

lemma merge_group_ids:
  assumes "rows \<noteq> []" and "\<forall>r \<in> set rows. rr_merged r = None"
  shows "mset (ids_shown (merge_group rows)) = mset (map id_text rows)"
proof (cases "sort_key (\<lambda>r. or_else (rr_id r) []) rows")
  case Nil
  then show ?thesis using assms(1) by (metis length_0_conv length_sort)
next
  case (Cons h t)
  then have "h \<in> set rows" by (metis list.set_intros(1) set_sort_key)
  then have "rr_merged h = None" using assms(2) by blast
  then have "mset (ids_shown (merge_group rows)) = mset (map id_text (sort_key (\<lambda>r. or_else (rr_id r) []) rows))"
    using Cons by (cases t) (simp_all add: merge_group_def ids_shown_def id_text_def)
  then show ?thesis by (simp only: mset_map mset_sort)
qed

lemma merge_group_key:
  assumes "rows \<noteq> []" and "\<forall>r \<in> set rows. route_key_of r = k"
  shows "route_key_of (merge_group rows) = k"
proof (cases "sort_key (\<lambda>r. or_else (rr_id r) []) rows")
  case Nil
  then show ?thesis using assms(1) by (metis length_0_conv length_sort)
next
  case (Cons h t)
  then have "h \<in> set rows" by (metis list.set_intros(1) set_sort_key)
  with assms(2) Cons show ?thesis by (auto simp: merge_group_def route_key_of_def)
qed

lemma map_groups_key:
  assumes "\<And>k ys. (k, ys) \<in> set g \<Longrightarrow> key (h ys) = k"
  shows "map key (map (\<lambda>(k, ys). h ys) g) = map fst g"
  using assms by (induction g) auto

lemma mset_ids_groups:
  assumes "\<And>k ys. (k, ys) \<in> set g \<Longrightarrow> mset (ids_shown (h ys)) = mset (map id_text ys)"
  shows "mset (concat (map ids_shown (map (\<lambda>(k, ys). h ys) g))) = mset (map id_text (concat (map snd g)))"
  using assms
proof (induction g)
  case (Cons p g)
  obtain k ys where p: "p = (k, ys)" by (cases p)
  have "mset (ids_shown (h ys)) = mset (map id_text ys)" using Cons.prems[of k ys] p by simp
  moreover have "mset (concat (map ids_shown (map (\<lambda>(k, ys). h ys) g))) = mset (map id_text (concat (map snd g)))"
    using Cons.prems by (intro Cons.IH) auto
  ultimately show ?case using p by simp
qed simp

text \<open>Merging duplicated routes loses nothing and shows nothing twice: every route id of the feed is
  answered for exactly once (as a row's id or among its \<open>mergedIds\<close>), no two rows a rider sees named
  are alike in component, names and mode, and the rows without a name come last, unmerged.\<close>
theorem merge_duplicate_routes_partition:
  assumes "\<forall>r \<in> set routes. rr_merged r = None"
  shows "mset (concat (map ids_shown (merge_duplicate_routes routes))) = mset (map id_text routes) \<and>
    distinct (map route_key_of (filter (\<lambda>r. \<not> unnamed r) (merge_duplicate_routes routes))) \<and>
    filter unnamed (merge_duplicate_routes routes) = filter unnamed routes"
proof -
  let ?named = "filter (\<lambda>r. \<not> unnamed r) routes"
  let ?g = "group_by route_key_of ?named"
  let ?rows = "map (\<lambda>(k, rows). merge_group rows) ?g"
  have mem: "ys \<noteq> [] \<and> (\<forall>r \<in> set ys. route_key_of r = k \<and> r \<in> set ?named)" if "(k, ys) \<in> set ?g" for k ys
    using that group_by_nonempty group_by_sub by metis
  have keys: "map route_key_of ?rows = map fst ?g"
  proof (rule map_groups_key)
    fix k ys assume "(k, ys) \<in> set ?g"
    from mem[OF this] show "route_key_of (merge_group ys) = k" by (intro merge_group_key) auto
  qed
  have named: "\<not> unnamed r" if "r \<in> set ?rows" for r
  proof -
    obtain k ys where ky: "(k, ys) \<in> set ?g" "r = merge_group ys" using \<open>r \<in> set ?rows\<close> by auto
    obtain x where x: "x \<in> set ys" using mem[OF ky(1)] by (cases ys) auto
    have "route_key_of r = route_key_of x" using merge_group_key[of ys k] mem[OF ky(1)] ky(2) x by auto
    moreover have "\<not> unnamed x" using mem[OF ky(1)] x by auto
    ultimately show ?thesis by (simp add: unnamed_def)
  qed
  have "mset (concat (map ids_shown ?rows)) = mset (map id_text (concat (map snd ?g)))"
  proof (rule mset_ids_groups)
    fix k ys assume "(k, ys) \<in> set ?g"
    note m = mem[OF this]
    have "rr_merged r = None" if "r \<in> set ys" for r using m that assms by simp
    with m show "mset (ids_shown (merge_group ys)) = mset (map id_text ys)" by (intro merge_group_ids) blast+
  qed
  also have "\<dots> = image_mset id_text (mset ?named)" by (simp only: mset_map mset_concat_groups)
  finally have ids: "mset (concat (map ids_shown ?rows)) = mset (map id_text ?named)" by simp
  have "concat (map ids_shown (filter unnamed routes)) = map id_text (filter unnamed routes)"
    using assms by (induction routes) (auto simp: ids_shown_def)
  moreover have "image_mset id_text (mset ?named) + image_mset id_text (mset (filter unnamed routes)) =
      image_mset id_text (mset routes)"
    by (metis image_mset_union mset_filter multiset_partition union_commute)
  ultimately have "mset (concat (map ids_shown (merge_duplicate_routes routes))) = mset (map id_text routes)"
    using ids by (simp add: merge_duplicate_routes_def)
  moreover have fe: "filter unnamed ?rows = []" by (rule filter_False) (use named in blast)
  moreover have ft: "filter (\<lambda>r. \<not> unnamed r) ?rows = ?rows" by (rule filter_True) (use named in blast)
  have "filter (\<lambda>r. \<not> unnamed r) (merge_duplicate_routes routes) = ?rows"
    unfolding merge_duplicate_routes_def filter_append ft by simp
  then have "distinct (map route_key_of (filter (\<lambda>r. \<not> unnamed r) (merge_duplicate_routes routes)))"
    using distinct_group_keys[of route_key_of ?named] by (simp only: keys)
  moreover have "filter unnamed (merge_duplicate_routes routes) = filter unnamed routes"
    unfolding merge_duplicate_routes_def filter_append fe by simp
  ultimately show ?thesis by blast
qed

lemma merge_duplicate_routes_partition_witness:
  "mset (concat (map ids_shown (merge_duplicate_routes
     (map (\<lambda>i. \<lparr>rr_id = Some i, rr_component = None, rr_short = Some ''BRBD '', rr_long = None, rr_mode = None, rr_merged = None\<rparr>)
       [''r2'', ''r1''])))) = {#''r1'', ''r2''#}"
  by (subst conjunct1[OF merge_duplicate_routes_partition]) (simp_all add: id_text_def)

section \<open>\<open>network_dedupe.py\<close>\<close>

record shape_in =
  si_id :: string
  si_route :: "string option"
  si_group :: string
  si_encoded :: string

record shape_out =
  so_canonical :: bool
  so_canonical_id :: "string option"
  so_length :: int
  so_covered :: real
  so_represents :: "string list"

type_synonym shape_table = "(string \<times> shape_out) list"

definition route_name :: "shape_in \<Rightarrow> string" where
  \<comment> \<open>\<open>m.route_id or m.shape_id\<close>\<close>
  "route_name m = (if truthy_str (si_route m) then the (si_route m) else si_id m)"

definition add_represented :: "string \<Rightarrow> string \<Rightarrow> shape_table \<Rightarrow> shape_table" where
  \<comment> \<open>\<open>out[sid].represents.append(r)\<close>\<close>
  "add_represented sid r out = AList.map_entry sid (\<lambda>o'. o'\<lparr>so_represents := so_represents o' @ [r]\<rparr>) out"

record dedupe_state =
  ds_kept :: "shape_in list"
  ds_encoded :: "(string \<times> string) list"
  ds_out :: shape_table

definition dedupe_step :: "(string \<Rightarrow> point list) \<Rightarrow> (string \<Rightarrow> real) \<Rightarrow> real \<Rightarrow> real \<Rightarrow> shape_in \<Rightarrow> dedupe_state \<Rightarrow> dedupe_state" where
  \<comment> \<open>the body of \<open>for m in members\<close>; the tables of decoded shapes and lengths are lookups\<close>
  "dedupe_step decoded len coverage tol m s = (let pts = decoded (si_id m); L = floor (len (si_id m)) in
     case map_of (ds_encoded s) (si_encoded m) of
       Some twin \<Rightarrow> s\<lparr>ds_out := add_represented twin (route_name m)
           (AList.update (si_id m) \<lparr>so_canonical = False, so_canonical_id = Some twin, so_length = L,
              so_covered = 1, so_represents = []\<rparr> (ds_out s))\<rparr>
     | None \<Rightarrow>
       let cov = (if ds_kept s = [] then 0 else coverage_fraction pts (map (\<lambda>k. decoded (si_id k)) (ds_kept s)) tol) in
       case max_by (\<lambda>k. coverage_fraction pts [decoded (si_id k)] tol) (ds_kept s) of
         Some best \<Rightarrow> if coverage \<le> cov
           then s\<lparr>ds_out := add_represented (si_id best) (route_name m)
             (AList.update (si_id m) \<lparr>so_canonical = False, so_canonical_id = Some (si_id best), so_length = L,
                so_covered = cov, so_represents = []\<rparr> (ds_out s))\<rparr>
           else s\<lparr>ds_kept := ds_kept s @ [m], ds_encoded := AList.update (si_encoded m) (si_id m) (ds_encoded s),
             ds_out := AList.update (si_id m) \<lparr>so_canonical = True, so_canonical_id = None, so_length = L,
                so_covered = cov, so_represents = [route_name m]\<rparr> (ds_out s)\<rparr>
       | None \<Rightarrow> s\<lparr>ds_kept := ds_kept s @ [m], ds_encoded := AList.update (si_encoded m) (si_id m) (ds_encoded s),
             ds_out := AList.update (si_id m) \<lparr>so_canonical = True, so_canonical_id = None, so_length = L,
                so_covered = cov, so_represents = [route_name m]\<rparr> (ds_out s)\<rparr>)"

definition dedupe_group :: "real \<Rightarrow> real \<Rightarrow> shape_in list \<Rightarrow> shape_table \<Rightarrow> shape_table option" where
  \<comment> \<open>one group; \<open>None\<close> when a shape does not decode\<close>
  "dedupe_group coverage tol members out =
     (if list_ex (\<lambda>m. decode_polyline (si_encoded m) = None) members then None
      else let table = rev (map (\<lambda>m. (si_id m, the (decode_polyline (si_encoded m)))) members);
               decoded = (\<lambda>sid. or_else (map_of table sid) []);
               len = (\<lambda>sid. polyline_length_m (decoded sid));
               ordered = sort_key (\<lambda>m. (- len (si_id m), si_id m)) members
        in Some (ds_out (fold (dedupe_step decoded len coverage tol) ordered
             \<lparr>ds_kept = [], ds_encoded = [], ds_out = out\<rparr>)))"

fun dedupe_groups :: "real \<Rightarrow> real \<Rightarrow> (string \<times> shape_in list) list \<Rightarrow> shape_table \<Rightarrow> shape_table option" where
  "dedupe_groups coverage tol [] out = Some out"
| "dedupe_groups coverage tol ((g, members) # gs) out = (case dedupe_group coverage tol members out of
     None \<Rightarrow> None | Some out' \<Rightarrow> dedupe_groups coverage tol gs out')"

definition dedupe_shapes :: "shape_in list \<Rightarrow> real \<Rightarrow> real \<Rightarrow> shape_table option" where
  "dedupe_shapes shapes coverage tol = dedupe_groups coverage tol (group_by si_group shapes) []"

text \<open>What the table says while the shapes in \<open>seen\<close> have been handled.\<close>

definition table_ok :: "shape_table \<Rightarrow> shape_in list \<Rightarrow> bool" where
  "table_ok out seen \<longleftrightarrow> distinct (map fst out) \<and> fst ` set out = si_id ` set seen \<and>
     (\<forall>sid o'. map_of out sid = Some o' \<longrightarrow>
        (if so_canonical o' then so_canonical_id o' = None
         else so_represents o' = [] \<and> (\<exists>c oc. so_canonical_id o' = Some c \<and> map_of out c = Some oc \<and> so_canonical oc))) \<and>
     mset (concat (map (so_represents \<circ> snd) out)) = mset (map route_name seen)"

definition state_ok :: "dedupe_state \<Rightarrow> bool" where
  "state_ok s \<longleftrightarrow> (\<forall>k \<in> set (ds_kept s). \<exists>o'. map_of (ds_out s) (si_id k) = Some o' \<and> so_canonical o') \<and>
     (\<forall>e c. map_of (ds_encoded s) e = Some c \<longrightarrow> (\<exists>o'. map_of (ds_out s) c = Some o' \<and> so_canonical o'))"

lemma map_of_add_represented:
  "map_of (add_represented c r out) sid =
     (if sid = c then map_option (\<lambda>o'. o'\<lparr>so_represents := so_represents o' @ [r]\<rparr>) (map_of out sid) else map_of out sid)"
  by (simp add: add_represented_def map_of_map_entry split: option.split)

lemma keys_add_represented [simp]: "map fst (add_represented c r out) = map fst out"
  unfolding add_represented_def by (induction out) auto

lemma represents_add:
  "distinct (map fst out) \<Longrightarrow> c \<in> fst ` set out \<Longrightarrow>
   mset (concat (map (so_represents \<circ> snd) (add_represented c r out))) =
   add_mset r (mset (concat (map (so_represents \<circ> snd) out)))"
proof (induction out)
  case (Cons x out)
  have "add_represented c r out = out" if "c \<notin> fst ` set out"
    using that unfolding add_represented_def by (induction out) auto
  with Cons show ?case by (cases x) (auto simp: add_represented_def)
qed simp

definition canonical_in :: "shape_table \<Rightarrow> string \<Rightarrow> bool" where
  "canonical_in out sid = (\<exists>o'. map_of out sid = Some o' \<and> so_canonical o')"

lemma state_ok_canonical: "state_ok s \<longleftrightarrow> (\<forall>k \<in> set (ds_kept s). canonical_in (ds_out s) (si_id k)) \<and>
     (\<forall>e c. map_of (ds_encoded s) e = Some c \<longrightarrow> canonical_in (ds_out s) c)"
  by (simp add: state_ok_def canonical_in_def)

lemma map_of_snoc: "sid \<notin> fst ` set out \<Longrightarrow>
    map_of (out @ [(sid, row)]) k = (if k = sid then Some row else map_of out k)"
proof -
  assume "sid \<notin> fst ` set out"
  then have "map_of out sid = None" by (simp add: map_of_eq_None_iff)
  then show ?thesis by (auto simp: map_add_def split: option.split)
qed

lemma table_keep:
  assumes "table_ok out seen" and "si_id m \<notin> fst ` set out" and "so_canonical row" and "so_canonical_id row = None"
    and "so_represents row = [route_name m]"
  shows "table_ok (AList.update (si_id m) row out) (m # seen) \<and> canonical_in (AList.update (si_id m) row out) (si_id m) \<and>
    (\<forall>c. canonical_in out c \<longrightarrow> canonical_in (AList.update (si_id m) row out) c)"
proof -
  let ?out = "out @ [(si_id m, row)]"
  have mo: "map_of ?out k = (if k = si_id m then Some row else map_of out k)" for k by (rule map_of_snoc[OF assms(2)])
  have ne: "map_of out c = Some oc \<Longrightarrow> c \<noteq> si_id m" for c oc using assms(2) by (auto dest: map_of_SomeD intro: rev_image_eqI)
  have "table_ok ?out (m # seen)"
    unfolding table_ok_def mo
  proof (intro conjI allI impI)
    fix sid o' assume "(if sid = si_id m then Some row else map_of out sid) = Some o'"
    then show "if so_canonical o' then so_canonical_id o' = None else so_represents o' = [] \<and>
        (\<exists>c oc. so_canonical_id o' = Some c \<and> (if c = si_id m then Some row else map_of out c) = Some oc \<and> so_canonical oc)"
      using assms(1,3,4) ne unfolding table_ok_def by (metis option.inject)
  qed (use assms in \<open>auto simp: table_ok_def\<close>)
  moreover have "canonical_in ?out (si_id m)" using assms(3) unfolding canonical_in_def mo by simp
  moreover have "canonical_in ?out c" if "canonical_in out c" for c using that ne unfolding canonical_in_def mo by auto
  ultimately show ?thesis by (simp add: update_absent assms(2))
qed

lemma table_represent:
  assumes "table_ok out seen" and "si_id m \<notin> fst ` set out" and "canonical_in out c"
    and "\<not> so_canonical row" and "so_canonical_id row = Some c" and "so_represents row = []"
  shows "table_ok (add_represented c (route_name m) (AList.update (si_id m) row out)) (m # seen) \<and>
    (\<forall>k. canonical_in out k \<longrightarrow> canonical_in (add_represented c (route_name m) (AList.update (si_id m) row out)) k)"
proof -
  obtain oc where oc: "map_of out c = Some oc" "so_canonical oc" using assms(3) by (auto simp: canonical_in_def)
  then have c: "c \<in> fst ` set out" by (force dest: map_of_SomeD)
  then have cm: "c \<noteq> si_id m" using assms(2) by metis
  let ?base = "out @ [(si_id m, row)]"
  let ?out = "add_represented c (route_name m) ?base"
  let ?f = "\<lambda>o'. o'\<lparr>so_represents := so_represents o' @ [route_name m]\<rparr>"
  have mo: "map_of ?out k = (if k = c then Some (?f oc) else if k = si_id m then Some row else map_of out k)" for k
    by (simp only: map_of_add_represented map_of_snoc[OF assms(2)]) (use oc cm in simp)
  have ne: "map_of out k = Some x \<Longrightarrow> k \<noteq> si_id m" for k x using assms(2) by (auto dest: map_of_SomeD intro: rev_image_eqI)
  have keep: "canonical_in ?out k" if "canonical_in out k" for k
    using that ne oc by (auto simp: canonical_in_def mo)
  have keys: "map fst ?out = map fst ?base" by (rule keys_add_represented)
  have d: "distinct (map fst ?base)" using assms(1,2) by (auto simp: table_ok_def)
  have "table_ok ?out (m # seen)"
    unfolding table_ok_def
  proof (intro conjI allI impI)
    show "distinct (map fst ?out)" unfolding keys by (rule d)
    have "fst ` set ?out = set (map fst ?out)" by (simp only: set_map)
    also have "\<dots> = set (map fst ?base)" by (simp only: keys)
    also have "\<dots> = si_id ` set (m # seen)" using assms(1) by (auto simp: table_ok_def)
    finally show "fst ` set ?out = si_id ` set (m # seen)" .
    have "c \<in> fst ` set ?base" using c by auto
    from represents_add[OF d this, of "route_name m"]
    show "mset (concat (map (so_represents \<circ> snd) ?out)) = mset (map route_name (m # seen))"
      using assms(1,6) by (simp add: table_ok_def)
  next
    fix sid o' assume so: "map_of ?out sid = Some o'"
    consider "sid = c" | "sid \<noteq> c" "sid = si_id m" | "sid \<noteq> c" "sid \<noteq> si_id m" by blast
    then show "if so_canonical o' then so_canonical_id o' = None else so_represents o' = [] \<and>
        (\<exists>c' oc. so_canonical_id o' = Some c' \<and> map_of ?out c' = Some oc \<and> so_canonical oc)"
    proof cases
      case 1
      have "so_canonical_id oc = None" using assms(1) oc by (auto simp: table_ok_def)
      moreover have "o' = ?f oc" using so 1 unfolding mo by simp
      ultimately show ?thesis using oc(2) by simp
    next
      case 2
      then have "o' = row" using so unfolding mo by simp
      moreover have "map_of ?out c = Some (?f oc)" unfolding mo by simp
      ultimately show ?thesis using assms(4,5,6) oc(2) by simp
    next
      case 3
      then have "map_of out sid = Some o'" using so unfolding mo by simp
      then have old: "if so_canonical o' then so_canonical_id o' = None else so_represents o' = [] \<and>
        (\<exists>c' oc. so_canonical_id o' = Some c' \<and> map_of out c' = Some oc \<and> so_canonical oc)"
        using assms(1) unfolding table_ok_def by blast
      show ?thesis
      proof (cases "so_canonical o'")
        case False
        with old obtain c' where c': "so_represents o' = []" "so_canonical_id o' = Some c'" "canonical_in out c'"
          by (auto simp: canonical_in_def)
        obtain oc' where "map_of ?out c' = Some oc'" "so_canonical oc'"
          using keep[OF c'(3)] unfolding canonical_in_def by blast
        with c' False show ?thesis by metis
      qed (use old in simp)
    qed
  qed
  with keep show ?thesis by (simp add: update_absent assms(2))
qed

lemma dedupe_step_ok:
  assumes t: "table_ok (ds_out s) seen" and st: "state_ok s" and new: "si_id m \<notin> fst ` set (ds_out s)"
  shows "table_ok (ds_out (dedupe_step decoded len coverage tol m s)) (m # seen) \<and>
         state_ok (dedupe_step decoded len coverage tol m s)"
proof -
  let ?pts = "decoded (si_id m)"
  let ?cov = "if ds_kept s = [] then 0 else coverage_fraction ?pts (map (\<lambda>k. decoded (si_id k)) (ds_kept s)) tol"
  have keep: "table_ok (ds_out s') (m # seen) \<and> state_ok s'"
    if "s' = s\<lparr>ds_kept := ds_kept s @ [m], ds_encoded := AList.update (si_encoded m) (si_id m) (ds_encoded s),
             ds_out := AList.update (si_id m) \<lparr>so_canonical = True, so_canonical_id = None, so_length = floor (len (si_id m)),
                so_covered = ?cov, so_represents = [route_name m]\<rparr> (ds_out s)\<rparr>" for s'
    using table_keep[OF t new, of "\<lparr>so_canonical = True, so_canonical_id = None, so_length = floor (len (si_id m)),
                so_covered = ?cov, so_represents = [route_name m]\<rparr>"] st that
    by (auto simp: state_ok_canonical update_conv')
  show ?thesis
  proof (cases "map_of (ds_encoded s) (si_encoded m)")
    case (Some twin)
    then have "canonical_in (ds_out s) twin" using st by (simp add: state_ok_canonical)
    from table_represent[OF t new this, of "\<lparr>so_canonical = False, so_canonical_id = Some twin,
        so_length = floor (len (si_id m)), so_covered = 1, so_represents = []\<rparr>"] Some st
    show ?thesis by (simp add: dedupe_step_def Let_def state_ok_canonical)
  next
    case None
    show ?thesis
    proof (cases "max_by (\<lambda>k. coverage_fraction ?pts [decoded (si_id k)] tol) (ds_kept s)")
      case None': None
      have "dedupe_step decoded len coverage tol m s = s\<lparr>ds_kept := ds_kept s @ [m], ds_encoded := AList.update (si_encoded m) (si_id m) (ds_encoded s),
             ds_out := AList.update (si_id m) \<lparr>so_canonical = True, so_canonical_id = None, so_length = floor (len (si_id m)),
                so_covered = ?cov, so_represents = [route_name m]\<rparr> (ds_out s)\<rparr>"
        unfolding dedupe_step_def Let_def using None None' by simp
      then show ?thesis by (rule keep)
    next
      case (Some best)
      then have "canonical_in (ds_out s) (si_id best)" using st max_by_in by (fastforce simp: state_ok_canonical)
      note rep = table_represent[OF t new this, of "\<lparr>so_canonical = False, so_canonical_id = Some (si_id best),
          so_length = floor (len (si_id m)), so_covered = ?cov, so_represents = []\<rparr>"]
      show ?thesis
      proof (cases "coverage \<le> ?cov")
        case True
        have "dedupe_step decoded len coverage tol m s = s\<lparr>ds_out := add_represented (si_id best) (route_name m)
             (AList.update (si_id m) \<lparr>so_canonical = False, so_canonical_id = Some (si_id best), so_length = floor (len (si_id m)),
                so_covered = ?cov, so_represents = []\<rparr> (ds_out s))\<rparr>"
          unfolding dedupe_step_def Let_def using None Some True by simp
        with rep st show ?thesis by (simp add: state_ok_canonical)
      next
        case False
        have "dedupe_step decoded len coverage tol m s = s\<lparr>ds_kept := ds_kept s @ [m], ds_encoded := AList.update (si_encoded m) (si_id m) (ds_encoded s),
             ds_out := AList.update (si_id m) \<lparr>so_canonical = True, so_canonical_id = None, so_length = floor (len (si_id m)),
                so_covered = ?cov, so_represents = [route_name m]\<rparr> (ds_out s)\<rparr>"
          unfolding dedupe_step_def Let_def using None Some False by simp
        then show ?thesis by (rule keep)
      qed
    qed
  qed
qed

lemma table_ok_cong: "mset xs = mset ys \<Longrightarrow> table_ok out xs = table_ok out ys"
  using mset_eq_setD[of xs ys] by (simp add: table_ok_def)

lemma dedupe_fold_ok:
  "table_ok (ds_out s) seen \<Longrightarrow> state_ok s \<Longrightarrow> distinct (map si_id (ms @ seen)) \<Longrightarrow>
   table_ok (ds_out (fold (dedupe_step decoded len coverage tol) ms s)) (rev ms @ seen)"
proof (induction ms arbitrary: s seen)
  case (Cons m ms)
  have "fst ` set (ds_out s) = si_id ` set seen" using Cons.prems(1) by (simp add: table_ok_def)
  then have "si_id m \<notin> fst ` set (ds_out s)" using Cons.prems(3) by auto
  from dedupe_step_ok[OF Cons.prems(1,2) this, of decoded len coverage tol] show ?case
    using Cons.IH[of "dedupe_step decoded len coverage tol m s" "m # seen"] Cons.prems(3) by auto
qed simp

lemma dedupe_group_ok:
  assumes "table_ok out seen" and "distinct (map si_id (members @ seen))" and "dedupe_group coverage tol members out = Some out'"
  shows "table_ok out' (members @ seen)"
proof -
  obtain decoded len f where f: "out' = ds_out (fold (dedupe_step decoded len coverage tol) (sort_key (f :: shape_in \<Rightarrow> real \<times> string) members)
      \<lparr>ds_kept = [], ds_encoded = [], ds_out = out\<rparr>)"
    using assms(3) by (auto simp: dedupe_group_def Let_def split: if_splits)
  have "distinct (map si_id (sort_key f members @ seen))" using assms(2) by simp
  from dedupe_fold_ok[OF _ _ this, of "\<lparr>ds_kept = [], ds_encoded = [], ds_out = out\<rparr>" decoded len coverage tol]
  have "table_ok out' (rev (sort_key f members) @ seen)" using assms(1) f by (simp add: state_ok_def)
  then show ?thesis by (subst table_ok_cong[of _ "rev (sort_key f members) @ seen"]) simp_all
qed

lemma dedupe_groups_ok:
  "table_ok out seen \<Longrightarrow> distinct (map si_id (concat (map snd gs) @ seen)) \<Longrightarrow>
   dedupe_groups coverage tol gs out = Some out' \<Longrightarrow> table_ok out' (concat (map snd gs) @ seen)"
proof (induction gs arbitrary: out seen)
  case (Cons g gs)
  obtain k members where g: "g = (k, members)" by (cases g)
  obtain out1 where o: "dedupe_group coverage tol members out = Some out1"
    using Cons.prems(3) g by (auto split: option.splits)
  have "table_ok out1 (members @ seen)"
    by (rule dedupe_group_ok[OF Cons.prems(1) _ o]) (use Cons.prems(2) g in auto)
  moreover have "distinct (map si_id (concat (map snd gs) @ (members @ seen)))"
    using Cons.prems(2) mset_eq_imp_distinct_iff[of "map si_id (concat (map snd gs) @ (members @ seen))"
        "map si_id (concat (map snd (g # gs)) @ seen)"] by (simp add: g ac_simps)
  moreover have "dedupe_groups coverage tol gs out1 = Some out'" using Cons.prems(3) g o by simp
  ultimately have "table_ok out' (concat (map snd gs) @ (members @ seen))" by (rule Cons.IH)
  then show ?case by (subst table_ok_cong[of _ "concat (map snd gs) @ (members @ seen)"]) (simp_all add: g ac_simps)
qed simp

text \<open>The de-duplicated network keeps every shape accounted for: each shape has one row, a row that is not
  drawn points at one that is, and every route (or unrouted shape) is listed exactly once, under a shape
  that is drawn.\<close>
theorem dedupe_shapes_accounts:
  assumes "dedupe_shapes shapes coverage tol = Some out" and "distinct (map si_id shapes)"
  shows "distinct (map fst out) \<and> fst ` set out = si_id ` set shapes \<and>
    (\<forall>(sid, o') \<in> set out. if so_canonical o' then so_canonical_id o' = None
       else so_represents o' = [] \<and> (\<exists>c oc. so_canonical_id o' = Some c \<and> (c, oc) \<in> set out \<and> so_canonical oc)) \<and>
    mset (concat (map (so_represents \<circ> snd) out)) = mset (map route_name shapes)"
proof -
  have e: "mset (concat (map snd (group_by si_group shapes)) @ []) = mset shapes" by (simp add: mset_concat_groups)
  have "distinct (map si_id (concat (map snd (group_by si_group shapes)) @ []))"
    using assms(2) mset_eq_imp_distinct_iff[of "map si_id (concat (map snd (group_by si_group shapes)) @ [])" "map si_id shapes"] e
    by (metis mset_map)
  moreover have "table_ok [] []" by (simp add: table_ok_def)
  ultimately have "table_ok out (concat (map snd (group_by si_group shapes)) @ [])"
    using assms(1) unfolding dedupe_shapes_def by (intro dedupe_groups_ok)
  then have t: "table_ok out shapes" using table_ok_cong[OF e] by blast
  then have m: "map_of out sid = Some o' \<longleftrightarrow> (sid, o') \<in> set out" for sid o'
    by (auto simp: table_ok_def map_of_is_SomeI dest: map_of_SomeD)
  show ?thesis using t unfolding table_ok_def m Ball_def split_paired_All prod.case .
qed

lemma dedupe_shapes_accounts_witness:
  "\<exists>out. dedupe_shapes [\<lparr>si_id = ''s'', si_route = None, si_group = ''g'', si_encoded = ''??''\<rparr>] (9/10) 30 = Some out \<and>
     fst ` set out = {''s''}"
proof -
  let ?s = "[\<lparr>si_id = ''s'', si_route = None, si_group = ''g'', si_encoded = ''??''\<rparr>]"
  have g: "group_by si_group ?s = [(''g'', ?s)]" by (simp add: group_by_def group_add_def)
  have "decode_polyline ''??'' \<noteq> None" unfolding decode_polyline_def by code_simp
  then obtain out where o: "dedupe_shapes ?s (9/10) 30 = Some out"
    unfolding dedupe_shapes_def g by (auto simp: dedupe_group_def Let_def)
  from dedupe_shapes_accounts[OF o] o show ?thesis by simp
qed

end
