(* ===== verification/Iso_Time.thy ===== *)
theory Iso_Time
  imports Py_Text
begin

text \<open>
  Dates and times as the modules use them.  A date is its proleptic Gregorian ordinal
  (\<open>date.toordinal\<close>, day 1 is 0001-01-01, a Monday), a local date-time is the ordinal and the second of
  the day, an instant a rational number of seconds since the start of day 0, and \<open>iso_instant\<close> is
  \<open>datetime.fromisoformat(s.replace("Z", "+00:00"))\<close> on the extended formats
  \<open>YYYY-MM-DD[THH:MM[:SS[.f]][+HH:MM]]\<close>; anything else is \<open>None\<close>.
\<close>

definition leap :: "int \<Rightarrow> bool" where
  "leap y = (y mod 4 = 0 \<and> (y mod 100 \<noteq> 0 \<or> y mod 400 = 0))"

definition month_days :: "int \<Rightarrow> nat \<Rightarrow> int" where
  "month_days y m = (if m = 2 then if leap y then 29 else 28 else if m \<in> {4, 6, 9, 11} then 30 else 31)"

definition ordinal :: "int \<Rightarrow> nat \<Rightarrow> int \<Rightarrow> int" where
  "ordinal y m d = 365 * (y - 1) + (y - 1) div 4 - (y - 1) div 100 + (y - 1) div 400
     + sum_list (map (month_days y) [1..<m]) + d"

definition weekday :: "int \<Rightarrow> nat" where
  \<comment> \<open>\<open>date.weekday()\<close>: Monday is 0\<close>
  "weekday day = nat ((day + 6) mod 7)"

record local_time =
  lt_day :: int
  lt_sec :: int

definition day_seconds :: int where "day_seconds = 86400"

definition fixed_nat :: "nat \<Rightarrow> string \<Rightarrow> nat option" where
  \<comment> \<open>a number of exactly \<open>n\<close> digits\<close>
  "fixed_nat n s = (if length s = n then parse_nat s else None)"

definition parse_date :: "string \<Rightarrow> int option" where
  "parse_date s = (case split_on (CHR ''-'') s of
     [ys, ms, ds] \<Rightarrow> (case (fixed_nat 4 ys, fixed_nat 2 ms, fixed_nat 2 ds) of
        (Some y, Some m, Some d) \<Rightarrow>
          if 1 \<le> y \<and> 1 \<le> m \<and> m \<le> 12 \<and> 1 \<le> d \<and> int d \<le> month_days (int y) m then Some (ordinal (int y) m (int d)) else None
      | _ \<Rightarrow> None)
   | _ \<Rightarrow> None)"

definition parse_hm :: "string \<Rightarrow> int option" where
  \<comment> \<open>\<open>HH:MM\<close> in seconds\<close>
  "parse_hm s = (case split_on (CHR '':'') s of
     [h, m] \<Rightarrow> (case (fixed_nat 2 h, fixed_nat 2 m) of
        (Some h, Some m) \<Rightarrow> if h < 24 \<and> m < 60 then Some (int (h * 3600 + m * 60)) else None | _ \<Rightarrow> None)
   | _ \<Rightarrow> None)"

definition parse_seconds :: "string \<Rightarrow> rat option" where
  \<comment> \<open>\<open>SS\<close> or \<open>SS.f\<close> (1 to 6 digits)\<close>
  "parse_seconds s = (case split_on (CHR ''.'') s of
     [w] \<Rightarrow> (case fixed_nat 2 w of Some n \<Rightarrow> if n < 60 then Some (of_nat n) else None | None \<Rightarrow> None)
   | [w, f] \<Rightarrow> (case (fixed_nat 2 w, if length f \<le> 6 then parse_nat f else None) of
        (Some n, Some k) \<Rightarrow> if n < 60 then Some (of_nat n + of_nat k / 10 ^ length f) else None | _ \<Rightarrow> None)
   | _ \<Rightarrow> None)"

definition parse_clock :: "string \<Rightarrow> rat option" where
  "parse_clock s = (if length s \<le> 5 then map_option of_int (parse_hm s)
     else if s ! 5 \<noteq> CHR '':'' then None
     else case (parse_hm (take 5 s), parse_seconds (drop 6 s)) of
       (Some a, Some b) \<Rightarrow> Some (of_int a + b) | _ \<Rightarrow> None)"

definition split_offset :: "string \<Rightarrow> string \<times> int option option" where
  \<comment> \<open>clock text and UTC offset; \<open>Some None\<close> is an unreadable offset, \<open>None\<close> a naive time\<close>
  "split_offset s = (if s \<noteq> [] \<and> last s = CHR ''Z'' then (butlast s, Some (Some 0))
     else let clock = takeWhile (\<lambda>c. c \<noteq> CHR ''+'' \<and> c \<noteq> CHR ''-'') s; off = drop (length clock) s
       in if off = [] then (clock, None)
          else (clock, Some (map_option (\<lambda>n. if hd off = CHR ''-'' then - n else n) (parse_hm (tl off)))))"

definition iso_local :: "string \<Rightarrow> (rat \<times> int option) option" where
  \<comment> \<open>wall-clock seconds and the offset, if any\<close>
  "iso_local s = (if length s \<le> 10 then map_option (\<lambda>d. (of_int (d * day_seconds), None)) (parse_date s)
     else case (parse_date (take 10 s), split_offset (drop 11 s)) of
       (Some d, (clock, off)) \<Rightarrow> (case (parse_clock clock, off) of
           (Some c, None) \<Rightarrow> Some (of_int (d * day_seconds) + c, None)
         | (Some c, Some (Some z)) \<Rightarrow> Some (of_int (d * day_seconds) + c, Some z)
         | _ \<Rightarrow> None)
     | _ \<Rightarrow> None)"

definition iso_instant :: "string \<Rightarrow> rat option" where
  "iso_instant s = map_option (\<lambda>(t, off). t - of_int (or_else off 0)) (iso_local s)"

lemma weekday_less: "weekday d < 7"
  by (simp add: weekday_def nat_less_iff)

lemma weekday_week: "weekday (d + 7) = weekday d"
proof -
  have "(d + 7 + 6) mod 7 = (d + 6) mod 7" by presburger
  then show ?thesis by (simp add: weekday_def)
qed

end
