(* ===== verification/Features.thy ===== *)
theory Features
  imports Trip_Model Iso_Time
begin

text \<open>
  \<open>app/features.py\<close>: the flat-fare estimate, alert severity, the accessibility heuristics and the
  service windows of a route.  Amounts are rationals; the exchange of a whole float for an integer in
  \<open>_num\<close> is the identity on them.
\<close>

section \<open>Alert severity\<close>

definition infer_severity :: "string option \<Rightarrow> string option \<Rightarrow> string" where
  "infer_severity severity effect =
     (case severity of
        Some s \<Rightarrow> if s \<in> {''INFO'', ''WARNING'', ''SEVERE''} then s
                  else if s = ''UNKNOWN_SEVERITY'' then
                    (if effect \<in> Some ` {''NO_SERVICE'', ''REDUCED_SERVICE'', ''SIGNIFICANT_DELAYS''} then ''SEVERE''
                     else if effect \<in> Some ` {''DETOUR'', ''MODIFIED_SERVICE'', ''STOP_MOVED'', ''ACCESSIBILITY_ISSUE''} then ''WARNING''
                     else ''INFO'')
                  else s
      | None \<Rightarrow> (if effect \<in> Some ` {''NO_SERVICE'', ''REDUCED_SERVICE'', ''SIGNIFICANT_DELAYS''} then ''SEVERE''
                     else if effect \<in> Some ` {''DETOUR'', ''MODIFIED_SERVICE'', ''STOP_MOVED'', ''ACCESSIBILITY_ISSUE''} then ''WARNING''
                     else ''INFO''))"

section \<open>Accessibility\<close>

definition total_count :: "(int \<times> nat) list \<Rightarrow> nat" where
  "total_count counts = sum_list (map snd counts)"

definition accessibility_unverified :: "(int \<times> nat) list \<Rightarrow> rat \<Rightarrow> bool" where
  "accessibility_unverified counts threshold = (let total = total_count counts in
     if total = 0 then False
     else case max_by snd counts of None \<Rightarrow> False
       | Some (v, n) \<Rightarrow> v \<noteq> 0 \<and> threshold \<le> of_nat n / of_nat total)"

datatype support = No_Data | Unverified | Verified

definition accessibility_support :: "(int \<times> nat) list \<Rightarrow> rat \<Rightarrow> rat \<Rightarrow> support" where
  "accessibility_support counts threshold min_coverage =
     (let total = total_count counts; informative = total_count (filter (\<lambda>(k, v). k \<noteq> 0) counts) in
      if total = 0 \<or> informative = 0 then No_Data
      else if accessibility_unverified counts threshold \<or> of_nat informative / of_nat total < min_coverage then Unverified
      else Verified)"

record access_block =
  ab_wheelchair :: string
  ab_source :: string
  ab_verified :: bool
  ab_note :: "string option"

definition accessibility_block :: "string \<Rightarrow> bool \<Rightarrow> string \<Rightarrow> access_block" where
  "accessibility_block wheelchair unverified locale =
     (if wheelchair = ''unknown''
      then \<lparr>ab_wheelchair = ''unknown'', ab_source = ''none'', ab_verified = False, ab_note = None\<rparr>
      else if unverified
      then \<lparr>ab_wheelchair = wheelchair, ab_source = ''gtfs'', ab_verified = False,
             ab_note = Some (if locale = ''es'' then ''Dato del feed no verificado (valor constante en todo el sistema)''
                             else ''Feed value not verified (constant across the whole system)'')\<rparr>
      else \<lparr>ab_wheelchair = wheelchair, ab_source = ''gtfs'', ab_verified = True, ab_note = None\<rparr>)"

section \<open>Service windows\<close>

definition hms_to_seconds :: "string \<Rightarrow> int option" where
  \<comment> \<open>GTFS \<open>H:MM:SS\<close>; \<open>None\<close> for anything that is not three integers\<close>
  "hms_to_seconds s = (case split_on (CHR '':'') (strip s) of
     [h, m, sec] \<Rightarrow> (case (parse_int h, parse_int m, parse_int sec) of
        (Some h, Some m, Some sec) \<Rightarrow> Some (h * 3600 + m * 60 + sec) | _ \<Rightarrow> None)
   | _ \<Rightarrow> None)"

definition hm_text :: "int \<Rightarrow> string" where
  \<comment> \<open>\<open>_hm\<close>\<close>
  "hm_text seconds = pad2 (nat ((seconds div 3600) mod 24)) @ '':'' @ pad2 (nat ((seconds mod 3600) div 60))"

record service_index =
  windows :: "(string \<times> (string \<times> int \<times> int) list) list"
  calendar :: "(string \<times> bool list \<times> int \<times> int) list"
  exceptions :: "((string \<times> int) \<times> int) list"

definition calendar_services :: "service_index \<Rightarrow> int \<Rightarrow> string list" where
  "calendar_services idx day = map fst (filter (\<lambda>(sid, days, start, fin). start \<le> day \<and> day \<le> fin \<and> days ! weekday day) (calendar idx))"

definition active_services :: "service_index \<Rightarrow> int \<Rightarrow> string set" where
  "active_services idx day = fold (\<lambda>((sid, d), kind) out.
      if d \<noteq> day then out else if kind = 1 then insert sid out else if kind = 2 then out - {sid} else out)
     (exceptions idx) (set (calendar_services idx day))"

record service_window =
  sw_start :: "string option"
  sw_end :: "string option"
  sw_ends_next_day :: bool
  sw_active :: bool
  sw_next_start :: "string option"
  sw_next_day :: "string option"
  sw_today :: bool

definition minimum :: "int list \<Rightarrow> int option" where "minimum xs = min_by id xs"
definition maximum :: "int list \<Rightarrow> int option" where "maximum xs = max_by id xs"

definition on_day :: "service_index \<Rightarrow> (string \<times> int \<times> int) list \<Rightarrow> int \<Rightarrow> (int \<times> int) list" where
  "on_day idx wins day = map snd (filter (\<lambda>(s, f, l). s \<in> active_services idx day) wins)"

definition window_for :: "service_index \<Rightarrow> string \<Rightarrow> local_time \<Rightarrow> service_window option" where
  "window_for idx route now = (case map_of (windows idx) route of None \<Rightarrow> None | Some [] \<Rightarrow> None
   | Some wins \<Rightarrow>
     (let now_s = lt_sec now;
        today_w = on_day idx wins (lt_day now);
        yest_w = filter (\<lambda>(f, l). 86400 < l) (on_day idx wins (lt_day now - 1));
        tom_w = on_day idx wins (lt_day now + 1);
        active = (list_ex (\<lambda>(f, l). f \<le> now_s \<and> now_s \<le> l) today_w \<or> list_ex (\<lambda>(f, l). now_s + 86400 \<le> l) yest_w);
        start = minimum (map fst today_w); fin = maximum (map snd today_w);
        later = filter (\<lambda>f. now_s < f) (map fst today_w);
        nxt = (if active then None else case minimum later of Some f \<Rightarrow> Some (f, ''today'')
               | None \<Rightarrow> map_option (\<lambda>f. (f, ''tomorrow'')) (minimum (map fst tom_w)))
      in Some \<lparr>sw_start = map_option hm_text start, sw_end = map_option hm_text fin,
           sw_ends_next_day = (case fin of Some e \<Rightarrow> 86400 \<le> e | None \<Rightarrow> False), sw_active = active,
           sw_next_start = map_option (hm_text \<circ> fst) nxt, sw_next_day = map_option snd nxt,
           sw_today = (today_w \<noteq> [])\<rparr>))"

section \<open>Fares\<close>

record fares_config =
  fc_currency :: string
  fc_base :: rat
  fc_transfer :: rat
  fc_window_minutes :: int
  fc_max_transfers :: int

record fare_state =
  fs_total :: rat
  fs_window :: "rat option"
  fs_used :: int
  fs_lines :: "fare_item list"

definition fare_labels :: "string \<Rightarrow> string \<times> string" where
  "fare_labels locale = (if locale = ''en'' then (''Fare'', ''Transfer'') else (''Pasaje'', ''Transbordo''))"

definition fare_step :: "string \<Rightarrow> fares_config \<Rightarrow> leg \<Rightarrow> fare_state \<Rightarrow> fare_state" where
  \<comment> \<open>one boarding: a transfer inside the window, else a new fare that restarts it\<close>
  "fare_step locale f lg s = (let t = (if truthy_str (leg_start lg) then iso_instant (the (leg_start lg)) else None);
     route = Option.bind (leg_route lg) short_name;
     inside = (case (fs_window s, t) of (Some w, Some t) \<Rightarrow> t - w \<le> of_int (fc_window_minutes f) * 60 \<and> fs_used s < fc_max_transfers f
               | _ \<Rightarrow> False)
   in if inside then s\<lparr>fs_used := fs_used s + 1, fs_total := fs_total s + fc_transfer f,
        fs_lines := fs_lines s @ [\<lparr>item_label = snd (fare_labels locale), item_amount = Some (fc_transfer f),
                                   item_route = route, item_kind = ''transit''\<rparr>]\<rparr>
      else s\<lparr>fs_window := t, fs_used := 0, fs_total := fs_total s + fc_base f,
        fs_lines := fs_lines s @ [\<lparr>item_label = fst (fare_labels locale), item_amount = Some (fc_base f),
                                   item_route = route, item_kind = ''transit''\<rparr>]\<rparr>)"

record fare_sum =
  sum_total :: rat
  sum_currency :: "string option"
  sum_lines :: "fare_item list"
  sum_charged :: "string list"
  sum_note :: "string option"

definition dot :: string where \<comment> \<open>the middle dot between blanks\<close>
  "dot = '' '' @ [CHR 0xC2, CHR 0xB7] @ '' ''"

definition add_line :: "rat option \<Rightarrow> string option \<Rightarrow> string \<Rightarrow> string \<Rightarrow> fare_sum \<Rightarrow> fare_sum" where
  "add_line amount currency lbl kind s = s\<lparr>sum_total := sum_total s + or_else amount 0,
     sum_currency := (if amount = None \<or> truthy_str (sum_currency s) then sum_currency s else currency),
     sum_lines := sum_lines s @ [\<lparr>item_label = lbl, item_amount = amount, item_route = None, item_kind = kind\<rparr>]\<rparr>"

definition rental_step :: "(string \<Rightarrow> bool) \<Rightarrow> leg \<Rightarrow> fare_sum \<Rightarrow> fare_sum" where
  \<comment> \<open>one pass per network, unless the network charges every ride (\<open>per_minute\<close>)\<close>
  "rental_step per_minute lg s = (case leg_rental lg of None \<Rightarrow> s | Some r \<Rightarrow>
     if \<not> per_minute (network_id r) \<and> network_id r \<in> set (sum_charged s) then s
     else case rental_price r of None \<Rightarrow> s | Some pe \<Rightarrow>
       add_line (pe_amount pe) (pe_currency pe)
         (the (str_or (network_name r) (Some (network_id r))) @ dot @ the (str_or (pe_label pe) (Some ''pase''))) ''rental''
         (s\<lparr>sum_charged := network_id r # sum_charged s\<rparr>))"

definition english :: "string \<Rightarrow> bool" where "english locale = startswith locale ''en''"

definition ondemand_step :: "string \<Rightarrow> leg \<Rightarrow> fare_sum \<Rightarrow> fare_sum" where
  "ondemand_step locale lg s = (case leg_on_demand lg of None \<Rightarrow> s | Some od \<Rightarrow>
     (let rec = (case find (\<lambda>q. Some (provider_id q) = od_recommended od) (od_providers od) of
                   Some q \<Rightarrow> Some q | None \<Rightarrow> (case od_providers od of [] \<Rightarrow> None | q # _ \<Rightarrow> Some q))
      in case rec of None \<Rightarrow> s | Some q \<Rightarrow>
        (let lbl = (if quote_name q = [] then ''Taxi'' else quote_name q) in
         case quote_price q of
           Some p \<Rightarrow> add_line (Some (odp_amount p)) (Some (odp_currency p)) lbl ''ondemand'' s
         | None \<Rightarrow> (add_line None None lbl ''ondemand'' s)
             \<lparr>sum_note := Some (if english locale then ''Price in the app'' else ''Precio en la app'')\<rparr>)))"

record parking_fee_info =
  pf_amount :: "rat option"
  pf_currency :: "string option"
  pf_dwell :: "rat option"

record parking_info =
  pk_name :: "string option"
  pk_fee :: "parking_fee_info option"

definition parking_step :: "(rat \<Rightarrow> string) \<Rightarrow> string \<Rightarrow> parking_info option \<Rightarrow> fare_sum \<Rightarrow> fare_sum" where
  \<comment> \<open>\<open>show_float\<close>: Python's text of a fractional number of hours\<close>
  "parking_step show_float locale parking s = (case parking of None \<Rightarrow> s | Some p \<Rightarrow>
     (case pk_fee p of None \<Rightarrow> s | Some fee \<Rightarrow>
      (case pf_amount fee of None \<Rightarrow> s | Some a \<Rightarrow>
        (let hours = (case pf_dwell fee of None \<Rightarrow> []
             | Some d \<Rightarrow> if d = 0 then [] else if d = of_int (floor d) then show_int (floor d) @ '' h'' else show_float d @ '' h'')
         in add_line (Some a) (pf_currency fee)
           ((if english locale then ''Parking'' else ''Parqueo'') @ dot @ or_else (pk_name p) []
             @ (if hours = [] then [] else '' ('' @ hours @ '')'')) ''parking'' s))))"

definition num :: "rat \<Rightarrow> rat" where
  "num x = (if x = of_int (floor x) then x else py_round_to 2 x)"

definition priced_rental :: "leg \<Rightarrow> bool" where
  "priced_rental lg = (case leg_rental lg of None \<Rightarrow> False | Some r \<Rightarrow>
     (case rental_price r of None \<Rightarrow> False | Some pe \<Rightarrow> or_else (pe_amount pe) 0 \<noteq> 0))"

definition fare_lines :: "(string \<Rightarrow> bool) \<Rightarrow> (rat \<Rightarrow> string) \<Rightarrow> fares_config option \<Rightarrow> leg list \<Rightarrow> string
    \<Rightarrow> parking_info option \<Rightarrow> fare_sum" where
  "fare_lines per_minute show_float f lgs locale parking =
     (let t = (case f of None \<Rightarrow> \<lparr>fs_total = 0, fs_window = None, fs_used = 0, fs_lines = []\<rparr>
               | Some f \<Rightarrow> fold (fare_step locale f) (filter transit lgs)
                   \<lparr>fs_total = 0, fs_window = None, fs_used = 0, fs_lines = []\<rparr>);
          s0 = \<lparr>sum_total = fs_total t, sum_currency = map_option fc_currency f, sum_lines = fs_lines t,
                sum_charged = [], sum_note = None\<rparr>
      in parking_step show_float locale parking
          (fold (ondemand_step locale) (filter (\<lambda>lg. leg_on_demand lg \<noteq> None) lgs)
            (fold (rental_step per_minute) (filter priced_rental lgs) s0)))"

definition estimate_fare :: "(string \<Rightarrow> bool) \<Rightarrow> (rat \<Rightarrow> string) \<Rightarrow> fares_config option \<Rightarrow> leg list \<Rightarrow> string
    \<Rightarrow> parking_info option \<Rightarrow> fare option" where
  "estimate_fare per_minute show_float f lgs locale parking =
     (if f = None \<and> filter priced_rental lgs = [] \<and> filter (\<lambda>lg. leg_on_demand lg \<noteq> None) lgs = []
         \<and> Option.bind parking pk_fee = None then None
      else let s = fare_lines per_minute show_float f lgs locale parking in
        Some \<lparr>fare_amount = num (sum_total s), fare_currency = the (str_or (sum_currency s) (Some ''COP'')),
              fare_breakdown = map (\<lambda>b. b\<lparr>item_amount := map_option num (item_amount b)\<rparr>) (sum_lines s),
              fare_note = sum_note s\<rparr>)"

section \<open>Properties\<close>

definition lines_total :: "fare_item list \<Rightarrow> rat" where
  "lines_total ls = sum_list (map (\<lambda>b. or_else (item_amount b) 0) ls)"

lemma lines_total_append [simp]: "lines_total (xs @ ys) = lines_total xs + lines_total ys"
  by (simp add: lines_total_def)

definition balanced :: "fare_sum \<Rightarrow> bool" where
  "balanced s = (sum_total s = lines_total (sum_lines s))"

lemma balanced_add_line: "balanced s \<Longrightarrow> balanced (add_line a c l k s)"
  by (simp add: balanced_def add_line_def) (simp add: lines_total_def)

lemma balanced_steps:
  "balanced s \<Longrightarrow> balanced (rental_step pm lg s)" "balanced s \<Longrightarrow> balanced (ondemand_step locale lg s)"
  "balanced s \<Longrightarrow> balanced (parking_step sf locale pk s)"
proof -
  have u: "balanced (s\<lparr>sum_charged := c\<rparr>) = balanced s" "balanced (s\<lparr>sum_note := n\<rparr>) = balanced s" for s c n
    by (simp_all add: balanced_def)
  assume b: "balanced s"
  show "balanced (rental_step pm lg s)"
    using b by (auto simp: rental_step_def u intro!: balanced_add_line split: option.split)
  show "balanced (ondemand_step locale lg s)"
    using b by (auto simp: ondemand_step_def Let_def u balanced_add_line split: option.split list.split)
  show "balanced (parking_step sf locale pk s)"
    using b by (auto simp: parking_step_def Let_def balanced_add_line split: option.split)
qed

lemma balanced_fold: "(\<And>x s. balanced s \<Longrightarrow> balanced (f x s)) \<Longrightarrow> balanced s \<Longrightarrow> balanced (fold f xs s)"
  by (induction xs arbitrary: s) simp_all

lemma fare_step_total:
  "fs_total s = lines_total (fs_lines s) \<Longrightarrow> fs_total (fare_step l f lg s) = lines_total (fs_lines (fare_step l f lg s))"
  by (simp add: fare_step_def Let_def) (simp add: lines_total_def)

lemma fare_fold_total:
  "fs_total s = lines_total (fs_lines s) \<Longrightarrow> fs_total (fold (fare_step l f) lgs s) = lines_total (fs_lines (fold (fare_step l f) lgs s))"
  by (induction lgs arbitrary: s) (simp_all add: fare_step_total)

text \<open>The estimated amount is the sum of the lines shown: for every trip, fare table and parking fee the
  total is the (rounded) sum of the exact amounts behind the breakdown, a line without a price counting
  as nothing.\<close>
theorem fare_is_sum_of_lines:
  "case estimate_fare per_minute show_float f lgs locale parking of
     None \<Rightarrow> f = None
   | Some x \<Rightarrow> (\<exists>raw. fare_breakdown x = map (\<lambda>b. b\<lparr>item_amount := map_option num (item_amount b)\<rparr>) raw
       \<and> fare_amount x = num (lines_total raw))"
proof -
  have "fs_total (case f of None \<Rightarrow> \<lparr>fs_total = 0, fs_window = None, fs_used = 0, fs_lines = []\<rparr>
       | Some f \<Rightarrow> fold (fare_step locale f) (filter transit lgs) \<lparr>fs_total = 0, fs_window = None, fs_used = 0, fs_lines = []\<rparr>)
    = lines_total (fs_lines (case f of None \<Rightarrow> \<lparr>fs_total = 0, fs_window = None, fs_used = 0, fs_lines = []\<rparr>
       | Some f \<Rightarrow> fold (fare_step locale f) (filter transit lgs) \<lparr>fs_total = 0, fs_window = None, fs_used = 0, fs_lines = []\<rparr>))"
    by (auto simp: lines_total_def intro!: fare_fold_total[unfolded lines_total_def] split: option.split)
  then have "balanced (fare_lines per_minute show_float f lgs locale parking)"
    unfolding fare_lines_def Let_def
    by (intro balanced_steps balanced_fold) (simp_all add: balanced_def)
  then show ?thesis by (auto simp: estimate_fare_def Let_def balanced_def)
qed

text \<open>What a route's window says: it is in service exactly when a run of today covers the moment or one of
  yesterday that ends after midnight has not ended yet; otherwise the next start announced is the
  earliest later one of today, or the first of tomorrow when today has none left.\<close>
theorem window_for_meaning:
  assumes "window_for idx route now = Some w"
  shows "\<exists>wins. map_of (windows idx) route = Some wins \<and>
    (sw_active w \<longleftrightarrow> (\<exists>(f, l) \<in> set (on_day idx wins (lt_day now)). f \<le> lt_sec now \<and> lt_sec now \<le> l) \<or>
       (\<exists>(f, l) \<in> set (on_day idx wins (lt_day now - 1)). 86400 < l \<and> lt_sec now + 86400 \<le> l)) \<and>
    (sw_next_day w = Some ''today'' \<longrightarrow> \<not> sw_active w \<and> (\<exists>(f, l) \<in> set (on_day idx wins (lt_day now)).
        lt_sec now < f \<and> sw_next_start w = Some (hm_text f) \<and>
        (\<forall>(f', l') \<in> set (on_day idx wins (lt_day now)). lt_sec now < f' \<longrightarrow> f \<le> f'))) \<and>
    (sw_next_day w = Some ''tomorrow'' \<longrightarrow> \<not> sw_active w \<and>
        (\<forall>(f, l) \<in> set (on_day idx wins (lt_day now)). f \<le> lt_sec now) \<and>
        (\<exists>(f, l) \<in> set (on_day idx wins (lt_day now + 1)). sw_next_start w = Some (hm_text f)))"
proof -
  obtain wins where w: "map_of (windows idx) route = Some wins" "wins \<noteq> []"
    using assms by (cases "map_of (windows idx) route"; cases "the (map_of (windows idx) route)") (auto simp: window_for_def)
  obtain v vs where vv: "wins = v # vs" using w(2) by (cases wins) auto
  let ?t = "on_day idx wins (lt_day now)"
  let ?m = "on_day idx wins (lt_day now + 1)"
  let ?act = "list_ex (\<lambda>(f, l). f \<le> lt_sec now \<and> lt_sec now \<le> l) ?t \<or>
     list_ex (\<lambda>(f, l). lt_sec now + 86400 \<le> l) (filter (\<lambda>(f, l). 86400 < l) (on_day idx wins (lt_day now - 1)))"
  let ?later = "filter (\<lambda>f. lt_sec now < f) (map fst ?t)"
  let ?nxt = "if ?act then None else case minimum ?later of Some f \<Rightarrow> Some (f, ''today'')
               | None \<Rightarrow> map_option (\<lambda>f. (f, ''tomorrow'')) (minimum (map fst ?m))"
  have eq: "sw_active w = ?act" "sw_next_start w = map_option (hm_text \<circ> fst) ?nxt" "sw_next_day w = map_option snd ?nxt"
    using assms w vv by (auto simp: window_for_def Let_def)
  have a: "?act \<longleftrightarrow> (\<exists>(f, l) \<in> set ?t. f \<le> lt_sec now \<and> lt_sec now \<le> l) \<or>
       (\<exists>(f, l) \<in> set (on_day idx wins (lt_day now - 1)). 86400 < l \<and> lt_sec now + 86400 \<le> l)"
    by (auto simp: list_ex_iff)
  have today: "\<not> ?act \<and> (\<exists>(f, l) \<in> set ?t. lt_sec now < f \<and> sw_next_start w = Some (hm_text f) \<and>
        (\<forall>(f', l') \<in> set ?t. lt_sec now < f' \<longrightarrow> f \<le> f'))" if d: "sw_next_day w = Some ''today''"
  proof -
    from d eq(3) obtain f where f: "\<not> ?act" "minimum ?later = Some f" by (auto split: if_splits option.splits)
    have "f \<in> set ?later" by (rule min_by_in[OF f(2)[unfolded minimum_def]])
    moreover have "\<forall>f' \<in> set ?later. f \<le> f'" using min_by_le[OF f(2)[unfolded minimum_def]] by (simp only: id_apply ball_simps) blast
    moreover have "sw_next_start w = Some (hm_text f)" using eq(2) f by simp
    ultimately show ?thesis using f(1) by (intro conjI) (blast, force)
  qed
  have tomorrow: "\<not> ?act \<and> (\<forall>(f, l) \<in> set ?t. f \<le> lt_sec now) \<and>
        (\<exists>(f, l) \<in> set ?m. sw_next_start w = Some (hm_text f))" if d: "sw_next_day w = Some ''tomorrow''"
  proof -
    from d eq(3) have n: "\<not> ?act" "minimum ?later = None" by (auto split: if_splits option.splits)
    with d eq(3) obtain f where f: "minimum (map fst ?m) = Some f" by (auto split: option.splits)
    have "?later = []" using n(2) by (simp add: minimum_def)
    then have "\<forall>x \<in> set (map fst ?t). \<not> lt_sec now < x" unfolding filter_empty_conv .
    moreover have "f \<in> set (map fst ?m)" by (rule min_by_in[OF f[unfolded minimum_def]])
    moreover have "sw_next_start w = Some (hm_text f)" using eq(2) n f by simp
    ultimately show ?thesis using n(1) by (intro conjI) (blast, force, force)
  qed
  show ?thesis
    unfolding eq(1) by (intro exI[of _ wins] conjI w(1) a impI today tomorrow)
qed

definition night_index :: service_index where
  "night_index = \<lparr>windows = [(''N1'', [(''wk'', 90000, 104400)])], calendar = [(''wk'', replicate 7 True, 0, 999999)], exceptions = []\<rparr>"

lemma window_for_meaning_witness:
  "\<exists>w. window_for night_index ''N1'' \<lparr>lt_day = 739897, lt_sec = 36000\<rparr> = Some w \<and> \<not> sw_active w"
proof -
  have "window_for night_index ''N1'' \<lparr>lt_day = 739897, lt_sec = 36000\<rparr> \<noteq> None" by code_simp
  then obtain w where w: "window_for night_index ''N1'' \<lparr>lt_day = 739897, lt_sec = 36000\<rparr> = Some w" by blast
  have "on_day night_index [(''wk'', 90000, 104400)] 739897 = [(90000, 104400)]"
    "on_day night_index [(''wk'', 90000, 104400)] 739896 = [(90000, 104400)]" by code_simp+
  with window_for_meaning[OF w] w show ?thesis by (auto simp: night_index_def)
qed

text \<open>A route whose runs all start after midnight (25:00 to 29:00) is shown as in service from 00:00 on,
  an hour before its first departure: a run of yesterday is only checked for its end.\<close>
theorem night_route_active_before_its_start:
  "(case window_for night_index ''N1'' \<lparr>lt_day = 739897, lt_sec = 0\<rparr> of Some w \<Rightarrow> sw_active w | None \<Rightarrow> False) \<and>
   \<not> (\<exists>day \<in> {739896, 739897 :: int}. \<exists>(f, l) \<in> set (on_day night_index [(''wk'', 90000, 104400)] day).
        f \<le> 0 + (739897 - day) * 86400 \<and> 0 + (739897 - day) * 86400 \<le> l)"
proof -
  have "case window_for night_index ''N1'' \<lparr>lt_day = 739897, lt_sec = 0\<rparr> of Some w \<Rightarrow> sw_active w | None \<Rightarrow> False"
    by code_simp
  moreover have "on_day night_index [(''wk'', 90000, 104400)] 739897 = [(90000, 104400)]"
    "on_day night_index [(''wk'', 90000, 104400)] 739896 = [(90000, 104400)]" by code_simp+
  ultimately show ?thesis by auto
qed

text \<open>A feed counts as verified only if informative values reach the required share and the commonest
  value is not an informative blanket; but, against its description, one informative value next to
  unknown stops is enough.\<close>
theorem accessibility_verified:
  "(accessibility_support counts threshold min_coverage = Verified \<longleftrightarrow>
      0 < total_count (filter (\<lambda>(k, v). k \<noteq> 0) counts) \<and> \<not> accessibility_unverified counts threshold \<and>
      min_coverage \<le> of_nat (total_count (filter (\<lambda>(k, v). k \<noteq> 0) counts)) / of_nat (total_count counts)) \<and>
   accessibility_support [(0, 40), (1, 60)] (99/100) (1/2) = Verified"
proof
  have "total_count (filter (\<lambda>(k, v). k \<noteq> 0) counts) \<le> total_count counts"
    by (induction counts) (auto simp: total_count_def)
  then show "accessibility_support counts threshold min_coverage = Verified \<longleftrightarrow>
      0 < total_count (filter (\<lambda>(k, v). k \<noteq> 0) counts) \<and> \<not> accessibility_unverified counts threshold \<and>
      min_coverage \<le> of_nat (total_count (filter (\<lambda>(k, v). k \<noteq> 0) counts)) / of_nat (total_count counts)"
    by (auto simp: accessibility_support_def Let_def not_less)
  show "accessibility_support [(0, 40), (1, 60)] (99/100) (1/2) = Verified" by code_simp
qed

end
