(* ===== verification/Tariff.thy ===== *)
theory Tariff
  imports Json_Value Iso_Time
begin

text \<open>
  The regulated taximeter of \<open>app/tariff.py\<close>: ray casting, night windows, surcharges and the price band.
  Amounts and coordinates are rationals; the holiday calendar of a country is an argument.  A clock text
  that is not \<open>H:M\<close> raises \<open>ValueError\<close>.
\<close>

type_synonym vertex = "rat \<times> rat"

definition crosses :: "rat \<Rightarrow> rat \<Rightarrow> vertex \<Rightarrow> vertex \<Rightarrow> bool" where
  \<comment> \<open>the edge from \<open>j\<close> to \<open>i\<close> crosses the ray to the right of the point\<close>
  "crosses lon lat p q = (let (xi, yi) = p; (xj, yj) = q in
     (lat < yi) \<noteq> (lat < yj) \<and> lon < (xj - xi) * (lat - yi) / (yj - yi) + xi)"

fun ray :: "rat \<Rightarrow> rat \<Rightarrow> vertex \<Rightarrow> bool \<Rightarrow> vertex list \<Rightarrow> bool" where
  "ray lon lat prev inside [] = inside"
| "ray lon lat prev inside (p # ps) = ray lon lat p (if crosses lon lat p prev then \<not> inside else inside) ps"

definition point_in_polygon :: "rat \<Rightarrow> rat \<Rightarrow> vertex list \<Rightarrow> bool" where
  "point_in_polygon lon lat polygon = (if length polygon < 3 then False else ray lon lat (last polygon) False polygon)"

definition hm :: "string option \<Rightarrow> py_error + int option" where
  \<comment> \<open>\<open>_hm\<close>\<close>
  "hm s = (if \<not> truthy_str s then Inr None
     else case split_on (CHR '':'') (the s) of
       [h, m] \<Rightarrow> (case (parse_int h, parse_int m) of
          (Some h, Some m) \<Rightarrow> Inr (Some (h * 60 + m)) | _ \<Rightarrow> Inl ValueError)
     | _ \<Rightarrow> Inl ValueError)"

definition night_minutes :: "int \<Rightarrow> int \<Rightarrow> int \<Rightarrow> bool" where
  "night_minutes a b t = (if a \<le> b then a \<le> t \<and> t < b else a \<le> t \<or> t < b)"

definition in_night_window :: "local_time \<Rightarrow> string option \<Rightarrow> string option \<Rightarrow> py_error + bool" where
  "in_night_window when start fin = and_then (hm start) (\<lambda>a. and_then (hm fin) (\<lambda>b.
     Inr (case (a, b) of (Some a, Some b) \<Rightarrow> night_minutes a b (lt_sec when div 60) | _ \<Rightarrow> False)))"

record surcharge_when =
  sw_night_from :: "string option"
  sw_night_to :: "string option"
  sw_sundays :: bool
  sw_holidays :: bool
  sw_zones :: "string list"
  sw_optional :: bool

record surcharge =
  su_id :: string
  su_label :: string
  su_amount :: rat
  su_when :: surcharge_when

record taxi_zone =
  tz_id :: string
  tz_polygon :: "vertex list"

record tariff =
  ta_id :: string
  ta_currency :: string
  ta_flag_fall :: rat
  ta_unit_price :: rat
  ta_unit_meters :: int
  ta_unit_seconds :: int
  ta_minimum :: rat
  ta_surcharges :: "surcharge list"
  ta_zones :: "taxi_zone list"
  ta_waiting_share :: rat
  ta_rounding :: int
  ta_band :: rat

definition zones_touched :: "tariff \<Rightarrow> (rat option \<times> rat option) list \<Rightarrow> string list" where
  \<comment> \<open>points are \<open>(lat, lon)\<close>; one without a coordinate is dropped\<close>
  "zones_touched ta points = (let pts = List.map_filter (\<lambda>p. case p of (Some la, Some lo) \<Rightarrow> Some (la, lo) | _ \<Rightarrow> None) points
     in map tz_id (filter (\<lambda>z. list_ex (\<lambda>(lat, lon). point_in_polygon lon lat (tz_polygon z)) pts) (ta_zones ta)))"

definition surcharge_hit :: "(int \<Rightarrow> bool) \<Rightarrow> local_time \<Rightarrow> string list \<Rightarrow> surcharge_when \<Rightarrow> py_error + bool" where
  "surcharge_hit holiday when touched w =
     and_then (if truthy_str (sw_night_from w) \<and> truthy_str (sw_night_to w)
               then in_night_window when (sw_night_from w) (sw_night_to w) else Inr False)
       (\<lambda>night. Inr (night \<or> (sw_sundays w \<and> weekday (lt_day when) = 6) \<or> (sw_holidays w \<and> holiday (lt_day when))
          \<or> (sw_zones w \<noteq> [] \<and> list_ex (\<lambda>z. z \<in> set touched) (sw_zones w))))"

fun select_surcharges :: "(int \<Rightarrow> bool) \<Rightarrow> local_time \<Rightarrow> string list \<Rightarrow> string list \<Rightarrow> surcharge list \<Rightarrow> py_error + surcharge list" where
  "select_surcharges holiday when touched wanted [] = Inr []"
| "select_surcharges holiday when touched wanted (s # ss) =
     and_then (if sw_optional (su_when s) then Inr (su_id s \<in> set wanted) else surcharge_hit holiday when touched (su_when s))
       (\<lambda>hit. and_then (select_surcharges holiday when touched wanted ss) (\<lambda>rest. Inr (if hit then s # rest else rest)))"

definition applicable_surcharges :: "tariff \<Rightarrow> local_time \<Rightarrow> (int \<Rightarrow> bool) \<Rightarrow> (rat option \<times> rat option) list
    \<Rightarrow> string list \<Rightarrow> py_error + surcharge list" where
  \<comment> \<open>\<open>holiday\<close>: the public holidays of the city's country, none without one\<close>
  "applicable_surcharges ta when holiday points optional_ids =
     (let touched = (if list_ex (\<lambda>s. sw_zones (su_when s) \<noteq> []) (ta_surcharges ta) then zones_touched ta points else [])
      in select_surcharges holiday when touched optional_ids (ta_surcharges ta))"

definition round_unit :: "int \<Rightarrow> rat \<Rightarrow> rat" where
  "round_unit u x = (if 1 < u then of_int (py_round (x / of_int u) * u) else py_round_to 2 x)"

definition km_text :: "rat \<Rightarrow> string" where
  \<comment> \<open>one decimal, trailing zero and point removed\<close>
  "km_text d = (let t = py_round (\<bar>d\<bar> / 100) in
     (if d < 0 then ''-'' else []) @ show_int (t div 10) @ (if t mod 10 = 0 then [] else ''.'' @ show_int (t mod 10)))"

definition is_english :: "string \<Rightarrow> bool" where "is_english locale = startswith locale ''en''"

definition ride_label :: "string \<Rightarrow> string \<Rightarrow> string" where
  "ride_label locale km = (if is_english locale then ''Ride ('' else ''Carrera ('') @ km @ '' km)''"

definition minimum_label :: "string \<Rightarrow> string" where
  "minimum_label locale = (if is_english locale then ''Minimum fare'' else ''Carrera m'' @ [CHR 0xC3, CHR 0xAD] @ ''nima'')"

definition band_label :: "string \<Rightarrow> int \<Rightarrow> string" where
  "band_label locale pct = (if is_english locale then ''Estimate '' else ''Estimaci'' @ [CHR 0xC3, CHR 0xB3] @ ''n '')
     @ [CHR 0xC2, CHR 0xB1] @ show_int pct @ '' % '' @ [CHR 0xC2, CHR 0xB7]
     @ (if is_english locale then '' the meter decides'' else '' el tax'' @ [CHR 0xC3, CHR 0xAD] @ ''metro manda'')"

record price_band =
  pb_amount :: rat
  pb_min :: rat
  pb_max :: rat
  pb_currency :: string
  pb_breakdown :: "(string \<times> rat) list"
  pb_applied :: "string list"
  pb_note :: string
  pb_tariff :: string

definition units_of :: "tariff \<Rightarrow> rat \<Rightarrow> rat \<Rightarrow> int" where
  "units_of ta distance duration = \<lceil>max distance 0 / of_int (ta_unit_meters ta)\<rceil>
     + \<lfloor>max duration 0 * ta_waiting_share ta / of_int (ta_unit_seconds ta)\<rfloor>"

definition metered :: "tariff \<Rightarrow> rat \<Rightarrow> rat \<Rightarrow> rat" where
  "metered ta distance duration = ta_flag_fall ta + of_int (units_of ta distance duration) * ta_unit_price ta"

definition estimate :: "tariff \<Rightarrow> rat \<Rightarrow> rat \<Rightarrow> local_time \<Rightarrow> (int \<Rightarrow> bool) \<Rightarrow> (rat option \<times> rat option) list
    \<Rightarrow> string list \<Rightarrow> string \<Rightarrow> py_error + price_band" where
  "estimate ta distance duration when holiday points optional_ids locale =
     (let ride = metered ta distance duration;
          minimum_applied = (ride < ta_minimum ta);
          ride = round_unit (ta_rounding ta) (max ride (ta_minimum ta))
      in and_then (applicable_surcharges ta when holiday points optional_ids) (\<lambda>applied.
        let total = round_unit (ta_rounding ta) (ride + sum_list (map su_amount applied)) in
        Inr \<lparr>pb_amount = total, pb_min = round_unit (ta_rounding ta) (total * (1 - ta_band ta)),
             pb_max = round_unit (ta_rounding ta) (total * (1 + ta_band ta)), pb_currency = ta_currency ta,
             pb_breakdown = (if minimum_applied then minimum_label locale else ride_label locale (km_text distance), ride)
               # map (\<lambda>s. (su_label s, round_unit (ta_rounding ta) (su_amount s))) applied,
             pb_applied = map su_id applied, pb_note = band_label locale (py_round (ta_band ta * 100)),
             pb_tariff = ta_id ta\<rparr>))"

section \<open>Properties\<close>

lemma round_unit_mono: "x \<le> y \<Longrightarrow> round_unit u x \<le> round_unit u y"
proof -
  assume xy: "x \<le> y"
  show ?thesis
  proof (cases "1 < u")
    case True
    then have "py_round (x / of_int u) \<le> py_round (y / of_int u)" using xy by (intro py_round_mono divide_right_mono) simp_all
    with True show ?thesis by (simp add: round_unit_def)
  next
    case False
    have "py_round (x * 10 ^ 2) \<le> py_round (y * 10 ^ 2)" using xy by (intro py_round_mono mult_right_mono) simp_all
    then show ?thesis using False by (simp add: round_unit_def py_round_to_def divide_right_mono)
  qed
qed

lemma round_unit_idem: "round_unit u (round_unit u x) = round_unit u x"
  by (simp add: round_unit_def py_round_to_def)

lemma round_unit_nonneg: "0 \<le> x \<Longrightarrow> 0 \<le> round_unit u x"
  by (auto simp: round_unit_def py_round_to_def intro!: py_round_nonneg mult_nonneg_nonneg)

definition tariff_ok :: "tariff \<Rightarrow> bool" where
  \<comment> \<open>the field constraints of \<open>TaxiTariff\<close> and \<open>TaxiSurcharge\<close>\<close>
  "tariff_ok ta = (0 \<le> ta_flag_fall ta \<and> 0 \<le> ta_unit_price ta \<and> 0 < ta_unit_meters ta \<and> 0 < ta_unit_seconds ta \<and>
     0 \<le> ta_minimum ta \<and> 0 \<le> ta_waiting_share ta \<and> 0 < ta_rounding ta \<and> 0 \<le> ta_band ta \<and> ta_band ta \<le> 1/2 \<and>
     list_all (\<lambda>s. 0 \<le> su_amount s) (ta_surcharges ta))"

lemma select_sub: "select_surcharges h w t wa ss = Inr r \<Longrightarrow> subseq r ss"
  by (induction ss arbitrary: r) auto

lemma estimate_parts:
  assumes "estimate ta d s when h pts opt loc = Inr b"
  shows "\<exists>applied. applicable_surcharges ta when h pts opt = Inr applied \<and>
    pb_amount b = round_unit (ta_rounding ta) (round_unit (ta_rounding ta) (max (metered ta d s) (ta_minimum ta)) + sum_list (map su_amount applied)) \<and>
    pb_min b = round_unit (ta_rounding ta) (pb_amount b * (1 - ta_band ta)) \<and>
    pb_max b = round_unit (ta_rounding ta) (pb_amount b * (1 + ta_band ta))"
  using assms by (auto simp: estimate_def Let_def)

lemma applied_nonneg:
  assumes "applicable_surcharges ta when h pts opt = Inr applied" and "tariff_ok ta"
  shows "0 \<le> sum_list (map su_amount applied)"
proof -
  have "subseq applied (ta_surcharges ta)"
    using assms(1) by (auto simp: applicable_surcharges_def Let_def dest: select_sub)
  then have "set applied \<subseteq> set (ta_surcharges ta)" by (rule subseq_imp_set)
  then show ?thesis using assms(2) by (intro sum_list_nonneg) (auto simp: tariff_ok_def list_all_iff)
qed

text \<open>The price band is honest: it contains the estimate, nothing in it is negative, and the estimate is
  never below the rounded minimum fare.\<close>
theorem band_contains_estimate:
  assumes "tariff_ok ta" and "estimate ta distance duration when holiday points optional_ids locale = Inr b"
  shows "0 \<le> pb_min b \<and> pb_min b \<le> pb_amount b \<and> pb_amount b \<le> pb_max b \<and>
    round_unit (ta_rounding ta) (ta_minimum ta) \<le> pb_amount b"
proof -
  let ?u = "ta_rounding ta"
  obtain applied where a: "applicable_surcharges ta when holiday points optional_ids = Inr applied"
    "pb_amount b = round_unit ?u (round_unit ?u (max (metered ta distance duration) (ta_minimum ta)) + sum_list (map su_amount applied))"
    "pb_min b = round_unit ?u (pb_amount b * (1 - ta_band ta))" "pb_max b = round_unit ?u (pb_amount b * (1 + ta_band ta))"
    using estimate_parts[OF assms(2)] by blast
  have sur: "0 \<le> sum_list (map su_amount applied)" by (rule applied_nonneg[OF a(1) assms(1)])
  have min0: "0 \<le> ta_minimum ta" "0 \<le> ta_band ta" "ta_band ta \<le> 1/2" using assms(1) by (simp_all add: tariff_ok_def)
  have mn: "round_unit ?u (ta_minimum ta) \<le> round_unit ?u (max (metered ta distance duration) (ta_minimum ta))"
    by (intro round_unit_mono) simp
  also have "\<dots> = round_unit ?u (round_unit ?u (max (metered ta distance duration) (ta_minimum ta)))" by (simp add: round_unit_idem)
  also have "\<dots> \<le> pb_amount b" unfolding a(2) by (intro round_unit_mono) (use sur in simp)
  finally have low: "round_unit ?u (ta_minimum ta) \<le> pb_amount b" .
  then have pos: "0 \<le> pb_amount b" using round_unit_nonneg[OF min0(1), of ?u] by linarith
  have fixed: "round_unit ?u (pb_amount b) = pb_amount b" unfolding a(2) by (rule round_unit_idem)
  have "pb_amount b * (1 - ta_band ta) \<le> pb_amount b * 1" using pos min0 by (intro mult_left_mono) simp_all
  then have "pb_min b \<le> pb_amount b" using round_unit_mono[of "pb_amount b * (1 - ta_band ta)" "pb_amount b" ?u] fixed a(3) by simp
  moreover have "pb_amount b * 1 \<le> pb_amount b * (1 + ta_band ta)" using pos min0 by (intro mult_left_mono) simp_all
  then have "pb_amount b \<le> pb_max b" using round_unit_mono[of "pb_amount b" "pb_amount b * (1 + ta_band ta)" ?u] fixed a(4) by simp
  moreover have "0 \<le> pb_min b" unfolding a(3) using pos min0 by (intro round_unit_nonneg mult_nonneg_nonneg) simp_all
  ultimately show ?thesis using low by blast
qed

definition demo_tariff :: tariff where
  "demo_tariff = \<lparr>ta_id = ''bog'', ta_currency = ''COP'', ta_flag_fall = 3500, ta_unit_price = 130, ta_unit_meters = 100,
     ta_unit_seconds = 30, ta_minimum = 6600, ta_surcharges = [\<lparr>su_id = ''night'', su_label = ''Nocturno'', su_amount = 2600,
       su_when = \<lparr>sw_night_from = None, sw_night_to = None, sw_sundays = True, sw_holidays = True,
                  sw_zones = [], sw_optional = False\<rparr>\<rparr>], ta_zones = [], ta_waiting_share = 3/20, ta_rounding = 100, ta_band = 1/10\<rparr>"

lemma band_contains_estimate_witness:
  "\<exists>b. estimate demo_tariff 8200 1500 \<lparr>lt_day = 739897, lt_sec = 77400\<rparr> (\<lambda>_. False) [] [] ''es'' = Inr b \<and> pb_min b \<le> pb_max b"
proof -
  let ?e = "estimate demo_tariff 8200 1500 \<lparr>lt_day = 739897, lt_sec = 77400\<rparr> (\<lambda>_. False) [] [] ''es''"
  obtain b where b: "?e = Inr b"
    by (simp add: estimate_def Let_def applicable_surcharges_def surcharge_hit_def demo_tariff_def)
  have "tariff_ok demo_tariff" by (simp add: tariff_ok_def demo_tariff_def)
  from band_contains_estimate[OF this b] b show ?thesis by force
qed

text \<open>A longer or slower ride never costs less, at the same time and place.\<close>
theorem estimate_monotone:
  assumes "tariff_ok ta" and "distance \<le> distance'" and "duration \<le> duration'"
    and "estimate ta distance duration when holiday points optional_ids locale = Inr b"
    and "estimate ta distance' duration' when holiday points optional_ids locale = Inr b'"
  shows "pb_amount b \<le> pb_amount b'"
proof -
  have c: "0 < ta_unit_meters ta" "0 < ta_unit_seconds ta" "0 \<le> ta_waiting_share ta" "0 \<le> ta_unit_price ta"
    using assms(1) by (simp_all add: tariff_ok_def)
  have "max distance 0 / of_int (ta_unit_meters ta) \<le> max distance' 0 / of_int (ta_unit_meters ta)"
    using c assms(2) by (intro divide_right_mono) (auto simp: max_def)
  moreover have "max duration 0 * ta_waiting_share ta / of_int (ta_unit_seconds ta) \<le> max duration' 0 * ta_waiting_share ta / of_int (ta_unit_seconds ta)"
    using c assms(3) by (intro divide_right_mono mult_right_mono) (auto simp: max_def)
  ultimately have "units_of ta distance duration \<le> units_of ta distance' duration'"
    unfolding units_of_def by (intro add_mono ceiling_mono floor_mono)
  then have "metered ta distance duration \<le> metered ta distance' duration'"
    using c by (auto simp: metered_def intro!: mult_right_mono)
  moreover obtain app where app: "applicable_surcharges ta when holiday points optional_ids = Inr app"
    "pb_amount b = round_unit (ta_rounding ta) (round_unit (ta_rounding ta) (max (metered ta distance duration) (ta_minimum ta)) + sum_list (map su_amount app))"
    using estimate_parts[OF assms(4)] by blast
  moreover obtain app' where "applicable_surcharges ta when holiday points optional_ids = Inr app'"
    "pb_amount b' = round_unit (ta_rounding ta) (round_unit (ta_rounding ta) (max (metered ta distance' duration') (ta_minimum ta)) + sum_list (map su_amount app'))"
    using estimate_parts[OF assms(5)] by blast
  ultimately show ?thesis
    by (auto intro!: round_unit_mono add_right_mono simp: max_def)
qed

lemma estimate_monotone_witness:
  "\<exists>b b'. estimate demo_tariff 5000 600 \<lparr>lt_day = 739897, lt_sec = 36000\<rparr> (\<lambda>_. False) [] [] ''es'' = Inr b \<and>
     estimate demo_tariff 9000 900 \<lparr>lt_day = 739897, lt_sec = 36000\<rparr> (\<lambda>_. False) [] [] ''es'' = Inr b' \<and> pb_amount b \<le> pb_amount b'"
proof -
  let ?e = "estimate demo_tariff 5000 600 \<lparr>lt_day = 739897, lt_sec = 36000\<rparr> (\<lambda>_. False) [] [] ''es''"
  let ?f = "estimate demo_tariff 9000 900 \<lparr>lt_day = 739897, lt_sec = 36000\<rparr> (\<lambda>_. False) [] [] ''es''"
  obtain b where b: "?e = Inr b"
    by (simp add: estimate_def Let_def applicable_surcharges_def surcharge_hit_def demo_tariff_def)
  obtain b' where b': "?f = Inr b'"
    by (simp add: estimate_def Let_def applicable_surcharges_def surcharge_hit_def demo_tariff_def)
  have "tariff_ok demo_tariff" by (simp add: tariff_ok_def demo_tariff_def)
  from estimate_monotone[OF this _ _ b b'] b b' show ?thesis by simp
qed

lemma ray_append: "ray lon lat p i (xs @ [x]) =
    (if crosses lon lat x (last (p # xs)) then \<not> ray lon lat p i xs else ray lon lat p i xs)"
  by (induction xs arbitrary: p i) auto

lemma crosses_self: "\<not> crosses lon lat p p"
  by (simp add: crosses_def split: prod.split)

lemma ray_flip: "ray lon lat p (\<not> i) xs = (\<not> ray lon lat p i xs)"
  by (induction xs arbitrary: p i) auto

text \<open>The containment test does not depend on whether the ring repeats its first vertex at the end.\<close>
theorem ring_closure_irrelevant:
  assumes "3 \<le> length polygon"
  shows "point_in_polygon lon lat (polygon @ [hd polygon]) = point_in_polygon lon lat polygon"
proof -
  obtain p q ps' where "polygon = p # q # ps'" using assms by (cases polygon; cases "tl polygon") auto
  then obtain ps where p: "polygon = p # ps" "ps \<noteq> []" by blast
  have "ray lon lat p False (p # ps @ [p]) = (if crosses lon lat p (last ps) then \<not> ray lon lat p False ps else ray lon lat p False ps)"
    using p(2) by (simp add: crosses_self ray_append)
  moreover have "ray lon lat (last ps) False (p # ps) =
      (if crosses lon lat p (last ps) then \<not> ray lon lat p False ps else ray lon lat p False ps)"
    using ray_flip[of lon lat p False ps] by simp
  ultimately show ?thesis using p assms by (simp add: point_in_polygon_def)
qed

lemma ring_closure_irrelevant_witness:
  "point_in_polygon 1 1 ([(0, 0), (4, 0), (0, 4)] @ [hd [(0, 0), (4, 0), (0, 4)]]) = point_in_polygon 1 1 [(0, 0), (4, 0), (0, 4)]"
  by (rule ring_closure_irrelevant) simp

end
