(* ===== verification/Rt.thy ===== *)
theory Rt
  imports Features Geo Py_Text
begin

text \<open>
  \<open>app/rt.py\<close>: the GTFS-Realtime frames of one city.  A parsed protobuf message is a record whose absent
  optional messages are \<open>None\<close> and whose unset scalars are the protobuf default (0 or the empty string);
  enumerations carry their names.  Downloading is not modelled: \<open>poll_once\<close> enters with the answers of
  the three requests.  The clock is an argument.
\<close>

section \<open>The feed\<close>

record feed_alert =
  fa_periods :: "(int \<times> int) list"
  fa_informed :: "(string \<times> string) list"  \<comment> \<open>route id, stop id\<close>
  fa_cause :: "string option"
  fa_effect :: "string option"
  fa_severity :: "string option"
  fa_header :: "string list"
  fa_description :: "string list"
  fa_url :: "string list"

record stop_update =
  su_arrival :: "(int \<times> int option) option"  \<comment> \<open>time (0: unset), delay\<close>
  su_departure :: "(int \<times> int option) option"
  su_stop :: string
  su_seq :: nat

record trip_update =
  tu_trip :: string
  tu_route :: string
  tu_delay :: "int option"
  tu_stops :: "stop_update list"

record feed_position =
  fp_lat :: real
  fp_lon :: real
  fp_bearing :: "real option"

record feed_vehicle =
  fv_id :: string
  fv_label :: string
  fv_trip :: string
  fv_route :: string
  fv_start :: string
  fv_position :: "feed_position option"
  fv_timestamp :: int
  fv_stop :: string
  fv_seq :: nat
  fv_occupancy :: "string option"

record feed_entity =
  fe_id :: string
  fe_alert :: "feed_alert option"
  fe_trip_update :: "trip_update option"
  fe_vehicle :: "feed_vehicle option"

record feed_message =
  fm_timestamp :: int
  fm_entities :: "feed_entity list"

section \<open>Alerts\<close>

record alert =
  a_id :: string
  a_cause :: "string option"
  a_effect :: "string option"
  a_severity :: string
  a_from_feed :: bool
  a_header :: "string option"
  a_description :: "string option"
  a_url :: "string option"
  a_start :: "int option"
  a_end :: "int option"
  a_routes :: "string list"
  a_stops :: "string list"

definition first_text :: "string list \<Rightarrow> string option" where
  "first_text translations = (case translations of [] \<Rightarrow> None | t # _ \<Rightarrow> Some (strip t))"

definition non_empty :: "string \<Rightarrow> string option" where
  \<comment> \<open>\<open>x or None\<close>\<close>
  "non_empty s = (if s = [] then None else Some s)"

definition non_zero :: "int \<Rightarrow> int option" where
  "non_zero n = (if n = 0 then None else Some n)"

definition sorted_ids :: "string list \<Rightarrow> string list" where
  \<comment> \<open>\<open>sorted(set(xs))\<close> of the ids present\<close>
  "sorted_ids xs = sort (remdups (filter (\<lambda>x. x \<noteq> []) xs))"

definition parse_alert :: "string \<Rightarrow> feed_alert \<Rightarrow> alert" where
  "parse_alert eid a = (let per = (case fa_periods a of [] \<Rightarrow> None | p # _ \<Rightarrow> Some p) in
     \<lparr>a_id = eid, a_cause = fa_cause a, a_effect = fa_effect a,
      a_severity = infer_severity (fa_severity a) (fa_effect a),
      a_from_feed = (fa_severity a \<in> {Some ''INFO'', Some ''WARNING'', Some ''SEVERE''}),
      a_header = first_text (fa_header a), a_description = first_text (fa_description a), a_url = first_text (fa_url a),
      a_start = Option.bind per (non_zero \<circ> fst), a_end = Option.bind per (non_zero \<circ> snd),
      a_routes = sorted_ids (map fst (fa_informed a)), a_stops = sorted_ids (map snd (fa_informed a))\<rparr>)"

type_synonym alert_index = "(string \<times> nat list) list"

definition index_add :: "nat \<Rightarrow> string \<Rightarrow> alert_index \<Rightarrow> alert_index" where
  \<comment> \<open>\<open>idx.setdefault(k, []).append(i)\<close>\<close>
  "index_add i k idx = AList.update k (or_else (map_of idx k) [] @ [i]) idx"

fun parse_alerts_from :: "alert list \<Rightarrow> alert_index \<Rightarrow> alert_index \<Rightarrow> feed_entity list \<Rightarrow> alert list \<times> alert_index \<times> alert_index" where
  "parse_alerts_from out by_route by_stop [] = (out, by_route, by_stop)"
| "parse_alerts_from out by_route by_stop (e # es) = (case fe_alert e of
     None \<Rightarrow> parse_alerts_from out by_route by_stop es
   | Some a \<Rightarrow> (let x = parse_alert (fe_id e) a; i = length out in
       parse_alerts_from (out @ [x]) (fold (index_add i) (a_routes x) by_route) (fold (index_add i) (a_stops x) by_stop) es))"

definition parse_alerts :: "feed_message \<Rightarrow> alert list \<times> alert_index \<times> alert_index" where
  "parse_alerts msg = parse_alerts_from [] [] [] (fm_entities msg)"

section \<open>Trip updates\<close>

record next_stop =
  ns_stop :: "string option"
  ns_seq :: "nat option"
  ns_eta :: "int option"

record arrival =
  ar_route :: "string option"
  ar_trip :: "string option"
  ar_eta :: int
  ar_seq :: "nat option"

record trip_tables =
  tt_delays :: "(string \<times> int) list"
  tt_next :: "(string \<times> next_stop) list"
  tt_by_stop :: "(string \<times> arrival list) list"

definition seq_opt :: "nat \<Rightarrow> nat option" where "seq_opt n = (if n = 0 then None else Some n)"

definition stop_event :: "stop_update \<Rightarrow> (int \<times> int option) option" where
  "stop_event su = (case su_arrival su of Some a \<Rightarrow> Some a | None \<Rightarrow> su_departure su)"

definition update_stop :: "string \<Rightarrow> string option \<Rightarrow> bool \<Rightarrow> stop_update \<Rightarrow> trip_tables \<Rightarrow> trip_tables" where
  \<comment> \<open>the body of \<open>for su in t.stop_time_update\<close>; \<open>first\<close>: is it the first one\<close>
  "update_stop tid route first su t = (let ev = stop_event su; eta = Option.bind ev (non_zero \<circ> fst);
     delays = (case Option.bind ev snd of
        Some d \<Rightarrow> if tid \<noteq> [] \<and> map_of (tt_delays t) tid = None then AList.update tid d (tt_delays t) else tt_delays t
      | None \<Rightarrow> tt_delays t);
     nxt = (if first \<and> tid \<noteq> []
            then AList.update tid \<lparr>ns_stop = non_empty (su_stop su), ns_seq = seq_opt (su_seq su), ns_eta = eta\<rparr> (tt_next t)
            else tt_next t);
     bys = (case eta of Some x \<Rightarrow> if su_stop su \<noteq> []
              then AList.update (su_stop su) (or_else (map_of (tt_by_stop t) (su_stop su)) []
                 @ [\<lparr>ar_route = route, ar_trip = non_empty tid, ar_eta = x, ar_seq = seq_opt (su_seq su)\<rparr>]) (tt_by_stop t)
              else tt_by_stop t
            | None \<Rightarrow> tt_by_stop t)
   in \<lparr>tt_delays = delays, tt_next = nxt, tt_by_stop = bys\<rparr>)"

definition update_trip :: "trip_update \<Rightarrow> trip_tables \<Rightarrow> trip_tables" where
  "update_trip tu t = (let tid = tu_trip tu; route = non_empty (tu_route tu);
     t0 = (case tu_delay tu of Some d \<Rightarrow> if tid \<noteq> [] then t\<lparr>tt_delays := AList.update tid d (tt_delays t)\<rparr> else t | None \<Rightarrow> t)
   in fold (\<lambda>(i, su). update_stop tid route (i = 0) su) (enumerate 0 (tu_stops tu)) t0)"

definition parse_trip_updates :: "feed_message \<Rightarrow> trip_tables" where
  "parse_trip_updates msg = (let t = fold (\<lambda>e t. case fe_trip_update e of None \<Rightarrow> t | Some tu \<Rightarrow> update_trip tu t)
       (fm_entities msg) \<lparr>tt_delays = [], tt_next = [], tt_by_stop = []\<rparr>
     in t\<lparr>tt_by_stop := map (\<lambda>(s, xs). (s, sort_key ar_eta xs)) (tt_by_stop t)\<rparr>)"

section \<open>Positions\<close>

definition norm_gtfs_time :: "string option \<Rightarrow> string" where
  "norm_gtfs_time t = (let s = strip (or_else t []) in if length s = 7 then CHR ''0'' # s else s)"

record vehicle =
  v_id :: string
  v_label :: "string option"
  v_route :: "string option"
  v_trip :: "string option"
  v_resolved :: bool
  v_match :: "string option"
  v_lat :: real
  v_lon :: real
  v_bearing :: "real option"
  v_bearing_source :: "string option"
  v_ts :: int
  v_stop :: "string option"
  v_seq :: "nat option"
  v_occupancy :: "string option"

type_synonym schedule_index = "((string \<times> string) \<times> string) list"

definition match_trip :: "string list option \<Rightarrow> schedule_index \<Rightarrow> feed_vehicle \<Rightarrow> string option \<times> bool \<times> string option" where
  \<comment> \<open>the trip, whether it is resolved, and how: by its id or by the schedule\<close>
  "match_trip known idx v = (let resolved = (fv_trip v \<noteq> [] \<and> (case known of None \<Rightarrow> True | Some ks \<Rightarrow> fv_trip v \<in> set ks)) in
     if resolved then (non_empty (fv_trip v), True, Some ''id'')
     else if idx \<noteq> [] \<and> fv_route v \<noteq> [] \<and> fv_start v \<noteq> []
     then (case map_of idx (fv_route v, norm_gtfs_time (Some (fv_start v))) of
         Some found \<Rightarrow> if found \<noteq> [] then (Some found, True, Some ''schedule'') else (non_empty (fv_trip v), False, None)
       | None \<Rightarrow> (non_empty (fv_trip v), False, None))
     else (non_empty (fv_trip v), False, None))"

definition parse_vehicle :: "string list option \<Rightarrow> schedule_index \<Rightarrow> string \<Rightarrow> feed_vehicle \<Rightarrow> feed_position \<Rightarrow> vehicle" where
  "parse_vehicle known idx eid v p = (let (tid, resolved, how) = match_trip known idx v in
     \<lparr>v_id = (if fv_id v \<noteq> [] then fv_id v else if fv_label v \<noteq> [] then fv_label v else eid),
      v_label = non_empty (fv_label v), v_route = non_empty (fv_route v), v_trip = tid, v_resolved = resolved, v_match = how,
      v_lat = py_round_to 5 (fp_lat p), v_lon = py_round_to 5 (fp_lon p),
      v_bearing = map_option (py_round_to 1) (fp_bearing p), v_bearing_source = None,
      v_ts = fv_timestamp v, v_stop = non_empty (fv_stop v), v_seq = seq_opt (fv_seq v), v_occupancy = fv_occupancy v\<rparr>)"

record positions =
  ps_vehicles :: "vehicle list"
  ps_ages :: "int list"
  ps_unresolved :: nat
  ps_rescued :: nat

definition parse_positions :: "feed_message \<Rightarrow> string list option \<Rightarrow> schedule_index \<Rightarrow> positions" where
  "parse_positions msg known idx =
     (let vs = List.map_filter (\<lambda>e. case fe_vehicle e of None \<Rightarrow> None | Some v \<Rightarrow>
                 map_option (\<lambda>p. (v, parse_vehicle known idx (fe_id e) v p)) (fv_position v)) (fm_entities msg)
      in \<lparr>ps_vehicles = map snd vs, ps_ages = sort (filter (\<lambda>t. t \<noteq> 0) (map (fv_timestamp \<circ> fst) vs)),
          ps_unresolved = length (filter (\<lambda>x. \<not> v_resolved (snd x)) vs),
          ps_rescued = length (filter (\<lambda>x. v_match (snd x) = Some ''schedule'') vs)\<rparr>)"

section \<open>Derived bearings\<close>

type_synonym trail_point = "real \<times> real \<times> int"

definition MIN_MOVE_M :: real where "MIN_MOVE_M = 10"
definition MAX_PAIR_GAP_S :: int where "MAX_PAIR_GAP_S = 180"

fun look_back :: "trail_point \<Rightarrow> trail_point list \<Rightarrow> real option" where
  \<comment> \<open>the loop over the older points, newest first\<close>
  "look_back now [] = None"
| "look_back (lon2, lat2, ts2) ((lon1, lat1, ts1) # older) =
     (if haversine_m lat1 lon1 lat2 lon2 < MIN_MOVE_M then look_back (lon2, lat2, ts2) older
      else if MAX_PAIR_GAP_S < ts2 - ts1 then None
      else Some (initial_bearing lat1 lon1 lat2 lon2))"

definition derive_bearing :: "trail_point list option \<Rightarrow> real option" where
  "derive_bearing history = (case history of None \<Rightarrow> None
     | Some pts \<Rightarrow> if length pts < 2 then None else look_back (last pts) (tl (rev pts)))"

section \<open>Backing off a feed that refuses\<close>

definition BACKOFF_START_S :: rat where "BACKOFF_START_S = 60"
definition BACKOFF_MAX_S :: rat where "BACKOFF_MAX_S = 900"
definition TURNED_AWAY :: "int list" where "TURNED_AWAY = [401, 403, 405, 418, 429, 451]"

record backoff =
  bo_until :: "(string \<times> rat) list"
  bo_delay :: "(string \<times> rat) list"
  bo_status :: "(string \<times> int) list"

definition bo_blocked :: "backoff \<Rightarrow> string \<Rightarrow> rat \<Rightarrow> bool" where
  "bo_blocked b url now = (now < or_else (map_of (bo_until b) url) 0)"

definition bo_refused :: "backoff \<Rightarrow> string \<Rightarrow> int \<Rightarrow> rat \<Rightarrow> backoff \<times> rat" where
  "bo_refused b url status now = (let prev = or_else (map_of (bo_delay b) url) 0;
     d = min BACKOFF_MAX_S ((if prev \<noteq> 0 then prev else BACKOFF_START_S / 2) * 2)
   in (\<lparr>bo_until = AList.update url (now + d) (bo_until b), bo_delay = AList.update url d (bo_delay b),
        bo_status = AList.update url status (bo_status b)\<rparr>, d))"

definition bo_allowed :: "backoff \<Rightarrow> string \<Rightarrow> backoff" where
  "bo_allowed b url = \<lparr>bo_until = AList.delete url (bo_until b), bo_delay = AList.delete url (bo_delay b),
                       bo_status = AList.delete url (bo_status b)\<rparr>"

definition bo_snapshot :: "backoff \<Rightarrow> rat \<Rightarrow> (string \<times> int option \<times> int) list" where
  "bo_snapshot b now = map (\<lambda>(url, u). (url, map_of (bo_status b) url, \<lfloor>u - now\<rfloor>))
     (filter (\<lambda>(url, u). now < u) (bo_until b))"

fun refusals :: "backoff \<Rightarrow> string \<Rightarrow> (int \<times> rat) list \<Rightarrow> backoff" where
  "refusals b url [] = b"
| "refusals b url ((status, now) # rs) = refusals (fst (bo_refused b url status now)) url rs"

end
