(* ===== verification/Rt_Cache.thy ===== *)
theory Rt_Cache
  imports Rt
begin

text \<open>
  \<open>RTCache\<close> of \<open>app/rt.py\<close>: the state of one city's poller, the frame a set of feed messages makes, the
  delta between two frames, the subscribers' queues and one polling cycle.  The code keeps a frame's
  vehicles as shared mutable dictionaries: \<open>self.vehicles\<close>, \<open>self.by_id\<close> and the delta's \<open>upd\<close> hold the
  same objects, and \<open>_apply_bearings\<close> writes into them afterwards.  Here the frame is the list
  \<open>rc_vehicles\<close> and the other two hold positions in it, so a write to a vehicle is seen through all three.
\<close>

section \<open>State\<close>

record rt_cache =
  rc_vehicles :: "vehicle list"
  rc_by_id :: "(string \<times> nat) list"
  rc_trips :: trip_tables
  rc_schedule :: schedule_index
  rc_rescued :: nat
  rc_alerts :: "alert list"
  rc_by_route :: alert_index
  rc_by_stop :: alert_index
  rc_updated_at :: rat
  rc_header_ts :: int
  rc_age_p50 :: int
  rc_alerts_at :: rat
  rc_backoff :: backoff
  rc_http :: "int option"
  rc_unresolved :: nat
  rc_known :: "string list option"
  rc_delta :: "(nat list \<times> string list) option"
  rc_seq :: nat
  rc_history :: "(string \<times> trail_point list) list"
  rc_derived :: "(string \<times> real) list"
  rc_subs :: "(nat \<times> nat list) list"  \<comment> \<open>the subscribers and what waits in their queues\<close>

definition new_cache :: rt_cache where
  "new_cache = \<lparr>rc_vehicles = [], rc_by_id = [], rc_trips = \<lparr>tt_delays = [], tt_next = [], tt_by_stop = []\<rparr>,
     rc_schedule = [], rc_rescued = 0, rc_alerts = [], rc_by_route = [], rc_by_stop = [], rc_updated_at = 0,
     rc_header_ts = 0, rc_age_p50 = 0, rc_alerts_at = 0, rc_backoff = \<lparr>bo_until = [], bo_delay = [], bo_status = []\<rparr>,
     rc_http = None, rc_unresolved = 0, rc_known = None, rc_delta = None, rc_seq = 0, rc_history = [],
     rc_derived = [], rc_subs = []\<rparr>"

definition set_static :: "string list \<Rightarrow> schedule_index option \<Rightarrow> rt_cache \<Rightarrow> rt_cache" where
  "set_static trips idx c = (case idx of None \<Rightarrow> c\<lparr>rc_known := Some trips\<rparr>
     | Some i \<Rightarrow> c\<lparr>rc_known := Some trips, rc_schedule := i\<rparr>)"

section \<open>Reading alerts\<close>

definition active_alerts :: "rt_cache \<Rightarrow> int \<Rightarrow> alert list" where
  "active_alerts c t = filter (\<lambda>a. (case a_start a of None \<Rightarrow> True | Some s \<Rightarrow> s \<le> t)
     \<and> (case a_end a of None \<Rightarrow> True | Some e \<Rightarrow> t \<le> e)) (rc_alerts c)"

definition alerts_for :: "rt_cache \<Rightarrow> string option \<Rightarrow> string option list \<Rightarrow> int \<Rightarrow> alert list" where
  "alerts_for c route stops now =
     (let idx = sorted_list_of_set (set (or_else (map_of (rc_by_route c) (or_else route [])) [])
            \<union> (\<Union>s \<in> set stops. set (or_else (map_of (rc_by_stop c) (or_else s [])) [])));
          out = filter (\<lambda>a. \<not> (case a_start a of None \<Rightarrow> False | Some s \<Rightarrow> s \<noteq> 0 \<and> now < s)
                          \<and> \<not> (case a_end a of None \<Rightarrow> False | Some e \<Rightarrow> e \<noteq> 0 \<and> e < now)) (map ((!) (rc_alerts c)) idx)
      in sort_key (\<lambda>a. - or_else (a_start a) 0) out)"

section \<open>Health\<close>

record health =
  h_age_p50 :: "int option"
  h_pct_resolved :: "rat option"
  h_pct_by_id :: "rat option"
  h_rescued :: "nat option"
  h_pairs :: "nat option"
  h_http :: "int option"
  h_backoff :: "(string \<times> int option \<times> int) list option"

definition health :: "rt_cache \<Rightarrow> rat \<Rightarrow> health" where
  "health c now = (let n = max (length (rc_vehicles c)) 1;
       measurable = (rc_known c \<noteq> None \<and> rc_vehicles c \<noteq> []);
       pct = (\<lambda>bad. if measurable then Some (py_round_to 2 (100 * (1 - of_nat bad / of_nat n))) else None);
       snap = bo_snapshot (rc_backoff c) now
     in \<lparr>h_age_p50 = (if rc_age_p50 c \<noteq> 0 then Some (py_trunc (now - of_int (rc_age_p50 c))) else None),
         h_pct_resolved = pct (rc_unresolved c),
         h_pct_by_id = pct (rc_unresolved c + rc_rescued c),
         h_rescued = (if measurable then Some (rc_rescued c) else None),
         h_pairs = seq_opt (length (rc_schedule c)),
         h_http = rc_http c,
         h_backoff = (if snap = [] then None else Some snap)\<rparr>)"

definition FEED_TS_MAX_SKEW_S :: rat where "FEED_TS_MAX_SKEW_S = 3600"

definition feed_timestamp :: "rt_cache \<Rightarrow> rat \<Rightarrow> int option" where
  \<comment> \<open>the instant; its rendering is \<open>iso\<close>\<close>
  "feed_timestamp c now = (if rc_header_ts c = 0 then None
     else if \<bar>now - of_int (rc_header_ts c)\<bar> \<le> FEED_TS_MAX_SKEW_S then Some (rc_header_ts c) else None)"

section \<open>The next frame\<close>

definition differs :: "vehicle \<Rightarrow> vehicle \<Rightarrow> bool" where
  "differs p e = (v_lat p \<noteq> v_lat e \<or> v_lon p \<noteq> v_lon e \<or> v_trip p \<noteq> v_trip e \<or> v_bearing p \<noteq> v_bearing e)"

definition compute_delta :: "(string \<times> vehicle) list \<Rightarrow> vehicle list \<Rightarrow> nat list \<times> string list" where
  "compute_delta prev ents =
     (filter (\<lambda>i. case map_of prev (v_id (ents ! i)) of None \<Rightarrow> True | Some p \<Rightarrow> differs p (ents ! i)) [0..<length ents],
      filter (\<lambda>k. k \<notin> v_id ` set ents) (map fst prev))"

definition push_trail :: "nat \<Rightarrow> trail_point \<Rightarrow> trail_point list \<Rightarrow> trail_point list" where
  \<comment> \<open>\<open>append\<close> to a \<open>deque(maxlen=n)\<close>\<close>
  "push_trail n p h = drop (length h + 1 - n) (h @ [p])"

definition extend_trail :: "nat \<Rightarrow> int \<Rightarrow> vehicle \<Rightarrow> trail_point list \<Rightarrow> trail_point list" where
  "extend_trail n now e h = (if h = [] \<or> fst (last h) \<noteq> v_lon e \<or> fst (snd (last h)) \<noteq> v_lat e
     then push_trail n (v_lon e, v_lat e, if v_ts e \<noteq> 0 then v_ts e else now) h else h)"

definition record_one :: "nat \<Rightarrow> int \<Rightarrow> vehicle \<Rightarrow> (string \<times> trail_point list) list \<Rightarrow> (string \<times> trail_point list) list" where
  "record_one n now e hist = 
     AList.update (v_id e) (extend_trail n now e (or_else (map_of hist (v_id e)) [])) hist"

definition record_history :: "nat \<Rightarrow> int \<Rightarrow> vehicle list \<Rightarrow> rt_cache \<Rightarrow> rt_cache" where
  "record_history n now ents c = (let hist = fold (record_one n now) ents (rc_history c) in
     if 3 * max (length ents) 1000 < length hist
     then c\<lparr>rc_history := filter (\<lambda>(k, h). k \<in> v_id ` set ents) hist,
            rc_derived := filter (\<lambda>(k, b). k \<in> v_id ` set ents \<or> k \<notin> fst ` set hist) (rc_derived c)\<rparr>
     else c\<lparr>rc_history := hist\<rparr>)"

definition smooth :: "real option \<Rightarrow> real \<Rightarrow> real" where
  "smooth prev raw = py_round_to 1 (case prev of None \<Rightarrow> raw | Some p \<Rightarrow> or_else (circular_mean [p, raw]) 0)"

definition bear :: "(string \<times> trail_point list) list \<Rightarrow> vehicle \<Rightarrow> (string \<times> real) list \<Rightarrow> vehicle \<times> (string \<times> real) list" where
  "bear hist e der = (case v_bearing e of
     Some b \<Rightarrow> (e\<lparr>v_bearing_source := Some ''feed''\<rparr>, der)
   | None \<Rightarrow> (case derive_bearing (map_of hist (v_id e)) of
       None \<Rightarrow> (e\<lparr>v_bearing := None, v_bearing_source := None\<rparr>, der)
     | Some raw \<Rightarrow> (e\<lparr>v_bearing := Some (smooth (map_of der (v_id e)) raw), v_bearing_source := Some ''derived''\<rparr>,
                    AList.update (v_id e) raw der)))"

fun apply_bearings :: "(string \<times> trail_point list) list \<Rightarrow> vehicle list \<Rightarrow> (string \<times> real) list \<Rightarrow> vehicle list \<times> (string \<times> real) list" where
  "apply_bearings hist [] der = ([], der)"
| "apply_bearings hist (e # es) der = (let (e', der') = bear hist e der; (es', der'') = apply_bearings hist es der'
     in (e' # es', der''))"

definition publish :: "rt_cache \<Rightarrow> rt_cache" where
  \<comment> \<open>queues hold two; a full one loses its oldest entry\<close>
  "publish c = c\<lparr>rc_subs := map (\<lambda>(s, q). (s, (if 2 \<le> length q then tl q else q) @ [rc_seq c])) (rc_subs c)\<rparr>"

definition index_of :: "vehicle list \<Rightarrow> (string \<times> nat) list" where
  \<comment> \<open>\<open>{e["id"]: e for e in ents}\<close>: the last one of an id wins\<close>
  "index_of ents = fold (\<lambda>(i, e). AList.update (v_id e) i) (enumerate 0 ents) []"

definition by_id :: "rt_cache \<Rightarrow> (string \<times> vehicle) list" where
  "by_id c = map (\<lambda>(k, i). (k, rc_vehicles c ! i)) (rc_by_id c)"

definition apply_positions :: "nat \<Rightarrow> rat \<Rightarrow> feed_message \<Rightarrow> rt_cache \<Rightarrow> rt_cache" where
  "apply_positions n now pos c =
     (let p = parse_positions pos (rc_known c) (rc_schedule c); ents = ps_vehicles p;
          c1 = c\<lparr>rc_delta := (if rc_by_id c \<noteq> [] then Some (compute_delta (by_id c) ents) else None),
                 rc_vehicles := ents, rc_by_id := index_of ents,
                 rc_unresolved := ps_unresolved p, rc_rescued := ps_rescued p, rc_header_ts := fm_timestamp pos,
                 rc_age_p50 := (if ps_ages p \<noteq> [] then ps_ages p ! (length (ps_ages p) div 2) else 0),
                 rc_updated_at := now, rc_seq := rc_seq c + 1\<rparr>;
          c2 = record_history n (py_trunc now) ents c1;
          (ents', der) = apply_bearings (rc_history c2) ents (rc_derived c2)
      in publish (c2\<lparr>rc_vehicles := ents', rc_derived := der\<rparr>))"

definition apply_frame :: "nat \<Rightarrow> rat \<Rightarrow> feed_message option \<Rightarrow> feed_message option \<Rightarrow> feed_message option \<Rightarrow> rt_cache \<Rightarrow> rt_cache" where
  "apply_frame n now pos tu al c =
     (let c1 = (case al of None \<Rightarrow> c | Some m \<Rightarrow> (let (out, by_route, by_stop) = parse_alerts m in
                  c\<lparr>rc_alerts := out, rc_by_route := by_route, rc_by_stop := by_stop\<rparr>));
          c2 = (case tu of None \<Rightarrow> c1 | Some m \<Rightarrow> c1\<lparr>rc_trips := parse_trip_updates m\<rparr>)
      in case pos of None \<Rightarrow> c2 | Some m \<Rightarrow> apply_positions n now m c2)"

definition delta_frame :: "rt_cache \<Rightarrow> (vehicle list \<times> string list) option" where
  "delta_frame c = map_option (\<lambda>(upd, gone). (map ((!) (rc_vehicles c)) upd, gone)) (rc_delta c)"

definition subscribe :: "nat \<Rightarrow> rt_cache \<Rightarrow> rt_cache" where
  "subscribe s c = c\<lparr>rc_subs := AList.update s [] (rc_subs c)\<rparr>"

definition unsubscribe :: "nat \<Rightarrow> rt_cache \<Rightarrow> rt_cache" where
  "unsubscribe s c = c\<lparr>rc_subs := AList.delete s (rc_subs c)\<rparr>"

section \<open>One polling cycle\<close>

datatype answer = Unreachable | Answer (ans_status: int) (ans_body: "feed_message option")
  \<comment> \<open>the request failed, or its status and what its body parses to\<close>

definition fetch :: "rat \<Rightarrow> bool \<Rightarrow> string option \<Rightarrow> answer \<Rightarrow> rt_cache \<Rightarrow> feed_message option \<times> rt_cache" where
  "fetch now track url a c = (if \<not> truthy_str url then (None, c) else
     let u = the url in
     if bo_blocked (rc_backoff c) u now
     then (None, if track then c\<lparr>rc_http := Some (or_else (map_of (bo_status (rc_backoff c)) u) 0)\<rparr> else c)
     else (case a of
         Unreachable \<Rightarrow> (None, if track then c\<lparr>rc_http := Some 0\<rparr> else c)
       | Answer st m \<Rightarrow>
           let c1 = (if track then c\<lparr>rc_http := Some st\<rparr> else c) in
           if st \<in> set TURNED_AWAY then (None, c1\<lparr>rc_backoff := fst (bo_refused (rc_backoff c1) u st now)\<rparr>)
           else let c2 = c1\<lparr>rc_backoff := bo_allowed (rc_backoff c1) u\<rparr> in
             if 200 \<le> st \<and> st < 300 \<and> m \<noteq> None then (m, c2)
             else (None, if track then c2\<lparr>rc_http := Some 0\<rparr> else c2)))"

definition ALERTS_MIN_INTERVAL_S :: rat where "ALERTS_MIN_INTERVAL_S = 60"

record feed_urls =
  fu_positions :: "string option"
  fu_tripupdates :: "string option"
  fu_alerts :: "string option"

definition poll_once :: "nat \<Rightarrow> feed_urls \<Rightarrow> rat \<Rightarrow> answer \<Rightarrow> answer \<Rightarrow> answer \<Rightarrow> rt_cache \<Rightarrow> rt_cache" where
  \<comment> \<open>the three downloads run concurrently; each touches only its own URL's pause\<close>
  "poll_once n f now a_pos a_tu a_al c =
     (let want = (truthy_str (fu_alerts f) \<and> ALERTS_MIN_INTERVAL_S \<le> now - rc_alerts_at c);
          (pos, c1) = fetch now True (fu_positions f) a_pos c;
          (tu, c2) = fetch now False (fu_tripupdates f) a_tu c1;
          (al, c3) = fetch now False (if want then fu_alerts f else None) a_al c2;
          c4 = (if want \<and> al \<noteq> None then c3\<lparr>rc_alerts_at := now\<rparr> else c3)
      in apply_frame n now pos tu al c4)"

section \<open>Runs\<close>

definition vehicle_ids :: "feed_message \<Rightarrow> string list" where
  "vehicle_ids m = map v_id (ps_vehicles (parse_positions m None []))"

inductive running :: "nat \<Rightarrow> rt_cache \<Rightarrow> bool" for n where
  start: "running n new_cache"
| static: "running n c \<Longrightarrow> running n (set_static trips idx c)"
| joins: "running n c \<Longrightarrow> running n (subscribe s c)"
| leaves: "running n c \<Longrightarrow> running n (unsubscribe s c)"
| polls: "running n c \<Longrightarrow> \<forall>st m. a_pos = Answer st (Some m) \<longrightarrow> distinct (vehicle_ids m) \<Longrightarrow>
          running n (poll_once n f now a_pos a_tu a_al c)"

section \<open>Facts about a frame\<close>

lemma ids_of_parse: "map v_id (ps_vehicles (parse_positions m known idx)) = vehicle_ids m"
proof -
  have 1: "v_id (parse_vehicle known idx i v p) = v_id (parse_vehicle None [] i v p)" for i v p
    by (simp add: parse_vehicle_def Let_def split: prod.split)
  have "map v_id (map snd (List.map_filter (\<lambda>e. case fe_vehicle e of None \<Rightarrow> None | Some v \<Rightarrow>
            map_option (\<lambda>p. (v, parse_vehicle known idx (fe_id e) v p)) (fv_position v)) es))
      = map v_id (map snd (List.map_filter (\<lambda>e. case fe_vehicle e of None \<Rightarrow> None | Some v \<Rightarrow>
            map_option (\<lambda>p. (v, parse_vehicle None [] (fe_id e) v p)) (fv_position v)) es))" for es
    by (induction es) (simp_all add: List.map_filter_simps 1 split: option.split)
  then show ?thesis by (simp add: vehicle_ids_def parse_positions_def Let_def)
qed

lemma index_of_snoc: "index_of (xs @ [x]) = AList.update (v_id x) (length xs) (index_of xs)"
  by (simp add: index_of_def enumerate_append_eq)

lemma index_of_distinct:
  "distinct (map v_id ents) \<Longrightarrow> index_of ents = map (\<lambda>i. (v_id (ents ! i), i)) [0..<length ents]"
proof (induction ents rule: rev_induct)
  case (snoc x xs)
  have "map fst (index_of xs) = map v_id xs"
    using snoc by (auto intro: nth_equalityI)
  then have "fst ` set (index_of xs) = v_id ` set xs"
    by (metis set_map)
  with snoc show ?case
    by (simp add: index_of_snoc update_absent nth_append)
qed (simp add: index_of_def)

lemma index_of_zip: "distinct (map v_id ents) \<Longrightarrow> index_of ents = zip (map v_id ents) [0..<length ents]"
  by (auto simp: index_of_distinct intro: nth_equalityI)

lemma index_of_ids: "map v_id xs = map v_id ys \<Longrightarrow> distinct (map v_id ys) \<Longrightarrow> index_of xs = index_of ys"
  by (metis index_of_zip length_map)

lemma extend_trail_last:
  assumes "0 < n"
  shows "extend_trail n now e h \<noteq> [] \<and> fst (last (extend_trail n now e h)) = v_lon e
    \<and> fst (snd (last (extend_trail n now e h))) = v_lat e"
  using assms by (auto simp: extend_trail_def push_trail_def)

lemma extend_trail_same:
  "h \<noteq> [] \<Longrightarrow> fst (last h) = v_lon e \<Longrightarrow> fst (snd (last h)) = v_lat e \<Longrightarrow> extend_trail n now e h = h"
  by (simp add: extend_trail_def)

lemma record_fold_other:
  "k \<notin> v_id ` set ents \<Longrightarrow> map_of (fold (record_one n now) ents hist) k = map_of hist k"
  by (induction ents arbitrary: hist) (simp_all add: record_one_def update_conv')

lemma record_fold:
  "distinct (map v_id ents) \<Longrightarrow> e \<in> set ents \<Longrightarrow>
   map_of (fold (record_one n now) ents hist) (v_id e) = Some (extend_trail n now e (or_else (map_of hist (v_id e)) []))"
proof (induction ents arbitrary: hist)
  case (Cons x ents)
  show ?case
  proof (cases "e = x")
    case True
    then show ?thesis using Cons.prems by (simp add: record_fold_other) (simp add: record_one_def update_conv')
  next
    case False
    then have "e \<in> set ents" "v_id e \<noteq> v_id x" using Cons.prems by (auto simp: image_iff)
    then show ?thesis using Cons by (simp add: record_one_def update_conv')
  qed
qed simp

lemma record_history_live:
  assumes "distinct (map v_id ents)" "e \<in> set ents"
  shows "map_of (rc_history (record_history n now ents c)) (v_id e)
       = Some (extend_trail n now e (or_else (map_of (rc_history c) (v_id e)) []))"
proof -
  have "map_of (filter (\<lambda>(k, h). k \<in> v_id ` set ents) xs) (v_id e) = map_of xs (v_id e)" for xs :: "(string \<times> trail_point list) list"
    using assms(2) by (induction xs) auto
  then show ?thesis using record_fold[OF assms] by (simp add: record_history_def Let_def)
qed

definition borne :: "(string \<times> trail_point list) list \<Rightarrow> vehicle \<Rightarrow> vehicle \<Rightarrow> bool" where
  \<comment> \<open>what \<open>_apply_bearings\<close> may do to one vehicle\<close>
  "borne hist e e' \<longleftrightarrow> v_id e' = v_id e \<and> v_lat e' = v_lat e \<and> v_lon e' = v_lon e \<and> v_trip e' = v_trip e
     \<and> (case v_bearing e of Some b \<Rightarrow> v_bearing e' = Some b
        | None \<Rightarrow> v_bearing e' = None \<longleftrightarrow> derive_bearing (map_of hist (v_id e)) = None)"

lemma apply_bearings_borne: "list_all2 (borne hist) ents (fst (apply_bearings hist ents der))"
proof (induction ents arbitrary: der)
  case (Cons e ents)
  have 1: "borne hist e (fst (bear hist e der))"
    by (simp add: borne_def bear_def split: option.split)
  have "fst (apply_bearings hist (e # ents) der)
      = fst (bear hist e der) # fst (apply_bearings hist ents (snd (bear hist e der)))"
    by (simp add: Let_def split_beta)
  with 1 Cons show ?case by simp
qed simp

definition frame_ok :: "rt_cache \<Rightarrow> bool" where
  "frame_ok c \<longleftrightarrow> distinct (map v_id (rc_vehicles c)) \<and> rc_by_id c = index_of (rc_vehicles c)
     \<and> (\<forall>v \<in> set (rc_vehicles c). \<exists>h. map_of (rc_history c) (v_id v) = Some h \<and> h \<noteq> []
          \<and> fst (last h) = v_lon v \<and> fst (snd (last h)) = v_lat v
          \<and> (v_bearing v = None \<longrightarrow> derive_bearing (Some h) = None))"

lemma frame_ok_by_id: "frame_ok c \<Longrightarrow> by_id c = map (\<lambda>v. (v_id v, v)) (rc_vehicles c)"
  by (rule nth_equalityI) (auto simp: frame_ok_def by_id_def index_of_distinct)

lemma apply_positions_shape:
  fixes m n now c
  defines "ents \<equiv> ps_vehicles (parse_positions m (rc_known c) (rc_schedule c))"
  defines "c' \<equiv> apply_positions n now m c"
  shows "list_all2 (borne (rc_history c')) ents (rc_vehicles c')"
    and "rc_by_id c' = index_of ents"
    and "rc_delta c' = (if rc_by_id c = [] then None else Some (compute_delta (by_id c) ents))"
    and "rc_seq c' = Suc (rc_seq c)"
    and "rc_subs c' = map (\<lambda>(s, q). (s, (if 2 \<le> length q then tl q else q) @ [Suc (rc_seq c)])) (rc_subs c)"
    and "distinct (map v_id ents) \<Longrightarrow> e \<in> set ents \<Longrightarrow>
      map_of (rc_history c') (v_id e) = Some (extend_trail n (py_trunc now) e (or_else (map_of (rc_history c) (v_id e)) []))"
proof -
  define c1 where "c1 = c\<lparr>rc_delta := (if rc_by_id c \<noteq> [] then Some (compute_delta (by_id c) ents) else None),
                 rc_vehicles := ents, rc_by_id := index_of ents,
                 rc_unresolved := ps_unresolved (parse_positions m (rc_known c) (rc_schedule c)),
                 rc_rescued := ps_rescued (parse_positions m (rc_known c) (rc_schedule c)), rc_header_ts := fm_timestamp m,
                 rc_age_p50 := (if ps_ages (parse_positions m (rc_known c) (rc_schedule c)) \<noteq> []
                    then ps_ages (parse_positions m (rc_known c) (rc_schedule c))
                         ! (length (ps_ages (parse_positions m (rc_known c) (rc_schedule c))) div 2) else 0),
                 rc_updated_at := now, rc_seq := rc_seq c + 1\<rparr>"
  define c2 where "c2 = record_history n (py_trunc now) ents c1"
  have c': "c' = publish (c2\<lparr>rc_vehicles := fst (apply_bearings (rc_history c2) ents (rc_derived c2)),
                             rc_derived := snd (apply_bearings (rc_history c2) ents (rc_derived c2))\<rparr>)"
    unfolding c'_def apply_positions_def c2_def c1_def ents_def Let_def split_beta by (rule refl)
  have rest: "rc_by_id c2 = rc_by_id c1" "rc_delta c2 = rc_delta c1" "rc_seq c2 = rc_seq c1" "rc_subs c2 = rc_subs c1"
    by (simp_all add: c2_def record_history_def Let_def)
  have h: "rc_history c1 = rc_history c" by (simp add: c1_def)
  show "list_all2 (borne (rc_history c')) ents (rc_vehicles c')"
    unfolding c' by (simp add: publish_def apply_bearings_borne)
  show "rc_by_id c' = index_of ents" "rc_seq c' = Suc (rc_seq c)"
    "rc_delta c' = (if rc_by_id c = [] then None else Some (compute_delta (by_id c) ents))"
    "rc_subs c' = map (\<lambda>(s, q). (s, (if 2 \<le> length q then tl q else q) @ [Suc (rc_seq c)])) (rc_subs c)"
    unfolding c' by (simp_all add: publish_def rest) (simp_all add: c1_def)
  show "map_of (rc_history c') (v_id e) = Some (extend_trail n (py_trunc now) e (or_else (map_of (rc_history c) (v_id e)) []))"
    if "distinct (map v_id ents)" "e \<in> set ents"
    using record_history_live[OF that, of n "py_trunc now" c1] unfolding c' by (simp add: publish_def c2_def h)
qed

lemma borne_ids: "list_all2 (borne hist) ents vs \<Longrightarrow> map v_id vs = map v_id ents"
  by (induction rule: list_all2_induct) (simp_all add: borne_def)

lemma frame_ok_apply_positions:
  assumes n: "0 < n" and ids: "distinct (vehicle_ids m)"
  shows "frame_ok (apply_positions n now m c)"
proof -
  let ?c' = "apply_positions n now m c"
  let ?ents = "ps_vehicles (parse_positions m (rc_known c) (rc_schedule c))"
  note shape = apply_positions_shape[where n = n and now = now and m = m and c = c]
  have d: "distinct (map v_id ?ents)" using ids by (simp add: ids_of_parse)
  have same: "map v_id (rc_vehicles ?c') = map v_id ?ents" using borne_ids[OF shape(1)] .
  have "index_of (rc_vehicles ?c') = index_of ?ents"
    using same d by (rule index_of_ids)
  moreover have "\<exists>h. map_of (rc_history ?c') (v_id v) = Some h \<and> h \<noteq> [] \<and> fst (last h) = v_lon v
      \<and> fst (snd (last h)) = v_lat v \<and> (v_bearing v = None \<longrightarrow> derive_bearing (Some h) = None)"
    if "v \<in> set (rc_vehicles ?c')" for v
  proof -
    from that obtain i where i: "i < length (rc_vehicles ?c')" "v = rc_vehicles ?c' ! i"
      by (auto simp: in_set_conv_nth)
    let ?e = "?ents ! i"
    have b: "borne (rc_history ?c') ?e v" and il: "i < length ?ents"
      using i shape(1) list_all2_nthD2[OF shape(1)] by (auto dest: list_all2_lengthD)
    have id: "v_id v = v_id ?e" "v_lon v = v_lon ?e" "v_lat v = v_lat ?e" using b by (simp_all add: borne_def)
    have h: "map_of (rc_history ?c') (v_id v)
        = Some (extend_trail n (py_trunc now) ?e (or_else (map_of (rc_history c) (v_id ?e)) []))"
      using shape(6)[OF d nth_mem[OF il]] id by simp
    show ?thesis
      using b h id extend_trail_last[OF n, of "py_trunc now" ?e "or_else (map_of (rc_history c) (v_id ?e)) []"]
      by (auto simp: borne_def split: option.splits)
  qed
  ultimately show ?thesis using d same shape(2) by (simp add: frame_ok_def)
qed

definition view :: "rt_cache \<Rightarrow> string \<Rightarrow> (real \<times> real \<times> string option \<times> real option) option" where
  \<comment> \<open>what a map draws: position, trip and bearing of every vehicle of the frame\<close>
  "view c k = map_option (\<lambda>v. (v_lat v, v_lon v, v_trip v, v_bearing v)) (map_of (map (\<lambda>v. (v_id v, v)) (rc_vehicles c)) k)"

definition patched :: "(string \<Rightarrow> (real \<times> real \<times> string option \<times> real option) option) \<Rightarrow> vehicle list \<Rightarrow> string list
    \<Rightarrow> string \<Rightarrow> (real \<times> real \<times> string option \<times> real option) option" where
  \<comment> \<open>a client that applies a delta to the picture it has\<close>
  "patched old upd gone k = (if k \<in> set gone then None
     else case map_of (map (\<lambda>v. (v_id v, v)) upd) k of
       Some v \<Rightarrow> Some (v_lat v, v_lon v, v_trip v, v_bearing v) | None \<Rightarrow> old k)"

lemma frame_ok_keep:
  assumes "frame_ok c" "rc_vehicles c' = rc_vehicles c" "rc_by_id c' = rc_by_id c" "rc_history c' = rc_history c"
  shows "frame_ok c'"
  using assms by (simp add: frame_ok_def)

lemma fetch_keeps:
  "rc_vehicles (snd (fetch now track url a c)) = rc_vehicles c \<and> rc_by_id (snd (fetch now track url a c)) = rc_by_id c
   \<and> rc_history (snd (fetch now track url a c)) = rc_history c"
  by (simp add: fetch_def Let_def split: answer.split)

lemma fetch_body: "fst (fetch now track url a c) = Some m \<Longrightarrow> \<exists>st. a = Answer st (Some m)"
  by (auto simp: fetch_def Let_def split: if_splits answer.splits)

lemma apply_frame_cases:
  obtains c0 where "rc_vehicles c0 = rc_vehicles c" "rc_by_id c0 = rc_by_id c" "rc_history c0 = rc_history c"
    "rc_known c0 = rc_known c" "rc_schedule c0 = rc_schedule c" "rc_seq c0 = rc_seq c" "rc_subs c0 = rc_subs c"
    "rc_delta c0 = rc_delta c"
    "\<And>n now pos. apply_frame n now pos tu al c = (case pos of None \<Rightarrow> c0 | Some m \<Rightarrow> apply_positions n now m c0)"
proof
  let ?c0 = "apply_frame 0 0 None tu al c"
  show "rc_vehicles ?c0 = rc_vehicles c" "rc_by_id ?c0 = rc_by_id c" "rc_history ?c0 = rc_history c"
    "rc_known ?c0 = rc_known c" "rc_schedule ?c0 = rc_schedule c" "rc_seq ?c0 = rc_seq c" "rc_subs ?c0 = rc_subs c"
    "rc_delta ?c0 = rc_delta c"
    by (simp_all add: apply_frame_def Let_def split: option.split prod.split)
  show "apply_frame n now pos tu al c = (case pos of None \<Rightarrow> ?c0 | Some m \<Rightarrow> apply_positions n now m ?c0)" for n now pos
    unfolding apply_frame_def Let_def by (cases pos) simp_all
qed

lemma frame_ok_apply_frame:
  assumes "0 < n" "frame_ok c" "\<And>m. pos = Some m \<Longrightarrow> distinct (vehicle_ids m)"
  shows "frame_ok (apply_frame n now pos tu al c)"
proof -
  obtain c0 where c0: "rc_vehicles c0 = rc_vehicles c" "rc_by_id c0 = rc_by_id c" "rc_history c0 = rc_history c"
    "\<And>n now pos. apply_frame n now pos tu al c = (case pos of None \<Rightarrow> c0 | Some m \<Rightarrow> apply_positions n now m c0)"
    by (rule apply_frame_cases[of c tu al]) blast
  show ?thesis
  proof (cases pos)
    case None
    then show ?thesis using frame_ok_keep[OF assms(2) c0(1-3)] by (simp add: c0(4))
  next
    case (Some m)
    then show ?thesis using frame_ok_apply_positions[OF assms(1) assms(3)] by (simp add: c0(4))
  qed
qed

lemma poll_once_unfold:
  obtains c4 pos tu al where "rc_vehicles c4 = rc_vehicles c" "rc_by_id c4 = rc_by_id c" "rc_history c4 = rc_history c"
    "\<And>m. pos = Some m \<Longrightarrow> \<exists>st. a_pos = Answer st (Some m)"
    "poll_once n f now a_pos a_tu a_al c = apply_frame n now pos tu al c4"
proof
  let ?want = "truthy_str (fu_alerts f) \<and> ALERTS_MIN_INTERVAL_S \<le> now - rc_alerts_at c"
  let ?p = "fetch now True (fu_positions f) a_pos c"
  let ?t = "fetch now False (fu_tripupdates f) a_tu (snd ?p)"
  let ?a = "fetch now False (if ?want then fu_alerts f else None) a_al (snd ?t)"
  let ?c4 = "if ?want \<and> fst ?a \<noteq> None then snd ?a\<lparr>rc_alerts_at := now\<rparr> else snd ?a"
  show "poll_once n f now a_pos a_tu a_al c = apply_frame n now (fst ?p) (fst ?t) (fst ?a) ?c4"
    unfolding poll_once_def Let_def split_beta by (rule refl)
  show "rc_vehicles ?c4 = rc_vehicles c" "rc_by_id ?c4 = rc_by_id c" "rc_history ?c4 = rc_history c"
    by (simp_all add: fetch_keeps)
  show "\<exists>st. a_pos = Answer st (Some m)" if "fst ?p = Some m" for m
    using fetch_body[OF that] .
qed

lemma running_frame_ok:
  assumes "0 < n"
  shows "running n c \<Longrightarrow> frame_ok c"
proof (induction rule: running.induct)
  case start
  then show ?case by (simp add: frame_ok_def new_cache_def index_of_def)
next
  case (static c trips idx)
  show ?case by (rule frame_ok_keep[OF static.IH]) (simp_all add: set_static_def split: option.split)
next
  case (joins c s)
  show ?case by (rule frame_ok_keep[OF joins.IH]) (simp_all add: subscribe_def)
next
  case (leaves c s)
  show ?case by (rule frame_ok_keep[OF leaves.IH]) (simp_all add: unsubscribe_def)
next
  case (polls c a_pos f now a_tu a_al)
  obtain c4 pos tu al where c4: "rc_vehicles c4 = rc_vehicles c" "rc_by_id c4 = rc_by_id c" "rc_history c4 = rc_history c"
    "\<And>m. pos = Some m \<Longrightarrow> \<exists>st. a_pos = Answer st (Some m)"
    "poll_once n f now a_pos a_tu a_al c = apply_frame n now pos tu al c4"
    by (rule poll_once_unfold[of c a_pos n f now a_tu a_al]) blast
  have "frame_ok c4" by (rule frame_ok_keep[OF polls.IH c4(1-3)])
  then show ?case unfolding c4(5)
    by (rule frame_ok_apply_frame[OF assms]) (use c4(4) polls.hyps in blast)
qed

section \<open>The delta rebuilds the frame\<close>

lemma map_of_by_id:
  "map_of (map (\<lambda>v. (v_id v, v)) vs) k = None \<longleftrightarrow> k \<notin> v_id ` set vs"
  by (auto simp: map_of_eq_None_iff image_image)

lemma map_of_by_id_nth:
  "distinct (map v_id vs) \<Longrightarrow> i < length vs \<Longrightarrow> map_of (map (\<lambda>v. (v_id v, v)) vs) (v_id (vs ! i)) = Some (vs ! i)"
  by (rule map_of_is_SomeI) (auto simp: o_def)

lemma map_of_by_id_sub:
  assumes d: "distinct (map v_id vs)" and sub: "set is \<subseteq> {..<length vs}" and i: "i < length vs"
  shows "map_of (map (\<lambda>v. (v_id v, v)) (map ((!) vs) is)) (v_id (vs ! i)) = (if i \<in> set is then Some (vs ! i) else None)"
proof -
  have inj: "j \<in> set is \<Longrightarrow> v_id (vs ! j) = v_id (vs ! i) \<Longrightarrow> j = i" for j
    using d sub i nth_eq_iff_index_eq[OF d, of j i] by auto
  show ?thesis
  proof (cases "i \<in> set is")
    case True
    have "map_of (map (\<lambda>v. (v_id v, v)) (map ((!) vs) is)) (v_id (vs ! i)) = Some (vs ! i)"
      using True inj
    proof (induction "is")
      case (Cons j js)
      show ?case
      proof (cases "v_id (vs ! j) = v_id (vs ! i)")
        case True
        then show ?thesis using Cons.prems(2)[of j] by simp
      next
        case False
        then have "i \<in> set js" using Cons.prems(1) by auto
        then show ?thesis using False Cons by simp
      qed
    qed simp
    with True show ?thesis by simp
  next
    case False
    then have "v_id (vs ! i) \<notin> v_id ` set (map ((!) vs) is)" using inj by fastforce
    then have "map_of (map (\<lambda>v. (v_id v, v)) (map ((!) vs) is)) (v_id (vs ! i)) = None"
      by (simp only: map_of_by_id not_False_eq_True)
    then show ?thesis using False by (simp del: map_map)
  qed
qed

lemma patched_view:
  assumes ok: "frame_ok c" and n: "0 < n" and ids: "distinct (vehicle_ids m)" and old: "rc_vehicles c \<noteq> []"
    and delta: "delta_frame (apply_positions n now m c) = Some (upd, gone)"
  shows "patched (view c) upd gone k = view (apply_positions n now m c) k"
proof -
  let ?c' = "apply_positions n now m c"
  define ents where "ents = ps_vehicles (parse_positions m (rc_known c) (rc_schedule c))"
  note shape = apply_positions_shape[where n = n and now = now and m = m and c = c, folded ents_def]
  have d: "distinct (map v_id ents)" using ids by (simp add: ents_def ids_of_parse)
  have d': "distinct (map v_id (rc_vehicles ?c'))" using borne_ids[OF shape(1)] d by simp
  have len: "length (rc_vehicles ?c') = length ents" using shape(1) by (rule list_all2_lengthD[symmetric])
  have prev: "by_id c = map (\<lambda>v. (v_id v, v)) (rc_vehicles c)" using ok by (rule frame_ok_by_id)
  have "rc_by_id c \<noteq> []" using old prev by (auto simp: by_id_def)
  then have upd: "upd = map ((!) (rc_vehicles ?c')) (fst (compute_delta (by_id c) ents))"
    and gone: "gone = snd (compute_delta (by_id c) ents)"
    using delta shape(3) by (simp_all add: delta_frame_def split_beta)
  have gone_iff: "k \<in> set gone \<longleftrightarrow> k \<in> v_id ` set (rc_vehicles c) \<and> k \<notin> v_id ` set ents"
    by (auto simp: gone compute_delta_def prev)
  show ?thesis
  proof (cases "k \<in> v_id ` set ents")
    case False
    then have new: "map_of (map (\<lambda>v. (v_id v, v)) (rc_vehicles ?c')) k = None"
      using borne_ids[OF shape(1)] by (metis map_of_by_id list.set_map)
    have "v_id ` set upd \<subseteq> v_id ` set (rc_vehicles ?c')"
      by (auto simp: upd compute_delta_def len intro!: imageI)
    then have "map_of (map (\<lambda>v. (v_id v, v)) upd) k = None"
      using new by (auto simp: map_of_by_id)
    moreover have "view c k = None" if "k \<notin> set gone"
      using that False gone_iff by (auto simp: view_def map_of_by_id)
    ultimately show ?thesis using new by (simp add: patched_def view_def)
  next
    case True
    then obtain i where i: "i < length ents" "k = v_id (ents ! i)" by (auto simp: in_set_conv_nth)
    let ?e = "ents ! i" and ?v = "rc_vehicles ?c' ! i"
    have b: "borne (rc_history ?c') ?e ?v" using shape(1) i(1) by (rule list_all2_nthD)
    have k: "k = v_id ?v" using b i by (simp add: borne_def)
    have new: "map_of (map (\<lambda>v. (v_id v, v)) (rc_vehicles ?c')) k = Some ?v"
      using map_of_by_id_nth[OF d', of i] i(1) len unfolding k by simp
    have mem: "map_of (map (\<lambda>v. (v_id v, v)) upd) k
        = (if i \<in> set (fst (compute_delta (by_id c) ents)) then Some ?v else None)"
      unfolding upd k by (rule map_of_by_id_sub[OF d']) (use i len in \<open>auto simp: compute_delta_def\<close>)
    have "k \<notin> set gone" using True gone_iff by blast
    show ?thesis
    proof (cases "i \<in> set (fst (compute_delta (by_id c) ents))")
      case True
      then show ?thesis using new mem \<open>k \<notin> set gone\<close> by (simp add: patched_def view_def)
    next
      case False
      then obtain p where p: "map_of (by_id c) k = Some p" "\<not> differs p ?e"
        using i by (auto simp: compute_delta_def split: option.splits)
      then have pin: "p \<in> set (rc_vehicles c)" "v_id p = k" by (auto simp: prev dest: map_of_SomeD)
      then obtain h where h: "map_of (rc_history c) k = Some h" "h \<noteq> []" "fst (last h) = v_lon p"
        "fst (snd (last h)) = v_lat p" "v_bearing p = None \<longrightarrow> derive_bearing (Some h) = None"
        using ok by (auto simp: frame_ok_def)
      have same: "v_lat p = v_lat ?e" "v_lon p = v_lon ?e" "v_trip p = v_trip ?e" "v_bearing p = v_bearing ?e"
        using p(2) by (simp_all add: differs_def)
      have "map_of (rc_history ?c') k = Some h"
        using shape(6)[OF d nth_mem[OF i(1)]] h same i(2) by (simp add: extend_trail_same)
      then have "v_bearing ?v = v_bearing ?e"
        using b h(5) same(4) i(2) by (auto simp: borne_def split: option.splits)
      then have "(v_lat ?v, v_lon ?v, v_trip ?v, v_bearing ?v) = (v_lat p, v_lon p, v_trip p, v_bearing p)"
        using b same by (simp add: borne_def)
      then show ?thesis
        using new mem False \<open>k \<notin> set gone\<close> p(1) by (simp add: patched_def view_def prev)
    qed
  qed
qed

text \<open>C37: Let a city's cache be in any state its poller can reach, keeping at least one point of history per
  vehicle and fed with frames whose vehicle ids are distinct.  A client that shows the last frame and
  applies the delta of the next one shows exactly the next frame: position, trip and bearing of every
  vehicle, no vehicle too many, none missing.  In particular a vehicle left out of the delta really has the
  bearing the client already draws, although the delta is computed before the bearings are derived.\<close>
lemma delta_rebuilds_frame:
  assumes "0 < n" "running n c" "rc_vehicles c \<noteq> []" "distinct (vehicle_ids m)"
    and "delta_frame (apply_frame n now (Some m) tu al c) = Some (upd, gone)"
  shows "patched (view c) upd gone = view (apply_frame n now (Some m) tu al c)"
proof -
  obtain c0 where c0: "rc_vehicles c0 = rc_vehicles c" "rc_by_id c0 = rc_by_id c" "rc_history c0 = rc_history c"
    "\<And>n now pos. apply_frame n now pos tu al c = (case pos of None \<Rightarrow> c0 | Some m \<Rightarrow> apply_positions n now m c0)"
    by (rule apply_frame_cases[of c tu al]) blast
  have "frame_ok c0" by (rule frame_ok_keep[OF running_frame_ok[OF assms(1,2)] c0(1-3)])
  moreover have "view c = view c0" by (rule ext) (simp add: view_def c0(1))
  ultimately have "patched (view c) upd gone k = view (apply_positions n now m c0) k" for k
    using patched_view[of c0 n m now upd gone k] assms by (simp add: c0)
  then show ?thesis by (simp add: c0(4) fun_eq_iff)
qed

definition sample_bus :: "string \<Rightarrow> feed_entity" where
  "sample_bus i = \<lparr>fe_id = i, fe_alert = None, fe_trip_update = None,
     fe_vehicle = Some \<lparr>fv_id = i, fv_label = [], fv_trip = [], fv_route = [], fv_start = [],
       fv_position = Some \<lparr>fp_lat = 0, fp_lon = 0, fp_bearing = Some 0\<rparr>, fv_timestamp = 5, fv_stop = [],
       fv_seq = 0, fv_occupancy = None\<rparr>\<rparr>"

definition sample_feed :: "string list \<Rightarrow> feed_message" where
  "sample_feed ids = \<lparr>fm_timestamp = 5, fm_entities = map sample_bus ids\<rparr>"

lemma sample_ids: "vehicle_ids (sample_feed [''a'', ''b'']) = [''a'', ''b'']" "vehicle_ids (sample_feed [''b'', ''c'']) = [''b'', ''c'']"
  by (simp_all add: vehicle_ids_def sample_feed_def sample_bus_def parse_positions_def Let_def List.map_filter_simps
      parse_vehicle_def match_trip_def)

definition sample_cache :: rt_cache where
  "sample_cache = poll_once 60 \<lparr>fu_positions = Some ''u'', fu_tripupdates = None, fu_alerts = None\<rparr> 0
     (Answer 200 (Some (sample_feed [''a'', ''b'']))) Unreachable Unreachable new_cache"

lemma sample_running: "running 60 sample_cache"
  unfolding sample_cache_def by (rule running.polls[OF running.start]) (simp add: sample_ids)

lemma sample_vehicles: "map v_id (rc_vehicles sample_cache) = [''a'', ''b'']"
proof -
  have "sample_cache = apply_positions 60 0 (sample_feed [''a'', ''b''])
     (new_cache\<lparr>rc_http := Some 200, rc_backoff := bo_allowed (rc_backoff new_cache) ''u''\<rparr>)"
    by (simp add: sample_cache_def poll_once_def fetch_def Let_def truthy_str_def apply_frame_def bo_blocked_def
        new_cache_def TURNED_AWAY_def)
  moreover have "map v_id (rc_vehicles (apply_positions 60 0 (sample_feed [''a'', ''b'']) c)) = [''a'', ''b'']" for c
    by (simp only: borne_ids[OF apply_positions_shape(1)] ids_of_parse sample_ids)
  ultimately show ?thesis by metis
qed

lemma delta_rebuilds_frame_witness:
  "\<exists>upd gone. delta_frame (apply_frame 60 30 (Some (sample_feed [''b'', ''c''])) None None sample_cache) = Some (upd, gone)
     \<and> patched (view sample_cache) upd gone = view (apply_frame 60 30 (Some (sample_feed [''b'', ''c''])) None None sample_cache)"
proof -
  let ?c' = "apply_frame 60 30 (Some (sample_feed [''b'', ''c''])) None None sample_cache"
  have ne: "rc_vehicles sample_cache \<noteq> []" using sample_vehicles by auto
  then have "rc_by_id sample_cache \<noteq> []"
    using running_frame_ok[OF _ sample_running] frame_ok_by_id by (fastforce simp: by_id_def)
  then obtain upd gone where d: "delta_frame ?c' = Some (upd, gone)"
    using apply_positions_shape(3)[where c = sample_cache]
    by (auto simp: apply_frame_def Let_def delta_frame_def split_beta)
  show ?thesis
    using delta_rebuilds_frame[OF _ sample_running ne _ d] d by (auto simp: sample_ids)
qed

section \<open>Subscribers\<close>



section \<open>Refusals\<close>

lemma refusals_snoc: "refusals b url (rs @ [(st, t)]) = fst (bo_refused (refusals b url rs) url st t)"
  by (induction b url rs rule: refusals.induct) simp_all

lemma refusals_delay:
  assumes "map_of (bo_delay b) url = None"
  shows "rs \<noteq> [] \<Longrightarrow> map_of (bo_delay (refusals b url rs)) url = Some (min 900 (60 * 2 ^ (length rs - 1)))
    \<and> map_of (bo_until (refusals b url rs)) url = Some (snd (last rs) + min 900 (60 * 2 ^ (length rs - 1)))"
proof (induction rs rule: rev_induct)
  case (snoc r rs)
  obtain st t where r: "r = (st, t)" by force
  show ?case
  proof (cases "rs = []")
    case True
    then show ?thesis using assms
      by (simp add: r bo_refused_def Let_def update_conv' BACKOFF_MAX_S_def BACKOFF_START_S_def)
  next
    case False
    then have l: "length rs = Suc (length rs - 1)" by simp
    have "(0::rat) < min 900 (60 * 2 ^ (length rs - 1))" by simp
    then have pos: "min 900 (60 * 2 ^ (length rs - 1)) \<noteq> (0::rat)" by (rule less_imp_neq[symmetric])
    have "(2::rat) ^ length rs = 2 * 2 ^ (length rs - 1)"
      using l by (metis power_Suc)
    then have twice: "min 900 (min 900 (60 * 2 ^ (length rs - 1)) * 2) = (min 900 (60 * 2 ^ length rs) :: rat)"
      by (simp add: min_def)
    show ?thesis using snoc.IH[OF False] pos twice
      unfolding r refusals_snoc bo_refused_def Let_def BACKOFF_MAX_S_def by (simp add: update_conv' del: One_nat_def)
  qed
qed simp

lemma refusals_other: "u \<noteq> url \<Longrightarrow> map_of (bo_until (refusals b url rs)) u = map_of (bo_until b) u"
  by (induction b url rs rule: refusals.induct) (simp_all add: bo_refused_def Let_def update_conv')

text \<open>A feed that refuses us \<open>k\<close> times in a row is left alone for 60, 120, 240, ... seconds after the
  last refusal, never for more than 900; while that pause lasts a download of it returns nothing whatever the
  server would answer and leaves the pause as it is, and no other URL is held back by it.  The first answer
  that is not a refusal ends the pause at once.\<close>
lemma refusals_back_off:
  assumes "map_of (bo_delay b) url = None" "rs \<noteq> []" "url \<noteq> []" "rc_backoff c = refusals b url rs"
  shows "(bo_blocked (rc_backoff c) url t \<longleftrightarrow> t < snd (last rs) + min 900 (60 * 2 ^ (length rs - 1)))
    \<and> (bo_blocked (rc_backoff c) url t \<longrightarrow> fst (fetch t track (Some url) a c) = None
         \<and> rc_backoff (snd (fetch t track (Some url) a c)) = rc_backoff c)
    \<and> (u \<noteq> url \<longrightarrow> bo_blocked (rc_backoff c) u t = bo_blocked b u t)
    \<and> (\<not> bo_blocked (rc_backoff c) url t \<and> st \<notin> set TURNED_AWAY \<and> 0 \<le> t' \<longrightarrow>
         \<not> bo_blocked (rc_backoff (snd (fetch t track (Some url) (Answer st bdy) c))) url t')"
proof (intro conjI impI)
  show "bo_blocked (rc_backoff c) url t \<longleftrightarrow> t < snd (last rs) + min 900 (60 * 2 ^ (length rs - 1))"
    using refusals_delay[OF assms(1,2)] assms(4) by (simp add: bo_blocked_def)
  show "bo_blocked (rc_backoff c) url t \<Longrightarrow> fst (fetch t track (Some url) a c) = None"
    "bo_blocked (rc_backoff c) url t \<Longrightarrow> rc_backoff (snd (fetch t track (Some url) a c)) = rc_backoff c"
    using assms(3) by (simp_all add: fetch_def truthy_str_def)
  show "u \<noteq> url \<Longrightarrow> bo_blocked (rc_backoff c) u t = bo_blocked b u t"
    using assms(4) by (simp add: bo_blocked_def refusals_other)
  show "\<not> bo_blocked (rc_backoff c) url t \<and> st \<notin> set TURNED_AWAY \<and> 0 \<le> t' \<Longrightarrow>
       \<not> bo_blocked (rc_backoff (snd (fetch t track (Some url) (Answer st bdy) c))) url t'"
    using assms(3) by (simp add: fetch_def truthy_str_def Let_def bo_allowed_def bo_blocked_def delete_conv')
qed

lemma refusals_back_off_witness:
  "bo_blocked (refusals (rc_backoff new_cache) ''u'' [(403, 0), (403, 70)]) ''u'' 100"
  using refusals_back_off[of "rc_backoff new_cache" "''u''" "[(403, 0), (403, 70)]"
      "new_cache\<lparr>rc_backoff := refusals (rc_backoff new_cache) ''u'' [(403, 0), (403, 70)]\<rparr>" 100]
  by (simp add: new_cache_def)

end
