(* ===== verification/Geohash.thy ===== *)
theory Geohash
  imports Prelude
begin

unbundle bit_operations_syntax

text \<open>
  \<open>app/geohash.py\<close>: the cells analytics stores instead of positions.  The interval ends are halved
  exactly, so they are rational numbers here.  \<open>encode_loop\<close> is the \<open>while len(out) < length\<close> loop with
  the same variables; \<open>bounds\<close> returns \<open>None\<close> for the \<open>KeyError\<close> of a character outside the alphabet.
\<close>

definition B32 :: string where "B32 = ''0123456789bcdefghjkmnpqrstuvwxyz''"

definition DEC :: "char \<Rightarrow> nat option" where
  "DEC c = map_of (zip B32 [0..<32]) c"

type_synonym interval = "rat \<times> rat"

definition mid :: "interval \<Rightarrow> rat" where "mid i = (fst i + snd i) / 2"

definition halve :: "bool \<Rightarrow> interval \<Rightarrow> interval" where
  \<comment> \<open>the upper or the lower half\<close>
  "halve up i = (if up then (mid i, snd i) else (fst i, mid i))"

record gh_state =
  g_lat :: interval
  g_lon :: interval
  g_out :: string
  g_bit :: nat
  g_ch :: nat
  g_even :: bool

definition gh_step :: "rat \<Rightarrow> rat \<Rightarrow> gh_state \<Rightarrow> gh_state" where
  "gh_step lat lon g = (let up = (if g_even g then mid (g_lon g) \<le> lon else mid (g_lat g) \<le> lat);
     ch = (if up then g_ch g OR push_bit (4 - g_bit g) 1 else g_ch g)
   in \<lparr>g_lat = (if g_even g then g_lat g else halve up (g_lat g)),
       g_lon = (if g_even g then halve up (g_lon g) else g_lon g),
       g_out = (if g_bit g < 4 then g_out g else g_out g @ [B32 ! ch]),
       g_bit = (if g_bit g < 4 then g_bit g + 1 else 0),
       g_ch = (if g_bit g < 4 then ch else 0), g_even = (\<not> g_even g)\<rparr>)"

function encode_loop :: "rat \<Rightarrow> rat \<Rightarrow> nat \<Rightarrow> gh_state \<Rightarrow> gh_state" where
  "encode_loop lat lon n g = (if length (g_out g) < n then encode_loop lat lon n (gh_step lat lon g) else g)"
  by pat_completeness auto
termination
  by (relation "measure (\<lambda>(lat, lon, n, g). 6 * (n - length (g_out g)) + (5 - g_bit g))")
     (auto simp: gh_step_def Let_def)

declare encode_loop.simps [simp del]

definition whole :: gh_state where
  "whole = \<lparr>g_lat = (-90, 90), g_lon = (-180, 180), g_out = [], g_bit = 0, g_ch = 0, g_even = True\<rparr>"

definition encode :: "rat \<Rightarrow> rat \<Rightarrow> nat \<Rightarrow> string" where
  "encode lat lon n = g_out (encode_loop lat lon n whole)"

type_synonym cell = "interval \<times> interval \<times> bool"  \<comment> \<open>latitudes, longitudes, which is halved next\<close>

definition bisect :: "bool \<Rightarrow> cell \<Rightarrow> cell" where
  "bisect up c = (case c of (la, lo, ev) \<Rightarrow> if ev then (la, halve up lo, False) else (halve up la, lo, True))"

definition char_bits :: "nat \<Rightarrow> bool list" where
  \<comment> \<open>\<open>cd & mask\<close> for the masks 16, 8, 4, 2, 1\<close>
  "char_bits cd = map (\<lambda>m. cd AND m \<noteq> 0) [16, 8, 4, 2, 1]"

fun bounds_from :: "cell \<Rightarrow> string \<Rightarrow> cell option" where
  "bounds_from c [] = Some c"
| "bounds_from c (ch # gh) = (case DEC ch of None \<Rightarrow> None | Some cd \<Rightarrow> bounds_from (fold bisect (char_bits cd) c) gh)"

definition earth :: cell where "earth = ((-90, 90), (-180, 180), True)"

definition bounds :: "string \<Rightarrow> (rat \<times> rat \<times> rat \<times> rat) option" where
  "bounds gh = map_option (\<lambda>(la, lo, e). (fst la, fst lo, snd la, snd lo)) (bounds_from earth gh)"

definition center :: "string \<Rightarrow> (rat \<times> rat) option" where
  "center gh = map_option (\<lambda>(a, b, c, d). (py_round_to 6 ((a + c) / 2), py_round_to 6 ((b + d) / 2))) (bounds gh)"

definition polygon :: "string \<Rightarrow> (rat \<times> rat) list option" where
  "polygon gh = map_option (\<lambda>(a, b, c, d). [(b, a), (d, a), (d, c), (b, c), (b, a)]) (bounds gh)"

section \<open>The walk of the encoder is the walk of the decoder\<close>

definition code_bits :: "nat \<Rightarrow> nat \<Rightarrow> bool list" where
  "code_bits k ch = take k (char_bits ch)"

lemma set_bit_code:
  "\<forall>k \<in> set [0..<5]. \<forall>ch \<in> set [0..<32]. ch mod 2 ^ (5 - k) = 0 \<longrightarrow>
     (let ch' = ch OR push_bit (4 - k) 1 in ch' < 32 \<and> ch' mod 2 ^ (4 - k) = 0 \<and> ch mod 2 ^ (4 - k) = 0
        \<and> code_bits (Suc k) ch' = code_bits k ch @ [True] \<and> code_bits (Suc k) ch = code_bits k ch @ [False])"
  by code_simp

lemma DEC_B32: "\<forall>ch \<in> set [0..<32]. DEC (B32 ! ch) = Some ch"
  by code_simp

lemma bounds_from_append:
  "bounds_from c (gh @ [x]) = Option.bind (bounds_from c gh)
     (\<lambda>c'. map_option (\<lambda>cd. fold bisect (char_bits cd) c') (DEC x))"
  by (induction gh arbitrary: c) (auto split: option.split)

definition gh_inv :: "rat \<Rightarrow> rat \<Rightarrow> gh_state \<Rightarrow> bool" where
  "gh_inv lat lon g \<longleftrightarrow> g_bit g < 5 \<and> g_ch g < 32 \<and> g_ch g mod 2 ^ (5 - g_bit g) = 0
     \<and> (\<exists>c. bounds_from earth (g_out g) = Some c
          \<and> fold bisect (code_bits (g_bit g) (g_ch g)) c = (g_lat g, g_lon g, g_even g))
     \<and> fst (g_lat g) \<le> lat \<and> lat \<le> snd (g_lat g) \<and> fst (g_lon g) \<le> lon \<and> lon \<le> snd (g_lon g)
     \<and> snd (g_lat g) - fst (g_lat g) = 180 / 2 ^ ((5 * length (g_out g) + g_bit g) div 2)
     \<and> snd (g_lon g) - fst (g_lon g) = 360 / 2 ^ ((5 * length (g_out g) + g_bit g + 1) div 2)
     \<and> g_even g = even (5 * length (g_out g) + g_bit g)"

lemma halve_in: "fst i \<le> x \<Longrightarrow> x \<le> snd i \<Longrightarrow> fst (halve (mid i \<le> x) i) \<le> x \<and> x \<le> snd (halve (mid i \<le> x) i)"
  by (simp add: halve_def)

lemma halve_width: "snd (halve up i) - fst (halve up i) = (snd i - fst i) / 2"
  by (simp add: halve_def mid_def field_simps)

lemma bisect_parts:
  "fold bisect bits c = (la, lo, ev) \<Longrightarrow> fold bisect (bits @ [up]) c
     = (if ev then la else halve up la, if ev then halve up lo else lo, \<not> ev)"
  by (simp add: bisect_def)

lemma gh_step_inv:
  assumes inv: "gh_inv lat lon g"
  shows "gh_inv lat lon (gh_step lat lon g)"
proof -
  obtain c where c: "bounds_from earth (g_out g) = Some c"
    "fold bisect (code_bits (g_bit g) (g_ch g)) c = (g_lat g, g_lon g, g_even g)"
    using inv unfolding gh_inv_def by blast
  let ?N = "5 * length (g_out g) + g_bit g"
  define up where "up = (if g_even g then mid (g_lon g) \<le> lon else mid (g_lat g) \<le> lat)"
  define ch where "ch = (if up then g_ch g OR push_bit (4 - g_bit g) 1 else g_ch g)"
  let ?lat = "if g_even g then g_lat g else halve up (g_lat g)"
  let ?lon = "if g_even g then halve up (g_lon g) else g_lon g"
  have i: "g_bit g < 5" "g_ch g < 32" "g_ch g mod 2 ^ (5 - g_bit g) = 0" "g_even g = even ?N"
    and wlat: "snd (g_lat g) - fst (g_lat g) = 180 / 2 ^ (?N div 2)"
    and wlon: "snd (g_lon g) - fst (g_lon g) = 360 / 2 ^ ((?N + 1) div 2)"
    and lat: "fst (g_lat g) \<le> lat" "lat \<le> snd (g_lat g)" and lon: "fst (g_lon g) \<le> lon" "lon \<le> snd (g_lon g)"
    using inv unfolding gh_inv_def by blast+
  have code: "ch < 32" "ch mod 2 ^ (4 - g_bit g) = 0" "code_bits (Suc (g_bit g)) ch = code_bits (g_bit g) (g_ch g) @ [up]"
    using set_bit_code i by (auto simp: ch_def Let_def)
  have walk: "fold bisect (code_bits (Suc (g_bit g)) ch) c = (?lat, ?lon, \<not> g_even g)"
    unfolding code(3) by (rule bisect_parts[OF c(2)])
  have inside: "fst ?lat \<le> lat" "lat \<le> snd ?lat" "fst ?lon \<le> lon" "lon \<le> snd ?lon"
    using halve_in[OF lat] halve_in[OF lon] lat lon by (auto simp: up_def)
  have width: "snd ?lat - fst ?lat = 180 / 2 ^ (Suc ?N div 2)" "snd ?lon - fst ?lon = 360 / 2 ^ ((Suc ?N + 1) div 2)"
    using wlat wlon i(4) by (auto simp: halve_width)
  show ?thesis
  proof (cases "g_bit g < 4")
    case True
    have "gh_step lat lon g = \<lparr>g_lat = ?lat, g_lon = ?lon, g_out = g_out g, g_bit = Suc (g_bit g), g_ch = ch, g_even = (\<not> g_even g)\<rparr>"
      using True by (simp add: gh_step_def up_def[symmetric] ch_def[symmetric] Let_def)
    then show ?thesis
      using True code walk c(1) inside width i(4) by (simp add: gh_inv_def)
  next
    case False
    then have b: "g_bit g = 4" using i(1) by simp
    have st: "gh_step lat lon g = \<lparr>g_lat = ?lat, g_lon = ?lon, g_out = g_out g @ [B32 ! ch], g_bit = 0, g_ch = 0, g_even = (\<not> g_even g)\<rparr>"
      using b by (simp add: gh_step_def up_def[symmetric] ch_def[symmetric] Let_def)
    have "code_bits (Suc (g_bit g)) ch = char_bits ch" by (simp add: code_bits_def char_bits_def b)
    moreover have "DEC (B32 ! ch) = Some ch" using DEC_B32 code(1) by simp
    ultimately have "bounds_from earth (g_out g @ [B32 ! ch]) = Some (?lat, ?lon, \<not> g_even g)"
      using c(1) walk by (simp add: bounds_from_append)
    moreover have "5 * Suc (length (g_out g)) = Suc ?N" using b by simp
    ultimately show ?thesis
      using inside width i(4) unfolding st gh_inv_def by (simp add: code_bits_def del: mult_Suc_right)
  qed
qed

lemma gh_inv_whole: "\<bar>lat\<bar> \<le> 90 \<Longrightarrow> \<bar>lon\<bar> \<le> 180 \<Longrightarrow> gh_inv lat lon whole"
  by (simp add: gh_inv_def whole_def earth_def code_bits_def abs_le_iff)

lemma encode_loop_inv:
  "gh_inv lat lon g \<Longrightarrow> length (g_out g) \<le> n \<Longrightarrow> length (g_out g) = n \<longrightarrow> g_bit g = 0 \<Longrightarrow>
   gh_inv lat lon (encode_loop lat lon n g) \<and> length (g_out (encode_loop lat lon n g)) = n \<and> g_bit (encode_loop lat lon n g) = 0"
proof (induction lat lon n g rule: encode_loop.induct)
  case (1 lat lon n g)
  show ?case
  proof (cases "length (g_out g) < n")
    case True
    have "length (g_out (gh_step lat lon g)) \<le> n" "length (g_out (gh_step lat lon g)) = n \<longrightarrow> g_bit (gh_step lat lon g) = 0"
      using True by (auto simp: gh_step_def Let_def)
    with 1(1)[OF True gh_step_inv[OF 1(2)]] True show ?thesis by (simp add: encode_loop.simps[of lat lon n g])
  next
    case False
    with 1 show ?thesis by (simp add: encode_loop.simps[of lat lon n g])
  qed
qed

text \<open>For a position on the globe, \<open>encode\<close> returns a hash of exactly the length asked for, which \<open>bounds\<close>
  reads back (no character is outside the alphabet) as a cell that contains the position and whose height
  and width are 180 and 360 degrees halved as many times as the hash has latitude and longitude bits: 17 and 18 for the
  7 characters analytics stores.\<close>
lemma geohash_cell_contains_point:
  assumes "\<bar>lat\<bar> \<le> 90" "\<bar>lon\<bar> \<le> 180"
  shows "length (encode lat lon n) = n \<and> (\<exists>a b c d. bounds (encode lat lon n) = Some (a, b, c, d)
     \<and> a \<le> lat \<and> lat \<le> c \<and> b \<le> lon \<and> lon \<le> d
     \<and> c - a = 180 / 2 ^ (5 * n div 2) \<and> d - b = 360 / 2 ^ ((5 * n + 1) div 2))"
proof -
  let ?g = "encode_loop lat lon n whole"
  have g: "gh_inv lat lon ?g" "length (g_out ?g) = n" "g_bit ?g = 0"
    using encode_loop_inv[OF gh_inv_whole[OF assms], of n] by (simp_all add: whole_def)
  then have "bounds_from earth (g_out ?g) = Some (g_lat ?g, g_lon ?g, g_even ?g)"
    by (auto simp: gh_inv_def code_bits_def)
  then have "bounds (encode lat lon n) = Some (fst (g_lat ?g), fst (g_lon ?g), snd (g_lat ?g), snd (g_lon ?g))"
    by (simp add: bounds_def encode_def)
  with g show ?thesis unfolding encode_def by (auto simp: gh_inv_def)
qed

lemma geohash_cell_contains_point_witness: "length (encode (46534/10000) (-740836/10000) 7) = 7"
  using geohash_cell_contains_point[of "46534/10000" "-740836/10000" 7] by simp

end
