(* ===== verification/Segments.thy ===== *)
theory Segments
  imports Py_Text
begin

text \<open>
  \<open>app/segments.py\<close>: which other services take a rider over the same segment.  A pattern is a route with
  the stops it calls at; the code's dictionaries become records whose absent keys are \<open>None\<close>, and the
  insertion-ordered \<open>best\<close> and \<open>groups\<close> are association lists.
\<close>

section \<open>Stations\<close>

record stop_row =
  sr_id :: string
  sr_parent :: "string option"

definition stop_family :: "stop_row list \<Rightarrow> string \<Rightarrow> string set" where
  "stop_family rows seed = (case map_of (rev (map (\<lambda>r. (sr_id r, r)) rows)) seed of
     None \<Rightarrow> {seed}
   | Some s \<Rightarrow> (let parent = sr_parent s in
       {seed} \<union> (if truthy_str parent then {the parent} else {})
       \<union> sr_id ` set (filter (\<lambda>r. truthy_str parent \<and> sr_parent r = parent) rows)
       \<union> sr_id ` set (filter (\<lambda>r. sr_parent r = Some seed) rows)))"

section \<open>Names in the order of the signs\<close>

function text_runs :: "string \<Rightarrow> string list" where
  \<comment> \<open>the matches of digit runs and non-digit runs\<close>
  "text_runs [] = []"
| "text_runs (c # s) = (c # takeWhile (\<lambda>d. is_digit d = is_digit c) s) # text_runs (dropWhile (\<lambda>d. is_digit d = is_digit c) s)"
  by pat_completeness auto
termination
  by (relation "measure length") (auto simp: le_imp_less_Suc length_dropWhile_le)

definition natural_key :: "string option \<Rightarrow> (nat \<times> string) list" where
  "natural_key s = map (\<lambda>p. if list_all is_digit p then (or_else (parse_nat p) 0, []) else (0, p)) (text_runs (strip (or_else s [])))"

section \<open>Services of a segment\<close>

record seg_stop =
  ss_id :: string
  ss_name :: "string option"

record seg_route =
  sg_id :: "string option"
  sg_short :: "string option"
  sg_component :: "string option"
  sg_has_service :: "bool option"  \<comment> \<open>\<open>serviceWindow.hasServiceToday\<close>\<close>

record pattern =
  pt_route :: "seg_route option"
  pt_headsign :: "string option"
  pt_direction :: "int option"
  pt_stops :: "seg_stop list"

record service = seg_route +
  sv_headsign :: "string option"
  sv_direction :: "int option"
  sv_board :: seg_stop
  sv_off :: seg_stop
  sv_stops :: nat
  sv_merged :: "string list"

definition first_index :: "(seg_stop \<Rightarrow> bool) \<Rightarrow> nat \<Rightarrow> seg_stop list \<Rightarrow> nat option" where
  \<comment> \<open>\<open>next((i for i in range(lo, len(stops)) if ...), None)\<close>\<close>
  "first_index P lo stops = find (\<lambda>i. P (stops ! i)) [lo..<length stops]"

definition candidate :: "string set \<Rightarrow> string set \<Rightarrow> string set \<Rightarrow> pattern \<Rightarrow> service option" where
  \<comment> \<open>the body of the loop up to the item\<close>
  "candidate origins destinations exclude p = (case pt_route p of None \<Rightarrow> None | Some r \<Rightarrow>
     if \<not> truthy_str (sg_id r) \<or> the (sg_id r) \<in> exclude then None
     else (case first_index (\<lambda>s. ss_id s \<in> origins) 0 (pt_stops p) of None \<Rightarrow> None | Some i \<Rightarrow>
       (case first_index (\<lambda>s. ss_id s \<in> destinations) (i + 1) (pt_stops p) of None \<Rightarrow> None | Some j \<Rightarrow>
         Some \<lparr>sg_id = sg_id r, sg_short = sg_short r, sg_component = sg_component r, sg_has_service = sg_has_service r,
               sv_headsign = pt_headsign p, sv_direction = pt_direction p,
               sv_board = pt_stops p ! i, sv_off = pt_stops p ! j, sv_stops = j - i, sv_merged = []\<rparr>)))"

definition platform_key :: "service \<Rightarrow> string option \<times> string" where
  "platform_key s = (sg_id s, ss_id (sv_board s))"

definition keep_best :: "service \<Rightarrow> ((string option \<times> string) \<times> service) list \<Rightarrow> ((string option \<times> string) \<times> service) list" where
  "keep_best s best = (case map_of best (platform_key s) of
     None \<Rightarrow> AList.update (platform_key s) s best
   | Some old \<Rightarrow> if sv_stops s < sv_stops old then AList.update (platform_key s) s best else best)"

definition running_today :: "service list \<Rightarrow> service list" where
  "running_today = filter (\<lambda>s. sg_has_service s \<noteq> Some False)"

definition detour_limit :: "nat \<Rightarrow> rat" where
  \<comment> \<open>\<open>max(m * DETOUR_FACTOR, m + DETOUR_FLOOR)\<close>\<close>
  "detour_limit m = max (of_nat m * (5/2)) (of_nat m + 3)"

definition drop_detours :: "service list \<Rightarrow> service list" where
  "drop_detours ss = (case min_by sv_stops ss of None \<Rightarrow> ss
     | Some q \<Rightarrow> filter (\<lambda>s. of_nat (sv_stops s) \<le> detour_limit (sv_stops q)) ss)"

definition instruction :: "service \<Rightarrow> string option \<times> string \<times> string" where
  "instruction s = (str_or (sg_short s) (sg_id s), ss_id (sv_board s), ss_id (sv_off s))"

definition merge_rows :: "service list \<Rightarrow> service" where
  "merge_rows g = (case g of s # rest \<Rightarrow> if rest = [] then s
     else s\<lparr>sv_merged := List.map_filter (\<lambda>r. if truthy_str (sg_id r) then sg_id r else None) rest\<rparr>)"

definition dedupe_per_platform :: "service list \<Rightarrow> service list" where
  "dedupe_per_platform ss = map (merge_rows \<circ> snd) (group_by instruction ss)"

definition equivalent_services :: "pattern list \<Rightarrow> string set \<Rightarrow> string set \<Rightarrow> string set \<Rightarrow> service list" where
  "equivalent_services patterns origins destinations exclude =
     (let best = fold keep_best (List.map_filter (candidate origins destinations exclude) patterns) []
      in sort_key (\<lambda>s. (or_else (sg_component s) [], natural_key (sg_short s)))
           (dedupe_per_platform (drop_detours (running_today (map snd best)))))"

section \<open>What is offered\<close>

definition serves :: "string set \<Rightarrow> string set \<Rightarrow> pattern \<Rightarrow> service \<Rightarrow> bool" where
  \<comment> \<open>the pattern calls at the boarding stop and, later in the same run, at the alighting stop\<close>
  "serves origins destinations p s \<longleftrightarrow> (\<exists>i j. i < j \<and> j < length (pt_stops p)
     \<and> pt_stops p ! i = sv_board s \<and> ss_id (sv_board s) \<in> origins
     \<and> pt_stops p ! j = sv_off s \<and> ss_id (sv_off s) \<in> destinations \<and> sv_stops s = j - i
     \<and> (\<forall>k. i < k \<and> k < j \<longrightarrow> ss_id (pt_stops p ! k) \<notin> destinations))"

lemma first_index_Some:
  "first_index P lo stops = Some i \<Longrightarrow> lo \<le> i \<and> i < length stops \<and> P (stops ! i) \<and> (\<forall>k. lo \<le> k \<and> k < i \<longrightarrow> \<not> P (stops ! k))"
proof -
  assume "first_index P lo stops = Some i"
  then obtain n where n: "n < length stops - lo" "P (stops ! i)" "i = lo + n"
    and before: "\<And>j. j < n \<Longrightarrow> \<not> P (stops ! (lo + j))"
    by (auto simp: first_index_def find_Some_iff)
  have "\<not> P (stops ! k)" if "lo \<le> k" "k < i" for k
    using before[of "k - lo"] that n(3) by simp
  with n show ?thesis by auto
qed

lemma candidate_Some:
  assumes "candidate origins destinations exclude p = Some s"
  shows "serves origins destinations p s \<and> (\<exists>r. pt_route p = Some r \<and> sg_id s = sg_id r \<and> sg_short s = sg_short r
     \<and> sg_has_service s = sg_has_service r) \<and> (\<exists>x. sg_id s = Some x \<and> x \<notin> exclude) \<and> sv_merged s = []"
proof -
  obtain r i j where r: "pt_route p = Some r" "truthy_str (sg_id r)" "the (sg_id r) \<notin> exclude"
    and i: "first_index (\<lambda>s. ss_id s \<in> origins) 0 (pt_stops p) = Some i"
    and j: "first_index (\<lambda>s. ss_id s \<in> destinations) (i + 1) (pt_stops p) = Some j"
    and s: "s = \<lparr>sg_id = sg_id r, sg_short = sg_short r, sg_component = sg_component r, sg_has_service = sg_has_service r,
               sv_headsign = pt_headsign p, sv_direction = pt_direction p,
               sv_board = pt_stops p ! i, sv_off = pt_stops p ! j, sv_stops = j - i, sv_merged = []\<rparr>"
    using assms by (auto simp: candidate_def split: option.splits if_splits)
  have "serves origins destinations p s"
    unfolding serves_def s using first_index_Some[OF i] first_index_Some[OF j]
    by (intro exI[of _ i] exI[of _ j]) auto
  moreover have "\<exists>x. sg_id r = Some x \<and> x \<notin> exclude" using r by (auto elim: truthy_strE)
  ultimately show ?thesis using r(1) s by simp
qed

lemma keep_best_keys: "distinct (map fst best) \<Longrightarrow> distinct (map fst (keep_best s best))"
  by (simp add: keep_best_def distinct_update split: option.split)

definition best_ok :: "service list \<Rightarrow> ((string option \<times> string) \<times> service) list \<Rightarrow> bool" where
  "best_ok seen best \<longleftrightarrow> distinct (map fst best) \<and> (\<forall>(k, v) \<in> set best. k = platform_key v \<and> v \<in> set seen)
     \<and> (\<forall>s \<in> set seen. \<exists>v. map_of best (platform_key s) = Some v \<and> sv_stops v \<le> sv_stops s)"

lemma keep_best_ok:
  assumes "best_ok seen best"
  shows "best_ok (seen @ [s]) (keep_best s best)"
proof (cases "\<exists>old. map_of best (platform_key s) = Some old \<and> sv_stops old \<le> sv_stops s")
  case True
  then have "keep_best s best = best" by (auto simp: keep_best_def split: option.split)
  then show ?thesis using assms True by (auto simp: best_ok_def)
next
  case False
  then have k: "keep_best s best = AList.update (platform_key s) s best"
    by (auto simp: keep_best_def split: option.split)
  have lt: "\<And>old. map_of best (platform_key s) = Some old \<Longrightarrow> sv_stops s < sv_stops old"
    using False by (meson not_le)
  have "\<exists>v. map_of (AList.update (platform_key s) s best) (platform_key t) = Some v \<and> sv_stops v \<le> sv_stops t"
    if t: "t \<in> set (seen @ [s])" for t
  proof (cases "platform_key t = platform_key s")
    case True
    then show ?thesis using t assms lt by (fastforce simp: best_ok_def update_conv')
  next
    case False
    then show ?thesis using t assms by (auto simp: best_ok_def update_conv')
  qed
  moreover have "set (AList.update (platform_key s) s best) \<subseteq> insert (platform_key s, s) (set best)"
    by (induction best) auto
  ultimately show ?thesis
    using assms unfolding k best_ok_def by (fastforce simp: distinct_update)
qed

lemma fold_best_ok: "best_ok ss (fold keep_best ss [])"
proof (induction ss rule: rev_induct)
  case Nil
  then show ?case by (simp add: best_ok_def)
next
  case (snoc s ss)
  then show ?case using keep_best_ok by simp
qed

lemma merge_rows_fields:
  "g \<noteq> [] \<Longrightarrow> sg_id (merge_rows g) = sg_id (hd g) \<and> sg_short (merge_rows g) = sg_short (hd g)
   \<and> sg_has_service (merge_rows g) = sg_has_service (hd g) \<and> sv_board (merge_rows g) = sv_board (hd g)
   \<and> sv_off (merge_rows g) = sv_off (hd g) \<and> sv_stops (merge_rows g) = sv_stops (hd g)"
  by (cases g) (simp_all add: merge_rows_def)

lemma instruction_merge: "g \<noteq> [] \<Longrightarrow> instruction (merge_rows g) = instruction (hd g)"
  by (simp add: instruction_def merge_rows_fields)

lemma dedupe_instructions: "map instruction (dedupe_per_platform ss) = map fst (group_by instruction ss)"
proof -
  have "instruction (merge_rows g) = k" if "(k, g) \<in> set (group_by instruction ss)" for k g
    using that group_by_nonempty[OF that] group_by_sub[OF that, of "hd g"] by (simp add: instruction_merge)
  then show ?thesis by (auto simp: dedupe_per_platform_def)
qed

lemma dedupe_from: "r \<in> set (dedupe_per_platform ss) \<Longrightarrow> \<exists>s \<in> set ss. sg_id r = sg_id s \<and> sg_short r = sg_short s
   \<and> sg_has_service r = sg_has_service s \<and> sv_board r = sv_board s \<and> sv_off r = sv_off s \<and> sv_stops r = sv_stops s"
proof -
  assume "r \<in> set (dedupe_per_platform ss)"
  then obtain k g where g: "(k, g) \<in> set (group_by instruction ss)" "r = merge_rows g"
    by (auto simp: dedupe_per_platform_def)
  then have "g \<noteq> []" by (auto dest: group_by_nonempty)
  then have "g \<noteq> []" "hd g \<in> set ss"
    using group_by_sub[OF g(1), of "hd g"] by auto
  then show ?thesis using merge_rows_fields[of g] g(2) by auto
qed

definition survivors :: "pattern list \<Rightarrow> string set \<Rightarrow> string set \<Rightarrow> string set \<Rightarrow> service list" where
  "survivors patterns origins destinations exclude = drop_detours (running_today (map snd
     (fold keep_best (List.map_filter (candidate origins destinations exclude) patterns) [])))"

lemma equivalent_services_set:
  "set (equivalent_services patterns origins destinations exclude)
     = set (dedupe_per_platform (survivors patterns origins destinations exclude))"
  by (simp add: equivalent_services_def survivors_def)

lemma drop_detours_sub: "set (drop_detours ss) \<subseteq> set ss"
  by (auto simp: drop_detours_def split: option.splits)

lemma survivor_candidate:
  assumes "s \<in> set (survivors patterns origins destinations exclude)"
  obtains p where "p \<in> set patterns" "candidate origins destinations exclude p = Some s" "sg_has_service s \<noteq> Some False"
proof -
  let ?c = "List.map_filter (candidate origins destinations exclude) patterns"
  have "s \<in> snd ` set (fold keep_best ?c [])" "sg_has_service s \<noteq> Some False"
    using assms drop_detours_sub by (fastforce simp: survivors_def running_today_def)+
  then have "s \<in> set ?c" using fold_best_ok[of ?c] by (auto simp: best_ok_def)
  then show ?thesis using that \<open>sg_has_service s \<noteq> Some False\<close> by (auto simp: List.map_filter_def)
qed

text \<open>Every service the segment endpoint offers instead of the rider's own is one whose pattern calls at a
  boarding stop of the segment and later in the same run at an alighting stop of it (so it goes in the right
  direction and reaches the branch), is not the excluded route, runs today, and is offered once per
  instruction (name, boarding platform, alighting stop), with the number of stops counted along that run.\<close>
lemma equivalent_services_sound:
  "distinct (map instruction (equivalent_services patterns origins destinations exclude))
   \<and> (\<forall>r \<in> set (equivalent_services patterns origins destinations exclude).
        (\<exists>p \<in> set patterns. serves origins destinations p r \<and> (\<exists>q. pt_route p = Some q \<and> sg_id q = sg_id r))
        \<and> (\<exists>x. sg_id r = Some x \<and> x \<notin> exclude) \<and> sg_has_service r \<noteq> Some False)"
proof (intro conjI ballI)
  let ?S = "survivors patterns origins destinations exclude"
  show "distinct (map instruction (equivalent_services patterns origins destinations exclude))"
    using distinct_group_keys[of instruction ?S]
    by (simp add: equivalent_services_def dedupe_instructions survivors_def)
  fix r assume "r \<in> set (equivalent_services patterns origins destinations exclude)"
  then obtain s where s: "s \<in> set ?S" and same: "sg_id r = sg_id s" "sg_short r = sg_short s"
    "sg_has_service r = sg_has_service s" "sv_board r = sv_board s" "sv_off r = sv_off s" "sv_stops r = sv_stops s"
    using dedupe_from by (auto simp: equivalent_services_set dest!: dedupe_from)
  from s obtain p where p: "p \<in> set patterns" "candidate origins destinations exclude p = Some s" "sg_has_service s \<noteq> Some False"
    by (rule survivor_candidate)
  note c = candidate_Some[OF p(2)]
  have "serves origins destinations p r" using c by (simp add: serves_def same)
  then show "\<exists>p \<in> set patterns. serves origins destinations p r \<and> (\<exists>q. pt_route p = Some q \<and> sg_id q = sg_id r)"
    using c p(1) same(1) by auto
  show "\<exists>x. sg_id r = Some x \<and> x \<notin> exclude" using c by (simp add: same)
  show "sg_has_service r \<noteq> Some False" using p(3) by (simp add: same)
qed

lemma serving_pattern_is_candidate:
  assumes "pt_route p = Some q" "sg_id q = Some x" "x \<noteq> []" "x \<notin> exclude" "i < j" "j < length (pt_stops p)"
    "ss_id (pt_stops p ! i) \<in> origins" "ss_id (pt_stops p ! j) \<in> destinations"
    "\<forall>k<i. ss_id (pt_stops p ! k) \<notin> origins" "\<forall>k. i < k \<and> k < j \<longrightarrow> ss_id (pt_stops p ! k) \<notin> destinations"
  shows "\<exists>s. candidate origins destinations exclude p = Some s \<and> sg_id s = Some x \<and> sv_board s = pt_stops p ! i \<and> sv_stops s = j - i"
proof -
  have i: "first_index (\<lambda>s. ss_id s \<in> origins) 0 (pt_stops p) = Some i"
    unfolding first_index_def find_Some_iff using assms by (intro exI[of _ i]) auto
  have j: "first_index (\<lambda>s. ss_id s \<in> destinations) (i + 1) (pt_stops p) = Some j"
    unfolding first_index_def find_Some_iff using assms by (intro exI[of _ "j - i - 1"]) auto
  show ?thesis using assms i j by (cases x) (simp_all add: candidate_def)
qed

lemma dedupe_covers: "s \<in> set ss \<Longrightarrow> \<exists>r \<in> set (dedupe_per_platform ss). instruction r = instruction s"
proof -
  assume "s \<in> set ss"
  then have "instruction s \<in> set (map fst (group_by instruction ss))" by (simp add: set_group_keys)
  then show ?thesis unfolding dedupe_instructions[symmetric] by auto
qed

lemma drop_detours_keeps:
  "s \<in> set ss \<Longrightarrow> (\<And>q. q \<in> set ss \<Longrightarrow> of_nat (sv_stops s) \<le> detour_limit (sv_stops q)) \<Longrightarrow> s \<in> set (drop_detours ss)"
  by (auto simp: drop_detours_def dest: min_by_in split: option.split)

text \<open>Nothing useful is hidden: if a pattern of a route that is not excluded calls at a boarding stop and
  afterwards at an alighting stop, the route runs today, and the ride is within the detour limit of every
  other way through the segment, then the answer names that route at that platform (possibly the quicker of
  its variants, or one row for several feed rows with the same name).  The feed is assumed to describe one
  route id in one way.\<close>
lemma equivalent_services_complete:
  assumes p: "p \<in> set patterns" "pt_route p = Some q" "sg_id q = Some x" "x \<noteq> []" "x \<notin> exclude" "i < j" "j < length (pt_stops p)"
    "ss_id (pt_stops p ! i) \<in> origins" "ss_id (pt_stops p ! j) \<in> destinations"
    "\<forall>k<i. ss_id (pt_stops p ! k) \<notin> origins" "\<forall>k. i < k \<and> k < j \<longrightarrow> ss_id (pt_stops p ! k) \<notin> destinations"
    and one: "\<forall>p' \<in> set patterns. \<forall>q'. pt_route p' = Some q' \<and> sg_id q' = sg_id q \<longrightarrow> q' = q"
    and runs: "sg_has_service q \<noteq> Some False"
    and near: "\<forall>p' \<in> set patterns. \<forall>c. candidate origins destinations exclude p' = Some c \<longrightarrow>
                  of_nat (j - i) \<le> detour_limit (sv_stops c)"
  shows "\<exists>r \<in> set (equivalent_services patterns origins destinations exclude).
     str_or (sg_short r) (sg_id r) = str_or (sg_short q) (sg_id q) \<and> ss_id (sv_board r) = ss_id (pt_stops p ! i)"
proof -
  let ?c = "List.map_filter (candidate origins destinations exclude) patterns"
  obtain s where s: "candidate origins destinations exclude p = Some s" "sg_id s = Some x"
    "sv_board s = pt_stops p ! i" "sv_stops s = j - i"
    using serving_pattern_is_candidate[OF p(2-11)] by blast
  have "s \<in> set ?c" using s(1) p(1) by (force simp: List.map_filter_def)
  then obtain v where v: "map_of (fold keep_best ?c []) (platform_key s) = Some v" "sv_stops v \<le> sv_stops s"
    using fold_best_ok[of ?c] by (auto simp: best_ok_def)
  then have vin: "(platform_key s, v) \<in> set (fold keep_best ?c [])" by (simp add: map_of_SomeD)
  then have key: "platform_key v = platform_key s" and "v \<in> set ?c"
    using fold_best_ok[of ?c] by (auto simp: best_ok_def)
  then obtain p' where p': "p' \<in> set patterns" "candidate origins destinations exclude p' = Some v"
    by (auto simp: List.map_filter_def)
  obtain q' where q': "pt_route p' = Some q'" "sg_id v = sg_id q'" "sg_short v = sg_short q'" "sg_has_service v = sg_has_service q'"
    using candidate_Some[OF p'(2)] by blast
  have "sg_id q' = sg_id q" using key s(2) p(3) q'(2) by (simp add: platform_key_def)
  then have "q' = q" using one p'(1) q'(1) by blast
  have "v \<in> set (running_today (map snd (fold keep_best ?c [])))"
    using vin runs q'(4) \<open>q' = q\<close> by (force simp: running_today_def)
  moreover have "of_nat (sv_stops v) \<le> detour_limit (sv_stops t)"
    if t: "t \<in> set (running_today (map snd (fold keep_best ?c [])))" for t
  proof -
    have "t \<in> set ?c" using t fold_best_ok[of ?c] by (auto simp: running_today_def best_ok_def)
    then have "of_nat (j - i) \<le> detour_limit (sv_stops t)" using near by (auto simp: List.map_filter_def)
    moreover have "of_nat (sv_stops v) \<le> (of_nat (j - i) :: rat)" using v(2) s(4) by simp
    ultimately show ?thesis by linarith
  qed
  ultimately have "v \<in> set (survivors patterns origins destinations exclude)"
    unfolding survivors_def by (rule drop_detours_keeps)
  then obtain r where r: "r \<in> set (equivalent_services patterns origins destinations exclude)" "instruction r = instruction v"
    using dedupe_covers by (force simp: equivalent_services_set)
  moreover have "ss_id (sv_board v) = ss_id (pt_stops p ! i)" using key s(3) by (simp add: platform_key_def)
  ultimately show ?thesis using q'(2,3) \<open>q' = q\<close> by (auto simp: instruction_def intro!: bexI[of _ r])
qed

definition demo_pattern :: "string \<Rightarrow> string list \<Rightarrow> pattern" where
  "demo_pattern r stops = \<lparr>pt_route = Some \<lparr>sg_id = Some r, sg_short = None, sg_component = None, sg_has_service = None\<rparr>,
     pt_headsign = None, pt_direction = None, pt_stops = map (\<lambda>s. \<lparr>ss_id = s, ss_name = None\<rparr>) stops\<rparr>"

lemma equivalent_services_complete_witness:
  "\<exists>r \<in> set (equivalent_services [demo_pattern ''r'' [''a'', ''b'']] {''a''} {''b''} {}).
     str_or (sg_short r) (sg_id r) = Some ''r'' \<and> ss_id (sv_board r) = ''a''"
  using equivalent_services_complete[of "demo_pattern ''r'' [''a'', ''b'']" "[demo_pattern ''r'' [''a'', ''b'']]"
     "\<lparr>sg_id = Some ''r'', sg_short = None, sg_component = None, sg_has_service = None\<rparr>" "''r''" "{}" 0 1 "{''a''}" "{''b''}"]
  by (simp add: demo_pattern_def candidate_def first_index_def str_or_def detour_limit_def)

lemma equivalent_services_sound_witness:
  "map ss_id (map sv_board (equivalent_services [demo_pattern ''r'' [''a'', ''b'']] {''a''} {''b''} {})) = [''a'']
   \<and> equivalent_services [demo_pattern ''r'' [''a'', ''b'']] {''a''} {''b''} {''r''} = []"
proof -
  have none: "equivalent_services [demo_pattern ''r'' [''a'', ''b'']] {''a''} {''b''} {''r''} = []"
    using equivalent_services_sound[of "[demo_pattern ''r'' [''a'', ''b'']]" "{''a''}" "{''b''}" "{''r''}"]
    by (cases "equivalent_services [demo_pattern ''r'' [''a'', ''b'']] {''a''} {''b''} {''r''}")
      (auto simp: demo_pattern_def)
  show ?thesis using none
    by (simp add: demo_pattern_def equivalent_services_def candidate_def first_index_def platform_key_def keep_best_def running_today_def
      drop_detours_def dedupe_per_platform_def group_by_def merge_rows_def List.map_filter_def
      detour_limit_def instruction_def str_or_def group_add_def)
qed

end
