(* ===== verification/Schedule.thy ===== *)
theory Schedule
  imports Py_Text
begin

text \<open>
  \<open>app/schedule.py\<close>: departures of one pattern in GTFS seconds, summarised per hour of service, and the
  patterns that are one direction of a route.
\<close>

definition FREQUENT_HEADWAY_MINUTES :: int where "FREQUENT_HEADWAY_MINUTES = 12"

definition hhmm :: "int \<Rightarrow> string" where
  "hhmm seconds = (let m = (seconds div 60) mod (24 * 60) in pad2 (nat (m div 60)) @ '':'' @ pad2 (nat (m mod 60)))"

definition hour_of :: "int \<Rightarrow> int" where "hour_of d = (d div 3600) mod 24"

fun hour_gaps :: "int list \<Rightarrow> (int \<times> int) list" where
  \<comment> \<open>the gap after each departure but the last, with the hour of the earlier one\<close>
  "hour_gaps (d # e # ds) = (hour_of d, e - d) # hour_gaps (e # ds)"
| "hour_gaps _ = []"

definition median :: "int list \<Rightarrow> rat" where
  \<comment> \<open>\<open>statistics.median\<close> of a non-empty list\<close>
  "median xs = (let s = sort xs; n = length s in
     if odd n then of_int (s ! (n div 2)) else (of_int (s ! (n div 2 - 1)) + of_int (s ! (n div 2))) / 2)"

record headway =
  hw_min :: int
  hw_typical :: int
  hw_max :: int

record band =
  bd_hour :: int
  bd_from :: string
  bd_to :: string
  bd_trips :: nat
  bd_headway :: "headway option"

definition headway_of :: "int list \<Rightarrow> headway option" where
  "headway_of mins = (case (min_by id mins, max_by id mins) of
     (Some a, Some b) \<Rightarrow> Some \<lparr>hw_min = a, hw_typical = py_round (median mins), hw_max = b\<rparr> | _ \<Rightarrow> None)"

definition in_minutes :: "int \<Rightarrow> int" where
  "in_minutes x = py_round (of_int x / 60 :: rat)"

definition bands :: "int list \<Rightarrow> band list" where
  "bands departures = (let deps = sort departures; by_hour = group_by hour_of deps; gaps = group_by fst (hour_gaps deps)
     in map (\<lambda>hour. \<lparr>bd_hour = hour, bd_from = pad2 (nat hour) @ '':00'', bd_to = pad2 (nat ((hour + 1) mod 24)) @ '':00'',
          bd_trips = length (or_else (map_of by_hour hour) []),
          bd_headway = headway_of (map (in_minutes \<circ> snd) (or_else (map_of gaps hour) []))\<rparr>)
        (sort (map fst by_hour)))"

fun gaps_of :: "int list \<Rightarrow> int list" where
  "gaps_of (d # e # ds) = (e - d) # gaps_of (e # ds)"
| "gaps_of _ = []"

record summary =
  sm_trips :: nat
  sm_first :: "string option"
  sm_last :: "string option"
  sm_typical :: "int option"
  sm_frequent :: bool
  sm_bands :: "band list"

definition schedule_summary :: "int list \<Rightarrow> summary" where
  "schedule_summary departures = (let deps = sort departures in
     if deps = [] then \<lparr>sm_trips = 0, sm_first = None, sm_last = None, sm_typical = None, sm_frequent = False, sm_bands = []\<rparr>
     else let gaps = map in_minutes (gaps_of deps);
              typical = (if gaps = [] then None else Some (py_round (median gaps)))
       in \<lparr>sm_trips = length deps, sm_first = Some (hhmm (hd deps)), sm_last = Some (hhmm (last deps)), sm_typical = typical,
           sm_frequent = (case typical of None \<Rightarrow> False | Some t \<Rightarrow> t \<le> FREQUENT_HEADWAY_MINUTES), sm_bands = bands departures\<rparr>)"

section \<open>Directions\<close>

record direction_pattern =
  dp_code :: string
  dp_direction :: "int option"
  dp_headsign :: "string option"
  dp_stops :: nat  \<comment> \<open>how many\<close>

definition direction_key :: "(string \<Rightarrow> string) \<Rightarrow> direction_pattern \<Rightarrow> int option \<times> string" where
  \<comment> \<open>\<open>fold\<close> stands for \<open>str.casefold\<close>; the branch on the route's short name assigns what is there already\<close>
  "direction_key casefold p = (if dp_direction p \<in> {Some 0, Some 1} then dp_direction p else None,
     casefold (strip (or_else (dp_headsign p) [])))"

definition by_length :: "direction_pattern list \<Rightarrow> direction_pattern list" where
  "by_length = sort_key (\<lambda>p. - int (dp_stops p))"

definition direction_group :: "(string \<Rightarrow> string) \<Rightarrow> direction_pattern list \<Rightarrow> string option \<Rightarrow> direction_pattern list" where
  "direction_group casefold patterns wanted = (let groups = group_by (direction_key casefold) patterns in
     if truthy_str wanted
     then (case find (\<lambda>g. \<exists>p \<in> set (snd g). wanted = Some (dp_code p)) groups of None \<Rightarrow> [] | Some g \<Rightarrow> by_length (snd g))
     else (case max_by (\<lambda>g. Max (dp_stops ` set (snd g))) groups of None \<Rightarrow> [] | Some g \<Rightarrow> by_length (snd g)))"

section \<open>Facts\<close>

lemma sum_filter_length:
  "distinct ks \<Longrightarrow> f ` set xs \<subseteq> set ks \<Longrightarrow> (\<Sum>k\<leftarrow>ks. length (filter (\<lambda>x. f x = k) xs)) = length xs"
proof (induction xs)
  case (Cons x xs)
  have "(\<Sum>k\<leftarrow>ks. if f x = k then 1 else 0) = (1::nat)"
    using Cons.prems by (simp add: sum_list_distinct_conv_sum_set sum.delta)
  moreover have "(\<Sum>k\<leftarrow>ks. length (filter (\<lambda>y. f y = k) (x # xs)))
      = (\<Sum>k\<leftarrow>ks. if f x = k then 1 else 0) + (\<Sum>k\<leftarrow>ks. length (filter (\<lambda>y. f y = k) xs))"
    by (simp flip: sum_list_addf) (rule arg_cong[of _ _ sum_list], simp)
  ultimately show ?case using Cons by simp
qed simp

lemma hour_gaps_gaps: "map snd (hour_gaps ds) = gaps_of ds"
  by (induction ds rule: hour_gaps.induct) simp_all

lemma gaps_nonneg: "sorted ds \<Longrightarrow> g \<in> set (gaps_of ds) \<Longrightarrow> 0 \<le> g"
  by (induction ds rule: gaps_of.induct) auto

lemma in_minutes_nonneg: "0 \<le> x \<Longrightarrow> 0 \<le> in_minutes x"
  by (simp add: in_minutes_def py_round_nonneg)

text \<open>The bands of a timetable account for every departure: hours in increasing order, each at most once, each in
  0..23 and with at least one departure, the counts adding up to the number of departures of the summary;
  and an interval is never negative.\<close>
lemma bands_account_for_departures:
  "sm_trips (schedule_summary deps) = length deps
   \<and> sum_list (map bd_trips (bands deps)) = length deps
   \<and> sorted (map bd_hour (bands deps)) \<and> distinct (map bd_hour (bands deps))
   \<and> (\<forall>b \<in> set (bands deps). 0 \<le> bd_hour b \<and> bd_hour b < 24 \<and> 0 < bd_trips b)
   \<and> (\<forall>b \<in> set (bands deps). \<forall>h. bd_headway b = Some h \<longrightarrow> 0 \<le> hw_min h)"
proof -
  let ?d = "sort deps" and ?hs = "sort (map fst (group_by hour_of (sort deps)))"
  have hours: "map bd_hour (bands deps) = ?hs" by (simp add: bands_def Let_def o_def)
  have hs: "set ?hs = hour_of ` set deps" by (simp add: set_group_keys)
  have dist: "distinct ?hs" by (simp add: distinct_group_keys)
  have trips: "bd_trips b = length (filter (\<lambda>d. hour_of d = bd_hour b) ?d)" if "b \<in> set (bands deps)" for b
    using that by (auto simp: bands_def Let_def map_of_group_by)
  have "map bd_trips (bands deps) = map (\<lambda>k. length (filter (\<lambda>d. hour_of d = k) ?d)) (map bd_hour (bands deps))"
    using trips by simp
  then have "sum_list (map bd_trips (bands deps)) = length ?d"
    unfolding hours using sum_filter_length[OF dist, of hour_of ?d] hs by simp
  moreover have "0 \<le> bd_hour b \<and> bd_hour b < 24 \<and> 0 < bd_trips b" if b: "b \<in> set (bands deps)" for b
  proof -
    have "bd_hour b \<in> hour_of ` set deps" using b hs hours by (metis imageI list.set_map)
    then obtain d where "d \<in> set deps" "bd_hour b = hour_of d" by auto
    then show ?thesis using trips[OF b] by (auto simp: hour_of_def length_greater_0_conv filter_empty_conv)
  qed
  moreover have "0 \<le> hw_min h" if b: "b \<in> set (bands deps)" "bd_headway b = Some h" for b h
  proof -
    obtain hour where h: "bd_headway b = headway_of (map (in_minutes \<circ> snd) (or_else (map_of (group_by fst (hour_gaps ?d)) hour) []))"
      using b(1) by (auto simp: bands_def Let_def)
    let ?m = "map (in_minutes \<circ> snd) (or_else (map_of (group_by fst (hour_gaps ?d)) hour) [])"
    have "min_by id ?m = Some (hw_min h)" using b(2) h by (auto simp: headway_of_def split: option.splits)
    then have "hw_min h \<in> set ?m" by (rule min_by_in)
    then obtain y where y: "y \<in> set (hour_gaps ?d)" "hw_min h = in_minutes (snd y)"
      by (auto simp: map_of_group_by split: if_splits)
    then have "snd y \<in> set (gaps_of ?d)" by (metis hour_gaps_gaps image_eqI list.set_map)
    then show ?thesis using gaps_nonneg[of ?d] in_minutes_nonneg y(2) by simp
  qed
  ultimately show ?thesis
    using dist hours by (auto simp: schedule_summary_def Let_def)
qed

lemma bands_account_for_departures_witness:
  "sum_list (map bd_trips (bands [25200, 26100, 32400])) = 3"
  using bands_account_for_departures[of "[25200, 26100, 32400]"] by simp

lemma direction_group_is_group:
  "direction_group cf ps w \<noteq> [] \<Longrightarrow> \<exists>k g. (k, g) \<in> set (group_by (direction_key cf) ps) \<and> direction_group cf ps w = by_length g"
proof -
  assume ne: "direction_group cf ps w \<noteq> []"
  have "\<exists>kg \<in> set (group_by (direction_key cf) ps). direction_group cf ps w = by_length (snd kg)"
  proof (cases "truthy_str w")
    case True
    then obtain kg where kg: "find (\<lambda>g. \<exists>p \<in> set (snd g). w = Some (dp_code p)) (group_by (direction_key cf) ps) = Some kg"
      using ne by (auto simp: direction_group_def Let_def split: option.splits)
    then have "kg \<in> set (group_by (direction_key cf) ps)" by (auto simp: find_Some_iff)
    with kg True show ?thesis by (auto simp: direction_group_def Let_def)
  next
    case False
    then obtain kg where kg: "max_by (\<lambda>g. Max (dp_stops ` set (snd g))) (group_by (direction_key cf) ps) = Some kg"
      using ne by (auto simp: direction_group_def Let_def split: option.splits)
    with False show ?thesis using max_by_in[OF kg] by (auto simp: direction_group_def Let_def)
  qed
  then show ?thesis by force
qed

lemma direction_group_one_direction:
  assumes p: "p \<in> set (direction_group cf ps w)" and q: "q \<in> set (direction_group cf ps w)"
  shows "p \<in> set ps \<and> direction_key cf p = direction_key cf q"
proof -
  have "direction_group cf ps w \<noteq> []" using p by auto
  then obtain k g where g: "(k, g) \<in> set (group_by (direction_key cf) ps)" "direction_group cf ps w = by_length g"
    using direction_group_is_group by blast
  then show ?thesis using group_by_sub[OF g(1), of p] group_by_sub[OF g(1), of q] p q by (simp add: by_length_def)
qed

end
