(* ===== verification/Forecast.thy ===== *)
theory Forecast
  imports Trip_Model Iso_Time Features
begin

text \<open>
  \<open>app/forecast.py\<close>: when to leave.  The sampled plans are merged into distinct departures, one of them is
  recommended, the gaps between them are annotated, and answers are cached for a minute.  Times are the ISO
  strings of the itineraries, read with \<^const>\<open>iso_instant\<close>; the clock is an argument.
\<close>

definition MAX_FANOUT :: int where "MAX_FANOUT = 8"
definition LONG_GAP_SECONDS :: int where "LONG_GAP_SECONDS = 20 * 60"
definition CACHE_TTL_S :: rat where "CACHE_TTL_S = 60"

definition sample_times :: "int \<Rightarrow> int \<Rightarrow> int \<Rightarrow> int list" where
  \<comment> \<open>in seconds; probes are whole minutes after the start\<close>
  "sample_times start window_minutes fanout = (let n = max 1 (min fanout MAX_FANOUT) in
     if n = 1 \<or> window_minutes \<le> 0 then [start]
     else map (\<lambda>i. start + 60 * py_round (of_int window_minutes / of_int n * of_nat i :: rat)) [0..<nat n])"

definition leg_key :: "leg \<Rightarrow> string option \<times> string option \<times> string option \<times> string option \<times> string option" where
  "leg_key lg = (leg_mode lg, leg_route_id lg, leg_trip_id lg, place_stop_id (leg_origin lg), leg_start lg)"

definition journey :: "itinerary \<Rightarrow> (string option \<times> string option \<times> string option \<times> string option \<times> string option) list" where
  "journey it = map leg_key (legs it)"

definition iso_ts :: "string option \<Rightarrow> rat option" where
  "iso_ts v = (if truthy_str v then iso_instant (the v) else None)"

record departure =
  dep_at :: "string option"
  dep_arrive :: "string option"
  dep_duration :: "int option"
  dep_transfers :: "int option"
  dep_walk :: int
  dep_modes :: "string list"
  dep_routes :: "string list"
  dep_fare :: "fare option"
  dep_realtime :: bool
  dep_recommended :: bool
  dep_gap :: "int option"

definition to_option :: "itinerary \<Rightarrow> departure" where
  "to_option it = \<lparr>dep_at = it_start it, dep_arrive = it_end it, dep_duration = it_duration it,
     dep_transfers = it_transfers it, dep_walk = py_round (or_else (walk_distance it) 0), dep_modes = modes_used it,
     dep_routes = List.map_filter (\<lambda>lg. if transit lg \<and> truthy_str (leg_route_id lg) then leg_route_id lg else None) (legs it),
     dep_fare = it_fare it, dep_realtime = list_ex leg_realtime (legs it), dep_recommended = False, dep_gap = None\<rparr>"

definition timed :: "itinerary \<Rightarrow> bool" where
  "timed it = (truthy_str (it_start it) \<and> truthy_str (it_end it))"

definition build_options :: "itinerary list list \<Rightarrow> nat \<Rightarrow> bool \<Rightarrow> departure list" where
  "build_options plans max_options arrive_by =
     (let distinct_rows = uniq_by (\<lambda>it. Some (journey it)) [] (filter timed (concat plans))
      in take max_options (sort_key (\<lambda>d. (or_else (if arrive_by then dep_arrive d else dep_at d) [], or_else (dep_duration d) 0))
           (map to_option distinct_rows)))"

definition has_duration :: "departure \<Rightarrow> bool" where "has_duration d = (or_else (dep_duration d) 0 \<noteq> 0)"

definition arrival_of :: "departure \<Rightarrow> bool \<times> rat" where
  \<comment> \<open>\<open>_iso_ts(arriveAt) or inf\<close>: unreadable arrivals (and the epoch itself) sort last\<close>
  "arrival_of d = (case iso_ts (dep_arrive d) of None \<Rightarrow> (True, 0) | Some t \<Rightarrow> if t = 0 then (True, 0) else (False, t))"

definition cutoff :: "int list \<Rightarrow> int" where
  "cutoff durations = sort durations ! ((length durations - 1) div 4)"

definition recommended_index :: "departure list \<Rightarrow> nat option" where
  "recommended_index options = (let cands = filter (\<lambda>i. has_duration (options ! i)) [0..<length options] in
     if cands = [] then None
     else let c = cutoff (map (\<lambda>i. or_else (dep_duration (options ! i)) 0) cands)
       in min_by (\<lambda>i. arrival_of (options ! i)) (filter (\<lambda>i. or_else (dep_duration (options ! i)) 0 \<le> c) cands))"

definition mark_recommended :: "departure list \<Rightarrow> departure list" where
  "mark_recommended options = (case recommended_index options of None \<Rightarrow> options
     | Some i \<Rightarrow> options[i := (options ! i)\<lparr>dep_recommended := True\<rparr>])"

definition gap_between :: "departure \<Rightarrow> departure \<Rightarrow> int option" where
  "gap_between a b = (case (iso_ts (dep_at a), iso_ts (dep_at b)) of
     (Some x, Some y) \<Rightarrow> if x < y then Some (py_trunc (y - x)) else None | _ \<Rightarrow> None)"

fun annotate_gaps :: "departure list \<Rightarrow> departure list" where
  "annotate_gaps (a # b # ds) = a\<lparr>dep_gap := gap_between a b\<rparr> # annotate_gaps (b # ds)"
| "annotate_gaps [a] = [a\<lparr>dep_gap := None\<rparr>]"
| "annotate_gaps [] = []"

definition clock_text :: "string option \<Rightarrow> string" where
  \<comment> \<open>\<open>_hhmm\<close>: the wall clock of the string itself\<close>
  "clock_text v = (if \<not> truthy_str v then ''--:--'' else
     case iso_local (the v) of None \<Rightarrow> ''--:--''
     | Some (t, off) \<Rightarrow> (let s = \<lfloor>t\<rfloor> mod day_seconds in pad2 (nat (s div 3600)) @ '':'' @ pad2 (nat (s mod 3600 div 60))))"

definition hhmm_before :: "string \<Rightarrow> local_time \<Rightarrow> bool" where
  "hhmm_before hm moment = (case map parse_int (take 2 (split_on (CHR '':'') hm)) of
     [Some h, Some m] \<Rightarrow> (h, m) \<le> (lt_sec moment div 3600, lt_sec moment mod 3600 div 60)
   | _ \<Rightarrow> False)"

datatype notice = LongGap "string option" int string | LastService "string option" string | ServiceEnds string
  \<comment> \<open>the sentences differ by language only; what they name is kept: departure, seconds, clock\<close>

fun gap_notes :: "departure list \<Rightarrow> notice list" where
  "gap_notes (a # b # ds) = (case dep_gap a of
       Some g \<Rightarrow> if g \<noteq> 0 \<and> LONG_GAP_SECONDS \<le> g then [LongGap (dep_at a) g (clock_text (dep_at b))] else []
     | None \<Rightarrow> []) @ gap_notes (b # ds)"
| "gap_notes _ = []"

definition build_notes :: "departure list \<Rightarrow> rat \<Rightarrow> local_time \<Rightarrow> (string option \<times> bool) option \<Rightarrow> notice list" where
  \<comment> \<open>the end of the window as an instant and as a local time; end and \<open>endsNextDay\<close> of the service window\<close>
  "build_notes options window_end window_local service_window = gap_notes options
     @ (if options = [] then [] else case iso_ts (dep_at (last options)) of None \<Rightarrow> []
        | Some t \<Rightarrow> if t < window_end - of_int LONG_GAP_SECONDS
                    then [LastService (dep_at (last options)) (clock_text (dep_at (last options)))] else [])
     @ (case service_window of None \<Rightarrow> [] | Some (e, next_day) \<Rightarrow>
          if truthy_str e \<and> \<not> next_day \<and> hhmm_before (the e) window_local then [ServiceEnds (the e)] else [])"

section \<open>The cache\<close>

type_synonym ('k, 'v) forecast_cache = "('k \<times> rat \<times> 'v) list"

definition cache_get :: "rat \<Rightarrow> 'k \<Rightarrow> ('k, 'v) forecast_cache \<Rightarrow> 'v option \<times> ('k, 'v) forecast_cache" where
  "cache_get now k items = (case map_of items k of
     Some (t, v) \<Rightarrow> if now - t < CACHE_TTL_S then (Some v, items) else (None, AList.delete k items)
   | None \<Rightarrow> (None, AList.delete k items))"

definition cache_put :: "nat \<Rightarrow> rat \<Rightarrow> 'k \<Rightarrow> 'v \<Rightarrow> ('k, 'v) forecast_cache \<Rightarrow> ('k, 'v) forecast_cache" where
  "cache_put max_entries now k v items = AList.update k (now, v)
     (if max_entries \<le> length items then (case min_by (fst \<circ> snd) items of None \<Rightarrow> items | Some (old, _) \<Rightarrow> AList.delete old items) else items)"

record plan_query =
  pq_from :: "real \<times> real"
  pq_to :: "real \<times> real"
  pq_when :: rat
  pq_window :: int
  pq_modes :: "string option"
  pq_arrive_by :: bool
  pq_max :: int
  pq_locale :: string

definition cache_key :: "string \<Rightarrow> plan_query \<Rightarrow> string \<times> (real \<times> real \<times> real \<times> real) \<times> int \<times> int \<times> string \<times> bool \<times> int \<times> string" where
  "cache_key city q = (city, (py_round_to 4 (fst (pq_from q)), py_round_to 4 (snd (pq_from q)),
     py_round_to 4 (fst (pq_to q)), py_round_to 4 (snd (pq_to q))), \<lfloor>pq_when q / 60\<rfloor>, pq_window q,
     or_else (pq_modes q) [], pq_arrive_by q, pq_max q, pq_locale q)"

section \<open>Facts\<close>

lemma sample_times_bounds:
  "length (sample_times start w f) \<le> 8 \<and> hd (sample_times start w f) = start \<and> sample_times start w f \<noteq> []"
  by (auto simp: sample_times_def Let_def MAX_FANOUT_def hd_map hd_upt)

lemma uniq_by_distinct_keys: "distinct (map f (uniq_by (\<lambda>x. Some (f x)) [] xs))"
  using uniq_by_distinct[of "\<lambda>x. Some (f x)" "[]" xs] by (simp add: List.map_filter_def o_def)

definition departure_key :: "bool \<Rightarrow> departure \<Rightarrow> string \<times> int" where
  "departure_key arrive_by d = (or_else (if arrive_by then dep_arrive d else dep_at d) [], or_else (dep_duration d) 0)"

text \<open>The departures offered are at most \<open>max_options\<close>, in chronological order (of departure, or of arrival
  when planning backwards), each taken from a plan with both ends known; no two of them are the same
  journey, and when they fit, every timed itinerary of every sampled plan is among them up to being the same
  journey.\<close>
lemma build_options_spec:
  "length (build_options plans n arrive_by) \<le> n
   \<and> sorted (map (departure_key arrive_by) (build_options plans n arrive_by))
   \<and> (\<exists>its. set its \<subseteq> {it \<in> set (concat plans). timed it} \<and> distinct (map journey its)
        \<and> journey ` set its = journey ` {it \<in> set (concat plans). timed it}
        \<and> (\<exists>ds. mset ds = mset (map to_option its) \<and> build_options plans n arrive_by = take n ds))"
proof -
  let ?rows = "filter timed (concat plans)"
  let ?its = "uniq_by (\<lambda>it. Some (journey it)) [] ?rows"
  let ?ds = "sort_key (departure_key arrive_by) (map to_option ?its)"
  have b: "build_options plans n arrive_by = take n ?ds"
    by (simp add: build_options_def departure_key_def[abs_def] Let_def)
  have "sorted (map (departure_key arrive_by) (take n ?ds))"
    by (simp add: take_map[symmetric] sorted_wrt_take)
  moreover have "set ?its \<subseteq> {it \<in> set (concat plans). timed it}"
    using set_uniq_by[of "\<lambda>it. Some (journey it)" "[]" ?rows] by (auto simp only: set_filter)
  moreover have "journey ` {it \<in> set (concat plans). timed it} \<subseteq> journey ` set ?its"
  proof
    fix j assume "j \<in> journey ` {it \<in> set (concat plans). timed it}"
    then obtain it where "it \<in> set ?rows" "j = journey it" by (auto simp only: set_filter)
    then obtain y where "y \<in> set ?its" "journey y = j"
      using uniq_by_covers[of it ?rows "\<lambda>it. Some (journey it)" j "[]"] by auto
    then show "j \<in> journey ` set ?its" by blast
  qed
  moreover have "distinct (map journey ?its)" by (rule uniq_by_distinct_keys)
  moreover have "mset ?ds = mset (map to_option ?its)" by simp
  ultimately show ?thesis unfolding b by (intro conjI exI[of _ ?its] exI[of _ ?ds]) auto
qed

lemma length_delete: "k \<in> fst ` set xs \<Longrightarrow> length (AList.delete k xs) < length xs"
  using length_filter_less[of _ xs "\<lambda>(k', _). k \<noteq> k'"] by (fastforce simp: AList.delete_eq)

lemma length_update: "length (AList.update k v xs) \<le> Suc (length xs)"
  by (induction xs) auto

lemma cache_bounded:
  "length items \<le> n \<Longrightarrow> 0 < n \<Longrightarrow> length (cache_put n now k v items) \<le> n"
proof -
  assume l: "length items \<le> n" "0 < n"
  show ?thesis
  proof (cases "n \<le> length items")
    case True
    then have "items \<noteq> []" using l by auto
    then obtain old where old: "min_by (fst \<circ> snd) items = Some old" by (cases "min_by (fst \<circ> snd) items") auto
    then have "fst old \<in> fst ` set items" by (auto dest: min_by_in)
    then have "length (AList.delete (fst old) items) < n" using length_delete[of "fst old" items] l by simp
    then show ?thesis using True old length_update[of k "(now, v)" "AList.delete (fst old) items"]
      by (cases old) (simp add: cache_put_def)
  next
    case False
    then show ?thesis using length_update[of k "(now, v)" items] by (simp add: cache_put_def)
  qed
qed

lemma cache_get_put: "now' - now < CACHE_TTL_S \<Longrightarrow> fst (cache_get now' k (cache_put n now k v items)) = Some v"
  by (simp add: cache_get_def cache_put_def update_conv')

end
