(* ===== verification/Operations.thy ===== *)
theory Operations
  imports Json_Value Trip_Model Rt_Cache
begin

text \<open>
  The small modules an operator and a rider meet: \<open>app/walk_limit.py\<close>, \<open>app/feed_shrink.py\<close>,
  \<open>app/graph_drift.py\<close>, \<open>app/ops_alerts.py\<close>, \<open>app/reports.py\<close>, the daily budget of
  \<open>app/assistant/budget.py\<close> and the freshness of \<open>app/runtime.py\<close>.  Sentences for humans are kept as
  the values they name.
\<close>

section \<open>The walking limit\<close>

definition apply_walk_limit :: "itinerary list \<Rightarrow> rat \<Rightarrow> itinerary list \<times> nat" where
  "apply_walk_limit its max_metres = (let kept = filter (\<lambda>it. or_else (walk_distance it) 0 \<le> max_metres) its
     in (kept, length its - length kept))"

definition walk_limit_warning :: "nat \<Rightarrow> nat \<Rightarrow> rat \<Rightarrow> (nat \<times> nat \<times> rat) list" where
  "walk_limit_warning dropped n max_metres = (if dropped = 0 then [] else [(dropped, n, max_metres)])"

section \<open>A feed that shrank\<close>

record shrink =
  sk_previous :: int
  sk_trips :: int
  sk_lost_pct :: rat

definition feed_shrink :: "int option \<Rightarrow> int option \<Rightarrow> rat \<Rightarrow> shrink option" where
  "feed_shrink previous trips threshold = (let p = or_else previous 0; t = or_else trips 0 in
     if p = 0 \<or> t = 0 \<or> p \<le> t then None
     else let lost = 100 * of_int (p - t) / of_int p in
       if lost < threshold then None else Some \<lparr>sk_previous = p, sk_trips = t, sk_lost_pct = py_round_to 1 lost\<rparr>)"

section \<open>Drift of the routing graph\<close>

definition REBUILD_BELOW_PCT :: rat where "REBUILD_BELOW_PCT = 85"

record overlap =
  ov_ok :: "bool option"
  ov_pct :: "rat option"
  ov_graph :: "nat option"
  ov_feed :: "nat option"
  ov_shared :: "nat option"
  ov_rebuild :: "bool option"

definition trip_overlap :: "string list \<Rightarrow> string list option \<Rightarrow> overlap" where
  \<comment> \<open>the two sets as lists without repetition\<close>
  "trip_overlap baseline current = (let cur = or_else current [] in
     if baseline = [] \<or> cur = []
     then \<lparr>ov_ok = None, ov_pct = None, ov_graph = (if baseline = [] then None else Some (length baseline)),
           ov_feed = (if cur = [] then None else Some (length cur)), ov_shared = None, ov_rebuild = None\<rparr>
     else let shared = length (filter (\<lambda>t. t \<in> set baseline) cur);
              pct = py_round_to 1 (of_nat shared / of_nat (length cur) * 100)
       in \<lparr>ov_ok = Some True, ov_pct = Some pct, ov_graph = Some (length baseline), ov_feed = Some (length cur),
           ov_shared = Some shared, ov_rebuild = Some (pct < REBUILD_BELOW_PCT)\<rparr>)"

datatype drift = DriftOff | DriftFailed | Drift overlap

record drift_store =
  ds_by_city :: "(string \<times> drift) list"
  ds_baselines :: "(string \<times> string \<times> string list) list"

definition refresh_drift :: "string \<Rightarrow> string option \<Rightarrow> string list option \<Rightarrow> string list option \<Rightarrow> drift_store \<Rightarrow> drift \<times> drift_store" where
  \<comment> \<open>\<open>fetched\<close>: what \<open>fetch_baseline\<close> returns for this URL, \<open>None\<close> when it raises\<close>
  "refresh_drift city url current fetched ds = (if \<not> truthy_str url
     then (DriftOff, ds\<lparr>ds_by_city := AList.update city DriftOff (ds_by_city ds)\<rparr>)
     else let u = the url;
       cached = (case map_of (ds_baselines ds) city of Some (u', ids) \<Rightarrow> if u' = u then Some ids else None | None \<Rightarrow> None);
       baseline = (case cached of Some ids \<Rightarrow> Some ids | None \<Rightarrow> fetched);
       ds1 = (case (cached, fetched) of (None, Some ids) \<Rightarrow> ds\<lparr>ds_baselines := AList.update city (u, ids) (ds_baselines ds)\<rparr> | _ \<Rightarrow> ds);
       out = (case baseline of None \<Rightarrow> DriftFailed | Some ids \<Rightarrow> Drift (trip_overlap ids current))
     in (out, ds1\<lparr>ds_by_city := AList.update city out (ds_by_city ds1)\<rparr>))"

section \<open>Operator alerts\<close>

datatype channel = Telegram | Webhook

definition channels :: "string option \<Rightarrow> string option \<Rightarrow> string option \<Rightarrow> channel list" where
  "channels token chat_id webhook = (if truthy_str token \<and> truthy_str chat_id then [Telegram] else [])
     @ (if truthy_str webhook then [Webhook] else [])"

definition baseline_tag :: "string option \<Rightarrow> string" where
  "baseline_tag url = (if \<not> truthy_str url then ''?'' else
     let parts = filter (\<lambda>p. p \<noteq> []) (split_on (CHR ''/'') (the url)) in
     case find (\<lambda>p. startswith p ''graph-'') (rev parts) of
       Some p \<Rightarrow> p | None \<Rightarrow> if 1 < length parts then parts ! (length parts - 2) else ''?'')"

record ops_alert =
  oa_kind :: string
  oa_key :: string

record ingest_meta =
  im_version :: "string option"
  im_shrink :: "shrink option"

definition ops_alerts :: "string \<Rightarrow> ingest_meta option \<Rightarrow> drift option \<Rightarrow> string option \<Rightarrow> ops_alert list" where
  "ops_alerts city ingest drift url =
     (let fv = (case Option.bind ingest im_version of Some v \<Rightarrow> if v = [] then ''?'' else v | None \<Rightarrow> ''?'')
      in (case Option.bind ingest im_shrink of None \<Rightarrow> []
          | Some s \<Rightarrow> [\<lparr>oa_kind = ''feed_shrank'', oa_key = city @ '':feed_shrank:'' @ fv\<rparr>])
       @ (case drift of Some (Drift o') \<Rightarrow> if ov_rebuild o' = Some True
            then [\<lparr>oa_kind = ''graph_drift'', oa_key = city @ '':graph_drift:'' @ baseline_tag url\<rparr>] else []
          | _ \<Rightarrow> []))"

section \<open>Rider reports\<close>

definition KINDS :: "string list" where "KINDS = [''wrong_info'', ''barrier'', ''other'']"

record report =
  rp_kind :: string
  rp_message :: string
  rp_stop :: "string option"
  rp_route :: "string option"
  rp_version :: "string option"
  rp_locale :: "string option"
  rp_contact :: "string option"

definition opt_text :: "(json \<Rightarrow> string) \<Rightarrow> json \<Rightarrow> string \<Rightarrow> nat \<Rightarrow> string + string option" where
  \<comment> \<open>the left side names the field at fault\<close>
  "opt_text repr body name limit = (case jfield body name of JNull \<Rightarrow> Inr None
     | v \<Rightarrow> let s = strip (py_str repr v) in
         if s = [] then Inr None else if limit < length s then Inl name else Inr (Some s))"

definition clean_report :: "(json \<Rightarrow> string) \<Rightarrow> json \<Rightarrow> string + report" where
  "clean_report repr body =
     (let kind = strip (py_str repr (jor (jfield body ''kind'') (JStr ''other'')));
          message = strip (py_str repr (jor (jfield body ''message'') (JStr [])))
      in if kind \<notin> set KINDS then Inl ''kind''
         else if message = [] \<or> 2000 < length message then Inl ''message''
         else and_then (opt_text repr body ''stopId'' 120) (\<lambda>stop.
              and_then (opt_text repr body ''routeId'' 120) (\<lambda>route.
              and_then (opt_text repr body ''appVersion'' 40) (\<lambda>version.
              and_then (opt_text repr body ''locale'' 16) (\<lambda>loc.
              and_then (opt_text repr body ''contact'' 120) (\<lambda>contact.
              Inr \<lparr>rp_kind = kind, rp_message = message, rp_stop = stop, rp_route = route, rp_version = version,
                   rp_locale = loc, rp_contact = contact\<rparr>))))))"

section \<open>The daily budget\<close>

record day_spend =
  dsp_usd :: rat
  dsp_calls :: nat
  dsp_errors :: nat

record budget =
  bg_days :: "((string \<times> int) \<times> day_spend) list"
  bg_replies :: "((string \<times> string \<times> int) \<times> nat) list"

definition no_spend :: day_spend where "no_spend = \<lparr>dsp_usd = 0, dsp_calls = 0, dsp_errors = 0\<rparr>"

definition spend_today :: "string \<Rightarrow> int \<Rightarrow> budget \<Rightarrow> day_spend \<times> budget" where
  "spend_today city day b = (case map_of (bg_days b) (city, day) of
     Some d \<Rightarrow> (d, b)
   | None \<Rightarrow> (no_spend, b\<lparr>bg_days := AList.update (city, day) no_spend (filter (\<lambda>(k, d). day \<le> snd k) (bg_days b))\<rparr>))"

definition exhausted :: "string \<Rightarrow> int \<Rightarrow> rat \<Rightarrow> budget \<Rightarrow> bool \<times> budget" where
  "exhausted city day limit b = (if limit \<le> 0 then (False, b)
     else let (d, b') = spend_today city day b in (limit \<le> dsp_usd d, b'))"

definition charge :: "string \<Rightarrow> int \<Rightarrow> rat \<Rightarrow> bool \<Rightarrow> budget \<Rightarrow> budget" where
  "charge city day usd ok b = (let (d, b') = spend_today city day b in
     b'\<lparr>bg_days := AList.update (city, day) \<lparr>dsp_usd = dsp_usd d + max usd 0, dsp_calls = dsp_calls d + 1,
          dsp_errors = (if ok then dsp_errors d else dsp_errors d + 1)\<rparr> (bg_days b')\<rparr>)"

definition replies :: "string \<Rightarrow> string \<Rightarrow> int \<Rightarrow> budget \<Rightarrow> nat" where
  "replies city session day b = or_else (map_of (bg_replies b) (city, session, day)) 0"

definition count_reply :: "string \<Rightarrow> string \<Rightarrow> int \<Rightarrow> budget \<Rightarrow> nat \<times> budget" where
  "count_reply city session day b =
     (let rs = (if 20000 < length (bg_replies b) then filter (\<lambda>(k, n). snd (snd k) = day) (bg_replies b) else bg_replies b);
          n = or_else (map_of rs (city, session, day)) 0 + 1
      in (n, b\<lparr>bg_replies := AList.update (city, session, day) n rs\<rparr>))"

section \<open>Freshness\<close>

record freshness =
  fr_realtime :: bool
  fr_age :: "int option"
  fr_since :: "int option"
  fr_stale :: bool

definition freshness :: "feed_urls \<Rightarrow> rt_cache \<Rightarrow> rat \<Rightarrow> freshness" where
  "freshness f c now = (let enabled = (truthy_str (fu_positions f) \<or> truthy_str (fu_tripupdates f) \<or> truthy_str (fu_alerts f));
       age = h_age_p50 (health c now);
       since = (if rc_updated_at c \<noteq> 0 then Some (py_trunc (now - rc_updated_at c)) else None);
       stale = (\<not> enabled \<or> rc_updated_at c = 0 \<or> rc_http c \<notin> {None, Some 200}
         \<or> (case age of None \<Rightarrow> False | Some a \<Rightarrow> 90 < a) \<or> (case since of None \<Rightarrow> False | Some s \<Rightarrow> 90 < s))
     in \<lparr>fr_realtime = (enabled \<and> \<not> stale), fr_age = age, fr_since = since, fr_stale = stale\<rparr>)"

section \<open>Facts\<close>

lemma walk_limit_partition:
  "(\<forall>it \<in> set (fst (apply_walk_limit its m)). or_else (walk_distance it) 0 \<le> m)
   \<and> length (fst (apply_walk_limit its m)) + snd (apply_walk_limit its m) = length its"
  by (simp add: apply_walk_limit_def Let_def)

lemma py_round_to_pct:
  fixes x :: rat assumes "0 \<le> x" "x \<le> 100"
  shows "0 \<le> py_round_to 1 x \<and> py_round_to 1 x \<le> 100"
proof -
  have "0 \<le> py_round (x * 10 ^ 1)" using assms by (intro py_round_nonneg) simp
  moreover have "py_round (x * 10 ^ 1) \<le> py_round (of_int 1000 :: rat)" using assms by (intro py_round_mono) simp
  then have "py_round (x * 10 ^ 1) \<le> 1000" by (simp only: py_round_of_int)
  ultimately have "(0::rat) \<le> of_int (py_round (x * 10 ^ 1))" "of_int (py_round (x * 10 ^ 1)) \<le> (1000::rat)" by linarith+
  then show ?thesis unfolding py_round_to_def by simp
qed

lemma trip_overlap_pct: "ov_pct (trip_overlap b c) = Some p \<Longrightarrow> 0 \<le> p \<and> p \<le> 100"
proof -
  assume a: "ov_pct (trip_overlap b c) = Some p"
  let ?c = "or_else c []"
  have p: "p = py_round_to 1 (of_nat (length (filter (\<lambda>t. t \<in> set b) ?c)) / of_nat (length ?c) * 100)" and "?c \<noteq> []"
    using a by (auto simp: trip_overlap_def Let_def split: if_splits)
  have "of_nat (length (filter (\<lambda>t. t \<in> set b) ?c)) \<le> (of_nat (length ?c) :: rat)" by simp
  then show ?thesis unfolding p using \<open>?c \<noteq> []\<close> by (intro py_round_to_pct) (auto simp: field_simps)
qed

lemma graph_drift_keyed_on_graph:
  \<comment> \<open>one alert per stale graph, whatever feed version is published\<close>
  "filter (\<lambda>a. oa_kind a = ''graph_drift'') (ops_alerts city i d url)
   = filter (\<lambda>a. oa_kind a = ''graph_drift'') (ops_alerts city i' d url)"
  by (simp add: ops_alerts_def Let_def split: option.split drift.split)

lemma opt_text_bound: "opt_text repr body name limit = Inr (Some s) \<Longrightarrow> s \<noteq> [] \<and> length s \<le> limit \<and> strip s = s"
  by (auto simp: opt_text_def Let_def split: json.splits if_splits)

text \<open>A rider's report is either refused naming the field at fault, or stored with one of the three kinds, a
  message of 1 to 2000 characters and optional fields that are present only when the rider gave them, never empty
  and within their limits, all without surrounding blanks.\<close>
lemma clean_report_bounds:
  assumes "clean_report repr body = Inr r"
  shows "rp_kind r \<in> set KINDS \<and> rp_message r \<noteq> [] \<and> length (rp_message r) \<le> 2000
    \<and> (\<forall>(v, field, limit) \<in> {(rp_stop r, ''stopId'', 120), (rp_route r, ''routeId'', 120), (rp_version r, ''appVersion'', 40),
         (rp_locale r, ''locale'', 16), (rp_contact r, ''contact'', 120)}.
         (\<forall>s. v = Some s \<longrightarrow> s \<noteq> [] \<and> length s \<le> limit \<and> strip s = s) \<and> (jget body field = None \<longrightarrow> v = None))"
proof -
  have none: "jget body f = None \<Longrightarrow> opt_text repr body f n = Inr v \<Longrightarrow> v = None" for f n v
    by (simp add: opt_text_def jfield_def)
  have k: "rp_kind r \<in> set KINDS" "rp_message r \<noteq> []" "length (rp_message r) \<le> 2000"
    and f: "opt_text repr body ''stopId'' 120 = Inr (rp_stop r)" "opt_text repr body ''routeId'' 120 = Inr (rp_route r)"
      "opt_text repr body ''appVersion'' 40 = Inr (rp_version r)" "opt_text repr body ''locale'' 16 = Inr (rp_locale r)"
      "opt_text repr body ''contact'' 120 = Inr (rp_contact r)"
    using assms by (auto simp: clean_report_def Let_def split: if_splits)
  show ?thesis using k f by (auto dest: none opt_text_bound)
qed

lemma clean_report_bounds_witness:
  "rp_kind \<lparr>rp_kind = ''other'', rp_message = ''x'', rp_stop = None, rp_route = None, rp_version = None, rp_locale = None, rp_contact = None\<rparr> \<in> set KINDS"
  using clean_report_bounds[of "\<lambda>_. []" "JObj [(''message'', JStr ''x'')]"
      "\<lparr>rp_kind = ''other'', rp_message = ''x'', rp_stop = None, rp_route = None, rp_version = None, rp_locale = None, rp_contact = None\<rparr>"]
  by (simp add: clean_report_def KINDS_def jor_def opt_text_def strip_no_space is_space_def)

end
