(* ===== verification/Curb_Time.thy ===== *)
theory Curb_Time
  imports Tariff
begin

text \<open>
  The time helpers of \<open>app/openmobility.py\<close>: when a CDS time span applies on the city's wall clock, and
  when that changes next.  A wall-clock instant is a number of seconds from the start of day 0; the
  calendar turns a day number into year, month and day.  \<open>to_wall\<close> stands for the conversion of
  epoch milliseconds into the city's zone, \<open>holiday\<close> for the country's calendar.
\<close>

section \<open>Calendar\<close>

definition wall :: "local_time \<Rightarrow> int" where
  "wall t = lt_day t * day_seconds + lt_sec t"

definition at_wall :: "int \<Rightarrow> local_time" where
  "at_wall s = \<lparr>lt_day = s div day_seconds, lt_sec = s mod day_seconds\<rparr>"

definition year_of :: "int \<Rightarrow> int" where
  "year_of d = (let y = 400 * d div 146097 + 1 in
     if ordinal (y + 1) 1 1 \<le> d then y + 1 else if d < ordinal y 1 1 then y - 1 else y)"

definition month_of :: "int \<Rightarrow> nat" where
  "month_of d = (let y = year_of d in or_else (find (\<lambda>m. d < ordinal y m 1 + month_days y m) [1..<13]) 12)"

definition day_of :: "int \<Rightarrow> int" where
  "day_of d = d - ordinal (year_of d) (month_of d) 1 + 1"

section \<open>Spans\<close>

definition DAYS :: "string list" where
  "DAYS = [''sun'', ''mon'', ''tue'', ''wed'', ''thu'', ''fri'', ''sat'']"

record time_span =
  ts_start :: "int option"
  ts_end :: "int option"
  ts_dow :: "string list"
  ts_dom :: "int list"
  ts_wom :: "int list"
  ts_months :: "int list"
  ts_period :: "string option"
  ts_except :: bool
  ts_from :: "string option"
  ts_to :: "string option"

definition always_span :: time_span where
  "always_span = \<lparr>ts_start = None, ts_end = None, ts_dow = [], ts_dom = [], ts_wom = [], ts_months = [],
     ts_period = None, ts_except = False, ts_from = None, ts_to = None\<rparr>"

definition hm_minutes :: "string option \<Rightarrow> int option" where
  "hm_minutes v = (if \<not> truthy_str v then None else
     case map parse_int (take 2 (split_on (CHR '':'') (the v))) of [Some h, Some m] \<Rightarrow> Some (h * 60 + m) | _ \<Rightarrow> None)"

definition fmt_hm :: "int \<Rightarrow> string" where
  "fmt_hm minutes = pad2 (nat (minutes div 60 mod 24)) @ '':'' @ pad2 (nat (minutes mod 60))"

definition designated_period :: "(int \<Rightarrow> bool) \<Rightarrow> string \<Rightarrow> local_time \<Rightarrow> bool option" where
  "designated_period holiday period when =
     (if lower (strip period) \<in> {''holidays'', ''holiday''} then Some (holiday (lt_day when)) else None)"

definition day_matches :: "(int \<Rightarrow> bool) \<Rightarrow> time_span \<Rightarrow> int \<Rightarrow> bool" where
  \<comment> \<open>the checks that only depend on the date\<close>
  "day_matches holiday s day \<longleftrightarrow>
     (ts_dow s = [] \<or> DAYS ! ((weekday day + 1) mod 7) \<in> set (ts_dow s))
     \<and> (ts_dom s = [] \<or> day_of day \<in> set (ts_dom s))
     \<and> (ts_wom s = [] \<or> (day_of day - 1) div 7 + 1 \<in> set (ts_wom s))
     \<and> (ts_months s = [] \<or> int (month_of day) \<in> set (ts_months s))
     \<and> (case ts_period s of None \<Rightarrow> True | Some p \<Rightarrow> p = [] \<or>
          (case designated_period holiday p \<lparr>lt_day = day, lt_sec = 0\<rparr> of None \<Rightarrow> True | Some i \<Rightarrow> i \<noteq> ts_except s))"

definition minute_matches :: "time_span \<Rightarrow> int \<Rightarrow> bool" where
  "minute_matches s now_m = (let f = hm_minutes (ts_from s); t = hm_minutes (ts_to s) in
     if f = None \<and> t = None then True
     else let lo = or_else f 0; hi = or_else t (24 * 60) in
       if lo \<le> hi then lo \<le> now_m \<and> now_m < hi else lo \<le> now_m \<or> now_m < hi)"

definition dates_match :: "(int \<Rightarrow> rat) \<Rightarrow> time_span \<Rightarrow> local_time \<Rightarrow> bool" where
  "dates_match to_wall s when \<longleftrightarrow>
     (case ts_start s of None \<Rightarrow> True | Some a \<Rightarrow> to_wall a \<le> of_int (wall when))
     \<and> (case ts_end s of None \<Rightarrow> True | Some b \<Rightarrow> of_int (wall when) < to_wall b)"

definition time_span_active :: "(int \<Rightarrow> rat) \<Rightarrow> (int \<Rightarrow> bool) \<Rightarrow> time_span \<Rightarrow> local_time \<Rightarrow> bool" where
  "time_span_active to_wall holiday s when \<longleftrightarrow>
     dates_match to_wall s when \<and> day_matches holiday s (lt_day when) \<and> minute_matches s (lt_sec when div 60)"

definition spans_active :: "(int \<Rightarrow> rat) \<Rightarrow> (int \<Rightarrow> bool) \<Rightarrow> time_span list \<Rightarrow> local_time \<Rightarrow> bool" where
  "spans_active to_wall holiday spans when \<longleftrightarrow> spans = [] \<or> list_ex (\<lambda>s. time_span_active to_wall holiday s when) spans"

definition edges :: "time_span list \<Rightarrow> int list" where
  "edges spans = remdups (0 # List.map_filter id (concat (map (\<lambda>s. [hm_minutes (ts_from s), hm_minutes (ts_to s)]) spans)))"

definition boundaries :: "time_span list \<Rightarrow> local_time \<Rightarrow> nat \<Rightarrow> int list" where
  "boundaries spans when days = sort (filter (\<lambda>t. wall when < t)
     (concat (map (\<lambda>d. map (\<lambda>m. (lt_day when + int d) * day_seconds + m * 60) (sort (edges spans))) [0..<days])))"

definition next_change :: "(int \<Rightarrow> rat) \<Rightarrow> (int \<Rightarrow> bool) \<Rightarrow> time_span list \<Rightarrow> local_time \<Rightarrow> int option" where
  "next_change to_wall holiday spans when =
     find (\<lambda>t. spans_active to_wall holiday spans (at_wall t) \<noteq> spans_active to_wall holiday spans when) (boundaries spans when 8)"

section \<open>Between two edges nothing changes\<close>

definition undated :: "time_span \<Rightarrow> bool" where "undated s \<longleftrightarrow> ts_start s = None \<and> ts_end s = None"

definition valid_time :: "local_time \<Rightarrow> bool" where
  "valid_time t \<longleftrightarrow> 0 \<le> lt_sec t \<and> lt_sec t < day_seconds"

lemma at_wall_wall: "valid_time t \<Longrightarrow> at_wall (wall t) = t"
  by (cases t) (simp add: at_wall_def wall_def valid_time_def day_seconds_def)

lemma valid_at_wall: "valid_time (at_wall s)"
  by (simp add: valid_time_def at_wall_def day_seconds_def)

lemma wall_at_wall: "wall (at_wall s) = s"
  by (simp add: wall_def at_wall_def)

definition last_edge :: "time_span list \<Rightarrow> int \<Rightarrow> int" where
  "last_edge spans m = Max {e \<in> set (edges spans). 0 \<le> e \<and> e \<le> m}"

lemma zero_edge: "0 \<in> set (edges spans)"
  by (simp add: edges_def)

lemma span_edge: "s \<in> set spans \<Longrightarrow> hm_minutes (ts_from s) = Some e \<or> hm_minutes (ts_to s) = Some e \<Longrightarrow> e \<in> set (edges spans)"
proof -
  assume s: "s \<in> set spans" and e: "hm_minutes (ts_from s) = Some e \<or> hm_minutes (ts_to s) = Some e"
  then have "Some e \<in> set (concat (map (\<lambda>s. [hm_minutes (ts_from s), hm_minutes (ts_to s)]) spans))" by force
  then show ?thesis by (simp only: edges_def set_remdups list.set set_map_filter_id) simp
qed

lemma last_edge:
  assumes "0 \<le> m"
  shows "last_edge spans m \<in> set (edges spans)" "0 \<le> last_edge spans m" "last_edge spans m \<le> m"
    and "e \<in> set (edges spans) \<Longrightarrow> (e \<le> m \<longleftrightarrow> e \<le> last_edge spans m)"
proof -
  let ?E = "{e \<in> set (edges spans). 0 \<le> e \<and> e \<le> m}"
  have fin: "finite ?E" and ne: "?E \<noteq> {}" using assms zero_edge[of spans] by auto
  then have "last_edge spans m \<in> ?E" unfolding last_edge_def by (rule Max_in)
  then show l: "last_edge spans m \<in> set (edges spans)" "0 \<le> last_edge spans m" "last_edge spans m \<le> m" by auto
  show "e \<le> m \<longleftrightarrow> e \<le> last_edge spans m" if e: "e \<in> set (edges spans)"
  proof
    assume "e \<le> m"
    show "e \<le> last_edge spans m"
    proof (cases "0 \<le> e")
      case True
      then have "e \<in> ?E" using e \<open>e \<le> m\<close> by simp
      then show ?thesis unfolding last_edge_def by (rule Max_ge[OF fin])
    qed (use l(2) in simp)
  qed (use l(3) in simp)
qed

lemma minute_matches_last_edge:
  assumes "s \<in> set spans" "0 \<le> m" "m < 1440"
  shows "minute_matches s m = minute_matches s (last_edge spans m)"
proof -
  note le = last_edge[OF assms(2), where spans = spans]
  have f: "\<And>e. hm_minutes (ts_from s) = Some e \<Longrightarrow> (e \<le> m \<longleftrightarrow> e \<le> last_edge spans m)"
    and t: "\<And>e. hm_minutes (ts_to s) = Some e \<Longrightarrow> (e \<le> m \<longleftrightarrow> e \<le> last_edge spans m)"
    using le(4) span_edge[OF assms(1)] by auto
  show ?thesis
    unfolding minute_matches_def Let_def
    using f t le(2,3) assms(2,3)
    by (cases "hm_minutes (ts_from s)"; cases "hm_minutes (ts_to s)") (auto simp: not_le not_less)
qed

lemma spans_active_segment:
  assumes "\<forall>s \<in> set spans. undated s" "lt_day t = lt_day u" "valid_time t" "valid_time u"
    and "last_edge spans (lt_sec t div 60) = last_edge spans (lt_sec u div 60)"
  shows "spans_active w h spans t = spans_active w h spans u"
proof -
  have r: "0 \<le> lt_sec x div 60 \<and> lt_sec x div 60 < 1440" if "valid_time x" for x
    using that by (auto simp: valid_time_def day_seconds_def)
  have "time_span_active w h s t = time_span_active w h s u" if s: "s \<in> set spans" for s
  proof -
    have "minute_matches s (lt_sec t div 60) = minute_matches s (lt_sec u div 60)"
      using minute_matches_last_edge[OF s] r[OF assms(3)] r[OF assms(4)] assms(5) by metis
    then show ?thesis using assms(1,2) s by (simp add: time_span_active_def dates_match_def undated_def)
  qed
  then show ?thesis by (simp add: spans_active_def list_ex_iff)
qed

lemma boundaries_mem:
  "t \<in> set (boundaries spans when n) \<longleftrightarrow>
     wall when < t \<and> (\<exists>d<n. \<exists>m \<in> set (edges spans). t = (lt_day when + int d) * day_seconds + m * 60)"
  by (auto simp: boundaries_def)

lemma active_at_last_boundary:
  \<comment> \<open>the state at \<open>u\<close> is the state at \<open>when\<close> or at a boundary between them\<close>
  assumes und: "\<forall>s \<in> set spans. undated s" and v: "valid_time when"
    and u: "wall when \<le> u" "u < (lt_day when + 8) * day_seconds"
    and diff: "spans_active w h spans (at_wall u) \<noteq> spans_active w h spans when"
  shows "\<exists>e \<in> set (boundaries spans when 8). e \<le> u \<and> spans_active w h spans (at_wall e) = spans_active w h spans (at_wall u)"
proof -
  let ?D = "u div day_seconds" and ?mu = "u mod day_seconds div 60"
  let ?m = "last_edge spans ?mu"
  let ?e = "?D * day_seconds + ?m * 60"
  have mu: "0 \<le> ?mu" "?mu < 1440" by (simp_all add: day_seconds_def)
  note le = last_edge[OF mu(1), where spans = spans]
  have dw: "lt_day when = wall when div day_seconds" "lt_sec when = wall when mod day_seconds"
    using v by (auto simp: wall_def valid_time_def day_seconds_def)
  have D: "lt_day when \<le> ?D" "?D < lt_day when + 8"
    using u unfolding dw by (auto intro!: zdiv_mono1 simp: day_seconds_def)
  have eu: "?e \<le> u"
  proof -
    have "?m * 60 \<le> u mod day_seconds" using le(3) by linarith
    moreover have "?D * day_seconds + u mod day_seconds = u" by (rule div_mult_mod_eq)
    ultimately show ?thesis by linarith
  qed
  have "?m < 1440" using le(3) mu(2) by linarith
  then have e_at: "at_wall ?e = \<lparr>lt_day = ?D, lt_sec = ?m * 60\<rparr>"
    using le(2) unfolding at_wall_def day_seconds_def by simp
  have same: "spans_active w h spans (at_wall ?e) = spans_active w h spans (at_wall u)"
  proof (rule spans_active_segment[OF und])
    show "lt_day (at_wall ?e) = lt_day (at_wall u)" by (simp add: e_at) (simp add: at_wall_def)
    have "last_edge spans ?m = ?m"
      using last_edge[OF le(2), where spans = spans] le(1,4) by (metis antisym order_refl)
    then show "last_edge spans (lt_sec (at_wall ?e) div 60) = last_edge spans (lt_sec (at_wall u) div 60)"
      by (simp add: e_at) (simp add: at_wall_def)
  qed (rule valid_at_wall)+
  have "wall when < ?e"
  proof (rule ccontr)
    assume "\<not> wall when < ?e"
    then have lo: "?e \<le> wall when" by simp
    have "?D \<le> lt_day when"
    proof -
      have "?D * day_seconds \<le> wall when" using lo le(2) by linarith
      then have "(?D * day_seconds) div day_seconds \<le> wall when div day_seconds"
        by (rule zdiv_mono1) (simp add: day_seconds_def)
      then show ?thesis by (simp add: dw day_seconds_def)
    qed
    then have day: "lt_day when = ?D" using D(1) by simp
    have m1: "?m \<le> lt_sec when div 60"
    proof -
      have "?m * 60 \<le> lt_sec when" using lo day by (simp add: wall_def)
      then show ?thesis by linarith
    qed
    have m2: "lt_sec when div 60 \<le> ?mu"
    proof -
      have "lt_sec when \<le> u mod day_seconds"
        using u(1) day by (simp add: wall_def minus_div_mult_eq_mod[symmetric])
      then show ?thesis by (rule zdiv_mono1) simp
    qed
    have nn: "0 \<le> lt_sec when div 60" using v by (simp add: valid_time_def pos_imp_zdiv_nonneg_iff)
    have "last_edge spans (lt_sec when div 60) = ?m"
    proof (rule antisym)
      note lw = last_edge[OF nn, where spans = spans]
      show "last_edge spans (lt_sec when div 60) \<le> ?m" using lw(1,3) m2 le(4) by (meson order_trans)
      show "?m \<le> last_edge spans (lt_sec when div 60)" using lw(4)[OF le(1)] m1 by simp
    qed
    then have "spans_active w h spans when = spans_active w h spans (at_wall u)"
      by (intro spans_active_segment[OF und _ v valid_at_wall]) (simp_all add: day at_wall_def)
    with diff show False by simp
  qed
  moreover obtain d where d: "?D - lt_day when = int d"
    using D zero_le_imp_eq_int[of "?D - lt_day when"] by auto
  then have "d < 8" "?D = lt_day when + int d" using D(2) by linarith+
  then have "\<exists>d<8. \<exists>m \<in> set (edges spans). ?e = (lt_day when + int d) * day_seconds + m * 60"
    using le(1) by (metis (no_types))
  ultimately have "?e \<in> set (boundaries spans when 8)" unfolding boundaries_mem by (rule conjI)
  with eu same show ?thesis by blast
qed

text \<open>C39: For policies whose spans carry no start or end date, \<open>next_change\<close> is exact: the instant it names is in
  the future, the policy's state there differs from the state now, and it is the same at every moment
  before; and when it names none, the state is the same until midnight eight days on.\<close>
lemma next_change_exact:
  assumes und: "\<forall>s \<in> set spans. undated s" and v: "valid_time when"
  shows "case next_change w h spans when of
     Some t \<Rightarrow> wall when < t \<and> spans_active w h spans (at_wall t) \<noteq> spans_active w h spans when
       \<and> (\<forall>u. wall when \<le> u \<and> u < t \<and> u < (lt_day when + 8) * day_seconds \<longrightarrow> spans_active w h spans (at_wall u) = spans_active w h spans when)
   | None \<Rightarrow> \<forall>u. wall when \<le> u \<and> u < (lt_day when + 8) * day_seconds \<longrightarrow>
       spans_active w h spans (at_wall u) = spans_active w h spans when"
proof (cases "next_change w h spans when")
  case None
  then have n: "\<forall>e \<in> set (boundaries spans when 8). spans_active w h spans (at_wall e) = spans_active w h spans when"
    by (simp add: next_change_def find_None_iff)
  have "spans_active w h spans (at_wall u) = spans_active w h spans when"
    if "wall when \<le> u" "u < (lt_day when + 8) * day_seconds" for u
  proof (rule ccontr)
    assume "spans_active w h spans (at_wall u) \<noteq> spans_active w h spans when"
    from active_at_last_boundary[OF und v that this] n this show False by auto
  qed
  then show ?thesis by (simp add: None)
next
  case (Some t)
  then obtain i where i: "i < length (boundaries spans when 8)" "boundaries spans when 8 ! i = t"
    "spans_active w h spans (at_wall t) \<noteq> spans_active w h spans when"
    and before: "\<And>j. j < i \<Longrightarrow> spans_active w h spans (at_wall (boundaries spans when 8 ! j)) = spans_active w h spans when"
    by (auto simp: next_change_def find_Some_iff)
  have srt: "sorted (boundaries spans when 8)" by (simp add: boundaries_def)
  have "wall when < t" using boundaries_mem i(1,2) nth_mem by metis
  moreover have "spans_active w h spans (at_wall u) = spans_active w h spans when"
    if "wall when \<le> u" "u < t" "u < (lt_day when + 8) * day_seconds" for u
  proof (rule ccontr)
    assume d: "spans_active w h spans (at_wall u) \<noteq> spans_active w h spans when"
    from active_at_last_boundary[OF und v that(1,3) d] obtain e where
      e: "e \<in> set (boundaries spans when 8)" "e \<le> u" "spans_active w h spans (at_wall e) \<noteq> spans_active w h spans when"
      using d by auto
    then obtain j where j: "j < length (boundaries spans when 8)" "boundaries spans when 8 ! j = e"
      by (auto simp: in_set_conv_nth)
    have "i \<le> j" using before[of j] j e(3) by (meson not_le)
    then have "t \<le> e" using srt j i by (auto simp: sorted_iff_nth_mono)
    with e(2) that(2) show False by simp
  qed
  ultimately show ?thesis using i(3) by (simp add: Some)
qed

definition weekday_mornings :: time_span where
  "weekday_mornings = always_span\<lparr>ts_dow := [''mon'', ''tue'', ''wed'', ''thu'', ''fri''], ts_from := Some ''06:00'', ts_to := Some ''10:00''\<rparr>"

lemma next_change_exact_witness:
  "undated weekday_mornings \<and> valid_time \<lparr>lt_day = 1, lt_sec = 25200\<rparr>
   \<and> (case next_change (\<lambda>x. of_int x) (\<lambda>_. False) [weekday_mornings] \<lparr>lt_day = 1, lt_sec = 25200\<rparr> of
        Some t \<Rightarrow> 111600 < t | None \<Rightarrow> True)"
proof -
  have u: "\<forall>s \<in> set [weekday_mornings]. undated s" by (simp add: undated_def weekday_mornings_def always_span_def)
  have v: "valid_time \<lparr>lt_day = 1, lt_sec = 25200\<rparr>" by (simp add: valid_time_def day_seconds_def)
  show ?thesis using next_change_exact[OF u v, of "\<lambda>x. of_int x" "\<lambda>_. False"] u v
    by (auto simp: wall_def day_seconds_def split: option.splits)
qed

section \<open>A dated span ends unnoticed\<close>

definition until_noon :: time_span where
  \<comment> \<open>a span that ends at 12:00 of day 1; the city is on UTC and milliseconds count from day 0\<close>
  "until_noon = always_span\<lparr>ts_end := Some ((86400 + 43200) * 1000)\<rparr>"

definition utc_wall :: "int \<Rightarrow> rat" where "utc_wall v = of_int v / 1000"

text \<open>The bound on dates is needed: for a policy that ends today at noon, asked about at 11:00, \<open>next_change\<close>
  answers midnight, although the policy has not applied since noon.  The candidates are only the
  time-of-day edges and midnights, not the dates of the spans.\<close>
lemma next_change_misses_an_end_date:
  "next_change utc_wall (\<lambda>_. False) [until_noon] (at_wall (86400 + 39600)) = Some (2 * 86400)
   \<and> spans_active utc_wall (\<lambda>_. False) [until_noon] (at_wall (86400 + 39600))
   \<and> \<not> spans_active utc_wall (\<lambda>_. False) [until_noon] (at_wall (86400 + 43200))"
proof -
  have e: "edges [until_noon] = [0]"
    by (simp add: edges_def until_noon_def always_span_def hm_minutes_def List.map_filter_simps)
  have act: "spans_active utc_wall (\<lambda>_. False) [until_noon] (at_wall s) \<longleftrightarrow> s < 86400 + 43200" for s
    by (simp add: spans_active_def time_span_active_def dates_match_def day_matches_def minute_matches_def
        until_noon_def always_span_def utc_wall_def wall_at_wall hm_minutes_def)
  have b: "boundaries [until_noon] (at_wall (86400 + 39600)) 8
      = map (\<lambda>d. d * 86400) [2, 3, 4, 5, 6, 7, 8]"
    by (simp add: boundaries_def e wall_def day_seconds_def at_wall_def upt_rec)
  show ?thesis by (simp only: next_change_def b act) simp
qed

end
