(* ===== verification/Curb_Rules.thy ===== *)
theory Curb_Rules
  imports Curb_Time Geo Json_Value
begin

text \<open>
  The curb evaluation of \<open>app/openmobility.py\<close>: GeoJSON geometry helpers, prices and labels, which rules
  speak about a user class, which policy of a zone wins and what that means for a pick-up.  A curb policy is
  a record of the CDS fields the code reads; texts are byte strings in UTF-8.
\<close>

section \<open>Geometry\<close>

definition number_of :: "json \<Rightarrow> rat option" where
  \<comment> \<open>\<open>isinstance(x, int | float)\<close>, a boolean being an integer in Python\<close>
  "number_of j = (case j of JInt n \<Rightarrow> Some (of_int n) | JFloat x \<Rightarrow> Some x | JBool b \<Rightarrow> Some (if b then 1 else 0) | _ \<Rightarrow> None)"

fun coords :: "json \<Rightarrow> (rat \<times> rat) list" where
  "coords (JArr xs) = (case map number_of (take 2 xs) of
     [Some a, Some b] \<Rightarrow> [(a, b)] | _ \<Rightarrow> concat (map coords xs))"
| "coords _ = []"

definition kind_of :: "json \<Rightarrow> string option" where
  "kind_of g = (case jfield g ''type'' of JStr t \<Rightarrow> Some t | _ \<Rightarrow> None)"

fun json_size :: "json \<Rightarrow> nat" where
  "json_size (JArr xs) = Suc (sum_list (map json_size xs))"
| "json_size (JObj kvs) = Suc (sum_list (map (\<lambda>(k, v). Suc (json_size v)) kvs))"
| "json_size _ = 1"

lemma json_size_jfield: "x \<in> set (items (jfield g k)) \<Longrightarrow> json_size x < json_size g"
proof -
  assume x: "x \<in> set (items (jfield g k))"
  then obtain kvs xs where g: "g = JObj kvs" "map_of kvs k = Some (JArr xs)" "x \<in> set xs"
    by (auto simp: items_def jfield_def jget_def split: json.splits option.splits)
  have "json_size x \<in> set (map json_size xs)" using g(3) by simp
  then have "json_size x \<le> sum_list (map json_size xs)" by (rule member_le_sum_list) simp
  then have "json_size x < json_size (JArr xs)" by simp
  moreover have "Suc (json_size (JArr xs)) \<le> sum_list (map (\<lambda>(k, v). Suc (json_size v)) kvs)"
    using map_of_SomeD[OF g(2)] by (intro member_le_sum_list) (force simp: image_iff)+
  ultimately show ?thesis by (simp add: g(1))
qed

function geometry_coords :: "json \<Rightarrow> (rat \<times> rat) list" where
  "geometry_coords g = (if \<not> is_obj g then []
     else if kind_of g = Some ''GeometryCollection'' then concat (map geometry_coords (items (jfield g ''geometries'')))
     else coords (jfield g ''coordinates''))"
  by pat_completeness auto
termination by (relation "measure json_size") (auto dest: json_size_jfield)

declare geometry_coords.simps [simp del]

definition geometry_bbox :: "json \<Rightarrow> (rat \<times> rat \<times> rat \<times> rat) option" where
  "geometry_bbox g = (let pts = geometry_coords g in if pts = [] then None else
     Some (Min (fst ` set pts), Min (snd ` set pts), Max (fst ` set pts), Max (snd ` set pts)))"

function outer_rings :: "json \<Rightarrow> json list" where
  "outer_rings g = (if \<not> is_obj g then [] else let c = jfield g ''coordinates'' in
     if kind_of g = Some ''Polygon'' \<and> truthy c then take 1 (items c)
     else if kind_of g = Some ''MultiPolygon'' \<and> truthy c then List.map_filter (\<lambda>poly. case items poly of [] \<Rightarrow> None | r # _ \<Rightarrow> Some r) (items c)
     else if kind_of g = Some ''GeometryCollection'' then concat (map outer_rings (items (jfield g ''geometries'')))
     else [])"
  by pat_completeness auto
termination by (relation "measure json_size") (auto dest: json_size_jfield)

declare outer_rings.simps [simp del]

definition contains_point :: "json \<Rightarrow> rat \<Rightarrow> rat \<Rightarrow> bool" where
  "contains_point g lon lat = list_ex (\<lambda>ring. point_in_polygon lon lat (coords ring)) (outer_rings g)"

fun nearest :: "real option \<Rightarrow> real list \<Rightarrow> real option" where
  "nearest best [] = best"
| "nearest best (d # ds) = nearest (case best of None \<Rightarrow> Some d | Some b \<Rightarrow> Some (min b d)) ds"

definition distance_to_geometry_m :: "json \<Rightarrow> rat \<Rightarrow> rat \<Rightarrow> real option" where
  "distance_to_geometry_m g lon lat = (if contains_point g lon lat then Some 0
     else nearest None (map (\<lambda>(glon, glat). haversine_m (of_rat lat) (of_rat lon) (of_rat glat) (of_rat glon)) (geometry_coords g)))"

definition bbox_overlaps :: "(rat \<times> rat \<times> rat \<times> rat) option \<Rightarrow> (rat \<times> rat \<times> rat \<times> rat) option \<Rightarrow> bool" where
  "bbox_overlaps box other = (case (box, other) of
     (Some (a0, a1, a2, a3), Some (b0, b1, b2, b3)) \<Rightarrow> \<not> (b2 < a0 \<or> a2 < b0 \<or> b3 < a1 \<or> a3 < b1)
   | _ \<Rightarrow> True)"

definition geometry_center :: "json \<Rightarrow> (rat \<times> rat) option" where
  \<comment> \<open>latitude and longitude\<close>
  "geometry_center g = (let pts = geometry_coords g in if pts = [] then None else
     Some (py_round_to 6 (sum_list (map snd pts) / of_nat (length pts)), py_round_to 6 (sum_list (map fst pts) / of_nat (length pts))))"

section \<open>Rules\<close>

definition PICKUP :: "string list" where "PICKUP = [''stopping'', ''loading'', ''unloading'', ''parking'']"

definition USER_CLASS_SYNONYMS :: "(string \<times> string list) list" where
  "USER_CLASS_SYNONYMS =
    [(''car'', [''car'', ''automobile'', ''combustion'', ''electric'', ''autonomous'']),
     (''rideshare'', [''rideshare'', ''car'', ''automobile'', ''combustion'', ''electric'', ''autonomous'']),
     (''taxi'', [''taxi'', ''car'', ''automobile'', ''combustion'', ''electric'']),
     (''delivery'', [''delivery'', ''van'', ''truck'', ''cargo_bicycle'']),
     (''disabled'', [''disabled'', ''accessible'']),
     (''bicycle'', [''bicycle'', ''cargo_bicycle'', ''electric_assist'', ''human'']),
     (''scooter'', [''scooter'', ''moped'', ''electric''])]"

record curb_rate =
  ra_rate :: "rat option"
  ra_unit :: "string option"
  ra_max_fee :: "rat option"
  ra_from :: "rat option"  \<comment> \<open>interval start, minutes\<close>
  ra_to :: "rat option"

record curb_rule =
  cr_activity :: "string option"
  cr_max_stay :: "int option"
  cr_stay_unit :: "string option"
  cr_classes :: "string list"
  cr_except :: "string list"
  cr_rates :: "curb_rate list"

record curb_policy =
  cp_id :: string
  cp_name :: "string option"
  cp_priority :: int
  cp_rules :: "curb_rule list"
  cp_spans :: "time_span list"

record curb_zone =
  cz_id :: string
  cz_name :: "string option"
  cz_street :: "string option"
  cz_geometry :: json
  cz_policies :: "string list"
  cz_spaces :: "int option"
  cz_total :: "int option"
  cz_available_at :: "int option"

definition rule_matches_user_class :: "curb_rule \<Rightarrow> string option \<Rightarrow> bool" where
  "rule_matches_user_class r user_class = (if \<not> truthy_str user_class then True
     else let wanted = or_else (map_of USER_CLASS_SYNONYMS (the user_class)) [the user_class] in
       (cr_classes r = [] \<or> list_ex (\<lambda>c. c \<in> set wanted) (cr_classes r))
       \<and> \<not> (cr_except r \<noteq> [] \<and> list_ex (\<lambda>c. c \<in> set wanted) (cr_except r)))"

section \<open>Prices\<close>

definition thousands :: "string \<Rightarrow> string \<Rightarrow> string" where
  \<comment> \<open>groups of three digits from the right\<close>
  "thousands sep s = concat (map (\<lambda>i. (if i \<noteq> 0 \<and> (length s - i) mod 3 = 0 then sep else []) @ [s ! i]) [0..<length s])"

definition grouped :: "string \<Rightarrow> int \<Rightarrow> string" where
  "grouped sep n = (if n < 0 then ''-'' else []) @ thousands sep (show_nat (nat \<bar>n\<bar>))"

definition is_en :: "string \<Rightarrow> bool" where
  \<comment> \<open>\<open>(locale or "es").startswith("en")\<close>\<close>
  "is_en locale = startswith locale ''en''"

definition format_amount :: "rat \<Rightarrow> string \<Rightarrow> int \<Rightarrow> string \<Rightarrow> string" where
  "format_amount minor currency minor_units locale =
     (let v = (if minor_units \<noteq> 0 then minor / of_int minor_units else minor);
          cents = py_round (v * 100);
          body = (if minor_units = 1 \<or> v = of_int \<lfloor>v\<rfloor> then grouped ''.'' (py_round v)
                  else (if cents < 0 then ''-'' else []) @ thousands ''.'' (show_nat (nat (\<bar>cents\<bar> div 100))) @ '','' @ pad2 (nat (\<bar>cents\<bar> mod 100)));
          symbol = (if currency \<in> {''COP'', ''USD'', ''MXN'', ''CLP'', ''ARS''} then ''$'' else [])
      in if symbol = [] then body @ '' '' @ currency
         else if is_en locale then symbol @ body else symbol @ '' '' @ body)"

definition RATE_UNIT_ES :: "(string \<times> string) list" where
  "RATE_UNIT_ES = [(''second'', ''segundo''), (''minute'', ''minuto''), (''hour'', ''hora''),
     (''day'', ''d'' @ [CHR 0xC3, CHR 0xAD] @ ''a''), (''week'', ''semana''), (''month'', ''mes''),
     (''quarter'', ''trimestre''), (''year'', ''a'' @ [CHR 0xC3, CHR 0xB1] @ ''o'')]"

definition unit_name :: "string \<Rightarrow> string \<Rightarrow> string" where
  "unit_name locale u = (if is_en locale then u else or_else (map_of RATE_UNIT_ES u) u)"

definition max_word :: "string \<Rightarrow> string" where
  "max_word locale = (if is_en locale then ''max'' else ''m'' @ [CHR 0xC3, CHR 0xA1] @ ''x'')"

definition rate_text :: "string \<Rightarrow> int \<Rightarrow> string \<Rightarrow> curb_rate \<Rightarrow> string option" where
  "rate_text currency minor locale ra = (case ra_rate ra of None \<Rightarrow> None | Some amount \<Rightarrow>
     if amount = 0 then Some (if is_en locale then ''Free'' else ''Gratis'')
     else let chunk = format_amount amount currency minor locale @ '' / '' @ unit_name locale (or_else (ra_unit ra) ''hour'');
              chunk = (case ra_max_fee ra of Some fee \<Rightarrow> if fee \<noteq> 0
                 then chunk @ '' ('' @ max_word locale @ '' '' @ format_amount fee currency minor locale @ '')'' else chunk | None \<Rightarrow> chunk)
       in Some (case ra_from ra of Some st \<Rightarrow> if 0 < st
            then (if is_en locale then ''from '' else ''desde '')
               @ (if \<lfloor>st / 60\<rfloor> * 60 = st then show_int \<lfloor>st / 60\<rfloor> @ '' h'' else show_int \<lfloor>st\<rfloor> @ '' min'') @ '' '' @ chunk
            else chunk | None \<Rightarrow> chunk))"

definition stay_text :: "string \<Rightarrow> curb_rule list \<Rightarrow> string list" where
  "stay_text locale rules = (case find (\<lambda>r. or_else (cr_max_stay r) 0 \<noteq> 0) rules of None \<Rightarrow> []
     | Some r \<Rightarrow> [max_word locale @ '' '' @ show_int (or_else (cr_max_stay r) 0) @ '' '' @
          unit_name locale (if truthy_str (cr_stay_unit r) then the (cr_stay_unit r) else ''minute'')])"

definition price_label :: "string \<Rightarrow> int \<Rightarrow> string \<Rightarrow> curb_rule list \<Rightarrow> string option" where
  "price_label currency minor locale rules =
     (let parts = concat (map (\<lambda>r. List.map_filter (rate_text currency minor locale) (cr_rates r)) rules) @ stay_text locale rules
      in if parts = [] then None else Some (join_with ('' '' @ [CHR 0xC2, CHR 0xB7] @ '' '') parts))"

definition ACTIVITY_LABEL :: "bool \<Rightarrow> (string \<times> string) list" where
  "ACTIVITY_LABEL en = (if en then
     [(''parking'', ''Parking''), (''loading'', ''Loading zone''), (''unloading'', ''Unloading zone''), (''stopping'', ''Standing''),
      (''travel'', ''Travel''), (''no parking'', ''No parking''), (''no loading'', ''No loading''),
      (''no unloading'', ''No unloading''), (''no stopping'', ''No stopping''), (''no travel'', ''No travel'')]
   else
     [(''parking'', ''Estacionamiento''), (''loading'', ''Zona de cargue''), (''unloading'', ''Zona de descargue''), (''stopping'', ''Parada breve''),
      (''travel'', ''Circulaci'' @ [CHR 0xC3, CHR 0xB3] @ ''n''), (''no parking'', ''Prohibido estacionar''), (''no loading'', ''Prohibido cargar''),
      (''no unloading'', ''Prohibido descargar''), (''no stopping'', ''Prohibido detenerse''), (''no travel'', ''Prohibido circular'')])"

definition label :: "string \<Rightarrow> string \<Rightarrow> string" where
  "label activity locale = or_else (map_of (ACTIVITY_LABEL (is_en locale)) activity) activity"

definition DAY_NAME :: "bool \<Rightarrow> (string \<times> string) list" where
  "DAY_NAME en = (if en then [(''mon'', ''Mon''), (''tue'', ''Tue''), (''wed'', ''Wed''), (''thu'', ''Thu''), (''fri'', ''Fri''), (''sat'', ''Sat''), (''sun'', ''Sun'')]
     else [(''mon'', ''Lun''), (''tue'', ''Mar''), (''wed'', ''Mi'' @ [CHR 0xC3, CHR 0xA9]), (''thu'', ''Jue''), (''fri'', ''Vie''),
           (''sat'', ''S'' @ [CHR 0xC3, CHR 0xA1] @ ''b''), (''sun'', ''Dom'')])"

definition span_text :: "string \<Rightarrow> time_span \<Rightarrow> string" where
  "span_text locale s = (let chunk =
       (if ts_dow s \<noteq> [] then [join_with '' '' (map (\<lambda>d. or_else (map_of (DAY_NAME (is_en locale)) d) d) (ts_dow s))] else [])
     @ (if truthy_str (ts_from s) \<or> truthy_str (ts_to s)
        then [the (str_or (ts_from s) (Some ''00:00'')) @ [CHR 0xE2, CHR 0x80, CHR 0x93] @ the (str_or (ts_to s) (Some ''24:00''))] else [])
     @ (if truthy_str (ts_period s) then [the (ts_period s)] else [])
   in if chunk = [] then ''24/7'' else join_with '' '' chunk)"

definition describe_spans :: "time_span list \<Rightarrow> string \<Rightarrow> string" where
  "describe_spans spans locale = (if spans = [] then ''24/7'' else join_with ('' '' @ [CHR 0xC2, CHR 0xB7] @ '' '') (map (span_text locale) spans))"

section \<open>The zone right now\<close>

record curb_city =
  cc_locale :: string
  cc_currency :: string
  cc_minor :: int
  cc_wall :: "int \<Rightarrow> rat"
  cc_holiday :: "int \<Rightarrow> bool"

record zone_view =
  zv_allowed :: "bool option"
  zv_why :: "string option"
  zv_change :: "int option"
  zv_active :: "string list"

definition matching_rules :: "curb_policy \<Rightarrow> string option \<Rightarrow> curb_rule list" where
  "matching_rules p user_class = filter (\<lambda>r. rule_matches_user_class r user_class) (cp_rules p)"

definition policy_applies :: "curb_city \<Rightarrow> local_time \<Rightarrow> string option \<Rightarrow> curb_policy \<Rightarrow> bool" where
  "policy_applies c when user_class p \<longleftrightarrow> spans_active (cc_wall c) (cc_holiday c) (cp_spans p) when
     \<and> \<not> (truthy_str user_class \<and> matching_rules p user_class = [])"

definition active_policies :: "curb_city \<Rightarrow> (string \<times> curb_policy) list \<Rightarrow> local_time \<Rightarrow> string option \<Rightarrow> curb_zone \<Rightarrow> curb_policy list" where
  "active_policies c policies when user_class z = sort_key (\<lambda>p. (cp_priority p, cp_id p))
     (filter (policy_applies c when user_class) (List.map_filter (map_of policies) (cz_policies z)))"

definition verdict :: "curb_rule list \<Rightarrow> bool" where
  \<comment> \<open>a permitted pick-up activity and no prohibition\<close>
  "verdict rules \<longleftrightarrow> list_ex (\<lambda>r. \<exists>a \<in> set PICKUP. cr_activity r = Some a) rules
     \<and> \<not> list_ex (\<lambda>r. case cr_activity r of None \<Rightarrow> False | Some a \<Rightarrow> startswith a ''no '') rules"

definition why_legal :: "curb_city \<Rightarrow> string \<Rightarrow> curb_policy \<Rightarrow> curb_rule list \<Rightarrow> string" where
  "why_legal c locale p rules = (let acts = List.map_filter cr_activity rules;
       head = (case find (\<lambda>a. a \<in> set PICKUP) acts of Some a \<Rightarrow> a | None \<Rightarrow>
                (case find (\<lambda>a. startswith a ''no '') acts of Some a \<Rightarrow> a | None \<Rightarrow> ''parking''));
       why = label head locale @ '' '' @ [CHR 0xC2, CHR 0xB7] @ '' '' @ describe_spans (cp_spans p) locale
     in case price_label (cc_currency c) (cc_minor c) locale rules of None \<Rightarrow> why
        | Some price \<Rightarrow> if verdict rules then why @ '' '' @ [CHR 0xC2, CHR 0xB7] @ '' '' @ price else why)"

definition earliest :: "int option list \<Rightarrow> int option" where
  "earliest ts = min_by id (List.map_filter id ts)"

definition evaluate_zone :: "curb_city \<Rightarrow> (string \<times> curb_policy) list \<Rightarrow> local_time \<Rightarrow> string option \<Rightarrow> curb_zone \<Rightarrow> zone_view" where
  "evaluate_zone c policies when user_class z =
     (let active = active_policies c policies when user_class z;
          change = (\<lambda>spans. next_change (cc_wall c) (cc_holiday c) spans when)
      in \<lparr>zv_allowed = (case active of [] \<Rightarrow> None | p # _ \<Rightarrow> Some (verdict (matching_rules p user_class))),
          zv_why = (case active of [] \<Rightarrow> None | p # _ \<Rightarrow> Some (why_legal c (cc_locale c) p (matching_rules p user_class))),
          zv_change = earliest (if active \<noteq> [] then map (\<lambda>p. change (cp_spans p)) active
             else map (\<lambda>i. change (case map_of policies i of None \<Rightarrow> [] | Some p \<Rightarrow> cp_spans p)) (cz_policies z)),
          zv_active = map cp_id active\<rparr>)"

definition winning_price_label :: "curb_city \<Rightarrow> (string \<times> curb_policy) list \<Rightarrow> local_time \<Rightarrow> string option \<Rightarrow> curb_zone \<Rightarrow> string option" where
  \<comment> \<open>equal priority and id would make the code compare dictionaries; ids are keys, so this cannot happen\<close>
  "winning_price_label c policies when user_class z =
     (case sort_key (\<lambda>p. (cp_priority p, cp_id p)) (filter (\<lambda>p. spans_active (cc_wall c) (cc_holiday c) (cp_spans p) when
             \<and> matching_rules p user_class \<noteq> []) (List.map_filter (map_of policies) (cz_policies z))) of
       [] \<Rightarrow> None | p # _ \<Rightarrow> price_label (cc_currency c) (cc_minor c) (cc_locale c) (matching_rules p user_class))"

record curb_view =
  cv_id :: string
  cv_name :: "string option"
  cv_center :: "(rat \<times> rat) option"
  cv_spaces :: "int option"
  cv_price :: "string option"
  cv_policies :: "(string \<times> string option \<times> string) list"
  cv_zone :: zone_view
  cv_distance :: "int option"

definition curb_public :: "curb_city \<Rightarrow> (string \<times> curb_policy) list \<Rightarrow> local_time \<Rightarrow> string option \<Rightarrow> (rat \<times> rat) option \<Rightarrow> curb_zone \<Rightarrow> curb_view" where
  \<comment> \<open>the position, if given, is latitude and longitude; fields that only echo the zone are left out\<close>
  "curb_public c policies when user_class pos z =
     \<lparr>cv_id = cz_id z, cv_name = cz_name z, cv_center = geometry_center (cz_geometry z), cv_spaces = cz_spaces z,
      cv_price = winning_price_label c policies when user_class z,
      cv_policies = map (\<lambda>p. (cp_id p, price_label (cc_currency c) (cc_minor c) (cc_locale c) (cp_rules p), describe_spans (cp_spans p) (cc_locale c)))
         (List.map_filter (map_of policies) (cz_policies z)),
      cv_zone = evaluate_zone c policies when user_class z,
      cv_distance = (case pos of None \<Rightarrow> None | Some (lat, lon) \<Rightarrow>
         map_option (\<lambda>d. py_round d) (distance_to_geometry_m (cz_geometry z) lon lat))\<rparr>"

section \<open>What an answer means\<close>

lemma active_policies_mem:
  "p \<in> set (active_policies c policies when u z) \<longleftrightarrow> (\<exists>i \<in> set (cz_policies z). map_of policies i = Some p) \<and> policy_applies c when u p"
  by (simp add: active_policies_def in_map_filter)

text \<open>With policies stored under their own ids, a zone is reported as allowed exactly when some policy of it
  applies now to this user class, and the one with the lowest (priority, id) among those permits a pick-up
  activity to the class and forbids none; it is reported as unknown exactly when no policy applies.  So
  neither a policy of lower rank nor a rule written for other vehicles decides.\<close>
lemma zone_verdict:
  assumes keyed: "\<And>i p. map_of policies i = Some p \<Longrightarrow> cp_id p = i"
  shows "(zv_allowed (evaluate_zone c policies when u z) = Some b \<longleftrightarrow>
      (\<exists>p. (\<exists>i \<in> set (cz_policies z). map_of policies i = Some p) \<and> policy_applies c when u p
         \<and> (\<forall>i \<in> set (cz_policies z). \<forall>q. map_of policies i = Some q \<and> policy_applies c when u q
              \<longrightarrow> (cp_priority p, cp_id p) \<le> (cp_priority q, cp_id q))
         \<and> b = verdict (filter (\<lambda>r. rule_matches_user_class r u) (cp_rules p))))
   \<and> (zv_allowed (evaluate_zone c policies when u z) = None \<longleftrightarrow>
      \<not> (\<exists>i \<in> set (cz_policies z). \<exists>p. map_of policies i = Some p \<and> policy_applies c when u p))"
proof -
  let ?A = "active_policies c policies when u z"
  have mem: "\<And>p. p \<in> set ?A \<longleftrightarrow> (\<exists>i \<in> set (cz_policies z). map_of policies i = Some p) \<and> policy_applies c when u p"
    by (rule active_policies_mem)
  show ?thesis
  proof (cases ?A)
    case Nil
    then have "\<not> (\<exists>i \<in> set (cz_policies z). \<exists>p. map_of policies i = Some p \<and> policy_applies c when u p)"
      using mem by fastforce
    then show ?thesis using Nil by (auto simp: evaluate_zone_def Let_def)
  next
    case (Cons p ps)
    have least: "(cp_priority p, cp_id p) \<le> (cp_priority q, cp_id q)" if "q \<in> set ?A" for q
      using sort_key_min_first[OF Cons[unfolded active_policies_def]] that unfolding active_policies_def by simp
    have p: "p \<in> set ?A" by (simp add: Cons)
    have z: "zv_allowed (evaluate_zone c policies when u z) = Some (verdict (matching_rules p u))"
      by (simp add: evaluate_zone_def Let_def Cons)
    have pm: "\<exists>i \<in> set (cz_policies z). map_of policies i = Some p" "policy_applies c when u p" using p mem by blast+
    have lp: "\<forall>i \<in> set (cz_policies z). \<forall>q. map_of policies i = Some q \<and> policy_applies c when u q
        \<longrightarrow> (cp_priority p, cp_id p) \<le> (cp_priority q, cp_id q)" using least mem by blast
    have same: "q = p" if q: "\<exists>i \<in> set (cz_policies z). map_of policies i = Some q" "policy_applies c when u q"
      and l: "\<forall>i \<in> set (cz_policies z). \<forall>r. map_of policies i = Some r \<and> policy_applies c when u r
        \<longrightarrow> (cp_priority q, cp_id q) \<le> (cp_priority r, cp_id r)" for q
    proof -
      have "q \<in> set ?A" using q mem by simp
      then have "(cp_priority p, cp_id p) \<le> (cp_priority q, cp_id q)" by (rule least)
      moreover have "(cp_priority q, cp_id q) \<le> (cp_priority p, cp_id p)" using l pm by blast
      ultimately have "cp_id p = cp_id q" by (metis antisym prod.inject)
      moreover obtain i j where "map_of policies i = Some p" "map_of policies j = Some q" using pm q by blast
      ultimately show ?thesis using keyed by (metis option.inject)
    qed
    show ?thesis unfolding z matching_rules_def option.inject using pm lp same by blast
  qed
qed

definition bay :: "string \<Rightarrow> string list \<Rightarrow> curb_policy" where
  \<comment> \<open>a policy for some vehicles, always in force\<close>
  "bay i classes = \<lparr>cp_id = i, cp_name = None, cp_priority = 1,
     cp_rules = [\<lparr>cr_activity = Some ''parking'', cr_max_stay = None, cr_stay_unit = None, cr_classes = classes, cr_except = [], cr_rates = []\<rparr>],
     cp_spans = []\<rparr>"

definition demo_zone :: curb_zone where
  "demo_zone = \<lparr>cz_id = ''z'', cz_name = None, cz_street = None, cz_geometry = JNull, cz_policies = [''p''], cz_spaces = None,
     cz_total = None, cz_available_at = None\<rparr>"

definition demo_curb_city :: curb_city where
  "demo_curb_city = \<lparr>cc_locale = ''es'', cc_currency = ''COP'', cc_minor = 1, cc_wall = of_int, cc_holiday = (\<lambda>_. False)\<rparr>"

lemma zone_verdict_witness:
  "zv_allowed (evaluate_zone demo_curb_city [(''p'', bay ''p'' [''taxi''])] (at_wall 0) (Some ''bicycle'') demo_zone) = None
   \<and> zv_allowed (evaluate_zone demo_curb_city [(''p'', bay ''p'' [''bicycle''])] (at_wall 0) (Some ''bicycle'') demo_zone) = Some True"
proof -
  have k: "map_of [(''p'', bay ''p'' cs)] i = Some p \<Longrightarrow> cp_id p = i" for cs i p
    by (auto simp: bay_def split: if_splits)
  have m: "matching_rules (bay ''p'' [''taxi'']) (Some ''bicycle'') = []"
    "matching_rules (bay ''p'' [''bicycle'']) (Some ''bicycle'') = cp_rules (bay ''p'' [''bicycle''])"
    by (simp_all add: matching_rules_def rule_matches_user_class_def USER_CLASS_SYNONYMS_def bay_def)
  have s: "cp_spans (bay ''p'' cs) = []" for cs by (simp add: bay_def)
  have a: "policy_applies demo_curb_city t (Some ''bicycle'') (bay ''p'' [''bicycle''])"
    "\<not> policy_applies demo_curb_city t (Some ''bicycle'') (bay ''p'' [''taxi''])" for t
    using m by (simp_all add: policy_applies_def s spans_active_def bay_def)
  have v: "verdict (cp_rules (bay ''p'' [''bicycle'']))" by (simp add: verdict_def PICKUP_def bay_def startswith_def)
  have z: "cz_policies demo_zone = [''p'']" by (simp add: demo_zone_def)
  show ?thesis
    using zone_verdict[where policies = "[(''p'', bay ''p'' [''taxi''])]" and c = demo_curb_city and z = demo_zone and u = "Some ''bicycle''", OF k]
      zone_verdict[where policies = "[(''p'', bay ''p'' [''bicycle''])]" and c = demo_curb_city and z = demo_zone
        and u = "Some ''bicycle''" and b = True, OF k] a v m
    by (simp add: z matching_rules_def)
qed

lemma private_cars_keep_out_of_taxi_bays:
  "cr_classes r = [''taxi''] \<Longrightarrow> \<not> rule_matches_user_class r (Some ''car'') \<and> rule_matches_user_class r (Some ''taxi'')
     \<or> cr_except r \<noteq> []"
  by (simp add: rule_matches_user_class_def USER_CLASS_SYNONYMS_def)

end
