(* ===== verification/Curb_Import.thy ===== *)
theory Curb_Import
  imports Curb_Rules Api_Error
begin

text \<open>
  The importers of \<open>app/openmobility.py\<close>: a CDS document, a GeoJSON collection, an MDS document and the two
  PIM layers become normalised JSON objects.  \<open>im_dumps\<close> is \<open>json.dumps\<close>, \<open>im_repr\<close> the text of a float or a
  container, \<open>im_hash_uuid\<close> the version-5 UUID of a SHA-256 digest, \<open>im_now\<close> the clock in
  milliseconds; each is used only to make identifiers and stamps.
\<close>

record import_env =
  im_dumps :: "json \<Rightarrow> string"
  im_repr :: "json \<Rightarrow> string"
  im_hash_uuid :: "string \<Rightarrow> string"
  im_now :: int

section \<open>Identifiers\<close>

fun drop_all :: "nat \<Rightarrow> string \<Rightarrow> string \<Rightarrow> string" where
  \<comment> \<open>\<open>s.replace(t, "")\<close>; the fuel is the length of \<open>s\<close>\<close>
  "drop_all 0 t s = s"
| "drop_all (Suc n) t s = (case s of [] \<Rightarrow> [] | c # cs \<Rightarrow>
     if startswith s t then drop_all n t (drop (length t) s) else c # drop_all n t cs)"

definition hex_digit :: "char \<Rightarrow> bool" where
  "hex_digit c = (c \<in> set ''0123456789abcdefABCDEF'')"

definition canonical :: "string \<Rightarrow> string" where
  "canonical h = take 8 h @ ''-'' @ take 4 (drop 8 h) @ ''-'' @ take 4 (drop 12 h) @ ''-'' @ take 4 (drop 16 h) @ ''-'' @ drop 20 h"

definition parse_uuid :: "string \<Rightarrow> string option" where
  \<comment> \<open>\<open>str(uuid.UUID(s))\<close>\<close>
  "parse_uuid s = (let braceless = (let t = drop_all (length s) ''uuid:'' (drop_all (length s) ''urn:'' s) in
        rev (dropWhile (\<lambda>c. c \<in> set ''{}'') (rev (dropWhile (\<lambda>c. c \<in> set ''{}'') t))));
      h = lower (filter (\<lambda>c. c \<noteq> CHR ''-'') braceless)
    in if length h = 32 \<and> list_all hex_digit h
       then Some (canonical h)
       else None)"

definition ensure_uuid :: "import_env \<Rightarrow> json \<Rightarrow> string \<Rightarrow> string" where
  "ensure_uuid e v seed = (case parse_uuid (py_str (im_repr e) v) of Some u \<Rightarrow> u | None \<Rightarrow> im_hash_uuid e seed)"

section \<open>Curb documents\<close>

definition ACTIVITIES :: "string list" where
  "ACTIVITIES = [''parking'', ''loading'', ''unloading'', ''stopping'', ''travel'',
     ''no parking'', ''no loading'', ''no unloading'', ''no stopping'', ''no travel'']"

definition str_of :: "import_env \<Rightarrow> json \<Rightarrow> string" where "str_of e v = py_str (im_repr e) v"

definition norm_zone :: "import_env \<Rightarrow> string option \<Rightarrow> json \<Rightarrow> raised + json" where
  "norm_zone e seed z = (if \<not> is_obj z \<or> \<not> truthy (jfield z ''geometry'')
     then Inl (unprocessable ''every curb zone needs a GeoJSON geometry'')
     else let sd = (if truthy_str seed then the seed else str_of e (jor (jor (jfield z ''curb_zone_id'') (jfield z ''name''))
                     (JStr (take 120 (im_dumps e (jfield z ''geometry''))))))
       in and_then (elements (jfield z ''curb_policy_ids'')) (\<lambda>pids.
          Inr (jdefault ''start_date'' (JInt (im_now e))
            (jput ''last_updated_date'' (JInt (im_now e))
              (jdefault ''published_date'' (JInt (im_now e))
                (jput ''curb_policy_ids'' (JArr (map (JStr \<circ> str_of e) pids))
                  (jput ''curb_zone_id'' (JStr (ensure_uuid e (jfield z ''curb_zone_id'') sd)) z)))))))"

definition check_rule :: "json \<Rightarrow> raised + unit" where
  "check_rule r = (if \<not> is_obj r then Inl (Uncaught AttributeError)
     else if jfield r ''activity'' \<in> JStr ` set ACTIVITIES then Inr () else Inl (unprocessable ''rules.activity''))"

definition norm_policy :: "import_env \<Rightarrow> string option \<Rightarrow> json \<Rightarrow> raised + json" where
  "norm_policy e seed p = (if \<not> is_obj p then Inl (unprocessable ''every curb policy must be an object'')
     else let rules = jfield p ''rules'' in
       if \<not> truthy rules then Inl (unprocessable ''every curb policy needs at least one rule'')
       else and_then (and_then (elements rules) (traverse check_rule)) (\<lambda>_.
         let sd = (if truthy_str seed then the seed else str_of e (jor (jfield p ''curb_policy_id'') (JStr (take 120 (im_dumps e rules)))))
         in Inr (jput ''time_spans'' (jor (jfield p ''time_spans'') (JArr []))
           (jdefault ''published_date'' (JInt (im_now e))
             (jdefault ''priority'' (JInt 1)
               (jput ''curb_policy_id'' (JStr (ensure_uuid e (jfield p ''curb_policy_id'') sd)) p))))))"

definition feature_seed :: "import_env \<Rightarrow> nat \<Rightarrow> json \<Rightarrow> string" where
  "feature_seed e i props = str_of e (jor (jor (jor (jfield props ''id'') (jfield props ''curb_zone_id'')) (jfield props ''name''))
     (JStr (''zone-'' @ show_nat i)))"

definition geojson_feature :: "import_env \<Rightarrow> nat \<Rightarrow> json \<Rightarrow> raised + (json list \<times> json list)" where
  \<comment> \<open>the zone of one feature, if any, and its inline policies\<close>
  "geojson_feature e i feat = (let props = jor (jfield feat ''properties'') (JObj []); geom = jfield feat ''geometry'' in
     if \<not> truthy geom then Inr ([], [])
     else let seed = feature_seed e i props;
              zid = ensure_uuid e (jor (jfield props ''curb_zone_id'') (jfield props ''id'')) seed;
              inline = jor (jfield props ''policies'') (jfield props ''curb_policies'')
       in and_then (case inline of
            JArr ps \<Rightarrow> and_then (traverse (\<lambda>(j, p). norm_policy e (Some (seed @ ''-policy-'' @ show_nat j)) p) (enumerate 0 ps))
              (\<lambda>pols. Inr (pols, map (\<lambda>p. jfield p ''curb_policy_id'') pols))
          | _ \<Rightarrow> and_then (elements (jfield props ''curb_policy_ids''))
              (\<lambda>ids. Inr ([], map (\<lambda>p. JStr (ensure_uuid e p (seed @ ''-'' @ str_of e p))) ids)))
          (\<lambda>(pols, pids). and_then (norm_zone e (Some seed)
              (jput ''curb_policy_ids'' (JArr pids) (jput ''geometry'' geom (jput ''curb_zone_id'' (JStr zid) props))))
            (\<lambda>z. Inr ([z], pols))))"

definition from_geojson :: "import_env \<Rightarrow> json \<Rightarrow> raised + (json list \<times> json list)" where
  "from_geojson e fc = and_then (elements (jfield fc ''features'')) (\<lambda>fs.
     and_then (traverse (\<lambda>(i, f). geojson_feature e i f) (enumerate 0 fs))
       (\<lambda>rs. Inr (concat (map fst rs), concat (map snd rs))))"

definition document_data :: "json \<Rightarrow> json" where
  "document_data doc = (if is_obj (jfield doc ''data'') then jfield doc ''data'' else doc)"

definition as_array :: "string \<Rightarrow> json \<Rightarrow> raised + json list" where
  "as_array m j = (if \<not> truthy j then Inr [] else case j of JArr xs \<Rightarrow> Inr xs | _ \<Rightarrow> Inl (unprocessable m))"

definition parse_curbs_document :: "import_env \<Rightarrow> json \<Rightarrow> raised + (json list \<times> json list)" where
  "parse_curbs_document e doc = (if \<not> is_obj doc then Inl (unprocessable ''expected a JSON object'')
     else if jfield doc ''type'' = JStr ''FeatureCollection'' then from_geojson e doc
     else let d = document_data doc; m = ''zones and policies must be arrays'' in
       and_then (as_array m (jor (jfield d ''zones'') (jfield d ''curb_zones''))) (\<lambda>zs.
       and_then (as_array m (jor (jfield d ''policies'') (jfield d ''curb_policies''))) (\<lambda>ps.
       and_then (traverse (norm_zone e None) zs) (\<lambda>zs'.
       and_then (traverse (norm_policy e None) ps) (\<lambda>ps'. Inr (zs', ps'))))))"

section \<open>MDS documents\<close>

definition norm_mds_rule :: "import_env \<Rightarrow> string \<Rightarrow> nat \<Rightarrow> json \<Rightarrow> raised + json" where
  "norm_mds_rule e pid i r = (if \<not> is_obj r then Inl (Uncaught AttributeError)
     else and_then (elements (jfield r ''geographies'')) (\<lambda>gs.
       Inr (jput ''geographies'' (JArr (map (JStr \<circ> str_of e) gs))
         (jput ''rule_id'' (JStr (ensure_uuid e (jfield r ''rule_id'') (pid @ ''-rule-'' @ show_nat i))) r))))"

definition norm_mds_policy :: "import_env \<Rightarrow> json \<Rightarrow> raised + json" where
  "norm_mds_policy e p = (if \<not> is_obj p \<or> \<not> truthy (jfield p ''rules'') then Inl (unprocessable ''every MDS policy needs rules'')
     else let pid = ensure_uuid e (jfield p ''policy_id'')
                (str_of e (jor (jfield p ''name'') (JStr (take 120 (im_dumps e (jfield p ''rules''))))))
       in and_then (elements (jfield p ''rules'')) (\<lambda>rs.
          and_then (traverse (\<lambda>(i, r). norm_mds_rule e pid i r) (enumerate 0 rs)) (\<lambda>rs'.
            Inr (jput ''rules'' (JArr rs') (jdefault ''start_date'' (JInt (im_now e)) (jdefault ''published_date'' (JInt (im_now e))
              (jput ''policy_id'' (JStr pid) p)))))))"

definition norm_mds_geography :: "import_env \<Rightarrow> json \<Rightarrow> raised + json" where
  "norm_mds_geography e g = (if \<not> is_obj g \<or> \<not> truthy (jfield g ''geography_json'')
     then Inl (unprocessable ''every MDS geography needs geography_json'')
     else Inr (jdefault ''published_date'' (JInt (im_now e))
       (jput ''geography_id'' (JStr (ensure_uuid e (jfield g ''geography_id'') (str_of e (jor (jfield g ''name'') (JStr ''geography''))))) g)))"

definition parse_mds_documents :: "import_env \<Rightarrow> json \<Rightarrow> raised + (json list \<times> json list)" where
  "parse_mds_documents e doc = (if \<not> is_obj doc then Inl (unprocessable ''expected a JSON object'')
     else let d = document_data doc; m = ''policies and geographies must be arrays'';
              ps = (if truthy (jfield doc ''policy'') then JArr [jfield doc ''policy''] else jfield d ''policies'');
              gs = (if truthy (jfield doc ''geography'') then JArr [jfield doc ''geography''] else jfield d ''geographies'')
       in and_then (as_array m ps) (\<lambda>ps. and_then (as_array m gs) (\<lambda>gs.
          and_then (traverse (norm_mds_policy e) ps) (\<lambda>ps'.
          and_then (traverse (norm_mds_geography e) gs) (\<lambda>gs'. Inr (ps', gs'))))))"

section \<open>PIM layers\<close>

definition EPOCH_DAY :: int where "EPOCH_DAY = 719163"

definition pim_ms :: "import_env \<Rightarrow> json \<Rightarrow> json" where
  \<comment> \<open>null for \<open>None\<close>; the server's own zone is UTC\<close>
  "pim_ms e v = (if \<not> truthy v then JNull else case iso_instant (str_of e v) of None \<Rightarrow> JNull
     | Some t \<Rightarrow> JInt (py_trunc ((t - of_int (EPOCH_DAY * day_seconds)) * 1000)))"

definition pim_span :: "import_env \<Rightarrow> json \<Rightarrow> json" where
  "pim_span e s = (let st = jor (jfield s ''start_time'') (jfield s ''time_of_day_start'');
       en = jor (jfield s ''end_time'') (jfield s ''time_of_day_end''); period = jfield s ''designated_period''
     in JObj ((if truthy (jfield s ''days_of_week'') then [(''days_of_week'', jfield s ''days_of_week'')] else [])
       @ (if truthy st then [(''time_of_day_start'', JStr (take 5 (str_of e st)))] else [])
       @ (if truthy en then [(''time_of_day_end'', JStr (take 5 (str_of e en)))] else [])
       @ concat (map (\<lambda>k. if jfield s k \<noteq> JNull then [(k, jfield s k)] else [])
            [''days_of_month'', ''weeks_of_month'', ''months'', ''start_date'', ''end_date''])
       @ (if truthy period \<and> lower (str_of e period) \<noteq> ''operating_hours''
          then (''designated_period'', period)
             # (if truthy (jfield s ''designated_period_except'') then [(''designated_period_except'', JBool True)] else [])
          else [])))"

definition scale_rate :: "rat \<Rightarrow> json \<Rightarrow> json" where
  "scale_rate scale r = fold (\<lambda>k r. case number_of (jfield r k) of None \<Rightarrow> r | Some x \<Rightarrow> jput k (JInt (py_round (x * scale))) r)
     [''rate'', ''maximum_fee'', ''increment_amount''] r"

definition scale_money :: "rat \<Rightarrow> json \<Rightarrow> json" where
  \<comment> \<open>one rule\<close>
  "scale_money scale r = (if scale = 1 then r else case jfield r ''rate'' of
     JArr rates \<Rightarrow> if rates = [] then r else jput ''rate'' (JArr (map (scale_rate scale) rates)) r | _ \<Rightarrow> r)"

definition PIM_AMOUNT_UNITS :: "(string \<times> rat) list" where
  "PIM_AMOUNT_UNITS = [(''cents'', 100), (''centavos'', 100), (''minor'', 100), (''units'', 1), (''major'', 1), (''pesos'', 1)]"

definition rule_spans :: "import_env \<Rightarrow> json list \<Rightarrow> json list" where
  "rule_spans e rules = fold (\<lambda>sp spans. let c = pim_span e sp in if truthy c \<and> c \<notin> set spans then spans @ [c] else spans)
     (concat (map (\<lambda>r. items (jfield r ''time_spans'')) rules)) []"

definition drop_nulls :: "(string \<times> json) list \<Rightarrow> json" where
  "drop_nulls kvs = JObj (filter (\<lambda>(k, v). v \<noteq> JNull) kvs)"

definition pim_policy :: "import_env \<Rightarrow> rat \<Rightarrow> rat option \<Rightarrow> string option \<Rightarrow> json \<Rightarrow> raised + json list" where
  \<comment> \<open>the CDS policy of one feature, or nothing\<close>
  "pim_policy e rate_scale city_minor city_currency feat =
     (let props = jor (jfield feat ''properties'') (JObj []);
          rules = filter is_obj (items (jfield props ''rules''));
          currency = upper (str_of e (jor (jfield props ''currency'') (JStr [])))
      in if rules = [] then Inr []
         else if currency \<noteq> [] \<and> truthy_str city_currency \<and> currency \<noteq> upper (the city_currency) then Inr []
         else let unit = map_of PIM_AMOUNT_UNITS (lower (str_of e (jor (jfield props ''amount_unit'') (JStr []))));
                  scale = (case (unit, city_minor) of (Some u, Some m) \<Rightarrow> (if m = 0 then 1 else m) / u | _ \<Rightarrow> rate_scale);
                  scaled = map (scale_money scale) rules; spans = rule_spans e scaled;
                  own = items (jfield props ''time_spans'');
                  pol = drop_nulls ([(''curb_policy_id'', jfield props ''curb_policy_id''), (''name'', jfield props ''name''),
                    (''description'', jfield props ''description''),
                    (''priority'', if jfield props ''priority'' \<noteq> JNull then jfield props ''priority'' else JInt 1),
                    (''rules'', JArr (map (jpop ''no_return'' \<circ> jpop ''rule_id'' \<circ> jpop ''time_spans'') scaled)),
                    (''time_spans'', JArr (if own \<noteq> [] then own else spans)),
                    (''published_date'', pim_ms e (jfield props ''published_date'')),
                    (''start_date'', pim_ms e (jfield props ''start_date'')),
                    (''end_date'', pim_ms e (jfield props ''end_date'')),
                    (''last_updated_date'', pim_ms e (jfield props ''last_updated''))])
           in and_then (norm_policy e (Some (str_of e (jor (jfield pol ''curb_policy_id'') (jfield pol ''name'')))) pol) (\<lambda>p. Inr [p]))"

definition pim_policies_to_cds :: "import_env \<Rightarrow> rat \<Rightarrow> rat option \<Rightarrow> string option \<Rightarrow> json \<Rightarrow> raised + json list" where
  "pim_policies_to_cds e rate_scale city_minor city_currency fc =
     and_then (elements (jfield fc ''features'')) (\<lambda>fs.
       and_then (traverse (pim_policy e rate_scale city_minor city_currency) fs) (\<lambda>ps. Inr (concat ps)))"

definition placeholder :: "import_env \<Rightarrow> string \<Rightarrow> raised + json" where
  "placeholder e pid = norm_policy e (Some pid) (JObj [(''curb_policy_id'', JStr pid), (''name'', JStr ''Zona de parqueo pago''),
     (''priority'', JInt 2), (''rules'', JArr [JObj [(''activity'', JStr ''parking''), (''user_classes'', JArr [JStr ''car''])]]),
     (''time_spans'', JArr [])])"

definition pim_zone_ids :: "import_env \<Rightarrow> json \<Rightarrow> raised + string list" where
  "pim_zone_ids e props = and_then (elements (jfield props ''curb_policy_ids''))
     (\<lambda>ids. Inr (map (\<lambda>x. ensure_uuid e (JStr (str_of e x)) (str_of e x)) ids))"

definition pim_zone :: "import_env \<Rightarrow> nat \<Rightarrow> json \<Rightarrow> string list \<Rightarrow> raised + json" where
  "pim_zone e i feat pids = (let props = jor (jfield feat ''properties'') (JObj []); avail = jfield props ''available_spaces'';
       raw = str_of e (jor (jor (jor (jfield props ''curb_zone_id'') (jfield feat ''id'')) (jfield props ''name'')) (JStr (''pim-'' @ show_nat i)))
     in norm_zone e (Some raw) (JObj (filter (\<lambda>(k, v). v \<noteq> JNull \<or> k = ''availability_time'')
       [(''curb_zone_id'', JStr (ensure_uuid e (JStr raw) raw)), (''name'', jfield props ''name''), (''street_name'', jfield props ''street''),
        (''geometry'', jfield feat ''geometry''), (''curb_policy_ids'', JArr (map JStr pids)), (''length'', jfield props ''length_cm''),
        (''available_spaces'', avail),
        (''available'', case number_of avail of None \<Rightarrow> JNull | Some x \<Rightarrow> JBool (0 < py_trunc x)),
        (''availability_time'', pim_ms e (jfield props ''last_updated'')), (''total_spaces'', jfield props ''total_spaces''),
        (''occupied'', jfield props ''occupied''), (''occupancy_rate'', jfield props ''occupancy_rate''), (''external_id'', jfield feat ''id'')])))"

fun pim_curbs :: "import_env \<Rightarrow> nat \<Rightarrow> json list \<Rightarrow> string list \<Rightarrow> raised + (json list \<times> json list)" where
  \<comment> \<open>the zones, and one placeholder per policy id that is not known\<close>
  "pim_curbs e i [] known = Inr ([], [])"
| "pim_curbs e i (feat # fs) known = (let props = jor (jfield feat ''properties'') (JObj []) in
     if \<not> truthy (jfield feat ''geometry'') then pim_curbs e (Suc i) fs known
     else and_then (pim_zone_ids e props) (\<lambda>pids. let fresh = remdups (filter (\<lambda>p. p \<notin> set known) pids) in
       and_then (traverse (placeholder e) fresh) (\<lambda>pols.
       and_then (pim_zone e i feat pids) (\<lambda>z.
       and_then (pim_curbs e (Suc i) fs (known @ fresh)) (\<lambda>(zs, ps). Inr (z # zs, pols @ ps))))))"

end
