(* ===== verification/Curb_Store.thy ===== *)
theory Curb_Store
  imports Curb_Import
begin

text \<open>
  The two stores of \<open>app/openmobility.py\<close> and the operations of \<open>app/routers/openmobility.py\<close> that change
  them.  Curbs (zones and policies) and MDS documents (policies and geographies) are each a pair of
  tables with the same operations, so both stores are modelled as a pair and used twice.  Clients see a store
  through the locale \<open>doc_store\<close>.
\<close>

section \<open>The interface\<close>

record 's doc_ops =
  op_first :: "'s \<Rightarrow> string \<Rightarrow> json list"
  op_second :: "'s \<Rightarrow> string \<Rightarrow> json list"
  op_put :: "string \<Rightarrow> json list \<Rightarrow> json list \<Rightarrow> bool \<Rightarrow> 's \<Rightarrow> 's"
  op_drop :: "string \<Rightarrow> string \<Rightarrow> 's \<Rightarrow> 's \<times> bool"
  op_clear :: "string \<Rightarrow> 's \<Rightarrow> 's \<times> nat"

definition doc_id :: "string \<Rightarrow> json \<Rightarrow> string" where
  \<comment> \<open>\<open>str(item[k])\<close> of a normalised document, whose identifiers are strings\<close>
  "doc_id k j = (case jfield j k of JStr s \<Rightarrow> s | _ \<Rightarrow> [])"

definition look :: "string \<Rightarrow> json list \<Rightarrow> string \<rightharpoonup> json" where
  "look k js = map_of (map (\<lambda>j. (doc_id k j, j)) js)"

definition upserted :: "string \<Rightarrow> json list \<Rightarrow> (string \<rightharpoonup> json) \<Rightarrow> string \<rightharpoonup> json" where
  "upserted k js m = m ++ look k (rev js)"

locale doc_store =
  fixes ops :: "'s doc_ops" and ok :: "'s \<Rightarrow> bool" and k1 k2 :: string
  assumes put_ok: "ok s \<Longrightarrow> ok (op_put ops c xs ys r s)"
    and drop_ok: "ok s \<Longrightarrow> ok (fst (op_drop ops c i s))"
    and clear_ok: "ok s \<Longrightarrow> ok (fst (op_clear ops c s))"
    and put_first: "ok s \<Longrightarrow> look k1 (op_first ops (op_put ops c xs ys r s) c') =
      (if c' = c then upserted k1 xs (if r then Map.empty else look k1 (op_first ops s c)) else look k1 (op_first ops s c'))"
    and put_second: "ok s \<Longrightarrow> look k2 (op_second ops (op_put ops c xs ys r s) c') =
      (if c' = c then upserted k2 ys (if r then Map.empty else look k2 (op_second ops s c)) else look k2 (op_second ops s c'))"
    and drop_first: "ok s \<Longrightarrow> look k1 (op_first ops (fst (op_drop ops c i s)) c') =
      (if c' = c then (look k1 (op_first ops s c))(i := None) else look k1 (op_first ops s c'))"
    and drop_second: "ok s \<Longrightarrow> look k2 (op_second ops (fst (op_drop ops c i s)) c') = look k2 (op_second ops s c')"
    and drop_told: "ok s \<Longrightarrow> snd (op_drop ops c i s) \<longleftrightarrow> look k1 (op_first ops s c) i \<noteq> None"
    and clear_first: "ok s \<Longrightarrow> look k1 (op_first ops (fst (op_clear ops c s)) c') = (if c' = c then Map.empty else look k1 (op_first ops s c'))"
    and clear_second: "ok s \<Longrightarrow> look k2 (op_second ops (fst (op_clear ops c s)) c') = (if c' = c then Map.empty else look k2 (op_second ops s c'))"

section \<open>\<open>MemoryOpenMobilityStore\<close>\<close>

type_synonym city_docs = "(string \<times> (string \<times> json) list) list"

record mem_side =
  ms_first :: city_docs
  ms_second :: city_docs

definition docs_of :: "city_docs \<Rightarrow> string \<Rightarrow> (string \<times> json) list" where
  "docs_of t c = or_else (map_of t c) []"

definition mem_upsert :: "string \<Rightarrow> string \<Rightarrow> json list \<Rightarrow> bool \<Rightarrow> city_docs \<Rightarrow> city_docs" where
  "mem_upsert k c xs replace t = AList.update c
     (fold (\<lambda>j. AList.update (doc_id k j) j) xs (if replace then [] else docs_of t c)) t"

definition mem_put :: "string \<Rightarrow> string \<Rightarrow> string \<Rightarrow> json list \<Rightarrow> json list \<Rightarrow> bool \<Rightarrow> mem_side \<Rightarrow> mem_side" where
  "mem_put k1 k2 c xs ys replace s = \<lparr>ms_first = mem_upsert k1 c xs replace (ms_first s), ms_second = mem_upsert k2 c ys replace (ms_second s)\<rparr>"

definition mem_list :: "city_docs \<Rightarrow> string \<Rightarrow> json list" where
  "mem_list t c = map snd (docs_of t c)"

definition mem_drop :: "string \<Rightarrow> string \<Rightarrow> mem_side \<Rightarrow> mem_side \<times> bool" where
  "mem_drop c i s = (case map_of (ms_first s) c of None \<Rightarrow> (s, False)
     | Some d \<Rightarrow> (s\<lparr>ms_first := AList.update c (AList.delete i d) (ms_first s)\<rparr>, map_of d i \<noteq> None))"

definition mem_clear :: "string \<Rightarrow> mem_side \<Rightarrow> mem_side \<times> nat" where
  "mem_clear c s = (\<lparr>ms_first = AList.update c [] (ms_first s), ms_second = AList.update c [] (ms_second s)\<rparr>, length (docs_of (ms_first s) c))"

definition mem_ops :: "string \<Rightarrow> string \<Rightarrow> mem_side doc_ops" where
  "mem_ops k1 k2 = \<lparr>op_first = \<lambda>s. mem_list (ms_first s), op_second = \<lambda>s. mem_list (ms_second s), op_put = mem_put k1 k2,
     op_drop = mem_drop, op_clear = mem_clear\<rparr>"

section \<open>\<open>PgOpenMobilityStore\<close>: primary key (city, id)\<close>

record pg_doc =
  pd_city :: string
  pd_id :: string
  pd_data :: json

record pg_side =
  pg_first :: "pg_doc list"
  pg_second :: "pg_doc list"

definition pg_upsert :: "string \<Rightarrow> string \<Rightarrow> json \<Rightarrow> pg_doc list \<Rightarrow> pg_doc list" where
  \<comment> \<open>\<open>INSERT ... ON CONFLICT DO UPDATE\<close>\<close>
  "pg_upsert k c j t = (if list_ex (\<lambda>d. pd_city d = c \<and> pd_id d = doc_id k j) t
     then map (\<lambda>d. if pd_city d = c \<and> pd_id d = doc_id k j then d\<lparr>pd_data := j\<rparr> else d) t
     else t @ [\<lparr>pd_city = c, pd_id = doc_id k j, pd_data = j\<rparr>])"

definition pg_delete_city :: "string \<Rightarrow> pg_doc list \<Rightarrow> pg_doc list" where
  "pg_delete_city c t = filter (\<lambda>d. pd_city d \<noteq> c) t"

definition pg_put :: "string \<Rightarrow> string \<Rightarrow> string \<Rightarrow> json list \<Rightarrow> json list \<Rightarrow> bool \<Rightarrow> pg_side \<Rightarrow> pg_side" where
  "pg_put k1 k2 c xs ys replace s =
     \<lparr>pg_first = fold (pg_upsert k1 c) xs (if replace then pg_delete_city c (pg_first s) else pg_first s),
      pg_second = fold (pg_upsert k2 c) ys (if replace then pg_delete_city c (pg_second s) else pg_second s)\<rparr>"

definition pg_list :: "pg_doc list \<Rightarrow> string \<Rightarrow> json list" where
  "pg_list t c = map pd_data (filter (\<lambda>d. pd_city d = c) t)"

definition pg_drop :: "string \<Rightarrow> string \<Rightarrow> pg_side \<Rightarrow> pg_side \<times> bool" where
  \<comment> \<open>\<open>res.endswith(" 1")\<close> on the command tag\<close>
  "pg_drop c i s = (s\<lparr>pg_first := filter (\<lambda>d. \<not> (pd_city d = c \<and> pd_id d = i)) (pg_first s)\<rparr>,
     length (filter (\<lambda>d. pd_city d = c \<and> pd_id d = i) (pg_first s)) mod 10 = 1)"

definition pg_clear :: "string \<Rightarrow> pg_side \<Rightarrow> pg_side \<times> nat" where
  "pg_clear c s = (\<lparr>pg_first = pg_delete_city c (pg_first s), pg_second = pg_delete_city c (pg_second s)\<rparr>,
     length (filter (\<lambda>d. pd_city d = c) (pg_first s)))"

definition pg_ops :: "string \<Rightarrow> string \<Rightarrow> pg_side doc_ops" where
  "pg_ops k1 k2 = \<lparr>op_first = \<lambda>s. pg_list (pg_first s), op_second = \<lambda>s. pg_list (pg_second s), op_put = pg_put k1 k2,
     op_drop = pg_drop, op_clear = pg_clear\<rparr>"

section \<open>Both stores keep the contract\<close>

definition keyed :: "string \<Rightarrow> (string \<times> json) list \<Rightarrow> bool" where
  "keyed k d \<longleftrightarrow> distinct (map fst d) \<and> (\<forall>(i, j) \<in> set d. i = doc_id k j)"

lemma look_keyed: "keyed k d \<Longrightarrow> look k (map snd d) = map_of d"
  by (induction d) (auto simp: keyed_def look_def)

lemma keyed_update: "keyed k d \<Longrightarrow> keyed k (AList.update (doc_id k j) j d)"
proof -
  have "set (AList.update i v d) \<subseteq> insert (i, v) (set d)" for i v by (induction d) auto
  then show "keyed k d \<Longrightarrow> ?thesis" by (fastforce simp: keyed_def distinct_update)
qed

lemma keyed_fold: "keyed k d \<Longrightarrow> keyed k (fold (\<lambda>j. AList.update (doc_id k j) j) xs d)"
  by (induction xs arbitrary: d) (simp_all add: keyed_update)

lemma look_fold:
  "map_of (fold (\<lambda>j. AList.update (doc_id k j) j) xs d) = upserted k xs (map_of d)"
proof (induction xs arbitrary: d)
  case (Cons x xs)
  then show ?case by (simp add: upserted_def look_def update_conv')
qed (simp add: upserted_def look_def)

definition mem_ok :: "string \<Rightarrow> string \<Rightarrow> mem_side \<Rightarrow> bool" where
  "mem_ok k1 k2 s \<longleftrightarrow> (\<forall>c. keyed k1 (docs_of (ms_first s) c) \<and> keyed k2 (docs_of (ms_second s) c))"

lemma docs_of_update: "docs_of (AList.update c d t) c' = (if c' = c then d else docs_of t c')"
  by (simp add: docs_of_def update_conv')

lemma keyed_Nil: "keyed k []" by (simp add: keyed_def)

lemma keyed_delete: "keyed k d \<Longrightarrow> keyed k (AList.delete i d)"
  by (auto simp: keyed_def AList.delete_eq distinct_map_filter)

lemma mem_upsert_docs:
  "docs_of (mem_upsert k c xs r t) c' = (if c' = c then fold (\<lambda>j. AList.update (doc_id k j) j) xs (if r then [] else docs_of t c) else docs_of t c')"
  by (simp add: mem_upsert_def docs_of_update)

lemma mem_drop_docs:
  "docs_of (ms_first (fst (mem_drop c i s))) c' = (if c' = c then AList.delete i (docs_of (ms_first s) c) else docs_of (ms_first s) c')"
  "ms_second (fst (mem_drop c i s)) = ms_second s"
  "snd (mem_drop c i s) \<longleftrightarrow> map_of (docs_of (ms_first s) c) i \<noteq> None"
  by (auto simp: mem_drop_def docs_of_def update_conv' split: option.split)

interpretation mem: doc_store "mem_ops k1 k2" "mem_ok k1 k2" k1 k2 for k1 k2
proof
  fix s :: mem_side and c c' i xs ys r
  assume ok: "mem_ok k1 k2 s"
  have l1: "look k1 (mem_list t c) = map_of (docs_of t c)" if "keyed k1 (docs_of t c)" for t c
    using look_keyed[OF that] by (simp add: mem_list_def)
  have l2: "look k2 (mem_list t c) = map_of (docs_of t c)" if "keyed k2 (docs_of t c)" for t c
    using look_keyed[OF that] by (simp add: mem_list_def)
  have k: "keyed k1 (docs_of (ms_first s) c)" "keyed k2 (docs_of (ms_second s) c)" for c
    using ok by (simp_all add: mem_ok_def)
  show put: "mem_ok k1 k2 (op_put (mem_ops k1 k2) c xs ys r s)"
    using ok by (simp add: mem_ok_def mem_ops_def mem_put_def mem_upsert_docs keyed_fold keyed_Nil)
  show drop: "mem_ok k1 k2 (fst (op_drop (mem_ops k1 k2) c i s))"
    using ok by (simp add: mem_ok_def mem_ops_def mem_drop_docs keyed_delete)
  show clear: "mem_ok k1 k2 (fst (op_clear (mem_ops k1 k2) c s))"
    using ok by (simp add: mem_ok_def mem_ops_def mem_clear_def docs_of_update keyed_Nil)
  show "look k1 (op_first (mem_ops k1 k2) (op_put (mem_ops k1 k2) c xs ys r s) c') =
      (if c' = c then upserted k1 xs (if r then Map.empty else look k1 (op_first (mem_ops k1 k2) s c)) else look k1 (op_first (mem_ops k1 k2) s c'))"
    using put by (simp add: mem_ops_def mem_put_def mem_ok_def l1 k mem_upsert_docs look_fold)
  show "look k2 (op_second (mem_ops k1 k2) (op_put (mem_ops k1 k2) c xs ys r s) c') =
      (if c' = c then upserted k2 ys (if r then Map.empty else look k2 (op_second (mem_ops k1 k2) s c)) else look k2 (op_second (mem_ops k1 k2) s c'))"
    using put by (simp add: mem_ops_def mem_put_def mem_ok_def l2 k mem_upsert_docs look_fold)
  show "look k1 (op_first (mem_ops k1 k2) (fst (op_drop (mem_ops k1 k2) c i s)) c') =
      (if c' = c then (look k1 (op_first (mem_ops k1 k2) s c))(i := None) else look k1 (op_first (mem_ops k1 k2) s c'))"
    by (simp add: mem_ops_def l1 k keyed_delete mem_drop_docs delete_conv')
  show "look k2 (op_second (mem_ops k1 k2) (fst (op_drop (mem_ops k1 k2) c i s)) c') = look k2 (op_second (mem_ops k1 k2) s c')"
    by (simp add: mem_ops_def mem_drop_docs)
  show "snd (op_drop (mem_ops k1 k2) c i s) \<longleftrightarrow> look k1 (op_first (mem_ops k1 k2) s c) i \<noteq> None"
    by (simp add: mem_ops_def mem_drop_docs l1 k)
  show "look k1 (op_first (mem_ops k1 k2) (fst (op_clear (mem_ops k1 k2) c s)) c') = (if c' = c then Map.empty else look k1 (op_first (mem_ops k1 k2) s c'))"
    "look k2 (op_second (mem_ops k1 k2) (fst (op_clear (mem_ops k1 k2) c s)) c') = (if c' = c then Map.empty else look k2 (op_second (mem_ops k1 k2) s c'))"
    by (simp_all add: mem_ops_def mem_clear_def l1 l2 k docs_of_update keyed_Nil)
qed

definition pg_docs :: "pg_doc list \<Rightarrow> string \<Rightarrow> (string \<times> json) list" where
  "pg_docs t c = map (\<lambda>d. (pd_id d, pd_data d)) (filter (\<lambda>d. pd_city d = c) t)"

definition pg_ok :: "string \<Rightarrow> string \<Rightarrow> pg_side \<Rightarrow> bool" where
  "pg_ok k1 k2 s \<longleftrightarrow> (\<forall>c. keyed k1 (pg_docs (pg_first s) c) \<and> keyed k2 (pg_docs (pg_second s) c))"

lemma pg_docs_simps [simp]:
  "pg_docs [] c = []" "pg_docs (d # t) c = (if pd_city d = c then (pd_id d, pd_data d) # pg_docs t c else pg_docs t c)"
  "pg_docs (t @ t') c = pg_docs t c @ pg_docs t' c"
  by (simp_all add: pg_docs_def)

lemma pg_list_docs: "pg_list t c = map snd (pg_docs t c)"
  by (simp add: pg_list_def pg_docs_def)

lemma pg_docs_map_absent:
  "\<not> list_ex (\<lambda>d. pd_city d = c \<and> pd_id d = i) t \<Longrightarrow>
   map (\<lambda>d. if pd_city d = c \<and> pd_id d = i then f d else d) t = t \<and> i \<notin> fst ` set (pg_docs t c)"
  by (induction t) auto

lemma pg_docs_map:
  "distinct (map fst (pg_docs t c)) \<Longrightarrow> list_ex (\<lambda>d. pd_city d = c \<and> pd_id d = i) t \<Longrightarrow>
   pg_docs (map (\<lambda>d. if pd_city d = c \<and> pd_id d = i then d\<lparr>pd_data := j\<rparr> else d) t) c = AList.update i j (pg_docs t c)"
proof (induction t)
  case (Cons d t)
  show ?case
  proof (cases "pd_city d = c \<and> pd_id d = i")
    case True
    then have "i \<notin> fst ` set (pg_docs t c)" using Cons.prems(1) by auto
    then have "\<not> list_ex (\<lambda>d. pd_city d = c \<and> pd_id d = i) t"
      by (force simp: list_ex_iff pg_docs_def)
    then show ?thesis using True pg_docs_map_absent by simp
  next
    case False
    then show ?thesis using Cons by (auto split: if_splits)
  qed
qed simp

lemma pg_docs_map_other:
  "c' \<noteq> c \<Longrightarrow> pg_docs (map (\<lambda>d. if pd_city d = c \<and> pd_id d = i then d\<lparr>pd_data := j\<rparr> else d) t) c' = pg_docs t c'"
  by (induction t) auto

lemma pg_upsert_docs:
  assumes "keyed k (pg_docs t c)"
  shows "pg_docs (pg_upsert k c j t) c' = (if c' = c then AList.update (doc_id k j) j (pg_docs t c) else pg_docs t c')"
proof (cases "list_ex (\<lambda>d. pd_city d = c \<and> pd_id d = doc_id k j) t")
  case True
  then show ?thesis using pg_docs_map[of t c "doc_id k j" j] assms pg_docs_map_other[of c' c]
    by (simp add: pg_upsert_def keyed_def)
next
  case False
  then have "doc_id k j \<notin> fst ` set (pg_docs t c)" using pg_docs_map_absent by blast
  then show ?thesis using False by (simp add: pg_upsert_def update_absent)
qed

lemma pg_fold_docs:
  "keyed k (pg_docs t c) \<Longrightarrow> pg_docs (fold (pg_upsert k c) xs t) c'
     = (if c' = c then fold (\<lambda>j. AList.update (doc_id k j) j) xs (pg_docs t c) else pg_docs t c')"
  by (induction xs arbitrary: t) (simp_all add: pg_upsert_docs keyed_update)

lemma pg_filter_docs:
  "pg_docs (pg_delete_city c t) c' = (if c' = c then [] else pg_docs t c')"
  "pg_docs (filter (\<lambda>d. \<not> (pd_city d = c \<and> pd_id d = i)) t) c' = (if c' = c then AList.delete i (pg_docs t c) else pg_docs t c')"
  by (induction t) (auto simp: pg_delete_city_def)

lemmas pg_drop_docs = pg_filter_docs(2)[simplified de_Morgan_conj imp_conv_disj[symmetric]]

lemma pg_put_docs:
  assumes "keyed k (pg_docs t c)"
  shows "pg_docs (fold (pg_upsert k c) xs (if r then pg_delete_city c t else t)) c'
     = (if c' = c then fold (\<lambda>j. AList.update (doc_id k j) j) xs (if r then [] else pg_docs t c) else pg_docs t c')"
proof -
  have "keyed k (pg_docs (if r then pg_delete_city c t else t) c)" using assms by (simp add: pg_filter_docs keyed_Nil)
  from pg_fold_docs[OF this] show ?thesis by (simp add: pg_filter_docs)
qed

lemma pg_count:
  "length (filter (\<lambda>d. pd_city d = c \<and> pd_id d = i) t) = length (filter (\<lambda>x. fst x = i) (pg_docs t c))"
  by (induction t) auto

lemma keyed_count: "keyed k d \<Longrightarrow> length (filter (\<lambda>x. fst x = i) d) = (if map_of d i = None then 0 else 1)"
proof -
  assume "keyed k d"
  then have "distinct (map fst d)" by (simp add: keyed_def)
  then show ?thesis
  proof (induction d)
    case (Cons x d)
    show ?case
    proof (cases "fst x = i")
      case True
      then have "filter (\<lambda>x. fst x = i) d = []" using Cons.prems by (auto simp: filter_empty_conv image_iff)
      then show ?thesis using True by (cases x) simp
    next
      case False
      then show ?thesis using Cons by (cases x) auto
    qed
  qed simp
qed

interpretation pg: doc_store "pg_ops k1 k2" "pg_ok k1 k2" k1 k2 for k1 k2
proof
  fix s :: pg_side and c c' i xs ys r
  assume ok: "pg_ok k1 k2 s"
  have l1: "look k1 (pg_list t c) = map_of (pg_docs t c)" if "keyed k1 (pg_docs t c)" for t c
    using look_keyed[OF that] by (simp add: pg_list_docs)
  have l2: "look k2 (pg_list t c) = map_of (pg_docs t c)" if "keyed k2 (pg_docs t c)" for t c
    using look_keyed[OF that] by (simp add: pg_list_docs)
  have k: "keyed k1 (pg_docs (pg_first s) c)" "keyed k2 (pg_docs (pg_second s) c)" for c
    using ok by (simp_all add: pg_ok_def)
  show "pg_ok k1 k2 (op_put (pg_ops k1 k2) c xs ys r s)"
    using k by (simp add: pg_ok_def pg_ops_def pg_put_def pg_put_docs keyed_fold keyed_Nil)
  show "pg_ok k1 k2 (fst (op_drop (pg_ops k1 k2) c i s))"
    using k by (simp add: pg_ok_def pg_ops_def pg_drop_def pg_drop_docs keyed_delete)
  show "pg_ok k1 k2 (fst (op_clear (pg_ops k1 k2) c s))"
    using k by (simp add: pg_ok_def pg_ops_def pg_clear_def pg_filter_docs keyed_Nil)
  show "look k1 (op_first (pg_ops k1 k2) (op_put (pg_ops k1 k2) c xs ys r s) c') =
      (if c' = c then upserted k1 xs (if r then Map.empty else look k1 (op_first (pg_ops k1 k2) s c)) else look k1 (op_first (pg_ops k1 k2) s c'))"
    by (simp add: pg_ops_def pg_put_def l1 k pg_put_docs look_fold keyed_fold keyed_Nil)
  show "look k2 (op_second (pg_ops k1 k2) (op_put (pg_ops k1 k2) c xs ys r s) c') =
      (if c' = c then upserted k2 ys (if r then Map.empty else look k2 (op_second (pg_ops k1 k2) s c)) else look k2 (op_second (pg_ops k1 k2) s c'))"
    by (simp add: pg_ops_def pg_put_def l2 k pg_put_docs look_fold keyed_fold keyed_Nil)
  show "look k1 (op_first (pg_ops k1 k2) (fst (op_drop (pg_ops k1 k2) c i s)) c') =
      (if c' = c then (look k1 (op_first (pg_ops k1 k2) s c))(i := None) else look k1 (op_first (pg_ops k1 k2) s c'))"
    by (simp add: pg_ops_def pg_drop_def l1 k pg_drop_docs keyed_delete delete_conv')
  show "look k2 (op_second (pg_ops k1 k2) (fst (op_drop (pg_ops k1 k2) c i s)) c') = look k2 (op_second (pg_ops k1 k2) s c')"
    by (simp add: pg_ops_def pg_drop_def)
  show "snd (op_drop (pg_ops k1 k2) c i s) \<longleftrightarrow> look k1 (op_first (pg_ops k1 k2) s c) i \<noteq> None"
    by (simp add: pg_ops_def pg_drop_def l1 k pg_count keyed_count[OF k(1)])
  show "look k1 (op_first (pg_ops k1 k2) (fst (op_clear (pg_ops k1 k2) c s)) c') = (if c' = c then Map.empty else look k1 (op_first (pg_ops k1 k2) s c'))"
    "look k2 (op_second (pg_ops k1 k2) (fst (op_clear (pg_ops k1 k2) c s)) c') = (if c' = c then Map.empty else look k2 (op_second (pg_ops k1 k2) s c'))"
    by (simp_all add: pg_ops_def pg_clear_def l1 l2 k pg_filter_docs keyed_Nil)
qed

end
