(* ===== verification/Curb_Admin.thy ===== *)
theory Curb_Admin
  imports Curb_Store
begin

text \<open>
  The operations that change a city's open-mobility documents: the admin handlers of
  \<open>app/routers/openmobility.py\<close>, \<open>refresh_from_url\<close> and \<open>refresh_from_pim\<close> of \<open>app/openmobility.py\<close>.
  Downloads enter with what they returned.  The point of the theory is which of them keep every curb zone's
  policies resolvable.
\<close>

abbreviation ZONE_KEY :: string where "ZONE_KEY \<equiv> ''curb_zone_id''"
abbreviation POLICY_KEY :: string where "POLICY_KEY \<equiv> ''curb_policy_id''"

definition refs :: "string \<Rightarrow> json \<Rightarrow> string list" where
  "refs k j = List.map_filter (\<lambda>v. case v of JStr s \<Rightarrow> Some s | _ \<Rightarrow> None) (items (jfield j k))"

definition policy_refs :: "json \<Rightarrow> string list" where
  "policy_refs = refs ''curb_policy_ids''"

definition not_found :: "string \<Rightarrow> string \<Rightarrow> raised" where
  "not_found code m = Api (raise_error 404 code m None None)"

definition put_curbs :: "'s doc_ops \<Rightarrow> import_env \<Rightarrow> string \<Rightarrow> bool \<Rightarrow> json \<Rightarrow> 's \<Rightarrow> raised + 's" where
  "put_curbs ops e c replace body s = and_then (parse_curbs_document e body) (\<lambda>(zs, ps).
     let known = map (doc_id POLICY_KEY) ps @ (if replace then [] else map (doc_id POLICY_KEY) (op_second ops s c)) in
     if list_ex (\<lambda>z. list_ex (\<lambda>p. p \<notin> set known) (policy_refs z)) zs
     then Inl (unprocessable ''curb zone: unknown curb_policy_id'')
     else Inr (op_put ops c zs ps replace s))"

definition delete_curbs :: "'s doc_ops \<Rightarrow> string \<Rightarrow> string option \<Rightarrow> 's \<Rightarrow> raised + 's" where
  "delete_curbs ops c zone_id s = (if truthy_str zone_id
     then let (s', told) = op_drop ops c (the zone_id) s in
       if told then Inr s' else Inl (not_found ''CURB_ZONE_NOT_FOUND'' ''unknown curb zone'')
     else Inr (fst (op_clear ops c s)))"

definition geography_refs :: "json \<Rightarrow> string list" where
  \<comment> \<open>of all rules of a policy\<close>
  "geography_refs p = concat (map (refs ''geographies'') (items (jfield p ''rules'')))"

definition put_mds_documents :: "'s doc_ops \<Rightarrow> import_env \<Rightarrow> string \<Rightarrow> bool \<Rightarrow> json \<Rightarrow> 's \<Rightarrow> raised + 's" where
  "put_mds_documents ops e c replace body s = and_then (parse_mds_documents e body) (\<lambda>(ps, gs).
     let known = map (doc_id ''geography_id'') gs @ (if replace then [] else map (doc_id ''geography_id'') (op_second ops s c)) in
     if list_ex (\<lambda>p. list_ex (\<lambda>g. g \<notin> set known) (geography_refs p)) ps
     then Inl (unprocessable ''policy: unknown geography'')
     else Inr (op_put ops c ps gs replace s))"

definition upstream_error :: raised where
  "upstream_error = Api (raise_error 400 ''BAD_REQUEST'' ''could not refresh'' (Some ''UPSTREAM_ERROR'') (Some 502))"

definition refresh_from_url :: "'s doc_ops \<Rightarrow> import_env \<Rightarrow> string \<Rightarrow> json option \<Rightarrow> 's \<Rightarrow> raised + 's" where
  \<comment> \<open>the admin refresh of a CDS feed; every exception of the download or the parser is a 502\<close>
  "refresh_from_url ops e c doc s = (case doc of None \<Rightarrow> Inl upstream_error | Some d \<Rightarrow>
     (case parse_curbs_document e d of Inl _ \<Rightarrow> Inl upstream_error | Inr (zs, ps) \<Rightarrow> Inr (op_put ops c zs ps True s)))"

record pim_config =
  pm_scale :: rat
  pm_minor :: rat
  pm_currency :: "string option"

definition by_policy :: "json list \<Rightarrow> (string \<times> json) list \<Rightarrow> (string \<times> json) list" where
  "by_policy ps m = fold (\<lambda>p. AList.update (doc_id POLICY_KEY p) p) ps m"

definition refresh_from_pim :: "'s doc_ops \<Rightarrow> import_env \<Rightarrow> pim_config \<Rightarrow> string \<Rightarrow> json option \<Rightarrow> json option \<Rightarrow> 's \<Rightarrow> raised + 's" where
  \<comment> \<open>the two layers, \<open>None\<close> for a 304\<close>
  "refresh_from_pim ops e cfg c pol_fc curb_fc s = (if pol_fc = None \<and> curb_fc = None then Inr s else
     let zones_now = op_first ops s c; by_id0 = by_policy (op_second ops s c) [] in
     and_then (case pol_fc of None \<Rightarrow> Inr by_id0
        | Some fc \<Rightarrow> and_then (pim_policies_to_cds e (pm_scale cfg) (Some (pm_minor cfg)) (pm_currency cfg) fc)
            (\<lambda>ps. Inr (by_policy ps by_id0))) (\<lambda>by_id1.
     and_then (case curb_fc of None \<Rightarrow> Inr (zones_now, by_id1)
        | Some fc \<Rightarrow> and_then (elements (jfield fc ''features'')) (\<lambda>fs.
            and_then (pim_curbs e 0 fs (map fst by_id1)) (\<lambda>(zs, new). Inr (zs, by_policy new by_id1)))) (\<lambda>(zs, by_id2).
     let referenced = concat (map policy_refs zs);
         policies = map snd (filter (\<lambda>(i, p). i \<in> set referenced) by_id2)
     in Inr (op_put ops c zs policies True s))))"

datatype curb_request = PutCurbs bool json | DeleteCurbs "string option" | RefreshPim pim_config "json option" "json option"

definition curb_step :: "'s doc_ops \<Rightarrow> import_env \<Rightarrow> string \<Rightarrow> curb_request \<Rightarrow> 's \<Rightarrow> 's" where
  \<comment> \<open>a request that raises leaves the documents as they are\<close>
  "curb_step ops e c r s = (case (case r of PutCurbs rep b \<Rightarrow> put_curbs ops e c rep b s
       | DeleteCurbs z \<Rightarrow> delete_curbs ops c z s | RefreshPim cfg p q \<Rightarrow> refresh_from_pim ops e cfg c p q s)
     of Inl _ \<Rightarrow> s | Inr s' \<Rightarrow> s')"

definition resolves :: "'s doc_ops \<Rightarrow> string \<Rightarrow> 's \<Rightarrow> bool" where
  \<comment> \<open>every policy a stored zone names is stored\<close>
  "resolves ops c s \<longleftrightarrow> (\<forall>i z. look ZONE_KEY (op_first ops s c) i = Some z \<longrightarrow>
     set (policy_refs z) \<subseteq> dom (look POLICY_KEY (op_second ops s c)))"

section \<open>Canonical identifiers\<close>

lemma drop_all_absent: "t \<noteq> [] \<Longrightarrow> hd t \<notin> set s \<Longrightarrow> drop_all n t s = s"
  proof (induction n t s rule: drop_all.induct)
  case (2 n t s)
  then show ?case by (cases s; cases t) (auto simp: startswith_def)
qed simp

lemma canonical_undashed:
  assumes "CHR ''-'' \<notin> set h"
  shows "filter (\<lambda>c. c \<noteq> CHR ''-'') (canonical h) = h"
proof -
  have keep: "filter (\<lambda>c. c \<noteq> CHR ''-'') t = t" if "set t \<subseteq> set h" for t
    using that assms by (auto simp: filter_id_conv)
  have "filter (\<lambda>c. c \<noteq> CHR ''-'') (canonical h) = take 8 h @ take 4 (drop 8 h) @ take 4 (drop 12 h) @ take 4 (drop 16 h) @ drop 20 h"
    by (simp add: canonical_def keep[OF set_take_subset] keep[OF set_drop_subset] keep[OF subset_trans[OF set_take_subset set_drop_subset]])
  also have "\<dots> = h"
  proof -
    have glue: "take n (drop m h) @ drop (m + n) h = drop m h" for m n
      by (metis append_take_drop_id drop_drop add.commute)
    show ?thesis using glue[of 4 16] glue[of 4 12] glue[of 4 8] by simp
  qed
  finally show ?thesis .
qed

lemma parse_uuid_canonical:
  assumes "parse_uuid s = Some u"
  shows "parse_uuid u = Some u"
proof -
  obtain h where h: "length h = 32" "list_all hex_digit h" "lower h = h" "u = canonical h"
    using assms by (auto simp: parse_uuid_def Let_def split: if_splits)
  have sub: "set u \<subseteq> insert (CHR ''-'') (set h)"
    using h(4) by (auto simp: canonical_def dest: in_set_takeD in_set_dropD)
  have hex: "c \<in> set h \<Longrightarrow> hex_digit c" for c using h(2) by (auto simp: list_all_iff)
  have no: "CHR ''u'' \<notin> set u" "CHR ''{'' \<notin> set u" "CHR ''}'' \<notin> set u" "CHR ''-'' \<notin> set h"
    using sub hex by (auto simp: hex_digit_def)
  have d: "drop_all n ''uuid:'' u = u" "drop_all n ''urn:'' u = u" for n
    using no(1) by (auto intro!: drop_all_absent)
  have strip: "dropWhile (\<lambda>c. c \<in> set ''{}'') t = t" if "set t = set u" for t
    using that no by (cases t) auto
  have f: "filter (\<lambda>c. c \<noteq> CHR ''-'') u = h" unfolding h(4) by (rule canonical_undashed[OF no(4)])
  show ?thesis
    unfolding parse_uuid_def Let_def d strip[OF refl] strip[OF set_rev] rev_rev_ident f h(3)
    using h(1,2,4) by simp
qed

definition env_ok :: "import_env \<Rightarrow> bool" where
  \<comment> \<open>the digest's UUID is printed the way \<open>uuid.UUID\<close> prints\<close>
  "env_ok e \<longleftrightarrow> (\<forall>s. parse_uuid (im_hash_uuid e s) = Some (im_hash_uuid e s))"

lemma ensure_uuid_canonical: "env_ok e \<Longrightarrow> parse_uuid (ensure_uuid e v seed) = Some (ensure_uuid e v seed)"
  by (auto simp: ensure_uuid_def env_ok_def dest: parse_uuid_canonical split: option.split)

lemma ensure_uuid_again: "parse_uuid i = Some i \<Longrightarrow> ensure_uuid e (JStr i) seed = i"
  by (simp add: ensure_uuid_def)

section \<open>What the importers produce\<close>

lemma norm_policy_id:
  assumes "norm_policy e seed p = Inr q" "jfield p POLICY_KEY = JStr i" "parse_uuid i = Some i"
  shows "doc_id POLICY_KEY q = i"
proof -
  have o: "is_obj p" using assms(1) by (auto simp: norm_policy_def split: if_splits)
  obtain sd where q: "q = jput ''time_spans'' (jor (jfield p ''time_spans'') (JArr []))
           (jdefault ''published_date'' (JInt (im_now e))
             (jdefault ''priority'' (JInt 1) (jput POLICY_KEY (JStr (ensure_uuid e (jfield p POLICY_KEY) sd)) p)))"
    using assms(1) by (auto simp: norm_policy_def Let_def split: if_splits)
  have "jget q POLICY_KEY = Some (JStr (ensure_uuid e (jfield p POLICY_KEY) sd))"
    unfolding q using o by (simp add: jget_jput jget_jdefault)
  then show ?thesis using assms(2,3) by (simp add: doc_id_def jfield_def ensure_uuid_again)
qed

lemma placeholder_id: "placeholder e i = Inr q \<Longrightarrow> parse_uuid i = Some i \<Longrightarrow> doc_id POLICY_KEY q = i"
  unfolding placeholder_def by (erule norm_policy_id) (simp_all add: jfield_def jget_def)

lemma norm_zone_refs:
  assumes "norm_zone e seed z = Inr q" "jfield z ''curb_policy_ids'' = JArr (map JStr is)"
  shows "policy_refs q = is"
proof -
  have o: "is_obj z" using assms(1) by (auto simp: norm_zone_def split: if_splits)
  have el: "elements (JArr (map JStr is)) = Inr (map JStr is)" by (cases "is") (simp_all add: elements_def)
  obtain u where q: "q = jdefault ''start_date'' (JInt (im_now e))
            (jput ''last_updated_date'' (JInt (im_now e))
              (jdefault ''published_date'' (JInt (im_now e))
                (jput ''curb_policy_ids'' (JArr (map (JStr \<circ> str_of e) (map JStr is))) (jput ''curb_zone_id'' u z))))"
    using assms el by (auto simp: norm_zone_def Let_def split: if_splits)
  have "jfield q ''curb_policy_ids'' = JArr (map JStr is)"
    unfolding q using o by (simp add: jfield_def jget_jput jget_jdefault str_of_def o_def)
  then show ?thesis by (simp add: policy_refs_def refs_def items_def List.map_filter_def o_def)
qed

lemma pim_zone_refs: "pim_zone e i feat pids = Inr z \<Longrightarrow> policy_refs z = pids"
proof -
  assume z: "pim_zone e i feat pids = Inr z"
  have keep: "jfield (JObj (filter (\<lambda>(k, v). v \<noteq> JNull \<or> k = ''availability_time'') kvs)) k = JArr v"
    if "distinct (map fst kvs)" "map_of kvs k = Some (JArr v)" for kvs k v
    using map_of_filter_keep[OF that, of "\<lambda>(k, v). v \<noteq> JNull \<or> k = ''availability_time''"]
    by (simp add: jfield_def jget_def)
  show ?thesis using z unfolding pim_zone_def Let_def
    by (rule norm_zone_refs) (rule keep, simp_all)
qed

lemma pim_curbs_refs:
  "pim_curbs e i fs known = Inr (zs, new) \<Longrightarrow> env_ok e \<Longrightarrow> z \<in> set zs \<Longrightarrow>
    set (policy_refs z) \<subseteq> set known \<union> doc_id POLICY_KEY ` set new"
proof (induction e i fs known arbitrary: zs new rule: pim_curbs.induct)
  case (2 e i feat fs known)
  let ?props = "jor (jfield feat ''properties'') (JObj [])"
  show ?case
  proof (cases "truthy (jfield feat ''geometry'')")
    case False
    then have "pim_curbs e (Suc i) fs known = Inr (zs, new)" using 2(3) by (simp add: Let_def)
    from 2(1)[OF refl _ this 2(4,5)] show ?thesis using False by simp
  next
    case True
    then obtain pids pols z' zs' ps' where r: "pim_zone_ids e ?props = Inr pids"
      "traverse (placeholder e) (remdups (filter (\<lambda>p. p \<notin> set known) pids)) = Inr pols"
      "pim_zone e i feat pids = Inr z'" "pim_curbs e (Suc i) fs (known @ remdups (filter (\<lambda>p. p \<notin> set known) pids)) = Inr (zs', ps')"
      "zs = z' # zs'" "new = pols @ ps'"
      using 2(3) by (auto simp: Let_def)
    let ?fresh = "remdups (filter (\<lambda>p. p \<notin> set known) pids)"
    have can: "p \<in> set pids \<Longrightarrow> parse_uuid p = Some p" for p
      using r(1) ensure_uuid_canonical[OF 2(4)] by (auto simp: pim_zone_ids_def)
    have all: "list_all2 (\<lambda>p q. placeholder e p = Inr q) ?fresh pols" using r(2) by (simp add: traverse_Inr)
    have fresh: "set ?fresh \<subseteq> doc_id POLICY_KEY ` set pols"
    proof
      fix p assume p: "p \<in> set ?fresh"
      then obtain q where "q \<in> set pols" "placeholder e p = Inr q"
        using list_all2_in[OF all p] by blast
      then show "p \<in> doc_id POLICY_KEY ` set pols"
        using placeholder_id[of e p q] can p by (auto intro: rev_image_eqI)
    qed
    have pids: "set pids \<subseteq> set known \<union> set ?fresh" by auto
    show ?thesis
    proof (cases "z = z'")
      case True
      then show ?thesis using pim_zone_refs[OF r(3)] pids fresh r(6) by auto
    next
      case False
      then have "z \<in> set zs'" using 2(5) r(5) by simp
      from 2(2)[OF refl _ refl r(4) 2(4) this] show ?thesis
        using True fresh r(6) by auto
    qed
  qed
qed simp

section \<open>Every stored zone's policies are stored\<close>

lemma dom_look: "dom (look k js) = doc_id k ` set js"
  by (auto simp: look_def dom_map_of_conv_image_fst image_image)

lemma dom_upserted: "dom (upserted k js m) = doc_id k ` set js \<union> dom m"
  by (auto simp: upserted_def dom_look)

lemma upserted_Some: "upserted k js m i = Some j \<Longrightarrow> j \<in> set js \<or> m i = Some j"
  by (auto simp: upserted_def look_def map_add_Some_iff dest: map_of_SomeD)

lemma look_Some: "look k js i = Some j \<Longrightarrow> j \<in> set js \<and> i = doc_id k j"
  by (auto simp: look_def dest: map_of_SomeD)

lemma by_policy_keys: "fst ` set (by_policy ps m) = doc_id POLICY_KEY ` set ps \<union> fst ` set m"
  by (induction ps arbitrary: m) (auto simp: by_policy_def dom_update)

lemma by_policy_keyed: "keyed POLICY_KEY m \<Longrightarrow> keyed POLICY_KEY (by_policy ps m)"
  by (simp add: by_policy_def keyed_fold)

lemma keyed_kept:
  "keyed k m \<Longrightarrow> doc_id k ` set (map snd (filter (\<lambda>(i, p). i \<in> R) m)) = fst ` set m \<inter> R"
  by (force simp: keyed_def)

lemma refresh_from_pim_put:
  assumes "refresh_from_pim ops e cfg c p q s = Inr s'" "env_ok e" "resolves ops c s"
    and zk: "\<And>z. z \<in> set (op_first ops s c) \<Longrightarrow> look ZONE_KEY (op_first ops s c) (doc_id ZONE_KEY z) = Some z"
  shows "s' = s \<or> (\<exists>zs ps. s' = op_put ops c zs ps True s \<and> (\<forall>z \<in> set zs. set (policy_refs z) \<subseteq> doc_id POLICY_KEY ` set ps))"
proof (cases "p = None \<and> q = None")
  case True
  then show ?thesis using assms(1) by (simp add: refresh_from_pim_def)
next
  case False
  let ?b0 = "by_policy (op_second ops s c) []"
  have k0: "keyed POLICY_KEY ?b0" "fst ` set ?b0 = doc_id POLICY_KEY ` set (op_second ops s c)"
    by (simp_all add: by_policy_keyed keyed_Nil by_policy_keys)
  obtain b1 zs b2 where b: "(case p of None \<Rightarrow> Inr ?b0
        | Some fc \<Rightarrow> and_then (pim_policies_to_cds e (pm_scale cfg) (Some (pm_minor cfg)) (pm_currency cfg) fc)
            (\<lambda>ps. Inr (by_policy ps ?b0))) = Inr b1"
    "(case q of None \<Rightarrow> Inr (op_first ops s c, b1)
        | Some fc \<Rightarrow> and_then (elements (jfield fc ''features''))
            (\<lambda>fs. and_then (pim_curbs e 0 fs (map fst b1)) (\<lambda>(zs, new). Inr (zs, by_policy new b1)))) = Inr (zs, b2)"
    and s': "s' = op_put ops c zs (map snd (filter (\<lambda>(i, p). i \<in> set (concat (map policy_refs zs))) b2)) True s"
    using assms(1) False unfolding refresh_from_pim_def Let_def if_not_P[OF False] and_then_Inr by auto
  have b1: "keyed POLICY_KEY b1" "fst ` set ?b0 \<subseteq> fst ` set b1"
    using b(1) k0 by (auto simp: by_policy_keyed by_policy_keys split: option.splits)
  have b2: "keyed POLICY_KEY b2 \<and> (\<forall>z \<in> set zs. set (policy_refs z) \<subseteq> fst ` set b2)"
  proof (cases q)
    case None
    then have eq: "zs = op_first ops s c" "b2 = b1" using b(2) by simp_all
    have "set (policy_refs z) \<subseteq> fst ` set b1" if "z \<in> set zs" for z
    proof -
      have "set (policy_refs z) \<subseteq> dom (look POLICY_KEY (op_second ops s c))"
        using assms(3) zk that eq(1) unfolding resolves_def by blast
      then show ?thesis using k0(2) b1(2) by (simp add: dom_look)
    qed
    then show ?thesis using b1 eq by simp
  next
    case (Some fc)
    then obtain fs new where n: "pim_curbs e 0 fs (map fst b1) = Inr (zs, new)" "b2 = by_policy new b1"
      using b(2) by auto
    have "set (policy_refs z) \<subseteq> fst ` set b2" if "z \<in> set zs" for z
      using pim_curbs_refs[OF n(1) assms(2) that] by (auto simp: n(2) by_policy_keys)
    then show ?thesis using b1(1) n(2) by (simp add: by_policy_keyed)
  qed
  have "doc_id POLICY_KEY ` set (map snd (filter (\<lambda>(i, p). i \<in> set (concat (map policy_refs zs))) b2))
      = fst ` set b2 \<inter> set (concat (map policy_refs zs))"
    by (rule keyed_kept) (use b2 in simp)
  then have "\<forall>z \<in> set zs. set (policy_refs z) \<subseteq> doc_id POLICY_KEY ` set (map snd (filter (\<lambda>(i, p). i \<in> set (concat (map policy_refs zs))) b2))"
    using b2 by fastforce
  then show ?thesis using s' by blast
qed

locale curb_store = doc_store ops ok "''curb_zone_id''" "''curb_policy_id''" for ops :: "'s doc_ops" and ok +
  assumes listed: "ok s \<Longrightarrow> z \<in> set (op_first ops s c) \<Longrightarrow> look ''curb_zone_id'' (op_first ops s c) (doc_id ''curb_zone_id'' z) = Some z"
begin

lemma put_resolves:
  assumes "ok s" "r \<or> resolves ops c s"
    and "\<And>z. z \<in> set zs \<Longrightarrow> set (policy_refs z) \<subseteq> doc_id POLICY_KEY ` set ps \<union> (if r then {} else dom (look POLICY_KEY (op_second ops s c)))"
  shows "resolves ops c (op_put ops c zs ps r s)"
  unfolding resolves_def put_first[OF assms(1)] put_second[OF assms(1)] dom_upserted
proof (intro allI impI)
  fix i z assume "(if c = c then upserted ZONE_KEY zs (if r then Map.empty else look ZONE_KEY (op_first ops s c))
    else look ZONE_KEY (op_first ops s c)) i = Some z"
  then have "z \<in> set zs \<or> \<not> r \<and> look ZONE_KEY (op_first ops s c) i = Some z"
    by (auto dest!: upserted_Some split: if_splits)
  then show "set (policy_refs z) \<subseteq> dom (if c = c then upserted POLICY_KEY ps (if r then Map.empty else look POLICY_KEY (op_second ops s c))
      else look POLICY_KEY (op_second ops s c))"
  proof
    assume "z \<in> set zs"
    from assms(3)[OF this] show ?thesis by (simp add: dom_upserted split: if_splits)
  next
    assume "\<not> r \<and> look ZONE_KEY (op_first ops s c) i = Some z"
    then have "set (policy_refs z) \<subseteq> dom (look POLICY_KEY (op_second ops s c))" "\<not> r"
      using assms(2) unfolding resolves_def by blast+
    then show ?thesis by (auto simp: dom_upserted)
  qed
qed

lemma put_curbs_resolves:
  assumes "ok s" "resolves ops c s" "put_curbs ops e c r b s = Inr s'"
  shows "ok s' \<and> resolves ops c s'"
proof -
  obtain zs ps where p: "parse_curbs_document e b = Inr (zs, ps)" "s' = op_put ops c zs ps r s"
    and known: "\<And>z p. z \<in> set zs \<Longrightarrow> p \<in> set (policy_refs z) \<Longrightarrow>
       p \<in> set (map (doc_id POLICY_KEY) ps @ (if r then [] else map (doc_id POLICY_KEY) (op_second ops s c)))"
    using assms(3) by (auto simp: put_curbs_def Let_def list_ex_iff split: if_splits)
  have "resolves ops c (op_put ops c zs ps r s)"
  proof (rule put_resolves[OF assms(1)])
    show "r \<or> resolves ops c s" using assms(2) by simp
    show "set (policy_refs z) \<subseteq> doc_id POLICY_KEY ` set ps \<union> (if r then {} else dom (look POLICY_KEY (op_second ops s c)))"
      if "z \<in> set zs" for z
    proof
      fix x assume "x \<in> set (policy_refs z)"
      from known[OF that this]
      show "x \<in> doc_id POLICY_KEY ` set ps \<union> (if r then {} else dom (look POLICY_KEY (op_second ops s c)))"
        by (cases r) (auto simp: dom_look)
    qed
  qed
  then show ?thesis using put_ok[OF assms(1)] p(2) by simp
qed

lemma delete_curbs_resolves:
  assumes "ok s" "resolves ops c s" "delete_curbs ops c z s = Inr s'"
  shows "ok s' \<and> resolves ops c s'"
proof (cases "truthy_str z")
  case True
  then have s': "s' = fst (op_drop ops c (the z) s)"
    using assms(3) by (auto simp: delete_curbs_def Let_def split: prod.splits if_splits)
  then show ?thesis
    using assms(1,2) by (auto simp: resolves_def drop_ok drop_first drop_second split: if_splits)
next
  case False
  then have "s' = fst (op_clear ops c s)" using assms(3) by (simp add: delete_curbs_def)
  then show ?thesis using assms(1) by (simp add: resolves_def clear_ok clear_first)
qed

lemma pim_resolves:
  assumes "ok s" "resolves ops c s" "env_ok e" "refresh_from_pim ops e cfg c p q s = Inr s'"
  shows "ok s' \<and> resolves ops c s'"
proof -
  from refresh_from_pim_put[OF assms(4,3,2) listed[OF assms(1)]]
  consider "s' = s" | zs ps where "s' = op_put ops c zs ps True s" "\<forall>z \<in> set zs. set (policy_refs z) \<subseteq> doc_id POLICY_KEY ` set ps"
    by blast
  then show ?thesis
  proof cases
    case 1
    then show ?thesis using assms(1,2) by simp
  next
    case 2
    have "resolves ops c (op_put ops c zs ps True s)"
      by (rule put_resolves[OF assms(1)]) (use 2(2) in auto)
    then show ?thesis using put_ok[OF assms(1)] 2(1) by simp
  qed
qed

lemma step_resolves:
  assumes "ok s" "resolves ops c s" "env_ok e"
  shows "ok (curb_step ops e c r s) \<and> resolves ops c (curb_step ops e c r s)"
proof (cases r)
  case (PutCurbs rep b)
  then show ?thesis using assms put_curbs_resolves[OF assms(1,2), of e rep b]
    by (cases "put_curbs ops e c rep b s") (simp_all add: curb_step_def)
next
  case (DeleteCurbs z)
  then show ?thesis using assms delete_curbs_resolves[OF assms(1,2), of z]
    by (cases "delete_curbs ops c z s") (simp_all add: curb_step_def)
next
  case (RefreshPim cfg p q)
  then show ?thesis using assms pim_resolves[OF assms, of cfg p q]
    by (cases "refresh_from_pim ops e cfg c p q s") (simp_all add: curb_step_def)
qed

lemma run_resolves:
  "ok s \<Longrightarrow> resolves ops c s \<Longrightarrow> env_ok e \<Longrightarrow> resolves ops c (fold (curb_step ops e c) rs s)"
  by (induction rs arbitrary: s) (simp_all add: step_resolves)

end

lemma look_listed: "keyed k d \<Longrightarrow> z \<in> set (map snd d) \<Longrightarrow> look k (map snd d) (doc_id k z) = Some z"
  unfolding look_keyed by (auto simp: keyed_def intro!: map_of_is_SomeI)

interpretation mem_curbs: curb_store "mem_ops ''curb_zone_id'' ''curb_policy_id''" "mem_ok ''curb_zone_id'' ''curb_policy_id''"
proof
  fix s z c
  assume "mem_ok ''curb_zone_id'' ''curb_policy_id'' s" "z \<in> set (op_first (mem_ops ''curb_zone_id'' ''curb_policy_id'') s c)"
  then show "look ''curb_zone_id'' (op_first (mem_ops ''curb_zone_id'' ''curb_policy_id'') s c) (doc_id ''curb_zone_id'' z) = Some z"
    by (simp add: mem_ops_def mem_list_def mem_ok_def look_listed)
qed

interpretation pg_curbs: curb_store "pg_ops ''curb_zone_id'' ''curb_policy_id''" "pg_ok ''curb_zone_id'' ''curb_policy_id''"
proof
  fix s z c
  assume "pg_ok ''curb_zone_id'' ''curb_policy_id'' s" "z \<in> set (op_first (pg_ops ''curb_zone_id'' ''curb_policy_id'') s c)"
  then show "look ''curb_zone_id'' (op_first (pg_ops ''curb_zone_id'' ''curb_policy_id'') s c) (doc_id ''curb_zone_id'' z) = Some z"
    by (simp add: pg_ops_def pg_list_docs pg_ok_def look_listed)
qed

text \<open>C40: Whatever sequence of admin uploads (replacing or adding), deletions of zones, clearings and PIM refreshes a
  city's curb inventory goes through from empty, with documents of any shape and with requests that fail in
  between, every policy a stored zone names is stored, in Postgres and in the in-memory store: the
  evaluation never meets a zone whose rules are missing.\<close>
lemma curb_policies_always_resolve:
  assumes "env_ok e"
  shows "resolves (pg_ops ''curb_zone_id'' ''curb_policy_id'') c
       (fold (curb_step (pg_ops ''curb_zone_id'' ''curb_policy_id'') e c) rs \<lparr>pg_first = [], pg_second = []\<rparr>)
    \<and> resolves (mem_ops ''curb_zone_id'' ''curb_policy_id'') c
       (fold (curb_step (mem_ops ''curb_zone_id'' ''curb_policy_id'') e c) rs \<lparr>ms_first = [], ms_second = []\<rparr>)"
proof
  show "resolves (pg_ops ''curb_zone_id'' ''curb_policy_id'') c
       (fold (curb_step (pg_ops ''curb_zone_id'' ''curb_policy_id'') e c) rs \<lparr>pg_first = [], pg_second = []\<rparr>)"
    by (rule pg_curbs.run_resolves[OF _ _ assms])
      (simp_all add: pg_ok_def keyed_Nil resolves_def pg_ops_def pg_list_def look_def)
  show "resolves (mem_ops ''curb_zone_id'' ''curb_policy_id'') c
       (fold (curb_step (mem_ops ''curb_zone_id'' ''curb_policy_id'') e c) rs \<lparr>ms_first = [], ms_second = []\<rparr>)"
    by (rule mem_curbs.run_resolves[OF _ _ assms])
      (simp_all add: mem_ok_def keyed_Nil resolves_def mem_ops_def mem_list_def docs_of_def look_def)
qed

definition demo_import :: import_env where
  "demo_import = \<lparr>im_dumps = \<lambda>_. [], im_repr = \<lambda>_. [], im_hash_uuid = \<lambda>_. ''00000000-0000-5000-8000-000000000000'', im_now = 0\<rparr>"

lemma demo_import_ok: "env_ok demo_import"
proof -
  have "parse_uuid ''00000000-0000-5000-8000-000000000000'' = Some ''00000000-0000-5000-8000-000000000000''" by code_simp
  then show ?thesis by (simp add: env_ok_def demo_import_def)
qed

lemma curb_policies_always_resolve_witness:
  "resolves (pg_ops ''curb_zone_id'' ''curb_policy_id'') ''bogota''
     (fold (curb_step (pg_ops ''curb_zone_id'' ''curb_policy_id'') demo_import ''bogota'') [PutCurbs True JNull, DeleteCurbs None]
        \<lparr>pg_first = [], pg_second = []\<rparr>)"
  using curb_policies_always_resolve[OF demo_import_ok] by blast

section \<open>Two ways around the check\<close>

definition square :: json where
  "square = JObj [(''type'', JStr ''Point''), (''coordinates'', JArr [JInt 0, JInt 0])]"

definition own_ids :: json where
  \<comment> \<open>a CDS document with the operator's own identifiers, consistent in itself\<close>
  "own_ids = JObj
     [(''zones'', JArr [JObj [(''curb_zone_id'', JStr ''z1''), (''geometry'', square), (''curb_policy_ids'', JArr [JStr ''p1''])]]),
      (''policies'', JArr [JObj [(''curb_policy_id'', JStr ''p1''), (''rules'', JArr [JObj [(''activity'', JStr ''parking'')]])]])]"

text \<open>An upload whose ids are not UUIDs is refused even when it is consistent: the policy is renamed to a derived
  UUID but the zone's reference to it is not, so the reference looks unknown.  The handler promises that ids that
  are not UUIDs are derived.  The refresh of a feed, which does not check, stores the same document with a
  zone whose policy does not resolve.\<close>
lemma own_policy_ids_do_not_resolve:
  "put_curbs (pg_ops ''curb_zone_id'' ''curb_policy_id'') demo_import ''bogota'' True own_ids \<lparr>pg_first = [], pg_second = []\<rparr>
     = Inl (unprocessable ''curb zone: unknown curb_policy_id'')
   \<and> (\<exists>s. refresh_from_url (pg_ops ''curb_zone_id'' ''curb_policy_id'') demo_import ''bogota'' (Some own_ids) \<lparr>pg_first = [], pg_second = []\<rparr> = Inr s
        \<and> \<not> resolves (pg_ops ''curb_zone_id'' ''curb_policy_id'') ''bogota'' s)"
proof -
  have u: "parse_uuid ''p1'' = None" "parse_uuid ''z1'' = None" by code_simp+
  obtain zs ps where d: "parse_curbs_document demo_import own_ids = Inr (zs, ps)"
    and z: "map policy_refs zs = [[''p1'']]" and p: "map (doc_id POLICY_KEY) ps = [''00000000-0000-5000-8000-000000000000'']"
    and zi: "map (doc_id ZONE_KEY) zs = [''00000000-0000-5000-8000-000000000000'']"
    by (simp add: parse_curbs_document_def own_ids_def square_def document_data_def as_array_def norm_zone_def norm_policy_def
      elements_def check_rule_def ACTIVITIES_def ensure_uuid_def u demo_import_def str_of_def jor_def is_obj_def jfield_def jget_def
      jput_def jdefault_def policy_refs_def refs_def items_def doc_id_def List.map_filter_simps Let_def and_then_def)
  obtain z0 p0 where zp: "zs = [z0]" "ps = [p0]" using z p by auto
  have z0: "policy_refs z0 = [''p1'']" "doc_id POLICY_KEY p0 = ''00000000-0000-5000-8000-000000000000''"
    "doc_id ZONE_KEY z0 = ''00000000-0000-5000-8000-000000000000''" using z p zi zp by simp_all
  show ?thesis
    by (simp add: put_curbs_def refresh_from_url_def d zp z0 Let_def resolves_def pg_ops_def pg_put_def pg_upsert_def pg_delete_city_def
      pg_list_def look_def)
qed

end
