(* ===== verification/Config_Schema.thy ===== *)
theory Config_Schema
  imports Json_Value
begin

text \<open>
  The declarations of \<open>app/admin_config.py\<close> are pydantic models with \<open>extra="forbid"\<close>.  A model is the
  list of its fields, each with a type, constraints and a default; what a value of the declared shape is
  (\<open>fits\<close>) and what \<open>model_dump\<close> adds to it (\<open>fill\<close>) are documented.  Which other values pydantic
  coerces is not, so the validator itself is an argument: \<open>pydantic mv\<close> says what the code relies
  on, and \<open>strict\<close> is a validator that has it.
\<close>

datatype schema = SBool
  | SInt "int \<Rightarrow> bool"
  | SFloat "rat \<Rightarrow> bool"
  | SStr "string \<Rightarrow> bool"
  | SLit "string list"
  | SOpt schema
  | SArr "nat \<Rightarrow> bool" schema
  | SMap "string list \<Rightarrow> bool" schema
  | SModel "(string \<times> schema \<times> json option) list" "json \<Rightarrow> bool"

definition fields_size :: "(string \<times> schema \<times> json option) list \<Rightarrow> nat" where
  "fields_size = size_list (size_prod (\<lambda>_. 0) (size_prod size (\<lambda>_. 0)))"

function (sequential) fill :: "schema \<Rightarrow> json \<Rightarrow> json"
  and fill_fields :: "(string \<times> schema \<times> json option) list \<Rightarrow> (string \<times> json) list \<Rightarrow> (string \<times> json) list" where
  "fill (SOpt s) j = (if j = JNull then JNull else fill s j)"
| "fill (SArr n s) (JArr js) = JArr (map (fill s) js)"
| "fill (SMap ok s) (JObj kvs) = JObj (map (\<lambda>(k, v). (k, fill s v)) kvs)"
| "fill (SModel fs ok) (JObj kvs) = JObj (fill_fields fs kvs)"
| "fill s j = j"
| "fill_fields [] kvs = []"
| "fill_fields ((k, s, d) # fs) kvs =
     (k, case map_of kvs k of None \<Rightarrow> or_else d JNull | Some v \<Rightarrow> fill s v) # fill_fields fs kvs"
  by pat_completeness auto
termination
  by (relation "measure (case_sum (\<lambda>(s, _). size s) (\<lambda>(fs, _). fields_size fs))") (simp_all add: fields_size_def)

function (sequential) fits :: "schema \<Rightarrow> json \<Rightarrow> bool"
  and fits_fields :: "(string \<times> schema \<times> json option) list \<Rightarrow> (string \<times> json) list \<Rightarrow> bool" where
  "fits SBool j = (case j of JBool _ \<Rightarrow> True | _ \<Rightarrow> False)"
| "fits (SInt ok) j = (case j of JInt n \<Rightarrow> ok n | _ \<Rightarrow> False)"
| "fits (SFloat ok) j = (case j of JFloat x \<Rightarrow> ok x | _ \<Rightarrow> False)"
| "fits (SStr ok) j = (case j of JStr s \<Rightarrow> ok s | _ \<Rightarrow> False)"
| "fits (SLit ws) j = (case j of JStr s \<Rightarrow> s \<in> set ws | _ \<Rightarrow> False)"
| "fits (SOpt s) j = (j = JNull \<or> fits s j)"
| "fits (SArr ok s) j = (case j of JArr js \<Rightarrow> ok (length js) \<and> list_all (fits s) js | _ \<Rightarrow> False)"
| "fits (SMap ok s) j = (case j of JObj kvs \<Rightarrow> distinct (map fst kvs) \<and> ok (map fst kvs) \<and> list_all (\<lambda>(k, v). fits s v) kvs | _ \<Rightarrow> False)"
| "fits (SModel fs ok) j = (case j of JObj kvs \<Rightarrow>
     distinct (map fst kvs) \<and> set (map fst kvs) \<subseteq> set (map fst fs) \<and> fits_fields fs kvs \<and> ok (fill (SModel fs ok) j) | _ \<Rightarrow> False)"
| "fits_fields [] kvs = True"
| "fits_fields ((k, s, d) # fs) kvs =
     ((case map_of kvs k of None \<Rightarrow> d \<noteq> None | Some v \<Rightarrow> fits s v) \<and> fits_fields fs kvs)"
  by pat_completeness auto
termination
  by (relation "measure (case_sum (\<lambda>(s, _). size s) (\<lambda>(fs, _). fields_size fs))") (simp_all add: fields_size_def)

function (sequential) defaults_ok :: "schema \<Rightarrow> bool" and defaults_ok_fields :: "(string \<times> schema \<times> json option) list \<Rightarrow> bool" where
  \<comment> \<open>field names are different and every default is a value of its field, which pydantic does not check\<close>
  "defaults_ok (SOpt s) = defaults_ok s"
| "defaults_ok (SArr n s) = defaults_ok s"
| "defaults_ok (SMap ok s) = defaults_ok s"
| "defaults_ok (SModel fs ok) = (distinct (map fst fs) \<and> defaults_ok_fields fs)"
| "defaults_ok s = True"
| "defaults_ok_fields [] = True"
| "defaults_ok_fields ((k, s, d) # fs) = (defaults_ok s \<and> (case d of None \<Rightarrow> True | Some v \<Rightarrow> fits s v \<and> fill s v = v) \<and> defaults_ok_fields fs)"
  by pat_completeness auto
termination
  by (relation "measure (case_sum size fields_size)") (simp_all add: fields_size_def)

definition blank :: "schema \<Rightarrow> json" where
  \<comment> \<open>\<open>Model()\<close>\<close>
  "blank s = fill s (JObj [])"

definition pydantic :: "(schema \<Rightarrow> json \<Rightarrow> string + json) \<Rightarrow> bool" where
  \<comment> \<open>\<open>model_validate(v).model_dump()\<close>: the message of the first error or a full value of the model; a
    value that already has the declared types is only completed\<close>
  "pydantic mv \<longleftrightarrow> (\<forall>s v d. defaults_ok s \<longrightarrow> mv s v = Inr d \<longrightarrow> fits s d \<and> fill s d = d)
     \<and> (\<forall>s v. defaults_ok s \<longrightarrow> fits s v \<longrightarrow> mv s v = Inr (fill s v))"

definition strict :: "schema \<Rightarrow> json \<Rightarrow> string + json" where
  "strict s v = (if fits s v then Inr (fill s v) else Inl ''invalid'')"

section \<open>Completed values\<close>

lemma fill_fields_keys [simp]: "map fst (fill_fields fs kvs) = map fst fs"
  by (induction fs) auto

lemma fill_fields_absent: "k \<notin> fst ` set fs \<Longrightarrow> map_of (fill_fields fs kvs) k = None"
  by (metis fill_fields_keys list.set_map map_of_eq_None_iff)

lemma fill_fields_lookup:
  "distinct (map fst fs) \<Longrightarrow> (k, s, d) \<in> set fs \<Longrightarrow>
    map_of (fill_fields fs kvs) k = Some (case map_of kvs k of None \<Rightarrow> or_else d JNull | Some v \<Rightarrow> fill s v)"
  by (induction fs) (auto intro: rev_image_eqI)

lemma fill_keys: "fill (SMap ok s) (JObj kvs) = JObj (map (map_prod id (fill s)) kvs)"
  by (simp add: map_prod_def)

lemma fits_fields_iff:
  "fits_fields fs kvs \<longleftrightarrow> (\<forall>(k, s, d) \<in> set fs. case map_of kvs k of None \<Rightarrow> d \<noteq> None | Some v \<Rightarrow> fits s v)"
  by (induction fs) auto

lemma fill_fields_map:
  "fill_fields fs kvs = map (\<lambda>(k, s, d). (k, case map_of kvs k of None \<Rightarrow> or_else d JNull | Some v \<Rightarrow> fill s v)) fs"
  by (induction fs) auto

definition completes :: "schema \<Rightarrow> json \<Rightarrow> bool" where
  "completes s j \<longleftrightarrow> fits s (fill s j) \<and> fill s (fill s j) = fill s j"

lemma fields_complete:
  assumes d: "distinct (map fst fs)" and f: "fits_fields fs kvs"
    and each: "\<And>k s d. (k, s, d) \<in> set fs \<Longrightarrow> (\<forall>v. fits s v \<longrightarrow> completes s v) \<and> (\<forall>v. d = Some v \<longrightarrow> fits s v \<and> fill s v = v)"
  shows "fits_fields fs (fill_fields fs kvs) \<and> fill_fields fs (fill_fields fs kvs) = fill_fields fs kvs"
proof -
  have one: "fits s w \<and> fill s w = w" if m: "(k, s, d) \<in> set fs" "map_of (fill_fields fs kvs) k = Some w" for k s d w
  proof (cases "map_of kvs k")
    case None
    then have "d \<noteq> None" using f m(1) by (auto simp: fits_fields_iff)
    then show ?thesis using each[OF m(1)] None m fill_fields_lookup[OF d m(1)] by auto
  next
    case (Some v)
    then have "fits s v" using f m(1) by (auto simp: fits_fields_iff)
    then have "completes s v" using each[OF m(1)] by blast
    then show ?thesis using Some m fill_fields_lookup[OF d m(1)] by (simp add: completes_def)
  qed
  have look: "\<exists>w. map_of (fill_fields fs kvs) k = Some w" if "(k, s, d) \<in> set fs" for k s d
    using fill_fields_lookup[OF d that] by blast
  have "fits_fields fs (fill_fields fs kvs)"
    unfolding fits_fields_iff using one look by (fastforce split: option.split)
  moreover define K where "K = fill_fields fs kvs"
  have "fill_fields fs K = fill_fields fs kvs"
    unfolding fill_fields_map
  proof (rule map_cong[OF refl], clarsimp)
    fix k s d assume m: "(k, s, d) \<in> set fs"
    from look[OF m] obtain w where w: "map_of K k = Some w" by (auto simp: K_def)
    have "w = (case map_of kvs k of None \<Rightarrow> or_else d JNull | Some v \<Rightarrow> fill s v)"
      using fill_fields_lookup[OF d m] w by (simp add: K_def)
    then show "(case map_of K k of None \<Rightarrow> or_else d JNull | Some v \<Rightarrow> fill s v)
        = (case map_of kvs k of None \<Rightarrow> or_else d JNull | Some v \<Rightarrow> fill s v)"
      using one[OF m w[unfolded K_def]] w by simp
  qed
  then have "fill_fields fs (fill_fields fs kvs) = fill_fields fs kvs" by (simp add: K_def)
  ultimately show ?thesis by simp
qed

lemma fill_full_all:
  "defaults_ok s \<longrightarrow> (\<forall>j. fits s j \<longrightarrow> completes s j)"
  "defaults_ok_fields fs \<longrightarrow> (\<forall>(k, s, d) \<in> set fs. (\<forall>v. fits s v \<longrightarrow> completes s v) \<and> (\<forall>v. d = Some v \<longrightarrow> fits s v \<and> fill s v = v))"
proof (induction s and fs rule: defaults_ok_defaults_ok_fields.induct)
  case (4 fs ok)
  show ?case
  proof (intro impI allI)
    fix j assume a: "defaults_ok (SModel fs ok)" "fits (SModel fs ok) j"
    then obtain kvs where j: "j = JObj kvs" "fits_fields fs kvs" "ok (JObj (fill_fields fs kvs))" by (auto split: json.splits)
    have e: "\<forall>(k, s, d) \<in> set fs. (\<forall>v. fits s v \<longrightarrow> completes s v) \<and> (\<forall>v. d = Some v \<longrightarrow> fits s v \<and> fill s v = v)"
      using 4 a(1) by simp
    have "fits_fields fs (fill_fields fs kvs) \<and> fill_fields fs (fill_fields fs kvs) = fill_fields fs kvs"
      by (rule fields_complete) (use a(1) j(2) e in auto)
    then show "completes (SModel fs ok) j" using a(1) j by (simp add: completes_def)
  qed
next
  case (2 n s)
  show ?case
  proof (intro impI allI)
    fix j assume a: "defaults_ok (SArr n s)" "fits (SArr n s) j"
    then obtain js where "j = JArr js" "n (length js)" "\<forall>v \<in> set js. fits s v" by (auto simp: list_all_iff split: json.splits)
    then show "completes (SArr n s) j" using 2 a(1) by (simp add: completes_def list_all_iff)
  qed
next
  case (3 ok s)
  show ?case
  proof (intro impI allI)
    fix j assume a: "defaults_ok (SMap ok s)" "fits (SMap ok s) j"
    then obtain kvs where j: "j = JObj kvs" "distinct (map fst kvs)" "ok (map fst kvs)" "\<forall>(k, v) \<in> set kvs. fits s v"
      by (auto simp: list_all_iff split: json.splits)
    have "map fst (map (\<lambda>(k, v). (k, fill s v)) kvs) = map fst kvs" by (simp add: case_prod_beta o_def)
    moreover have c: "\<forall>j. fits s j \<longrightarrow> completes s j" using 3 a(1) by simp
    moreover have "map (\<lambda>(k, v). (k, fill s v)) (map (\<lambda>(k, v). (k, fill s v)) kvs) = map (\<lambda>(k, v). (k, fill s v)) kvs"
      unfolding map_map by (rule map_cong[OF refl]) (use j(4) c in \<open>auto simp: completes_def\<close>)
    ultimately show "completes (SMap ok s) j" using j
      unfolding completes_def by (auto simp: list_all_iff case_prod_beta simp del: map_map)
  qed
qed (auto simp: completes_def split: json.splits option.splits)

lemma fill_full: "defaults_ok s \<Longrightarrow> fits s j \<Longrightarrow> fits s (fill s j) \<and> fill s (fill s j) = fill s j"
  using fill_full_all(1)[of s] by (simp add: completes_def)

lemma strict_pydantic: "pydantic strict"
  by (auto simp: pydantic_def strict_def fill_full)

end
