(* ===== verification/Admin_Schema.thy ===== *)
theory Admin_Schema
  imports Config_Schema
begin

text \<open>
  The validation classes of \<open>app/admin_config.py\<close>, one schema per class, fields, constraints and defaults
  in the order of the source.  Strings are UTF-8; lengths count code points.
\<close>

section \<open>Constraints\<close>

definition text_len :: "string \<Rightarrow> nat" where
  \<comment> \<open>characters of a UTF-8 text: continuation bytes do not count\<close>
  "text_len s = length (filter (\<lambda>c. \<not> (128 \<le> (of_char c :: nat) \<and> (of_char c :: nat) < 192)) s)"

definition anything :: "'a \<Rightarrow> bool" where "anything x = True"
definition ranged :: "'a::linorder \<Rightarrow> 'a \<Rightarrow> 'a \<Rightarrow> bool" where "ranged a b x \<longleftrightarrow> a \<le> x \<and> x \<le> b"
definition at_most :: "nat \<Rightarrow> nat \<Rightarrow> bool" where "at_most n k \<longleftrightarrow> k \<le> n"
definition nonneg :: "rat \<Rightarrow> bool" where "nonneg x \<longleftrightarrow> 0 \<le> x"
definition pos_upto :: "rat \<Rightarrow> rat \<Rightarrow> bool" where "pos_upto b x \<longleftrightarrow> 0 < x \<and> x \<le> b"
definition texts :: "nat \<Rightarrow> nat \<Rightarrow> string \<Rightarrow> bool" where "texts a b s \<longleftrightarrow> a \<le> text_len s \<and> text_len s \<le> b"

definition is_lower :: "char \<Rightarrow> bool" where "is_lower c \<longleftrightarrow> CHR ''a'' \<le> c \<and> c \<le> CHR ''z''"
definition is_upper :: "char \<Rightarrow> bool" where "is_upper c \<longleftrightarrow> CHR ''A'' \<le> c \<and> c \<le> CHR ''Z''"
definition is_alpha :: "char \<Rightarrow> bool" where "is_alpha c \<longleftrightarrow> is_lower c \<or> is_upper c"
definition is_hex :: "char \<Rightarrow> bool" where "is_hex c \<longleftrightarrow> is_digit c \<or> c \<in> set ''abcdefABCDEF''"

definition slug :: "string \<Rightarrow> bool" where
  "slug s \<longleftrightarrow> ranged 1 40 (length s) \<and> list_all (\<lambda>c. is_lower c \<or> is_digit c \<or> c = CHR ''-'') s"

definition colour :: "string \<Rightarrow> bool" where
  "colour s \<longleftrightarrow> length s = 7 \<and> s ! 0 = CHR 0x23 \<and> list_all is_hex (tl s)"

definition currency_code :: "string \<Rightarrow> bool" where "currency_code s \<longleftrightarrow> length s = 3 \<and> list_all is_upper s"

definition version_text :: "string \<Rightarrow> bool" where
  "version_text s \<longleftrightarrow> length (split_on (CHR ''.'') s) = 3 \<and> list_all (\<lambda>p. p \<noteq> [] \<and> list_all is_digit p) (split_on (CHR ''.'') s)"

definition network_name_ok :: "string \<Rightarrow> bool" where
  "network_name_ok s \<longleftrightarrow> ranged 1 60 (length s) \<and> list_all (\<lambda>c. is_alpha c \<or> is_digit c \<or> c \<in> set ''_.-'') s"

definition clock_ok :: "string \<Rightarrow> bool" where
  \<comment> \<open>\<open>_HM\<close>\<close>
  "clock_ok s \<longleftrightarrow> length s = 5 \<and> s ! 2 = CHR '':'' \<and> list_all is_digit [s ! 0, s ! 1, s ! 3, s ! 4]
     \<and> (s ! 0 \<in> set ''01'' \<or> s ! 0 = CHR ''2'' \<and> s ! 1 \<in> set ''0123'') \<and> s ! 3 \<in> set ''012345''"

definition date_ok :: "string \<Rightarrow> bool" where
  "date_ok s \<longleftrightarrow> length s = 10 \<and> s ! 4 = CHR ''-'' \<and> s ! 7 = CHR ''-'' \<and> list_all is_digit (take 4 s @ [s ! 5, s ! 6, s ! 8, s ! 9])"

definition scheme_ok :: "string \<Rightarrow> bool" where
  "scheme_ok s \<longleftrightarrow> s \<noteq> [] \<and> is_lower (hd s)
     \<and> startswith (dropWhile (\<lambda>c. is_lower c \<or> is_digit c \<or> c \<in> set ''+.-'') s) ''://''"

definition digest_ok :: "string \<Rightarrow> bool" where
  "digest_ok s \<longleftrightarrow> length s = 64 \<and> list_all (\<lambda>c. is_digit c \<or> c \<in> set ''abcdef'') s"

definition claim_ok :: "string \<Rightarrow> bool" where
  "claim_ok s \<longleftrightarrow> ranged 1 61 (length s) \<and> (is_alpha (hd s) \<or> hd s = CHR ''_'')
     \<and> list_all (\<lambda>c. is_alpha c \<or> is_digit c \<or> c \<in> set ''_.-'') (tl s)"

definition mds_version_ok :: "string \<Rightarrow> bool" where "mds_version_ok s \<longleftrightarrow> version_text s \<and> startswith s ''2.''"

definition phone_ok :: "string \<Rightarrow> bool" where
  "phone_ok s \<longleftrightarrow> ranged 2 20 (length s) \<and> (is_digit (hd s) \<or> hd s = CHR ''+'')
     \<and> list_all (\<lambda>c. is_digit c \<or> c \<in> set '' ()-'') (tl s)"

definition locale_ok :: "string \<Rightarrow> bool" where
  "locale_ok s \<longleftrightarrow> (length s = 2 \<or> length s = 5 \<and> s ! 2 = CHR ''-'' \<and> list_all is_upper (drop 3 s)) \<and> list_all is_lower (take 2 s)"

definition email_ok :: "string \<Rightarrow> bool" where
  "email_ok s \<longleftrightarrow> list_all (\<lambda>c. \<not> is_space c) s \<and> (case split_on (CHR 0x40) s of
     [a, d] \<Rightarrow> a \<noteq> [] \<and> list_ex (\<lambda>i. d ! i = CHR ''.'' \<and> 0 < i) [0..<length d - 1] | _ \<Rightarrow> False)"

definition https :: "string \<Rightarrow> bool" where
  \<comment> \<open>\<open>_https\<close>\<close>
  "https s \<longleftrightarrow> startswith s ''https://''"

definition https_or_local :: "string \<Rightarrow> bool" where
  "https_or_local s \<longleftrightarrow> startswith s [CHR 0x23] \<or> startswith s ''/'' \<or> https s"

definition UPDATE_SCHEMES :: "string list" where
  "UPDATE_SCHEMES = [''https://'', ''itms-beta://'', ''itms-apps://'', ''market://'']"

definition update_url :: "string \<Rightarrow> bool" where
  \<comment> \<open>\<open>_update_url\<close>: a blank text becomes null, so a stored one has a scheme\<close>
  "update_url s \<longleftrightarrow> list_ex (startswith s) UPDATE_SCHEMES"

abbreviation "text_any \<equiv> SStr anything"
abbreviation "text_upto n \<equiv> SStr (texts 0 n)"
abbreviation "text_some n \<equiv> SStr (texts 1 n)"
abbreviation "url_opt \<equiv> SOpt (SStr https)"
abbreviation "int_in a b \<equiv> SInt (ranged a b)"

definition req :: "string \<Rightarrow> schema \<Rightarrow> string \<times> schema \<times> json option" where "req k s = (k, s, None)"
definition dflt :: "string \<Rightarrow> schema \<Rightarrow> json \<Rightarrow> string \<times> schema \<times> json option" where "dflt k s d = (k, s, Some d)"
definition model :: "(string \<times> schema \<times> json option) list \<Rightarrow> schema" where "model fs = SModel fs anything"
definition sub :: "string \<Rightarrow> schema \<Rightarrow> string \<times> schema \<times> json option" where
  \<comment> \<open>a nested section whose default is the section's own defaults\<close>
  "sub k s = (k, s, Some (blank s))"

section \<open>Fares, client configuration, links, services\<close>

definition SERVICE_ICONS :: "string list" where
  "SERVICE_ICONS = [''card'', ''report'', ''help'', ''link'', ''bike'', ''parking'', ''taxi'', ''ticket'', ''info'', ''map'', ''emergency'']"

definition LANDING_ICONS :: "string list" where
  "LANDING_ICONS = [''route'', ''live'', ''board'', ''bike'', ''open'', ''alert'', ''accessibility'', ''favorites'', ''offline'', ''map'',
     ''ticket'', ''info'', ''taxi'', ''parking'', ''alarm'', ''go'', ''chat'', ''globe'']"

definition FaresCfg :: schema where
  "FaresCfg = model [req ''currency'' (SStr currency_code), req ''base'' (SFloat nonneg), dflt ''transfer'' (SFloat nonneg) (JFloat 0),
     dflt ''transferWindowMinutes'' (int_in 0 600) (JInt 110), dflt ''maxTransfers'' (int_in 0 5) (JInt 2),
     dflt ''note'' (SOpt (text_upto 300)) JNull, dflt ''estimated'' SBool (JBool True)]"

definition MinAppVersionCfg :: schema where
  "MinAppVersionCfg = model [dflt ''ios'' (SStr version_text) (JStr ''1.0.0''), dflt ''android'' (SStr version_text) (JStr ''1.0.0'')]"

definition MaintenanceCfg :: schema where
  "MaintenanceCfg = model [dflt ''active'' SBool (JBool False), dflt ''message'' (SOpt (text_upto 500)) JNull]"

definition AnalyticsCfg :: schema where
  "AnalyticsCfg = model [dflt ''enabled'' SBool (JBool True), dflt ''retentionDays'' (int_in 7 730) (JInt 90), dflt ''kThreshold'' (int_in 2 100) (JInt 5)]"

definition ShareCfg :: schema where
  "ShareCfg = model [dflt ''enabled'' SBool (JBool True), dflt ''ttlMinutes'' (int_in 5 720) (JInt 180), dflt ''maxTtlMinutes'' (int_in 5 1440) (JInt 720)]"

definition PushCfg :: schema where
  "PushCfg = model [dflt ''enabled'' SBool (JBool False), dflt ''reminders'' SBool (JBool False)]"

definition AssistantCfg :: schema where
  "AssistantCfg = model [dflt ''enabled'' SBool (JBool False),
     dflt ''provider'' (SLit [''anthropic'', ''openai'', ''deepseek'', ''gemini'']) (JStr ''anthropic''),
     dflt ''model'' (SOpt (text_upto 80)) JNull, dflt ''apiKey'' (SOpt (text_upto 300)) JNull, dflt ''baseUrl'' url_opt JNull,
     dflt ''maxRepliesPerSession'' (int_in 1 200) (JInt 30), dflt ''maxToolCallsPerReply'' (int_in 1 20) (JInt 6),
     dflt ''dailyBudgetUsd'' (SFloat (ranged 0 1000)) (JFloat 5), dflt ''rateLimitPerMinute'' (int_in 1 120) (JInt 6),
     dflt ''systemExtra'' (SOpt (text_upto 1000)) JNull, dflt ''logConversations'' SBool (JBool False)]"

definition UpdateUrlsCfg :: schema where
  "UpdateUrlsCfg = model [dflt ''ios'' (SOpt (SStr update_url)) JNull, dflt ''android'' (SOpt (SStr update_url)) JNull]"

definition alias_names_ok :: "string list \<Rightarrow> bool" where
  "alias_names_ok ks \<longleftrightarrow> length ks \<le> 200 \<and> list_all (\<lambda>k. lower (strip k) = k \<and> texts 1 60 k) ks"

definition alias_value_ok :: "string \<Rightarrow> bool" where "alias_value_ok v \<longleftrightarrow> strip v = v \<and> texts 1 40 v"

definition IDECA_URL :: string where "IDECA_URL = ''https://catalogopmb.catastrobogota.gov.co/PMBWeb/web/api''"

definition IdecaCfg :: schema where
  "IdecaCfg = model [dflt ''enabled'' SBool (JBool False), dflt ''url'' (text_upto 300) (JStr IDECA_URL),
     dflt ''apiKey'' (SOpt (text_upto 200)) JNull, dflt ''aliases'' (SMap alias_names_ok (SStr alias_value_ok)) (JObj [])]"

definition PlaceAreasCfg :: schema where
  "PlaceAreasCfg = model [dflt ''enabled'' SBool (JBool False), dflt ''barriosUrl'' (SOpt (text_upto 300)) JNull,
     dflt ''barriosNameField'' (text_upto 40) (JStr ''SCANOMBRE''), dflt ''barriosCodeField'' (text_upto 40) (JStr ''SCACODIGO''),
     dflt ''localidadesUrl'' (SOpt (text_upto 300)) JNull, dflt ''localidadesNameField'' (text_upto 40) (JStr ''LOCNOMBRE''),
     dflt ''localidadesCodeField'' (text_upto 40) (JStr ''LOCCODIGO''), dflt ''refreshDays'' (int_in 1 365) (JInt 30)]"

definition GeocoderCfg :: schema where
  "GeocoderCfg = model [dflt ''photonUrl'' (SOpt (text_upto 300)) JNull, sub ''ideca'' IdecaCfg, sub ''areas'' PlaceAreasCfg]"

definition ConfigCfg :: schema where
  "ConfigCfg = model [dflt ''vehiclePollSeconds'' (int_in 5 120) (JInt 15), dflt ''departuresRefreshSeconds'' (int_in 5 120) (JInt 20),
     dflt ''features'' (SMap anything SBool) (JObj []), sub ''minAppVersion'' MinAppVersionCfg, sub ''updateUrls'' UpdateUrlsCfg,
     sub ''maintenance'' MaintenanceCfg, sub ''analytics'' AnalyticsCfg, sub ''share'' ShareCfg, sub ''push'' PushCfg,
     sub ''assistant'' AssistantCfg]"

definition LinksCfg :: schema where
  "LinksCfg = model [dflt ''pqrs'' url_opt JNull, dflt ''recharge'' url_opt JNull, dflt ''support'' url_opt JNull, dflt ''privacy'' url_opt JNull]"

definition service_target :: "json \<Rightarrow> bool" where
  \<comment> \<open>\<open>ServiceCfg._target\<close>\<close>
  "service_target j = (if jfield j ''kind'' = JStr ''call'' then truthy (jfield j ''phone'') else truthy (jfield j ''url''))"

definition ServiceCfg :: schema where
  "ServiceCfg = SModel [req ''id'' (SStr slug), req ''label'' (text_some 60), dflt ''icon'' (SLit SERVICE_ICONS) (JStr ''link''),
     dflt ''url'' url_opt JNull, dflt ''phone'' (SOpt (SStr phone_ok)) JNull, dflt ''description'' (SOpt (text_upto 240)) JNull,
     dflt ''emergency'' SBool (JBool False),
     dflt ''kind'' (SLit [''external'', ''internal'', ''deeplink'', ''call'']) (JStr ''external'')] service_target"

definition BrandingCfg :: schema where "BrandingCfg = model [req ''primaryColor'' (SStr colour)]"

section \<open>Mobility\<close>

definition AppLinksCfg :: schema where "AppLinksCfg = model [dflt ''ios'' url_opt JNull, dflt ''android'' url_opt JNull]"

definition SingleTripPriceCfg :: schema where
  "SingleTripPriceCfg = model [req ''amount'' (SFloat nonneg), dflt ''currency'' (SStr currency_code) (JStr ''COP''),
     dflt ''label'' (SOpt (text_upto 60)) JNull]"

definition PerMinutePriceCfg :: schema where
  "PerMinutePriceCfg = model [dflt ''unlock'' (SFloat nonneg) (JFloat 0), req ''perMinute'' (SFloat nonneg),
     dflt ''perMinuteElectric'' (SOpt (SFloat nonneg)) JNull, dflt ''currency'' (SStr currency_code) (JStr ''COP''),
     dflt ''label'' (text_upto 60) (JStr ''1 viaje'')]"

definition BikeShareCfg :: schema where
  "BikeShareCfg = model [req ''id'' (SStr slug), req ''name'' (text_some 80), req ''network'' (SStr network_name_ok),
     req ''gbfsUrl'' (SStr https), dflt ''color'' (SStr colour) (JStr (CHR 0x23 # ''00A859'')), dflt ''url'' url_opt JNull,
     sub ''apps'' AppLinksCfg, dflt ''pricingSummary'' (SOpt (text_upto 160)) JNull, dflt ''singleTripPrice'' (SOpt SingleTripPriceCfg) JNull,
     dflt ''perMinutePrice'' (SOpt PerMinutePriceCfg) JNull,
     dflt ''formFactors'' (SArr anything (SLit [''bicycle'', ''scooter'', ''cargo_bicycle'', ''moped'', ''car'', ''other''])) (JArr [JStr ''bicycle''])]"

definition TaxiSurchargeWhenCfg :: schema where
  "TaxiSurchargeWhenCfg = model [dflt ''nightFrom'' (SOpt (SStr clock_ok)) JNull, dflt ''nightTo'' (SOpt (SStr clock_ok)) JNull,
     dflt ''sundays'' SBool (JBool False), dflt ''holidays'' SBool (JBool False), dflt ''zones'' (SArr anything text_any) (JArr []),
     dflt ''optional'' SBool (JBool False)]"

definition TaxiSurchargeCfg :: schema where
  "TaxiSurchargeCfg = model [req ''id'' (SStr slug), req ''label'' (text_some 60), req ''amount'' (SFloat nonneg), sub ''when'' TaxiSurchargeWhenCfg]"

definition TaxiZoneCfg :: schema where
  "TaxiZoneCfg = model [req ''id'' (SStr slug), req ''name'' (text_some 80), req ''polygon'' (SArr (ranged 3 500) (SArr anything (SFloat anything)))]"

definition positive_int :: "int \<Rightarrow> bool" where "positive_int n \<longleftrightarrow> 0 < n"

definition TaxiTariffCfg :: schema where
  "TaxiTariffCfg = model [req ''id'' (SStr slug), req ''name'' (text_some 80), dflt ''currency'' (SStr currency_code) (JStr ''COP''),
     req ''flagFall'' (SFloat nonneg), req ''unitPrice'' (SFloat nonneg), dflt ''unitMeters'' (int_in 1 5000) (JInt 100),
     dflt ''unitSeconds'' (int_in 1 600) (JInt 30), dflt ''minimumFare'' (SFloat nonneg) (JFloat 0),
     dflt ''surcharges'' (SArr (at_most 12) TaxiSurchargeCfg) (JArr []), dflt ''zones'' (SArr (at_most 20) TaxiZoneCfg) (JArr []),
     dflt ''source'' (SOpt (SMap anything (SOpt text_any))) JNull, dflt ''validFrom'' (SOpt (SStr date_ok)) JNull,
     dflt ''note'' (SOpt (text_upto 200)) JNull, dflt ''waitingShare'' (SFloat (ranged 0 (6/10))) (JFloat (15/100)),
     dflt ''rounding'' (SInt positive_int) (JInt 100), dflt ''bandPct'' (SFloat (ranged 0 (1/2))) (JFloat (1/10))]"

definition OnDemandEstimateCfgA :: schema where
  "OnDemandEstimateCfgA = model [dflt ''kind'' (SLit [''tariff'', ''api'', ''none'']) (JStr ''none''), dflt ''tariffId'' (SOpt text_any) JNull]"

definition template_ok :: "string \<Rightarrow> bool" where "template_ok s \<longleftrightarrow> texts 0 1000 s \<and> https s"

definition OnDemandHandoffCfg :: schema where
  "OnDemandHandoffCfg = model [dflt ''kind'' (SLit [''none'', ''url'', ''template'']) (JStr ''url''), dflt ''template'' (SOpt (SStr template_ok)) JNull,
     dflt ''web'' url_opt JNull, sub ''apps'' AppLinksCfg, dflt ''scheme'' (SOpt (SStr scheme_ok)) JNull]"

definition OnDemandProviderCfg :: schema where
  "OnDemandProviderCfg = model [req ''id'' (SStr slug), req ''name'' (text_some 60), dflt ''kind'' (SLit [''taxi'', ''ridehail'']) (JStr ''ridehail''),
     dflt ''color'' (SStr colour) (JStr (CHR 0x23 # ''333333'')), dflt ''textColor'' (SStr colour) (JStr (CHR 0x23 # ''FFFFFF'')),
     dflt ''logoUrl'' url_opt JNull, sub ''estimate'' OnDemandEstimateCfgA, sub ''handoff'' OnDemandHandoffCfg,
     dflt ''credentials'' (SMap anything text_any) (JObj []), dflt ''enabled'' SBool (JBool True), dflt ''order'' (int_in 0 100) (JInt 0)]"

definition OnDemandPolicyCfg :: schema where
  "OnDemandPolicyCfg = model [dflt ''maxDirectDistanceKm'' (SFloat (pos_upto 300)) (JFloat 40), dflt ''firstLastMile'' SBool (JBool True),
     dflt ''maxFeederKm'' (SFloat (pos_upto 50)) (JFloat 8), dflt ''showWhenTransitFaster'' SBool (JBool True),
     dflt ''durationFactor'' (SFloat (ranged 1 3)) (JFloat (14/10)), dflt ''nightDurationFactor'' (SFloat (ranged 1 3)) (JFloat (11/10))]"

definition MobilityCfg :: schema where
  "MobilityCfg = model [dflt ''bikeShare'' (SArr anything BikeShareCfg) (JArr []), dflt ''taxiTariffs'' (SArr (at_most 10) TaxiTariffCfg) (JArr []),
     dflt ''onDemand'' (SArr (at_most 20) OnDemandProviderCfg) (JArr []), sub ''onDemandPolicy'' OnDemandPolicyCfg]"

section \<open>Open mobility\<close>

definition CdsCurbsSourceCfg :: schema where
  "CdsCurbsSourceCfg = model [dflt ''source'' (SLit [''local'', ''url'', ''pim'']) (JStr ''local''), dflt ''url'' url_opt JNull,
     dflt ''providerId'' (SOpt (text_upto 80)) JNull, dflt ''refreshMinutes'' (int_in 5 1440) (JInt 60),
     dflt ''timeoutSeconds'' (int_in 10 300) (JInt 120), dflt ''credentials'' (SMap anything text_any) (JObj []),
     dflt ''rateMinorUnits'' (int_in 1 1000) (JInt 1)]"

definition CdsEventsProviderCfg :: schema where
  "CdsEventsProviderCfg = model [req ''id'' (SStr slug), req ''name'' (text_some 80), dflt ''tokenHash'' (SOpt (SStr digest_ok)) JNull]"

definition CdsEventsSectionCfg :: schema where
  "CdsEventsSectionCfg = model [dflt ''accept'' SBool (JBool False), dflt ''providers'' (SArr (at_most 20) CdsEventsProviderCfg) (JArr [])]"

definition CdsCfg :: schema where
  "CdsCfg = model [dflt ''enabled'' SBool (JBool False), sub ''curbs'' CdsCurbsSourceCfg, dflt ''publish'' SBool (JBool False),
     dflt ''rateCurrency'' (SOpt (SStr currency_code)) JNull, dflt ''rateMinorUnits'' (int_in 1 1000) (JInt 1), sub ''events'' CdsEventsSectionCfg]"

definition MdsAuthCfg :: schema where
  "MdsAuthCfg = model [dflt ''kind'' (SLit [''none'', ''bearer'', ''oauth2'', ''jwt'']) (JStr ''none''), dflt ''tokenUrl'' url_opt JNull,
     dflt ''jwksUrl'' url_opt JNull, dflt ''issuer'' (SOpt (text_upto 200)) JNull, dflt ''audience'' (SOpt (text_upto 200)) JNull,
     dflt ''providerIdClaim'' (SStr claim_ok) (JStr ''provider_id'')]"

definition MdsProviderCfg :: schema where
  "MdsProviderCfg = model [req ''id'' (SStr slug), req ''name'' (text_some 80),
     dflt ''mode'' (SLit [''micromobility'', ''passenger_services'', ''delivery_robots'', ''car_share'', ''transit'']) (JStr ''micromobility''),
     req ''baseUrl'' (SStr https), sub ''auth'' MdsAuthCfg,
     dflt ''ingest'' (SArr anything (SLit [''vehicles'', ''status_changes'', ''trips'', ''events''])) (JArr [JStr ''vehicles'']),
     dflt ''pollMinutes'' (int_in 5 1440) (JInt 60), dflt ''credentials'' (SMap anything text_any) (JObj []), dflt ''enabled'' SBool (JBool True)]"

definition MdsCfg :: schema where
  "MdsCfg = model [dflt ''enabled'' SBool (JBool False), dflt ''version'' (SStr mds_version_ok) (JStr ''2.1.0''),
     dflt ''publishPolicy'' SBool (JBool False), dflt ''authorityUrl'' url_opt JNull, dflt ''refreshMinutes'' (int_in 5 1440) (JInt 60),
     dflt ''providers'' (SArr (at_most 20) MdsProviderCfg) (JArr []), dflt ''retentionDays'' (int_in 7 730) (JInt 90)]"

definition ParkRideCfg :: schema where
  "ParkRideCfg = model [dflt ''enabled'' SBool (JBool False), dflt ''maxDriveKm'' (SFloat (pos_upto 200)) (JFloat 25),
     dflt ''maxWalkMeters'' (int_in 50 3000) (JInt 600), dflt ''defaultDwellHours'' (SFloat (pos_upto 48)) (JFloat 8)]"

definition OpenMobilityCfg :: schema where
  "OpenMobilityCfg = model [sub ''cds'' CdsCfg, sub ''mds'' MdsCfg, sub ''parkRide'' ParkRideCfg]"

section \<open>Landing page\<close>

definition LandingCtaCfg :: schema where
  "LandingCtaCfg = model [req ''label'' (text_some 40), dflt ''url'' (SOpt (SStr https_or_local)) JNull]"

definition LandingHeroCfg :: schema where
  "LandingHeroCfg = model [dflt ''title'' (text_upto 80) (JStr []), dflt ''subtitle'' (text_upto 200) (JStr []),
     dflt ''ctaPrimary'' LandingCtaCfg (fill LandingCtaCfg (JObj [(''label'', JStr ''Abrir la app'')])), dflt ''ctaSecondary'' (SOpt LandingCtaCfg) JNull]"

definition LandingThemeCfg :: schema where
  "LandingThemeCfg = model [dflt ''primaryColor'' (SOpt (SStr colour)) JNull, dflt ''accentColor'' (SOpt (SStr colour)) JNull,
     dflt ''logoUrl'' url_opt JNull, dflt ''heroImageUrl'' url_opt JNull, dflt ''darkHero'' SBool (JBool True)]"

definition LandingAppsCfg :: schema where
  "LandingAppsCfg = model [dflt ''ios'' url_opt JNull, dflt ''android'' url_opt JNull, dflt ''web'' url_opt JNull]"

definition LandingHighlightCfg :: schema where
  "LandingHighlightCfg = model [dflt ''icon'' (SLit LANDING_ICONS) (JStr ''info''), req ''title'' (text_some 60), dflt ''text'' (text_upto 160) (JStr [])]"

definition LandingScreenshotCfg :: schema where
  "LandingScreenshotCfg = model [req ''url'' (SStr https), dflt ''alt'' (text_upto 120) (JStr []), dflt ''kind'' (SLit [''mobile'', ''web'']) (JStr ''mobile'')]"

definition STATS :: "string list" where "STATS = [''routes'', ''stops'', ''vehiclesLive'', ''bikeStations'', ''alertsActive'']"

definition LandingStatsCfg :: schema where
  "LandingStatsCfg = model [dflt ''show'' SBool (JBool True), dflt ''items'' (SArr anything (SLit STATS)) (JArr (map JStr STATS))]"

definition LandingPartnerCfg :: schema where
  "LandingPartnerCfg = model [req ''name'' (text_some 80), dflt ''logoUrl'' url_opt JNull, dflt ''url'' url_opt JNull, dflt ''role'' (SOpt (text_upto 80)) JNull]"

definition LandingLinkCfg :: schema where "LandingLinkCfg = model [req ''label'' (text_some 60), req ''url'' (SStr https)]"

definition LandingOpenDataCfg :: schema where
  "LandingOpenDataCfg = model [dflt ''show'' SBool (JBool True), dflt ''links'' (SArr (at_most 12) LandingLinkCfg) (JArr [])]"

definition LandingFaqCfg :: schema where "LandingFaqCfg = model [req ''q'' (text_some 160), req ''a'' (text_some 600)]"

definition LandingSocialCfg :: schema where
  "LandingSocialCfg = model [dflt ''x'' url_opt JNull, dflt ''instagram'' url_opt JNull, dflt ''facebook'' url_opt JNull, dflt ''youtube'' url_opt JNull,
     dflt ''github'' url_opt JNull]"

definition LandingContactCfg :: schema where
  "LandingContactCfg = model [dflt ''email'' (SOpt (SStr email_ok)) JNull, dflt ''url'' url_opt JNull, sub ''social'' LandingSocialCfg]"

definition LandingFooterCfg :: schema where
  "LandingFooterCfg = model [dflt ''legalName'' (SOpt (text_upto 120)) JNull, dflt ''privacyUrl'' url_opt JNull, dflt ''termsUrl'' url_opt JNull,
     dflt ''attribution'' (SOpt (text_upto 300)) JNull]"

definition LandingSeoCfg :: schema where
  "LandingSeoCfg = model [dflt ''title'' (SOpt (text_upto 70)) JNull, dflt ''description'' (SOpt (text_upto 160)) JNull, dflt ''ogImageUrl'' url_opt JNull]"

definition LandingCfg :: schema where
  "LandingCfg = model [dflt ''enabled'' SBool (JBool False), dflt ''slug'' (SOpt (SStr slug)) JNull, dflt ''locale'' (SOpt (SStr locale_ok)) JNull,
     sub ''theme'' LandingThemeCfg, sub ''hero'' LandingHeroCfg, sub ''apps'' LandingAppsCfg,
     dflt ''highlights'' (SArr (at_most 12) LandingHighlightCfg) (JArr []), dflt ''screenshots'' (SArr (at_most 8) LandingScreenshotCfg) (JArr []),
     sub ''stats'' LandingStatsCfg, dflt ''partners'' (SArr (at_most 12) LandingPartnerCfg) (JArr []), sub ''openData'' LandingOpenDataCfg,
     dflt ''faq'' (SArr (at_most 12) LandingFaqCfg) (JArr []), sub ''contact'' LandingContactCfg, sub ''footer'' LandingFooterCfg, sub ''seo'' LandingSeoCfg]"

definition SECTIONS :: "(string \<times> schema) list" where
  \<comment> \<open>the section of the editable configuration each model validates; services are validated one by one\<close>
  "SECTIONS = [(''fares'', FaresCfg), (''config'', ConfigCfg), (''links'', LinksCfg), (''services'', ServiceCfg), (''branding'', BrandingCfg),
     (''mobility'', MobilityCfg), (''openMobility'', OpenMobilityCfg), (''landing'', LandingCfg), (''geocoder'', GeocoderCfg)]"

section \<open>The declared defaults are valid\<close>

named_theorems schemas "the declared models"

lemmas [schemas] = FaresCfg_def MinAppVersionCfg_def MaintenanceCfg_def AnalyticsCfg_def ShareCfg_def PushCfg_def AssistantCfg_def
  UpdateUrlsCfg_def IdecaCfg_def PlaceAreasCfg_def GeocoderCfg_def ConfigCfg_def LinksCfg_def ServiceCfg_def BrandingCfg_def AppLinksCfg_def
  SingleTripPriceCfg_def PerMinutePriceCfg_def BikeShareCfg_def TaxiSurchargeWhenCfg_def TaxiSurchargeCfg_def TaxiZoneCfg_def TaxiTariffCfg_def
  OnDemandEstimateCfgA_def OnDemandHandoffCfg_def OnDemandProviderCfg_def OnDemandPolicyCfg_def MobilityCfg_def CdsCurbsSourceCfg_def
  CdsEventsProviderCfg_def CdsEventsSectionCfg_def CdsCfg_def MdsAuthCfg_def MdsProviderCfg_def MdsCfg_def ParkRideCfg_def OpenMobilityCfg_def
  LandingCtaCfg_def LandingHeroCfg_def LandingThemeCfg_def LandingAppsCfg_def LandingHighlightCfg_def LandingScreenshotCfg_def LandingStatsCfg_def
  LandingPartnerCfg_def LandingLinkCfg_def LandingOpenDataCfg_def LandingFaqCfg_def LandingSocialCfg_def LandingContactCfg_def
  LandingFooterCfg_def LandingSeoCfg_def LandingCfg_def

lemma sections_defaults_ok: "list_all (\<lambda>(name, s). defaults_ok s) SECTIONS"
  by code_simp


definition demo_fares :: json where
  "demo_fares = JObj [(''currency'', JStr ''COP''), (''base'', JFloat 3200)]"


end
