(* ===== verification/City_Config.thy ===== *)
theory City_Config
  imports Admin_Schema Features Tariff
begin

text \<open>
  The city registry of \<open>app/cities.py\<close>: one record per configuration class, the helpers every endpoint
  uses, and the two views of a city (public, and the admin's with the secrets).  \<open>Landing\<close> is kept as the
  value \<open>model_dump(by_alias=True)\<close> gives.  Reading YAML and expanding the environment is not modelled.
\<close>

section \<open>Configuration records\<close>

record branding_cfg =
  br_primary :: string
  br_logo :: "string option"

record feature_flags =
  ff_vehicles :: bool
  ff_trip_updates :: bool
  ff_alerts :: bool
  ff_fares :: bool
  ff_bike_share :: bool
  ff_on_demand :: bool
  ff_open_mobility :: bool

record feeds_cfg =
  fd_static :: string
  fd_positions :: "string option"
  fd_tripupdates :: "string option"
  fd_alerts :: "string option"
  fd_poll_seconds :: int
  fd_refresh_hours :: int

record otp_cfg =
  otp_base_url :: string
  otp_feed_id :: string
  otp_trip_ids_url :: "string option"

text \<open>\<open>OfflineBundle\<close> and \<open>OfflinePatternsBundle\<close>: the count is of departures or of patterns.\<close>

record offline_bundle =
  bn_url :: string
  bn_bytes :: int
  bn_version :: int
  bn_count :: "int option"
  bn_built_at :: "string option"

record ideca_cfg =
  id_enabled :: bool
  id_url :: string
  id_api_key :: "string option"
  id_aliases :: "(string \<times> string) list"

record areas_cfg =
  ar_enabled :: bool
  ar_barrios_url :: "string option"
  ar_barrios_name :: string
  ar_barrios_code :: string
  ar_localidades_url :: "string option"
  ar_localidades_name :: string
  ar_localidades_code :: string
  ar_refresh_days :: int

record geocoder_cfg =
  gc_photon_url :: "string option"
  gc_ideca :: ideca_cfg
  gc_areas :: areas_cfg

record agency_cfg =
  ag_id :: string
  ag_name :: string
  ag_component :: string
  ag_color :: "string option"

record component_cfg =
  cm_id :: string
  cm_label :: string
  cm_color :: string
  cm_icon :: string

record city_fares =
  fa_currency :: string
  fa_base :: rat
  fa_transfer :: rat
  fa_window :: int
  fa_max :: int
  fa_note :: "string option"

record store_versions =
  ve_ios :: string
  ve_android :: string

record store_urls =
  ur_ios :: "string option"
  ur_android :: "string option"

record maintenance_cfg =
  mt_active :: bool
  mt_message :: "string option"

record analytics_cfg =
  an_enabled :: bool
  an_retention :: int
  an_k :: int

record share_cfg =
  sc_enabled :: bool
  sc_ttl :: int
  sc_max_ttl :: int
  sc_web_base :: "string option"

record apns_cfg =
  ap_key_id :: "string option"
  ap_team_id :: "string option"
  ap_bundle_id :: "string option"
  ap_key_path :: "string option"
  ap_key_p8 :: "string option"

record fcm_cfg =
  fm_project :: "string option"
  fm_email :: "string option"
  fm_key :: "string option"
  fm_account :: "string option"

record push_cfg =
  pu_enabled :: bool
  pu_reminders :: bool
  pu_apns :: apns_cfg
  pu_fcm :: fcm_cfg

record assistant_cfg =
  as_enabled :: bool
  as_provider :: string
  as_model :: "string option"
  as_api_key :: "string option"
  as_base_url :: "string option"
  as_max_replies :: int
  as_max_tools :: int
  as_budget :: rat
  as_rate :: int
  as_extra :: "string option"
  as_log :: bool

record app_config =
  ac_poll :: int
  ac_departures :: int
  ac_features :: "(string \<times> bool) list"
  ac_min_version :: store_versions
  ac_update_urls :: store_urls
  ac_maintenance :: maintenance_cfg
  ac_analytics :: analytics_cfg
  ac_share :: share_cfg
  ac_push :: push_cfg
  ac_assistant :: assistant_cfg

record links_cfg =
  lk_pqrs :: "string option"
  lk_recharge :: "string option"
  lk_support :: "string option"
  lk_privacy :: "string option"

record per_minute =
  pm_unlock :: rat
  pm_rate :: rat
  pm_electric :: "rat option"
  pm_money :: string
  pm_label :: string

record bike_network =
  bk_id :: string
  bk_name :: string
  bk_network :: string
  bk_gbfs_url :: string
  bk_color :: string
  bk_url :: "string option"
  bk_apps :: "(string \<times> string option) list"
  bk_pricing :: "string option"
  bk_single :: "json option"
  bk_per_minute :: "per_minute option"
  bk_forms :: "string list"

record zone_cfg =
  zn_id :: string
  zn_name :: string
  zn_polygon :: "rat list list"

record tariff_cfg =
  tc_id :: string
  tc_name :: string
  tc_currency :: string
  tc_flag_fall :: rat
  tc_unit_price :: rat
  tc_unit_meters :: int
  tc_unit_seconds :: int
  tc_minimum :: rat
  tc_surcharges :: "surcharge list"
  tc_zones :: "zone_cfg list"
  tc_source :: "(string \<times> string option) list option"
  tc_valid_from :: "string option"
  tc_note :: "string option"
  tc_waiting :: rat
  tc_rounding :: int
  tc_band :: rat

record od_estimate =
  oe_kind :: string
  oe_tariff :: "string option"

record od_handoff =
  oh_kind :: string
  oh_template :: "string option"
  oh_web :: "string option"
  oh_apps :: "(string \<times> string option) list"
  oh_scheme :: "string option"

record od_provider =
  op_id :: string
  op_name :: string
  op_kind :: string
  op_color :: string
  op_text_color :: string
  op_logo :: "string option"
  op_estimate :: od_estimate
  op_handoff :: od_handoff
  op_credentials :: "(string \<times> string) list"
  op_enabled :: bool
  op_order :: int

record od_policy =
  po_direct_km :: rat
  po_first_last :: bool
  po_feeder_km :: rat
  po_faster :: bool
  po_factor :: rat
  po_night_factor :: rat

record mobility_cfg =
  mo_bikes :: "bike_network list"
  mo_tariffs :: "tariff_cfg list"
  mo_on_demand :: "od_provider list"
  mo_policy :: od_policy

record curbs_cfg =
  cu_source :: string
  cu_url :: "string option"
  cu_provider :: "string option"
  cu_refresh :: int
  cu_timeout :: int
  cu_credentials :: "(string \<times> string) list"
  cu_minor :: int

record events_provider =
  ep_id :: string
  ep_name :: string
  ep_token_hash :: "string option"

record cds_cfg =
  cd_enabled :: bool
  cd_curbs :: curbs_cfg
  cd_publish :: bool
  cd_accept :: bool
  cd_events :: "events_provider list"
  cd_currency :: "string option"
  cd_minor :: int

record mds_auth =
  au_kind :: string
  au_token_url :: "string option"
  au_client_id :: "string option"
  au_client_secret :: "string option"
  au_jwks_url :: "string option"
  au_issuer :: "string option"
  au_audience :: "string option"
  au_claim :: string

record mds_provider =
  mp_id :: string
  mp_name :: string
  mp_mode :: string
  mp_base_url :: string
  mp_auth :: mds_auth
  mp_ingest :: "string list"
  mp_poll :: int
  mp_credentials :: "(string \<times> string) list"
  mp_enabled :: bool

record mds_cfg =
  md_enabled :: bool
  md_version :: string
  md_publish :: bool
  md_authority :: "string option"
  md_refresh :: int
  md_providers :: "mds_provider list"
  md_retention :: int

record park_ride_cfg =
  pr_enabled :: bool
  pr_drive_km :: rat
  pr_walk :: int
  pr_dwell :: rat

record open_mobility =
  om_cds :: cds_cfg
  om_mds :: mds_cfg
  om_park_ride :: park_ride_cfg

record service_tile =
  st_id :: string
  st_label :: string
  st_icon :: string
  st_url :: "string option"
  st_phone :: "string option"
  st_description :: "string option"
  st_emergency :: bool
  st_kind :: string

record city =
  ci_id :: string
  ci_name :: string
  ci_country :: string
  ci_timezone :: string
  ci_locale :: string
  ci_center :: "rat \<times> rat"
  ci_bbox :: "rat list"
  ci_zoom :: int
  ci_modes :: "string list"
  ci_branding :: branding_cfg
  ci_features :: feature_flags
  ci_attribution :: string
  ci_feeds :: feeds_cfg
  ci_otp :: otp_cfg
  ci_geocoder :: geocoder_cfg
  ci_agencies :: "agency_cfg list"
  ci_components :: "component_cfg list"
  ci_route_types :: "(string \<times> string) list"
  ci_fares :: "city_fares option"
  ci_config :: app_config
  ci_links :: links_cfg
  ci_services :: "service_tile list"
  ci_mobility :: mobility_cfg
  ci_open_mobility :: open_mobility
  ci_landing :: json
  ci_offline :: "offline_bundle option"
  ci_offline_patterns :: "offline_bundle option"

end
