(* ===== verification/City_Views.thy ===== *)
theory City_Views
  imports City_Config
begin

text \<open>
  What \<open>app/cities.py\<close> computes from a city: the helpers, the public view and the admin's view of each
  editable section.
\<close>

section \<open>Helpers\<close>

definition component_of_agency :: "city \<Rightarrow> string option \<Rightarrow> string" where
  "component_of_agency c agency = (case find (\<lambda>a. Some (ag_id a) = agency) (ci_agencies c) of None \<Rightarrow> ''other'' | Some a \<Rightarrow> ag_component a)"

definition component_of_route :: "city \<Rightarrow> string option \<Rightarrow> string option \<Rightarrow> string" where
  \<comment> \<open>the route type as text\<close>
  "component_of_route c agency route_type = (if ci_route_types c \<noteq> [] \<and> truthy_str route_type
     then (case map_of (ci_route_types c) (strip (the route_type)) of Some m \<Rightarrow> m | None \<Rightarrow> component_of_agency c agency)
     else component_of_agency c agency)"

definition color_of_agency :: "city \<Rightarrow> string option \<Rightarrow> string option" where
  "color_of_agency c agency = (case find (\<lambda>a. Some (ag_id a) = agency) (ci_agencies c) of None \<Rightarrow> None | Some a \<Rightarrow> ag_color a)"

definition feed_prefix :: "city \<Rightarrow> string" where "feed_prefix c = otp_feed_id (ci_otp c) @ '':''"

definition scoped :: "city \<Rightarrow> string option \<Rightarrow> string option" where
  "scoped c raw = map_option (\<lambda>r. if startswith r (feed_prefix c) then r else feed_prefix c @ r) raw"

definition unscoped :: "city \<Rightarrow> string \<Rightarrow> string" where
  "unscoped c s = (if startswith s (feed_prefix c) then drop (length (feed_prefix c)) s else s)"

definition bike_network_of :: "city \<Rightarrow> string option \<Rightarrow> bike_network option" where
  "bike_network_of c network = find (\<lambda>n. network \<in> {Some (bk_id n), Some (bk_network n)}) (mo_bikes (ci_mobility c))"

definition on_demand_providers :: "city \<Rightarrow> od_provider list" where
  "on_demand_providers c = sort_key (\<lambda>p. (op_order p, op_id p)) (filter op_enabled (mo_on_demand (ci_mobility c)))"

definition on_demand_provider :: "city \<Rightarrow> string option \<Rightarrow> od_provider option" where
  "on_demand_provider c i = find (\<lambda>p. Some (op_id p) = i) (mo_on_demand (ci_mobility c))"

definition taxi_tariff :: "city \<Rightarrow> string option \<Rightarrow> tariff_cfg option" where
  "taxi_tariff c i = find (\<lambda>t. Some (tc_id t) = i) (mo_tariffs (ci_mobility c))"

definition on_demand_enabled :: "city \<Rightarrow> bool" where
  "on_demand_enabled c \<longleftrightarrow> ff_on_demand (ci_features c) \<and> on_demand_providers c \<noteq> []"

definition open_mobility_enabled :: "city \<Rightarrow> bool" where
  "open_mobility_enabled c \<longleftrightarrow> ff_open_mobility (ci_features c) \<and> (cd_enabled (om_cds (ci_open_mobility c)) \<or> md_enabled (om_mds (ci_open_mobility c)))"

definition rate_currency :: "city \<Rightarrow> string" where
  "rate_currency c = the (str_or (cd_currency (om_cds (ci_open_mobility c)))
     (Some (case ci_fares c of Some f \<Rightarrow> fa_currency f | None \<Rightarrow> ''USD'')))"

definition transit_modes :: "city \<Rightarrow> string list" where
  "transit_modes c = filter (\<lambda>m. m \<notin> {''WALK'', ''BICYCLE'', ''CAR'', ''SCOOTER''}) (ci_modes c)"

definition ideca_active :: "ideca_cfg \<Rightarrow> bool" where
  "ideca_active i \<longleftrightarrow> id_enabled i \<and> id_url i \<noteq> [] \<and> truthy_str (id_api_key i)"

definition areas_active :: "areas_cfg \<Rightarrow> bool" where
  "areas_active a \<longleftrightarrow> ar_enabled a \<and> truthy_str (ar_barrios_url a)"

definition apns_configured :: "apns_cfg \<Rightarrow> bool" where
  "apns_configured a \<longleftrightarrow> truthy_str (ap_key_id a) \<and> truthy_str (ap_team_id a) \<and> truthy_str (ap_bundle_id a)
     \<and> (truthy_str (ap_key_p8 a) \<or> truthy_str (ap_key_path a))"

definition fcm_credentials :: "(string \<Rightarrow> json) \<Rightarrow> fcm_cfg \<Rightarrow> (string \<times> string \<times> string) option" where
  \<comment> \<open>\<open>account\<close>: the decoded service account, an object with no keys when it cannot be read; its values are texts.
    Escaped newlines of the key are not rewritten here\<close>
  "fcm_credentials account f = (let acct = account (or_else (fm_account f) []);
       pick = (\<lambda>own k. str_or own (case jfield acct k of JStr s \<Rightarrow> Some s | _ \<Rightarrow> None));
       project = pick (fm_project f) ''project_id''; email = pick (fm_email f) ''client_email''; key = pick (fm_key f) ''private_key''
     in if truthy_str project \<and> truthy_str email \<and> truthy_str key then Some (the project, the email, the key) else None)"

definition push_platforms :: "(string \<Rightarrow> json) \<Rightarrow> push_cfg \<Rightarrow> string list" where
  "push_platforms account p = (if apns_configured (pu_apns p) then [''ios''] else [])
     @ (if fcm_credentials account (pu_fcm p) \<noteq> None then [''android''] else [])"

definition reminders_active :: "(string \<Rightarrow> json) \<Rightarrow> push_cfg \<Rightarrow> bool" where
  "reminders_active account p \<longleftrightarrow> pu_reminders p \<and> (apns_configured (pu_apns p) \<or> fcm_credentials account (pu_fcm p) \<noteq> None)"

definition ride_rate :: "per_minute \<Rightarrow> bool \<Rightarrow> rat" where
  "ride_rate p electric = (case pm_electric p of Some e \<Rightarrow> if electric then e else pm_rate p | None \<Rightarrow> pm_rate p)"

definition ride_quote :: "per_minute \<Rightarrow> rat option \<Rightarrow> bool \<Rightarrow> price_estimate" where
  "ride_quote p minutes electric = (let ridden = (case minutes of Some m \<Rightarrow> if 0 < m then \<lceil>m\<rceil> else 0 | None \<Rightarrow> 0)
     in \<lparr>pe_amount = Some (py_round_to 2 (pm_unlock p + ride_rate p electric * of_int ridden)), pe_currency = Some (pm_money p), pe_label = Some (pm_label p)\<rparr>)"

definition meter :: "tariff_cfg \<Rightarrow> tariff" where
  \<comment> \<open>the fields the taximeter reads; a vertex is its first two numbers\<close>
  "meter t = \<lparr>ta_id = tc_id t, ta_currency = tc_currency t, ta_flag_fall = tc_flag_fall t, ta_unit_price = tc_unit_price t,
     ta_unit_meters = tc_unit_meters t, ta_unit_seconds = tc_unit_seconds t, ta_minimum = tc_minimum t, ta_surcharges = tc_surcharges t,
     ta_zones = map (\<lambda>z. \<lparr>tz_id = zn_id z, tz_polygon = map (\<lambda>v. (v ! 0, v ! 1)) (zn_polygon z)\<rparr>) (tc_zones t),
     ta_waiting_share = tc_waiting t, ta_rounding = tc_rounding t, ta_band = tc_band t\<rparr>"

section \<open>Views\<close>

definition jopt :: "('a \<Rightarrow> json) \<Rightarrow> 'a option \<Rightarrow> json" where
  "jopt f x = (case x of None \<Rightarrow> JNull | Some v \<Rightarrow> f v)"

abbreviation jtext :: "string option \<Rightarrow> json" where "jtext \<equiv> jopt JStr"

definition jdict :: "('a \<Rightarrow> json) \<Rightarrow> (string \<times> 'a) list \<Rightarrow> json" where
  "jdict f kvs = JObj (map (\<lambda>(k, v). (k, f v)) kvs)"

definition platform_links :: "(string \<times> string option) list \<Rightarrow> json" where
  "platform_links apps = JObj [(''ios'', jtext (or_else (map_of apps ''ios'') None)), (''android'', jtext (or_else (map_of apps ''android'') None))]"

definition fares_public :: "city_fares \<Rightarrow> json" where
  "fares_public f = JObj [(''currency'', JStr (fa_currency f)), (''base'', JFloat (fa_base f)), (''transfer'', JFloat (fa_transfer f)),
     (''transferWindowMinutes'', JInt (fa_window f)), (''maxTransfers'', JInt (fa_max f)), (''note'', jtext (fa_note f)), (''estimated'', JBool True)]"

definition links_public :: "links_cfg \<Rightarrow> json" where
  "links_public l = JObj [(''pqrs'', jtext (lk_pqrs l)), (''recharge'', jtext (lk_recharge l)), (''support'', jtext (lk_support l)), (''privacy'', jtext (lk_privacy l))]"

definition tile_public :: "service_tile \<Rightarrow> json" where
  "tile_public s = JObj [(''id'', JStr (st_id s)), (''label'', JStr (st_label s)), (''icon'', JStr (st_icon s)), (''url'', jtext (st_url s)),
     (''phone'', jtext (st_phone s)), (''description'', jtext (st_description s)), (''emergency'', JBool (st_emergency s)), (''kind'', JStr (st_kind s))]"

definition assistant_admin :: "assistant_cfg \<Rightarrow> json" where
  "assistant_admin a = JObj [(''enabled'', JBool (as_enabled a)), (''provider'', JStr (as_provider a)), (''model'', jtext (as_model a)),
     (''apiKey'', jtext (as_api_key a)), (''baseUrl'', jtext (as_base_url a)), (''maxRepliesPerSession'', JInt (as_max_replies a)),
     (''maxToolCallsPerReply'', JInt (as_max_tools a)), (''dailyBudgetUsd'', JFloat (as_budget a)), (''rateLimitPerMinute'', JInt (as_rate a)),
     (''systemExtra'', jtext (as_extra a)), (''logConversations'', JBool (as_log a))]"

definition assistant_public :: "assistant_cfg \<Rightarrow> json" where
  "assistant_public a = JObj [(''enabled'', JBool (as_enabled a)), (''provider'', JStr (as_provider a))]"

definition config_view :: "(string \<Rightarrow> json) \<Rightarrow> app_config \<Rightarrow> json \<Rightarrow> json" where
  \<comment> \<open>the \<open>config\<close> block of \<open>public()\<close>, with the given view of the assistant\<close>
  "config_view account c assistant = JObj [(''vehiclePollSeconds'', JInt (ac_poll c)), (''departuresRefreshSeconds'', JInt (ac_departures c)),
     (''features'', jdict JBool (ac_features c)),
     (''minAppVersion'', JObj [(''ios'', JStr (ve_ios (ac_min_version c))), (''android'', JStr (ve_android (ac_min_version c)))]),
     (''updateUrls'', JObj [(''ios'', jtext (ur_ios (ac_update_urls c))), (''android'', jtext (ur_android (ac_update_urls c)))]),
     (''maintenance'', JObj [(''active'', JBool (mt_active (ac_maintenance c))), (''message'', jtext (mt_message (ac_maintenance c)))]),
     (''analytics'', JObj [(''enabled'', JBool (an_enabled (ac_analytics c))), (''retentionDays'', JInt (an_retention (ac_analytics c))),
        (''kThreshold'', JInt (an_k (ac_analytics c)))]),
     (''share'', JObj [(''enabled'', JBool (sc_enabled (ac_share c))), (''ttlMinutes'', JInt (sc_ttl (ac_share c)))]),
     (''push'', JObj [(''enabled'', JBool (pu_enabled (ac_push c))), (''reminders'', JBool (reminders_active account (ac_push c)))]),
     (''assistant'', assistant)]"

definition per_minute_public :: "per_minute \<Rightarrow> json" where
  "per_minute_public p = JObj [(''unlock'', JFloat (pm_unlock p)), (''perMinute'', JFloat (pm_rate p)),
     (''perMinuteElectric'', jopt JFloat (pm_electric p)), (''currency'', JStr (pm_money p)), (''label'', JStr (pm_label p))]"

definition bike_public :: "bike_network \<Rightarrow> json" where
  "bike_public n = JObj [(''id'', JStr (bk_id n)), (''name'', JStr (bk_name n)), (''network'', JStr (bk_network n)), (''gbfsUrl'', JStr (bk_gbfs_url n)),
     (''color'', JStr (bk_color n)), (''url'', jtext (bk_url n)), (''apps'', platform_links (bk_apps n)), (''pricingSummary'', jtext (bk_pricing n)),
     (''singleTripPrice'', jopt id (bk_single n)), (''perMinutePrice'', jopt per_minute_public (bk_per_minute n)),
     (''formFactors'', JArr (map JStr (bk_forms n)))]"

definition surcharge_public :: "surcharge \<Rightarrow> json" where
  "surcharge_public x = JObj [(''id'', JStr (su_id x)), (''label'', JStr (su_label x)), (''amount'', JFloat (su_amount x)),
     (''when'', JObj [(''nightFrom'', jtext (sw_night_from (su_when x))), (''nightTo'', jtext (sw_night_to (su_when x))),
        (''sundays'', JBool (sw_sundays (su_when x))), (''holidays'', JBool (sw_holidays (su_when x))),
        (''zones'', JArr (map JStr (sw_zones (su_when x)))), (''optional'', JBool (sw_optional (su_when x)))])]"

definition zone_public :: "zone_cfg \<Rightarrow> json" where
  "zone_public z = JObj [(''id'', JStr (zn_id z)), (''name'', JStr (zn_name z)), (''polygon'', JArr (map (\<lambda>v. JArr (map JFloat v)) (zn_polygon z)))]"

definition tariff_public :: "tariff_cfg \<Rightarrow> json" where
  "tariff_public t = JObj [(''id'', JStr (tc_id t)), (''name'', JStr (tc_name t)), (''currency'', JStr (tc_currency t)), (''flagFall'', JFloat (tc_flag_fall t)),
     (''unitPrice'', JFloat (tc_unit_price t)), (''unitMeters'', JInt (tc_unit_meters t)), (''unitSeconds'', JInt (tc_unit_seconds t)),
     (''minimumFare'', JFloat (tc_minimum t)), (''surcharges'', JArr (map surcharge_public (tc_surcharges t))),
     (''zones'', JArr (map zone_public (tc_zones t))), (''source'', jopt (jdict jtext) (tc_source t)), (''validFrom'', jtext (tc_valid_from t)),
     (''note'', jtext (tc_note t)), (''waitingShare'', JFloat (tc_waiting t)), (''rounding'', JInt (tc_rounding t)), (''bandPct'', JFloat (tc_band t))]"

definition provider_public :: "od_provider \<Rightarrow> json" where
  "provider_public p = JObj [(''id'', JStr (op_id p)), (''name'', JStr (op_name p)), (''kind'', JStr (op_kind p)), (''color'', JStr (op_color p)),
     (''textColor'', JStr (op_text_color p)), (''logoUrl'', jtext (op_logo p)),
     (''estimate'', JObj [(''kind'', JStr (oe_kind (op_estimate p))), (''tariffId'', jtext (oe_tariff (op_estimate p)))]),
     (''handoff'', JObj [(''kind'', JStr (oh_kind (op_handoff p))), (''hasTemplate'', JBool (truthy_str (oh_template (op_handoff p)))),
        (''web'', jtext (oh_web (op_handoff p))), (''apps'', platform_links (oh_apps (op_handoff p))), (''scheme'', jtext (oh_scheme (op_handoff p)))]),
     (''enabled'', JBool (op_enabled p)), (''order'', JInt (op_order p))]"

definition provider_admin :: "od_provider \<Rightarrow> json" where
  \<comment> \<open>the template instead of \<open>hasTemplate\<close>, and the credentials\<close>
  "provider_admin p = JObj [(''id'', JStr (op_id p)), (''name'', JStr (op_name p)), (''kind'', JStr (op_kind p)), (''color'', JStr (op_color p)),
     (''textColor'', JStr (op_text_color p)), (''logoUrl'', jtext (op_logo p)),
     (''estimate'', JObj [(''kind'', JStr (oe_kind (op_estimate p))), (''tariffId'', jtext (oe_tariff (op_estimate p)))]),
     (''handoff'', JObj [(''kind'', JStr (oh_kind (op_handoff p))), (''web'', jtext (oh_web (op_handoff p))),
        (''apps'', platform_links (oh_apps (op_handoff p))), (''scheme'', jtext (oh_scheme (op_handoff p))), (''template'', jtext (oh_template (op_handoff p)))]),
     (''enabled'', JBool (op_enabled p)), (''order'', JInt (op_order p)), (''credentials'', jdict JStr (op_credentials p))]"

definition policy_public :: "od_policy \<Rightarrow> json" where
  "policy_public p = JObj [(''maxDirectDistanceKm'', JFloat (po_direct_km p)), (''firstLastMile'', JBool (po_first_last p)),
     (''maxFeederKm'', JFloat (po_feeder_km p)), (''showWhenTransitFaster'', JBool (po_faster p)), (''durationFactor'', JFloat (po_factor p)),
     (''nightDurationFactor'', JFloat (po_night_factor p))]"

definition mobility_public :: "bool \<Rightarrow> mobility_cfg \<Rightarrow> json" where
  "mobility_public admin m = JObj [(''bikeShare'', JArr (map bike_public (mo_bikes m))), (''taxiTariffs'', JArr (map tariff_public (mo_tariffs m))),
     (''onDemand'', JArr (map (if admin then provider_admin else provider_public) (mo_on_demand m))), (''onDemandPolicy'', policy_public (mo_policy m))]"

definition curbs_public :: "bool \<Rightarrow> curbs_cfg \<Rightarrow> json" where
  "curbs_public admin u = JObj ([(''source'', JStr (cu_source u)), (''url'', jtext (cu_url u)), (''providerId'', jtext (cu_provider u)),
     (''refreshMinutes'', JInt (cu_refresh u)), (''timeoutSeconds'', JInt (cu_timeout u)), (''rateMinorUnits'', JInt (cu_minor u))]
     @ (if admin then [(''credentials'', jdict JStr (cu_credentials u))] else []))"

definition mds_provider_public :: "bool \<Rightarrow> mds_provider \<Rightarrow> json" where
  "mds_provider_public admin p = JObj ([(''id'', JStr (mp_id p)), (''name'', JStr (mp_name p)), (''mode'', JStr (mp_mode p)), (''baseUrl'', JStr (mp_base_url p)),
     (''auth'', JObj [(''kind'', JStr (au_kind (mp_auth p))), (''tokenUrl'', jtext (au_token_url (mp_auth p))), (''jwksUrl'', jtext (au_jwks_url (mp_auth p))),
        (''issuer'', jtext (au_issuer (mp_auth p))), (''audience'', jtext (au_audience (mp_auth p))), (''providerIdClaim'', JStr (au_claim (mp_auth p)))]),
     (''ingest'', JArr (map JStr (mp_ingest p))), (''pollMinutes'', JInt (mp_poll p)), (''enabled'', JBool (mp_enabled p))]
     @ (if admin then [(''credentials'', jdict JStr (mp_credentials p))] else []))"

definition open_mobility_public :: "bool \<Rightarrow> city \<Rightarrow> json" where
  "open_mobility_public admin c = (let cds = om_cds (ci_open_mobility c); mds = om_mds (ci_open_mobility c); pr = om_park_ride (ci_open_mobility c) in
     JObj [(''cds'', JObj [(''enabled'', JBool (cd_enabled cds)), (''curbs'', curbs_public admin (cd_curbs cds)), (''publish'', JBool (cd_publish cds)),
         (''rateCurrency'', JStr (rate_currency c)), (''rateMinorUnits'', JInt (cd_minor cds)),
         (''events'', JObj [(''accept'', JBool (cd_accept cds)),
            (''providers'', JArr (map (\<lambda>p. JObj [(''id'', JStr (ep_id p)), (''name'', JStr (ep_name p))]) (cd_events cds)))])]),
       (''mds'', JObj [(''enabled'', JBool (md_enabled mds)), (''version'', JStr (md_version mds)), (''publishPolicy'', JBool (md_publish mds)),
         (''authorityUrl'', jtext (md_authority mds)), (''refreshMinutes'', JInt (md_refresh mds)), (''retentionDays'', JInt (md_retention mds)),
         (''providers'', JArr (map (mds_provider_public admin) (md_providers mds)))]),
       (''parkRide'', JObj [(''enabled'', JBool (pr_enabled pr)), (''maxDriveKm'', JFloat (pr_drive_km pr)), (''maxWalkMeters'', JInt (pr_walk pr)),
         (''defaultDwellHours'', JFloat (pr_dwell pr))])])"

definition ideca_admin :: "ideca_cfg \<Rightarrow> json" where
  "ideca_admin i = JObj [(''enabled'', JBool (id_enabled i)), (''url'', JStr (id_url i)), (''apiKey'', jtext (id_api_key i)), (''aliases'', jdict JStr (id_aliases i))]"

definition areas_admin :: "areas_cfg \<Rightarrow> json" where
  "areas_admin a = JObj [(''enabled'', JBool (ar_enabled a)), (''barriosUrl'', jtext (ar_barrios_url a)), (''barriosNameField'', JStr (ar_barrios_name a)),
     (''barriosCodeField'', JStr (ar_barrios_code a)), (''localidadesUrl'', jtext (ar_localidades_url a)), (''localidadesNameField'', JStr (ar_localidades_name a)),
     (''localidadesCodeField'', JStr (ar_localidades_code a)), (''refreshDays'', JInt (ar_refresh_days a))]"

definition geocoder_admin :: "geocoder_cfg \<Rightarrow> json" where
  "geocoder_admin g = JObj [(''photonUrl'', jtext (gc_photon_url g)), (''ideca'', ideca_admin (gc_ideca g)), (''areas'', areas_admin (gc_areas g))]"

definition COMPONENT_LABELS :: "(string \<times> string) list" where
  "COMPONENT_LABELS = [(''trunk'', ''Troncal''), (''feeder'', ''Alimentador''), (''dual'', ''Dual''), (''zonal'', ''Zonal''), (''cable'', ''Cable''),
     (''rail'', ''Tren''), (''other'', ''Otro'')]"

definition COMPONENT_ICONS :: "(string \<times> string) list" where
  "COMPONENT_ICONS = [(''trunk'', ''brt''), (''cable'', ''cable''), (''rail'', ''rail'')]"

definition components_from_agencies :: "city \<Rightarrow> component_cfg list" where
  \<comment> \<open>one entry per component, styled after its first agency\<close>
  "components_from_agencies c = map (\<lambda>a. \<lparr>cm_id = ag_component a, cm_label = or_else (map_of COMPONENT_LABELS (ag_component a)) (ag_component a),
       cm_color = the (str_or (ag_color a) (Some (br_primary (ci_branding c)))), cm_icon = or_else (map_of COMPONENT_ICONS (ag_component a)) ''bus''\<rparr>)
     (uniq_by (\<lambda>a. Some (ag_component a)) [] (ci_agencies c))"

definition components_of :: "city \<Rightarrow> component_cfg list" where
  "components_of c = (if ci_components c \<noteq> [] then ci_components c else components_from_agencies c)"

definition component_style :: "city \<Rightarrow> string option \<Rightarrow> component_cfg option" where
  "component_style c component = find (\<lambda>x. Some (cm_id x) = component) (components_of c)"

definition bundle_public :: "string \<Rightarrow> offline_bundle option \<Rightarrow> json" where
  "bundle_public counted b = jopt (\<lambda>b. JObj [(''url'', JStr (bn_url b)), (''bytes'', JInt (bn_bytes b)), (''formatVersion'', JInt (bn_version b)),
     (counted, jopt JInt (bn_count b)), (''builtAt'', jtext (bn_built_at b))]) b"

definition city_public :: "(string \<Rightarrow> json) \<Rightarrow> city \<Rightarrow> json" where
  "city_public account c = JObj
     [(''id'', JStr (ci_id c)), (''name'', JStr (ci_name c)), (''country'', JStr (ci_country c)), (''timezone'', JStr (ci_timezone c)),
      (''locale'', JStr (ci_locale c)), (''center'', JObj [(''lat'', JFloat (fst (ci_center c))), (''lon'', JFloat (snd (ci_center c)))]),
      (''bbox'', JArr (map JFloat (ci_bbox c))), (''defaultZoom'', JInt (ci_zoom c)), (''modes'', JArr (map JStr (ci_modes c))),
      (''branding'', JObj [(''primaryColor'', JStr (br_primary (ci_branding c))), (''logoUrl'', jtext (br_logo (ci_branding c)))]),
      (''features'', JObj [(''realtimeVehicles'', JBool (ff_vehicles (ci_features c))), (''tripUpdates'', JBool (ff_trip_updates (ci_features c))),
         (''alerts'', JBool (ff_alerts (ci_features c))), (''fares'', JBool (ff_fares (ci_features c))), (''bikeShare'', JBool (ff_bike_share (ci_features c))),
         (''onDemand'', JBool (on_demand_enabled c)), (''openMobility'', JBool (open_mobility_enabled c))]),
      (''offline'', bundle_public ''departures'' (ci_offline c)), (''offlinePatterns'', bundle_public ''patterns'' (ci_offline_patterns c)),
      (''agencies'', JArr (map (\<lambda>a. JObj [(''id'', JStr (ag_id a)), (''name'', JStr (ag_name a)), (''component'', JStr (ag_component a)),
         (''color'', jtext (ag_color a))]) (ci_agencies c))),
      (''components'', JArr (map (\<lambda>x. JObj [(''id'', JStr (cm_id x)), (''label'', JStr (cm_label x)), (''color'', JStr (cm_color x)),
         (''icon'', JStr (cm_icon x))]) (components_of c))),
      (''fares'', jopt fares_public (ci_fares c)),
      (''config'', config_view account (ci_config c) (assistant_public (ac_assistant (ci_config c)))),
      (''links'', links_public (ci_links c)), (''services'', JArr (map tile_public (ci_services c))),
      (''mobility'', mobility_public False (ci_mobility c)), (''openMobility'', open_mobility_public False c),
      (''attribution'', JStr (ci_attribution c))]"

definition fallback_key :: "string \<Rightarrow> json \<Rightarrow> json \<Rightarrow> json" where
  \<comment> \<open>\<open>d[k] = d[k] or v\<close>\<close>
  "fallback_key k v j = jput k (jor (jfield j k) v) j"

definition data_link :: "string \<Rightarrow> string \<Rightarrow> json" where
  "data_link lbl url = JObj [(''label'', JStr lbl), (''url'', JStr url)]"

definition derived_links :: "city \<Rightarrow> json list" where
  "derived_links c = [data_link ''GTFS'' (fd_static (ci_feeds c))]
     @ List.map_filter (\<lambda>(lbl, url). if truthy_str url then Some (data_link lbl (the url)) else None)
         [(''GTFS-RT '' @ [CHR 0xC2, CHR 0xB7] @ '' posiciones'', fd_positions (ci_feeds c)),
          (''GTFS-RT '' @ [CHR 0xC2, CHR 0xB7] @ '' llegadas'', fd_tripupdates (ci_feeds c)),
          (''GTFS-RT '' @ [CHR 0xC2, CHR 0xB7] @ '' alertas'', fd_alerts (ci_feeds c))]
     @ map (\<lambda>n. data_link (''GBFS '' @ [CHR 0xC2, CHR 0xB7] @ '' '' @ bk_name n) (bk_gbfs_url n)) (mo_bikes (ci_mobility c))"

definition landing_public :: "city \<Rightarrow> json" where
  "landing_public c = (let ld = ci_landing c;
       th = fallback_key ''logoUrl'' (jtext (br_logo (ci_branding c)))
              (fallback_key ''primaryColor'' (JStr (br_primary (ci_branding c))) (jfield ld ''theme''));
       od = (if truthy (jfield (jfield ld ''openData'') ''links'') then jfield ld ''openData''
             else jput ''links'' (JArr (derived_links c)) (jfield ld ''openData''));
       ft = fallback_key ''privacyUrl'' (jtext (lk_privacy (ci_links c)))
              (fallback_key ''attribution'' (JStr (ci_attribution c)) (jfield ld ''footer''))
     in jput ''footer'' ft (jput ''openData'' od (jput ''locale'' (jor (jfield ld ''locale'') (JStr (ci_locale c)))
          (jput ''theme'' th ld))))"

section \<open>Facts\<close>

lemma unscoped_scoped: "\<not> startswith r (feed_prefix c) \<Longrightarrow> map_option (unscoped c) (scoped c (Some r)) = Some r"
  by (simp add: scoped_def unscoped_def startswith_def)

lemma scoped_scoped: "scoped c (scoped c r) = scoped c r"
  by (cases r) (auto simp: scoped_def startswith_def)

lemma on_demand_enabled_provider:
  "on_demand_enabled c \<Longrightarrow> \<exists>p \<in> set (mo_on_demand (ci_mobility c)). op_enabled p"
proof -
  assume "on_demand_enabled c"
  then have "set (on_demand_providers c) \<noteq> {}" by (simp add: on_demand_enabled_def)
  then show ?thesis by (auto simp: on_demand_providers_def)
qed

lemma ride_quote_whole_minutes:
  assumes "0 \<le> m" "\<not> electric \<or> pm_electric p = None"
  shows "pe_amount (ride_quote p (Some m) electric) = Some (py_round_to 2 (pm_unlock p + pm_rate p * of_int \<lceil>m\<rceil>))"
  using assms by (auto simp: ride_quote_def ride_rate_def Let_def split: option.splits)

end
