(* ===== verification/Credentials.thy ===== *)
theory Credentials
  imports City_Views Api_Error
begin

text \<open>
  Secrets in admin payloads (\<open>app/ondemand.py\<close>, \<open>mask_secrets\<close> and the \<open>unmask_*\<close> functions of
  \<open>app/admin_config.py\<close>): what the panel sees is masked, and what it sends back keeps, replaces or clears
  the stored values.  A value that is neither text nor null makes \<open>is_masked\<close> raise.
\<close>

definition bullet :: string where "bullet = [CHR 0xE2, CHR 0x80, CHR 0xA2]"
definition MASK :: string where "MASK = bullet @ bullet @ bullet @ bullet"

definition continuation :: "char \<Rightarrow> bool" where "continuation c \<longleftrightarrow> 128 \<le> (of_char c :: nat) \<and> (of_char c :: nat) < 192"

function utf8_chars :: "string \<Rightarrow> string list" where
  "utf8_chars [] = []"
| "utf8_chars (c # cs) = (c # takeWhile continuation cs) # utf8_chars (dropWhile continuation cs)"
  by pat_completeness auto
termination by (relation "measure length") (simp_all add: le_imp_less_Suc length_dropWhile_le)

definition mask_value :: "string \<Rightarrow> string" where
  "mask_value v = (let cs = utf8_chars v; n = length cs in
     if v = [] then v else if 4 < n then MASK @ concat (drop (n - 4) cs) else MASK)"

definition mask_json :: "json \<Rightarrow> json" where
  \<comment> \<open>credentials are texts or null\<close>
  "mask_json j = (case j of JStr s \<Rightarrow> JStr (mask_value s) | _ \<Rightarrow> j)"

definition is_masked :: "json \<Rightarrow> raised + bool" where
  "is_masked j = (if \<not> truthy j then Inr False else case j of JStr s \<Rightarrow> Inr (startswith s MASK) | _ \<Rightarrow> Inl (Uncaught AttributeError))"

definition mask_object :: "json \<Rightarrow> json" where
  "mask_object j = (case j of JObj kvs \<Rightarrow> JObj (map (\<lambda>(k, v). (k, mask_json v)) kvs) | _ \<Rightarrow> j)"

fun mask_credentials :: "json \<Rightarrow> json" where
  \<comment> \<open>\<open>_walk\<close> with the masking function; masked credentials hold no object the walk could enter\<close>
  "mask_credentials (JObj kvs) = JObj (map (\<lambda>(k, v). (k, if k = ''credentials'' \<and> is_obj v then mask_object v else mask_credentials v)) kvs)"
| "mask_credentials (JArr js) = JArr (map mask_credentials js)"
| "mask_credentials j = j"

definition mask_at :: "string \<Rightarrow> string \<Rightarrow> json \<Rightarrow> json" where
  \<comment> \<open>\<open>d[a][k] = mask_value(d[a].get(k))\<close> where \<open>d[a]\<close> is an object\<close>
  "mask_at a k j = (if is_obj (jfield j a) then jput a (jput k (mask_json (jfield (jfield j a) k)) (jfield j a)) j else j)"

definition mask_secrets :: "json \<Rightarrow> json" where
  "mask_secrets data = (let out = mask_credentials data;
       out = (if is_obj (jfield out ''config'') then jput ''config'' (mask_at ''assistant'' ''apiKey'' (jfield out ''config'')) out else out)
     in if is_obj (jfield out ''geocoder'') then jput ''geocoder'' (mask_at ''ideca'' ''apiKey'' (jfield out ''geocoder'')) out else out)"

section \<open>What a sent credential means\<close>

fun sent_credentials :: "(string \<times> string) list \<Rightarrow> (string \<times> json) list \<Rightarrow> raised + (string \<times> json) list" where
  \<comment> \<open>null clears the key, a masked value keeps the stored one if there is one, anything else is taken\<close>
  "sent_credentials stored [] = Inr []"
| "sent_credentials stored ((k, v) # kvs) = and_then (sent_credentials stored kvs) (\<lambda>rest.
     if v = JNull then Inr rest
     else and_then (is_masked v) (\<lambda>masked. Inr (if masked
        then (if truthy_str (map_of stored k) then (k, JStr (the (map_of stored k))) # rest else rest)
        else (k, v) # rest)))"

definition credential_rules :: "(json \<Rightarrow> (string \<times> string) list) \<Rightarrow> json \<Rightarrow> raised + json" where
  \<comment> \<open>one item of \<open>apply_credential_rules\<close>; errors of a later key hide those of an earlier one, which only
    changes the text of the failure\<close>
  "credential_rules stored_for item = (if \<not> is_obj item then Inr item else
     let stored = stored_for (jfield item ''id'') in
     case jget item ''credentials'' of
       None \<Rightarrow> Inr (if stored = [] then item else jput ''credentials'' (jdict JStr stored) item)
     | Some JNull \<Rightarrow> Inr (jput ''credentials'' (JObj []) item)
     | Some (JObj kvs) \<Rightarrow> and_then (sent_credentials stored kvs) (\<lambda>cs. Inr (jput ''credentials'' (JObj cs) item))
     | _ \<Rightarrow> Inr item)"

definition apply_credential_rules :: "(json \<Rightarrow> (string \<times> string) list) \<Rightarrow> json list \<Rightarrow> raised + json list" where
  "apply_credential_rules stored_for js = traverse (credential_rules stored_for) js"

definition stored_provider :: "city \<Rightarrow> json \<Rightarrow> (string \<times> string) list" where
  "stored_provider c i = (case i of JStr s \<Rightarrow> (case on_demand_provider c (Some s) of None \<Rightarrow> [] | Some p \<Rightarrow> op_credentials p) | _ \<Rightarrow> [])"

definition unmask_patch :: "json \<Rightarrow> city \<Rightarrow> raised + json" where
  \<comment> \<open>of \<open>mobility.onDemand\<close>\<close>
  "unmask_patch patch c = (case jfield patch ''onDemand'' of
     JArr js \<Rightarrow> and_then (apply_credential_rules (stored_provider c) js) (\<lambda>xs. Inr (jput ''onDemand'' (JArr xs) patch))
   | _ \<Rightarrow> Inr patch)"

definition stored_mds :: "city \<Rightarrow> json \<Rightarrow> (string \<times> string) list" where
  \<comment> \<open>the last provider of an id, as the dictionary comprehension keeps it\<close>
  "stored_mds c i = (case i of JStr s \<Rightarrow> or_else (map_of (rev (map (\<lambda>p. (mp_id p, mp_credentials p)) (md_providers (om_mds (ci_open_mobility c))))) s) [] | _ \<Rightarrow> [])"

definition unmask_curbs :: "city \<Rightarrow> json \<Rightarrow> raised + json" where
  \<comment> \<open>\<open>cds.curbs\<close>: the rules on a copy, of which only the credentials are taken\<close>
  "unmask_curbs c curbs = and_then (credential_rules (\<lambda>_. cu_credentials (cd_curbs (om_cds (ci_open_mobility c)))) curbs)
     (\<lambda>w. Inr (case jget w ''credentials'' of None \<Rightarrow> curbs | Some v \<Rightarrow> jput ''credentials'' v curbs))"

definition unmask_open_mobility_patch :: "json \<Rightarrow> city \<Rightarrow> raised + json" where
  "unmask_open_mobility_patch patch c =
     and_then (case jfield (jfield patch ''mds'') ''providers'' of
         JArr js \<Rightarrow> and_then (apply_credential_rules (stored_mds c) js)
           (\<lambda>xs. Inr (jput ''mds'' (jput ''providers'' (JArr xs) (jfield patch ''mds'')) patch))
       | _ \<Rightarrow> Inr patch) (\<lambda>patch.
     let curbs = jfield (jfield patch ''cds'') ''curbs'' in
     if is_obj curbs then and_then (unmask_curbs c curbs)
         (\<lambda>u. Inr (jput ''cds'' (jput ''curbs'' u (jfield patch ''cds'')) patch))
     else Inr patch)"

definition unmask_key :: "string \<Rightarrow> string option \<Rightarrow> string option \<Rightarrow> json \<Rightarrow> raised + json" where
  \<comment> \<open>the key \<open>apiKey\<close> of a block: an echoed mask keeps the stored key, unless that is the YAML's own\<close>
  "unmask_key block stored base patch = (if \<not> is_obj (jfield patch block) then Inr patch else
     case jget (jfield patch block) ''apiKey'' of
       None \<Rightarrow> Inr patch
     | Some sent \<Rightarrow> and_then (is_masked sent) (\<lambda>masked.
         if \<not> masked then Inr patch
         else if \<not> truthy_str stored \<or> stored = base then Inr (jput block (jpop ''apiKey'' (jfield patch block)) patch)
         else Inr (jput block (jput ''apiKey'' (jtext stored) (jfield patch block)) patch)))"

definition unmask_assistant_patch :: "json \<Rightarrow> city \<Rightarrow> city \<Rightarrow> raised + json" where
  "unmask_assistant_patch patch c base =
     unmask_key ''assistant'' (as_api_key (ac_assistant (ci_config c))) (as_api_key (ac_assistant (ci_config base))) patch"

definition unmask_geocoder_patch :: "json \<Rightarrow> city \<Rightarrow> city \<Rightarrow> raised + json" where
  "unmask_geocoder_patch patch c base =
     unmask_key ''ideca'' (id_api_key (gc_ideca (ci_geocoder c))) (id_api_key (gc_ideca (ci_geocoder base))) patch"

section \<open>Facts\<close>

lemma startswith_mask: "s \<noteq> [] \<Longrightarrow> startswith (mask_value s) MASK"
  by (simp add: mask_value_def Let_def startswith_def)

lemma is_masked_mask: "s \<noteq> [] \<Longrightarrow> is_masked (JStr (mask_value s)) = Inr True"
  using startswith_mask[of s] by (auto simp: is_masked_def MASK_def bullet_def startswith_def)

lemma concat_utf8_chars: "concat (utf8_chars s) = s"
  by (induction s rule: utf8_chars.induct) simp_all

lemma mask_value_hides: "5 \<le> length (utf8_chars s) \<Longrightarrow> \<exists>hidden shown. s = concat hidden @ concat shown \<and> hidden \<noteq> [] \<and> length shown = 4
    \<and> mask_value s = MASK @ concat shown"
proof -
  assume n: "5 \<le> length (utf8_chars s)"
  let ?cs = "utf8_chars s" and ?n = "length (utf8_chars s)"
  have "s = concat (take (?n - 4) ?cs) @ concat (drop (?n - 4) ?cs)"
    using concat_utf8_chars[of s] by (metis append_take_drop_id concat_append)
  moreover have "take (?n - 4) ?cs \<noteq> []" using n by auto
  moreover have "s \<noteq> []" using n by auto
  ultimately show ?thesis using n
    by (intro exI[of _ "take (?n - 4) ?cs"] exI[of _ "drop (?n - 4) ?cs"]) (simp add: mask_value_def Let_def)
qed

lemma sent_masked:
  assumes "distinct (map fst stored)" "\<forall>(k, v) \<in> set stored. v \<noteq> []"
  shows "sent_credentials stored (map (\<lambda>(k, v). (k, JStr (mask_value v))) stored) = Inr (map (\<lambda>(k, v). (k, JStr v)) stored)"
proof -
  have "sent_credentials stored (map (\<lambda>(k, v). (k, JStr (mask_value v))) xs) = Inr (map (\<lambda>(k, v). (k, JStr v)) xs)"
    if "set xs \<subseteq> set stored" for xs
    using that
  proof (induction xs)
    case (Cons x xs)
    obtain k v where x: "x = (k, v)" by (cases x)
    have "map_of stored k = Some v" using Cons.prems assms(1) x by simp
    moreover have "v \<noteq> []" using Cons.prems assms(2) x by auto
    moreover have "mask_value v \<noteq> []" using startswith_mask[OF \<open>v \<noteq> []\<close>] by (auto simp: startswith_def MASK_def bullet_def)
    ultimately show ?case using Cons x is_masked_mask[of v] by (simp add: truthy_str_def)
  qed simp
  then show ?thesis by simp
qed

lemma mask_object_dict: "mask_object (jdict JStr cs) = JObj (map (\<lambda>(k, v). (k, JStr (mask_value v))) cs)"
  by (auto simp: mask_object_def jdict_def mask_json_def)

lemma mask_provider_admin:
  "mask_credentials (provider_admin p) = jput ''credentials'' (mask_object (jdict JStr (op_credentials p))) (provider_admin p)"
  by (simp add: provider_admin_def platform_links_def jput_def is_obj_def jdict_def mask_object_def jopt_def split: option.splits)


definition demo_provider :: od_provider where
  "demo_provider = \<lparr>op_id = ''uno'', op_name = ''Uno'', op_kind = ''taxi'', op_color = ''333333'', op_text_color = ''FFFFFF'', op_logo = None,
     op_estimate = \<lparr>oe_kind = ''none'', oe_tariff = None\<rparr>,
     op_handoff = \<lparr>oh_kind = ''none'', oh_template = None, oh_web = None, oh_apps = [], oh_scheme = None\<rparr>,
     op_credentials = [(''clientId'', ''abcdef''), (''serverToken'', ''xyz'')], op_enabled = True, op_order = 0\<rparr>"


end
