(* ===== verification/Admin_Config.thy ===== *)
theory Admin_Config
  imports Credentials
begin

text \<open>
  The editable configuration of \<open>app/admin_config.py\<close>: the deep merge of an override onto the YAML's
  sections, their validation (\<open>mv\<close> is pydantic's \<open>model_validate(...).model_dump()\<close>) and the effective city.
  A JSON object is the association list of its keys in order; \<open>account\<close> decodes a push service account.
\<close>

section \<open>Merging\<close>

definition kvs_size :: "(string \<times> json) list \<Rightarrow> nat" where
  "kvs_size = size_list (size_prod (\<lambda>_. 0) size)"

function (sequential) deep_merge :: "(string \<times> json) list \<Rightarrow> (string \<times> json) list \<Rightarrow> (string \<times> json) list" where
  "deep_merge base [] = base"
| "deep_merge base ((k, v) # patch) = deep_merge
     (case v of JNull \<Rightarrow> AList.delete k base
      | JObj pv \<Rightarrow> AList.update k (case map_of base k of Some (JObj bv) \<Rightarrow> JObj (deep_merge bv pv) | _ \<Rightarrow> v) base
      | _ \<Rightarrow> AList.update k v base) patch"
  by pat_completeness auto
termination by (relation "measure (kvs_size \<circ> snd)") (simp_all add: kvs_size_def)

definition yaml_sections :: "(string \<Rightarrow> json) \<Rightarrow> city \<Rightarrow> (string \<times> json) list" where
  "yaml_sections account c =
     [(''fares'', jopt fares_public (ci_fares c)),
      (''config'', config_view account (ci_config c) (assistant_admin (ac_assistant (ci_config c)))),
      (''links'', links_public (ci_links c)), (''services'', JArr (map tile_public (ci_services c))),
      (''branding'', JObj [(''primaryColor'', JStr (br_primary (ci_branding c)))]),
      (''mobility'', mobility_public True (ci_mobility c)), (''openMobility'', open_mobility_public True c),
      (''landing'', ci_landing c), (''geocoder'', geocoder_admin (ci_geocoder c))]"

section \<open>Validation\<close>

type_synonym validator = "schema \<Rightarrow> json \<Rightarrow> string + json"

definition refuse :: "string \<Rightarrow> raised + 'a" where "refuse path = Inl (unprocessable path)"

definition validate :: "validator \<Rightarrow> string \<Rightarrow> schema \<Rightarrow> json \<Rightarrow> raised + json" where
  "validate mv section s v = (case mv s v of Inl e \<Rightarrow> refuse (section @ '': '' @ e) | Inr d \<Rightarrow> Inr d)"

definition require :: "bool \<Rightarrow> string \<Rightarrow> raised + unit" where
  "require ok path = (if ok then Inr () else refuse path)"

definition ids_of :: "string \<Rightarrow> json \<Rightarrow> json list" where "ids_of k j = map (\<lambda>x. jfield x k) (items j)"

definition placeholder_at :: "string \<Rightarrow> bool" where
  \<comment> \<open>\<open>PLACEHOLDER\<close> matches at the start: a letter, letters and digits, between braces\<close>
  "placeholder_at s = (s \<noteq> [] \<and> hd s = CHR ''{'' \<and> (let w = takeWhile (\<lambda>c. is_alpha c \<or> is_digit c) (tl s) in
     w \<noteq> [] \<and> is_alpha (hd w) \<and> startswith (drop (length w) (tl s)) ''}''))"

definition has_placeholder :: "string \<Rightarrow> bool" where
  "has_placeholder s = list_ex (\<lambda>n. placeholder_at (drop n s)) [0..<length s]"

definition text_of :: "json \<Rightarrow> string" where "text_of j = (case j of JStr s \<Rightarrow> s | _ \<Rightarrow> [])"

definition provider_checks :: "json list \<Rightarrow> json \<Rightarrow> raised + unit" where
  "provider_checks tids p = (let est = jfield p ''estimate''; h = jfield p ''handoff'' in
     and_then (require (\<not> (jfield est ''kind'' = JStr ''tariff'' \<and> jfield est ''tariffId'' \<notin> set tids)) ''mobility.onDemand.estimate.tariffId'') (\<lambda>_.
     require (jfield h ''kind'' = JStr ''template'' \<longrightarrow> truthy (jfield h ''template'') \<and> has_placeholder (text_of (jfield h ''template'')))
       ''mobility.onDemand.handoff.template''))"

definition surcharge_zones_known :: "json \<Rightarrow> bool" where
  "surcharge_zones_known t = list_all (\<lambda>s. list_all (\<lambda>z. z \<in> set (ids_of ''id'' (jfield t ''zones''))) (items (jfield (jfield s ''when'') ''zones'')))
     (items (jfield t ''surcharges''))"

definition validate_ondemand :: "json \<Rightarrow> raised + unit" where
  "validate_ondemand mob = (let tids = ids_of ''id'' (jfield mob ''taxiTariffs'') in
     and_then (require (distinct tids) ''mobility.taxiTariffs: duplicate tariff id'') (\<lambda>_.
     and_then (require (list_all surcharge_zones_known (items (jfield mob ''taxiTariffs''))) ''mobility.taxiTariffs.surcharges.when.zones: unknown zone'') (\<lambda>_.
     and_then (require (distinct (ids_of ''id'' (jfield mob ''onDemand''))) ''mobility.onDemand: duplicate provider id'') (\<lambda>_.
     and_then (require (distinct (ids_of ''order'' (jfield mob ''onDemand''))) ''mobility.onDemand: order must be unique'') (\<lambda>_.
     and_then (traverse (provider_checks tids) (items (jfield mob ''onDemand''))) (\<lambda>_. Inr ()))))))"

definition mds_auth_check :: "json \<Rightarrow> raised + unit" where
  "mds_auth_check p = (let a = jfield p ''auth'' in
     and_then (require (jfield a ''kind'' = JStr ''oauth2'' \<longrightarrow> truthy (jfield a ''tokenUrl'')) ''openMobility.mds.providers.auth.tokenUrl: required for oauth2'') (\<lambda>_.
     require (jfield a ''kind'' = JStr ''jwt'' \<longrightarrow> truthy (jfield a ''jwksUrl'')) ''openMobility.mds.providers.auth.jwksUrl: required for jwt''))"

definition validate_open_mobility :: "json \<Rightarrow> raised + unit" where
  "validate_open_mobility om = (let curbs = jfield (jfield om ''cds'') ''curbs'' in
     and_then (require (jfield curbs ''source'' = JStr ''url'' \<longrightarrow> truthy (jfield curbs ''url'')) ''openMobility.cds.curbs.url: required when source is url'') (\<lambda>_.
     and_then (require (jfield curbs ''source'' = JStr ''pim'' \<longrightarrow> truthy (jfield curbs ''url'')) ''openMobility.cds.curbs.url: the PIM API base is required'') (\<lambda>_.
     and_then (require (jfield curbs ''source'' = JStr ''pim'' \<longrightarrow> truthy (jfield curbs ''providerId'')) ''openMobility.cds.curbs.providerId: required'') (\<lambda>_.
     and_then (require (distinct (ids_of ''id'' (jfield (jfield (jfield om ''cds'') ''events'') ''providers''))) ''openMobility.cds.events.providers: duplicate'') (\<lambda>_.
     and_then (require (distinct (ids_of ''id'' (jfield (jfield om ''mds'') ''providers''))) ''openMobility.mds.providers: duplicate'') (\<lambda>_.
     and_then (traverse mds_auth_check (items (jfield (jfield om ''mds'') ''providers''))) (\<lambda>_. Inr ())))))))"

record sections =
  se_fares :: "json option"
  se_config :: json
  se_links :: json
  se_services :: "json list"
  se_branding :: json
  se_mobility :: json
  se_open_mobility :: json
  se_landing :: json
  se_geocoder :: json

definition section_of :: "(string \<times> json) list \<Rightarrow> string \<Rightarrow> json" where
  \<comment> \<open>\<open>sections.get(k) or {}\<close>\<close>
  "section_of ss k = jor (jfield (JObj ss) k) (JObj [])"

definition checked :: "sections \<Rightarrow> raised + sections" where
  \<comment> \<open>the rules that span fields\<close>
  "checked out = (let ideca = jfield (se_geocoder out) ''ideca''; areas = jfield (se_geocoder out) ''areas'' in
     and_then (require (truthy (jfield ideca ''enabled'') \<longrightarrow> truthy (jfield ideca ''url'')) ''geocoder.ideca.url: required when enabled'') (\<lambda>_.
     and_then (require (truthy (jfield areas ''enabled'') \<longrightarrow> truthy (jfield areas ''barriosUrl'')) ''geocoder.areas.barriosUrl: required when enabled'') (\<lambda>_.
     and_then (require (distinct (map (\<lambda>s. jfield s ''id'') (se_services out))) ''services: duplicate service id'') (\<lambda>_.
     and_then (require (distinct (ids_of ''id'' (jfield (se_mobility out) ''bikeShare''))) ''mobility.bikeShare: duplicate network id'') (\<lambda>_.
     and_then (validate_ondemand (se_mobility out)) (\<lambda>_.
     and_then (validate_open_mobility (se_open_mobility out)) (\<lambda>_. Inr out)))))))"

definition validate_sections :: "validator \<Rightarrow> (string \<times> json) list \<Rightarrow> raised + sections" where
  \<comment> \<open>the sections in the order of the dictionary display\<close>
  "validate_sections mv ss =
     and_then (if truthy (jfield (JObj ss) ''fares'') then and_then (validate mv ''fares'' FaresCfg (jfield (JObj ss) ''fares'')) (\<lambda>f. Inr (Some f)) else Inr None) (\<lambda>fares.
     and_then (validate mv ''config'' ConfigCfg (section_of ss ''config'')) (\<lambda>config.
     and_then (validate mv ''links'' LinksCfg (section_of ss ''links'')) (\<lambda>links.
     and_then (and_then (elements (jfield (JObj ss) ''services'')) (traverse (validate mv ''services'' ServiceCfg))) (\<lambda>services.
     and_then (validate mv ''branding'' BrandingCfg (section_of ss ''branding'')) (\<lambda>branding.
     and_then (validate mv ''mobility'' MobilityCfg (section_of ss ''mobility'')) (\<lambda>mobility.
     and_then (validate mv ''openMobility'' OpenMobilityCfg (section_of ss ''openMobility'')) (\<lambda>om.
     and_then (validate mv ''landing'' LandingCfg (section_of ss ''landing'')) (\<lambda>landing.
     and_then (validate mv ''geocoder'' GeocoderCfg (section_of ss ''geocoder'')) (\<lambda>geocoder.
     checked \<lparr>se_fares = fares, se_config = config, se_links = links, se_services = services, se_branding = branding, se_mobility = mobility,
              se_open_mobility = om, se_landing = landing, se_geocoder = geocoder\<rparr>)))))))))"

end
