(* ===== verification/City_Build.thy ===== *)
theory City_Build
  imports Admin_Config
begin

text \<open>
  \<open>build_city\<close> and \<open>effective_city\<close> of \<open>app/admin_config.py\<close>: the city an override makes of the YAML
  city.  The readers below are total; on a validated section each meets the type it reads.
\<close>

definition opt_of :: "(json \<Rightarrow> 'a) \<Rightarrow> json \<Rightarrow> 'a option" where "opt_of f j = (if j = JNull then None else Some (f j))"
definition int_of :: "json \<Rightarrow> int" where "int_of j = (case j of JInt n \<Rightarrow> n | _ \<Rightarrow> 0)"
definition rat_of :: "json \<Rightarrow> rat" where "rat_of j = (case j of JFloat x \<Rightarrow> x | JInt n \<Rightarrow> of_int n | _ \<Rightarrow> 0)"
definition bool_of :: "json \<Rightarrow> bool" where "bool_of j = (case j of JBool b \<Rightarrow> b | _ \<Rightarrow> False)"
definition dict_of :: "(json \<Rightarrow> 'a) \<Rightarrow> json \<Rightarrow> (string \<times> 'a) list" where
  "dict_of f j = (case j of JObj kvs \<Rightarrow> map (\<lambda>(k, v). (k, f v)) kvs | _ \<Rightarrow> [])"
definition text_opt :: "json \<Rightarrow> string option" where "text_opt = opt_of text_of"

definition fares_of :: "json \<Rightarrow> city_fares" where
  "fares_of f = \<lparr>fa_currency = text_of (jfield f ''currency''), fa_base = rat_of (jfield f ''base''), fa_transfer = rat_of (jfield f ''transfer''),
     fa_window = int_of (jfield f ''transferWindowMinutes''), fa_max = int_of (jfield f ''maxTransfers''), fa_note = text_opt (jfield f ''note'')\<rparr>"

definition assistant_of :: "json \<Rightarrow> assistant_cfg" where
  "assistant_of a = \<lparr>as_enabled = bool_of (jfield a ''enabled''), as_provider = text_of (jfield a ''provider''), as_model = text_opt (jfield a ''model''),
     as_api_key = text_opt (jfield a ''apiKey''), as_base_url = text_opt (jfield a ''baseUrl''), as_max_replies = int_of (jfield a ''maxRepliesPerSession''),
     as_max_tools = int_of (jfield a ''maxToolCallsPerReply''), as_budget = rat_of (jfield a ''dailyBudgetUsd''), as_rate = int_of (jfield a ''rateLimitPerMinute''),
     as_extra = text_opt (jfield a ''systemExtra''), as_log = bool_of (jfield a ''logConversations'')\<rparr>"

definition config_of :: "app_config \<Rightarrow> json \<Rightarrow> app_config" where
  \<comment> \<open>\<open>ShareConfig\<close> is made without \<open>web_base_url\<close>; the push credentials are the base's\<close>
  "config_of base c = \<lparr>ac_poll = int_of (jfield c ''vehiclePollSeconds''), ac_departures = int_of (jfield c ''departuresRefreshSeconds''),
     ac_features = dict_of bool_of (jfield c ''features''),
     ac_min_version = \<lparr>ve_ios = text_of (jfield (jfield c ''minAppVersion'') ''ios''), ve_android = text_of (jfield (jfield c ''minAppVersion'') ''android'')\<rparr>,
     ac_update_urls = \<lparr>ur_ios = text_opt (jfield (jfield c ''updateUrls'') ''ios''), ur_android = text_opt (jfield (jfield c ''updateUrls'') ''android'')\<rparr>,
     ac_maintenance = \<lparr>mt_active = bool_of (jfield (jfield c ''maintenance'') ''active''), mt_message = text_opt (jfield (jfield c ''maintenance'') ''message'')\<rparr>,
     ac_analytics = \<lparr>an_enabled = bool_of (jfield (jfield c ''analytics'') ''enabled''), an_retention = int_of (jfield (jfield c ''analytics'') ''retentionDays''),
        an_k = int_of (jfield (jfield c ''analytics'') ''kThreshold'')\<rparr>,
     ac_share = \<lparr>sc_enabled = bool_of (jfield (jfield c ''share'') ''enabled''), sc_ttl = int_of (jfield (jfield c ''share'') ''ttlMinutes''),
        sc_max_ttl = int_of (jfield (jfield c ''share'') ''maxTtlMinutes''), sc_web_base = None\<rparr>,
     ac_push = (ac_push base)\<lparr>pu_enabled := bool_of (jfield (jfield c ''push'') ''enabled''), pu_reminders := bool_of (jfield (jfield c ''push'') ''reminders'')\<rparr>,
     ac_assistant = assistant_of (jfield c ''assistant'')\<rparr>"

definition links_of :: "json \<Rightarrow> links_cfg" where
  "links_of l = \<lparr>lk_pqrs = text_opt (jfield l ''pqrs''), lk_recharge = text_opt (jfield l ''recharge''), lk_support = text_opt (jfield l ''support''),
     lk_privacy = text_opt (jfield l ''privacy'')\<rparr>"

definition tile_of :: "json \<Rightarrow> service_tile" where
  "tile_of s = \<lparr>st_id = text_of (jfield s ''id''), st_label = text_of (jfield s ''label''), st_icon = text_of (jfield s ''icon''), st_url = text_opt (jfield s ''url''),
     st_phone = text_opt (jfield s ''phone''), st_description = text_opt (jfield s ''description''), st_emergency = bool_of (jfield s ''emergency''),
     st_kind = text_of (jfield s ''kind'')\<rparr>"

definition per_minute_price :: "json \<Rightarrow> per_minute option" where
  \<comment> \<open>\<open>_per_minute_price\<close>\<close>
  "per_minute_price v = (if \<not> truthy v then None else
     Some \<lparr>pm_unlock = rat_of (jfield v ''unlock''), pm_rate = rat_of (jfield v ''perMinute''), pm_electric = opt_of rat_of (jfield v ''perMinuteElectric''),
       pm_money = (let c = text_of (jfield v ''currency'') in if c = [] then ''COP'' else c),
       pm_label = (let l = text_of (jfield v ''label'') in if l = [] then ''1 viaje'' else l)\<rparr>)"

definition bike_of :: "json \<Rightarrow> bike_network" where
  "bike_of n = \<lparr>bk_id = text_of (jfield n ''id''), bk_name = text_of (jfield n ''name''), bk_network = text_of (jfield n ''network''),
     bk_gbfs_url = text_of (jfield n ''gbfsUrl''), bk_color = text_of (jfield n ''color''), bk_url = text_opt (jfield n ''url''),
     bk_apps = dict_of text_opt (jfield n ''apps''), bk_pricing = text_opt (jfield n ''pricingSummary''), bk_single = opt_of id (jfield n ''singleTripPrice''),
     bk_per_minute = per_minute_price (jfield n ''perMinutePrice''), bk_forms = map text_of (items (jfield n ''formFactors''))\<rparr>"

definition surcharge_of :: "json \<Rightarrow> surcharge" where
  "surcharge_of x = (let w = jfield x ''when'' in \<lparr>su_id = text_of (jfield x ''id''), su_label = text_of (jfield x ''label''), su_amount = rat_of (jfield x ''amount''),
     su_when = \<lparr>sw_night_from = text_opt (jfield w ''nightFrom''), sw_night_to = text_opt (jfield w ''nightTo''), sw_sundays = bool_of (jfield w ''sundays''),
       sw_holidays = bool_of (jfield w ''holidays''), sw_zones = map text_of (items (jfield w ''zones'')), sw_optional = bool_of (jfield w ''optional'')\<rparr>\<rparr>)"

definition zone_of :: "json \<Rightarrow> zone_cfg" where
  "zone_of z = \<lparr>zn_id = text_of (jfield z ''id''), zn_name = text_of (jfield z ''name''),
     zn_polygon = map (\<lambda>v. map rat_of (items v)) (items (jfield z ''polygon''))\<rparr>"

definition tariff_of :: "json \<Rightarrow> tariff_cfg" where
  "tariff_of t = \<lparr>tc_id = text_of (jfield t ''id''), tc_name = text_of (jfield t ''name''), tc_currency = text_of (jfield t ''currency''),
     tc_flag_fall = rat_of (jfield t ''flagFall''), tc_unit_price = rat_of (jfield t ''unitPrice''), tc_unit_meters = int_of (jfield t ''unitMeters''),
     tc_unit_seconds = int_of (jfield t ''unitSeconds''), tc_minimum = rat_of (jfield t ''minimumFare''),
     tc_surcharges = map surcharge_of (items (jfield t ''surcharges'')), tc_zones = map zone_of (items (jfield t ''zones'')),
     tc_source = opt_of (dict_of text_opt) (jfield t ''source''), tc_valid_from = text_opt (jfield t ''validFrom''), tc_note = text_opt (jfield t ''note''),
     tc_waiting = rat_of (jfield t ''waitingShare''), tc_rounding = int_of (jfield t ''rounding''), tc_band = rat_of (jfield t ''bandPct'')\<rparr>"

definition kept_credentials :: "json \<Rightarrow> (string \<times> string) list" where
  \<comment> \<open>\<open>{k: v for k, v in (p.get("credentials") or {}).items() if v}\<close>\<close>
  "kept_credentials j = filter (\<lambda>(k, v). v \<noteq> []) (dict_of text_of j)"

definition provider_of :: "json \<Rightarrow> od_provider" where
  "provider_of p = (let e = jfield p ''estimate''; h = jfield p ''handoff'' in
     \<lparr>op_id = text_of (jfield p ''id''), op_name = text_of (jfield p ''name''), op_kind = text_of (jfield p ''kind''), op_color = text_of (jfield p ''color''),
      op_text_color = text_of (jfield p ''textColor''), op_logo = text_opt (jfield p ''logoUrl''),
      op_estimate = \<lparr>oe_kind = text_of (jfield e ''kind''), oe_tariff = text_opt (jfield e ''tariffId'')\<rparr>,
      op_handoff = \<lparr>oh_kind = text_of (jfield h ''kind''), oh_template = text_opt (jfield h ''template''), oh_web = text_opt (jfield h ''web''),
         oh_apps = dict_of text_opt (jfield h ''apps''), oh_scheme = text_opt (jfield h ''scheme'')\<rparr>,
      op_credentials = kept_credentials (jfield p ''credentials''), op_enabled = bool_of (jfield p ''enabled''), op_order = int_of (jfield p ''order'')\<rparr>)"

definition policy_of :: "json \<Rightarrow> od_policy" where
  "policy_of p = \<lparr>po_direct_km = rat_of (jfield p ''maxDirectDistanceKm''), po_first_last = bool_of (jfield p ''firstLastMile''),
     po_feeder_km = rat_of (jfield p ''maxFeederKm''), po_faster = bool_of (jfield p ''showWhenTransitFaster''), po_factor = rat_of (jfield p ''durationFactor''),
     po_night_factor = rat_of (jfield p ''nightDurationFactor'')\<rparr>"

definition mobility_of :: "json \<Rightarrow> mobility_cfg" where
  "mobility_of m = \<lparr>mo_bikes = map bike_of (items (jfield m ''bikeShare'')), mo_tariffs = map tariff_of (items (jfield m ''taxiTariffs'')),
     mo_on_demand = map provider_of (items (jfield m ''onDemand'')), mo_policy = policy_of (jfield m ''onDemandPolicy'')\<rparr>"

definition curbs_of :: "json \<Rightarrow> curbs_cfg" where
  "curbs_of u = \<lparr>cu_source = text_of (jfield u ''source''), cu_url = text_opt (jfield u ''url''), cu_provider = text_opt (jfield u ''providerId''),
     cu_refresh = int_of (jfield u ''refreshMinutes''), cu_timeout = int_of (jfield u ''timeoutSeconds''),
     cu_credentials = dict_of text_of (jfield u ''credentials''), cu_minor = int_of (jfield u ''rateMinorUnits'')\<rparr>"

definition cds_of :: "json \<Rightarrow> cds_cfg" where
  "cds_of c = \<lparr>cd_enabled = bool_of (jfield c ''enabled''), cd_curbs = curbs_of (jfield c ''curbs''), cd_publish = bool_of (jfield c ''publish''),
     cd_accept = bool_of (jfield (jfield c ''events'') ''accept''),
     cd_events = map (\<lambda>p. \<lparr>ep_id = text_of (jfield p ''id''), ep_name = text_of (jfield p ''name''), ep_token_hash = text_opt (jfield p ''tokenHash'')\<rparr>)
       (items (jfield (jfield c ''events'') ''providers'')),
     cd_currency = text_opt (jfield c ''rateCurrency''), cd_minor = int_of (jfield c ''rateMinorUnits'')\<rparr>"

definition mds_provider_of :: "json \<Rightarrow> mds_provider" where
  \<comment> \<open>the client id and secret of the auth block come from the credentials\<close>
  "mds_provider_of p = (let a = jfield p ''auth''; creds = jfield p ''credentials'' in
     \<lparr>mp_id = text_of (jfield p ''id''), mp_name = text_of (jfield p ''name''), mp_mode = text_of (jfield p ''mode''), mp_base_url = text_of (jfield p ''baseUrl''),
      mp_auth = \<lparr>au_kind = text_of (jfield a ''kind''), au_token_url = text_opt (jfield a ''tokenUrl''), au_client_id = text_opt (jfield creds ''clientId''),
        au_client_secret = text_opt (jfield creds ''clientSecret''), au_jwks_url = text_opt (jfield a ''jwksUrl''), au_issuer = text_opt (jfield a ''issuer''),
        au_audience = text_opt (jfield a ''audience''), au_claim = text_of (jfield a ''providerIdClaim'')\<rparr>,
      mp_ingest = map text_of (items (jfield p ''ingest'')), mp_poll = int_of (jfield p ''pollMinutes''), mp_credentials = kept_credentials creds,
      mp_enabled = bool_of (jfield p ''enabled'')\<rparr>)"

definition open_mobility_of :: "json \<Rightarrow> open_mobility" where
  "open_mobility_of om = (let m = jfield om ''mds''; pr = jfield om ''parkRide'' in
     \<lparr>om_cds = cds_of (jfield om ''cds''),
      om_mds = \<lparr>md_enabled = bool_of (jfield m ''enabled''), md_version = text_of (jfield m ''version''), md_publish = bool_of (jfield m ''publishPolicy''),
        md_authority = text_opt (jfield m ''authorityUrl''), md_refresh = int_of (jfield m ''refreshMinutes''),
        md_providers = map mds_provider_of (items (jfield m ''providers'')), md_retention = int_of (jfield m ''retentionDays'')\<rparr>,
      om_park_ride = \<lparr>pr_enabled = bool_of (jfield pr ''enabled''), pr_drive_km = rat_of (jfield pr ''maxDriveKm''), pr_walk = int_of (jfield pr ''maxWalkMeters''),
        pr_dwell = rat_of (jfield pr ''defaultDwellHours'')\<rparr>\<rparr>)"

definition geocoder_of :: "json \<Rightarrow> geocoder_cfg" where
  "geocoder_of g = (let i = jfield g ''ideca''; a = jfield g ''areas'' in
     \<lparr>gc_photon_url = text_opt (jfield g ''photonUrl''),
      gc_ideca = \<lparr>id_enabled = bool_of (jfield i ''enabled''), id_url = text_of (jfield i ''url''), id_api_key = text_opt (jfield i ''apiKey''),
        id_aliases = dict_of text_of (jfield i ''aliases'')\<rparr>,
      gc_areas = \<lparr>ar_enabled = bool_of (jfield a ''enabled''), ar_barrios_url = text_opt (jfield a ''barriosUrl''), ar_barrios_name = text_of (jfield a ''barriosNameField''),
        ar_barrios_code = text_of (jfield a ''barriosCodeField''), ar_localidades_url = text_opt (jfield a ''localidadesUrl''),
        ar_localidades_name = text_of (jfield a ''localidadesNameField''), ar_localidades_code = text_of (jfield a ''localidadesCodeField''),
        ar_refresh_days = int_of (jfield a ''refreshDays'')\<rparr>\<rparr>)"

definition build_city :: "city \<Rightarrow> sections \<Rightarrow> city" where
  "build_city base s = (let mob = mobility_of (se_mobility s); om = open_mobility_of (se_open_mobility s) in
     base\<lparr>ci_fares := map_option fares_of (se_fares s), ci_config := config_of (ci_config base) (se_config s), ci_links := links_of (se_links s),
       ci_services := map tile_of (se_services s),
       ci_branding := (ci_branding base)\<lparr>br_primary := text_of (jfield (se_branding s) ''primaryColor'')\<rparr>,
       ci_mobility := mob, ci_open_mobility := om,
       ci_features := (ci_features base)\<lparr>ff_bike_share := mo_bikes mob \<noteq> [], ff_on_demand := list_ex op_enabled (mo_on_demand mob),
          ff_open_mobility := cd_enabled (om_cds om) \<or> md_enabled (om_mds om)\<rparr>,
       ci_landing := se_landing s, ci_geocoder := geocoder_of (se_geocoder s)\<rparr>)"

definition effective_city :: "validator \<Rightarrow> (string \<Rightarrow> json) \<Rightarrow> city \<Rightarrow> (string \<times> json) list \<Rightarrow> raised + city" where
  "effective_city mv account base override =
     and_then (validate_sections mv (deep_merge (yaml_sections account base) override)) (\<lambda>s. Inr (build_city base s))"

end
