(* ===== verification/City_Roundtrip.thy ===== *)
theory City_Roundtrip
  imports City_Build
begin

text \<open>
  What the admin layer makes of a city nobody has overridden.  At start-up \<open>load_overrides\<close> sends every
  city through its own sections and back (\<open>effective_city\<close> with no override), so any field the sections do
  not carry is replaced by a default: \<open>settled\<close> is the city that comes out.
\<close>

lemma jopt_simps [simp]: "jopt f None = JNull" "jopt f (Some v) = f v"
  by (simp_all add: jopt_def)

lemma text_opt_jtext [simp]: "text_opt (jtext x) = x"
  by (cases x) (simp_all add: text_opt_def opt_of_def jopt_def text_of_def)

lemma rat_opt_jopt [simp]: "opt_of rat_of (jopt JFloat x) = x"
  by (cases x) (simp_all add: opt_of_def jopt_def rat_of_def)

lemma readers [simp]: "text_of (JStr s) = s" "int_of (JInt n) = n" "rat_of (JFloat x) = x" "bool_of (JBool b) = b" "items (JArr js) = js"
  by (simp_all add: text_of_def int_of_def rat_of_def bool_of_def items_def)

lemma fill_simple [simp]: "fill SBool j = j" "fill (SInt p) j = j" "fill (SFloat q) j = j" "fill (SStr r) j = j" "fill (SLit ws) j = j"
  by (cases j; simp)+

lemma fill_opt_simple [simp]: "fill (SOpt (SStr r)) j = j" "fill (SOpt (SFloat q)) j = j"
  by auto

lemma fill_opt_model [simp]: "fill (SOpt (SModel fs ok)) j = (if j = JNull then JNull else fill (SModel fs ok) j)"
  by simp

lemma fill_opt_map [simp]: "fill (SOpt (SMap ok (SOpt (SStr r)))) (jopt (jdict jtext) x) = jopt (jdict jtext) x"
  by (cases x) (simp_all add: jopt_def jdict_def o_def case_prod_beta)

declare fill.simps(1) [simp del]

lemma fill_texts [simp]: "fill (SArr p (SStr r)) (JArr js) = JArr js" "fill (SArr p (SLit ws)) (JArr js) = JArr js"
  by (simp_all add: map_idI)

lemma dict_round [simp]:
  "dict_of text_of (jdict JStr kvs) = kvs" "dict_of bool_of (jdict JBool fs) = fs" "dict_of text_opt (jdict jtext as) = as"
  by (simp_all add: dict_of_def jdict_def o_def case_prod_beta)

lemma fill_dict [simp]:
  "fill (SMap ok (SStr r)) (jdict JStr kvs) = jdict JStr kvs" "fill (SMap ok SBool) (jdict JBool fs) = jdict JBool fs"
  "fill (SMap ok (SOpt (SStr r))) (jdict jtext as) = jdict jtext as"
  by (simp_all add: jdict_def o_def case_prod_beta)

lemma is_opt [simp]: "jdict f kvs \<noteq> JNull" by (simp add: jdict_def)

lemmas schema_simps = model_def req_def dflt_def sub_def

lemma fares_round: "fares_of (fill FaresCfg (fares_public f)) = f"
  by (simp add: FaresCfg_def schema_simps fares_public_def fares_of_def)

lemma links_round: "links_of (fill LinksCfg (links_public l)) = l"
  by (simp add: LinksCfg_def schema_simps links_public_def links_of_def)

lemma tile_round: "tile_of (fill ServiceCfg (tile_public s)) = s"
  by (simp add: ServiceCfg_def schema_simps tile_public_def tile_of_def)

definition settled_config :: "(string \<Rightarrow> json) \<Rightarrow> app_config \<Rightarrow> app_config" where
  "settled_config account c = c\<lparr>ac_share := (ac_share c)\<lparr>sc_max_ttl := 720, sc_web_base := None\<rparr>,
     ac_push := (ac_push c)\<lparr>pu_reminders := reminders_active account (ac_push c)\<rparr>\<rparr>"

lemma config_round:
  "config_of c (fill ConfigCfg (config_view account c (assistant_admin (ac_assistant c)))) = settled_config account c"
  by (simp add: ConfigCfg_def MinAppVersionCfg_def UpdateUrlsCfg_def MaintenanceCfg_def AnalyticsCfg_def ShareCfg_def PushCfg_def AssistantCfg_def
    schema_simps config_view_def assistant_admin_def config_of_def assistant_of_def settled_config_def)

definition settled_apps :: "(string \<times> string option) list \<Rightarrow> (string \<times> string option) list" where
  "settled_apps apps = [(''ios'', or_else (map_of apps ''ios'') None), (''android'', or_else (map_of apps ''android'') None)]"

lemma apps_round [simp]: "dict_of text_opt (fill AppLinksCfg (platform_links apps)) = settled_apps apps"
  by (simp add: AppLinksCfg_def schema_simps platform_links_def dict_of_def settled_apps_def)

definition settled_price :: "per_minute \<Rightarrow> per_minute" where
  "settled_price p = p\<lparr>pm_money := (if pm_money p = [] then ''COP'' else pm_money p), pm_label := (if pm_label p = [] then ''1 viaje'' else pm_label p)\<rparr>"

definition settled_bike :: "bike_network \<Rightarrow> bike_network" where
  "settled_bike n = n\<lparr>bk_apps := settled_apps (bk_apps n), bk_single := map_option (fill SingleTripPriceCfg) (bk_single n),
     bk_per_minute := map_option settled_price (bk_per_minute n)\<rparr>"

lemma per_minute_round: "per_minute_price (fill (SOpt PerMinutePriceCfg) (jopt per_minute_public x)) = map_option settled_price x"
  by (cases x) (simp_all add: per_minute_price_def per_minute_public_def PerMinutePriceCfg_def schema_simps Let_def settled_price_def)

lemma single_round:
  "bk_single n \<noteq> Some JNull \<Longrightarrow> (\<forall>j. bk_single n = Some j \<longrightarrow> fits SingleTripPriceCfg j) \<Longrightarrow>
    opt_of id (fill (SOpt SingleTripPriceCfg) (jopt id (bk_single n))) = map_option (fill SingleTripPriceCfg) (bk_single n)"
  by (cases "bk_single n") (auto simp: opt_of_def SingleTripPriceCfg_def schema_simps split: json.splits)

lemma bike_round:
  assumes "fits BikeShareCfg (bike_public n)" "bk_single n \<noteq> Some JNull"
  shows "bike_of (fill BikeShareCfg (bike_public n)) = settled_bike n"
proof -
  have "\<forall>j. bk_single n = Some j \<longrightarrow> fits SingleTripPriceCfg j"
    using assms by (auto simp: BikeShareCfg_def schema_simps bike_public_def)
  from single_round[OF assms(2) this] show ?thesis
    by (simp add: BikeShareCfg_def schema_simps bike_public_def bike_of_def settled_bike_def per_minute_round o_def)
qed

lemma surcharge_round: "surcharge_of (fill TaxiSurchargeCfg (surcharge_public x)) = x"
  by (simp add: TaxiSurchargeCfg_def TaxiSurchargeWhenCfg_def schema_simps surcharge_public_def surcharge_of_def Let_def o_def)

lemma zone_round: "zone_of (fill TaxiZoneCfg (zone_public z)) = z"
  by (simp add: TaxiZoneCfg_def schema_simps zone_public_def zone_of_def o_def)

lemma tariff_round: "tariff_of (fill TaxiTariffCfg (tariff_public t)) = t"
proof -
  have s: "opt_of (dict_of text_opt) (jopt (jdict jtext) x) = x" for x
    by (cases x) (simp_all add: opt_of_def)
  have "map surcharge_of (map (fill TaxiSurchargeCfg) (map surcharge_public xs)) = xs" for xs
    by (simp add: o_def surcharge_round)
  moreover have "map zone_of (map (fill TaxiZoneCfg) (map zone_public zs)) = zs" for zs
    by (simp add: o_def zone_round)
  ultimately show ?thesis
    by (simp add: TaxiTariffCfg_def schema_simps tariff_public_def tariff_of_def s del: map_map)
qed

definition settled_provider :: "od_provider \<Rightarrow> od_provider" where
  "settled_provider p = p\<lparr>op_handoff := (op_handoff p)\<lparr>oh_apps := settled_apps (oh_apps (op_handoff p))\<rparr>,
     op_credentials := filter (\<lambda>(k, v). v \<noteq> []) (op_credentials p)\<rparr>"

lemma provider_round: "provider_of (fill OnDemandProviderCfg (provider_admin p)) = settled_provider p"
  by (simp add: OnDemandProviderCfg_def OnDemandEstimateCfgA_def OnDemandHandoffCfg_def schema_simps provider_admin_def provider_of_def
    settled_provider_def kept_credentials_def Let_def)

lemma policy_round: "policy_of (fill OnDemandPolicyCfg (policy_public p)) = p"
  by (simp add: OnDemandPolicyCfg_def schema_simps policy_public_def policy_of_def)

definition settled_mobility :: "mobility_cfg \<Rightarrow> mobility_cfg" where
  "settled_mobility m = m\<lparr>mo_bikes := map settled_bike (mo_bikes m), mo_on_demand := map settled_provider (mo_on_demand m)\<rparr>"

lemma mobility_round:
  assumes "fits MobilityCfg (mobility_public True m)" "\<forall>n \<in> set (mo_bikes m). bk_single n \<noteq> Some JNull"
  shows "mobility_of (fill MobilityCfg (mobility_public True m)) = settled_mobility m"
proof -
  have "\<forall>n \<in> set (mo_bikes m). fits BikeShareCfg (bike_public n)"
    using assms(1) by (simp add: MobilityCfg_def schema_simps mobility_public_def list_all_iff)
  then have "map bike_of (map (fill BikeShareCfg) (map bike_public (mo_bikes m))) = map settled_bike (mo_bikes m)"
    using assms(2) by (simp add: bike_round)
  moreover have "map tariff_of (map (fill TaxiTariffCfg) (map tariff_public ts)) = ts" for ts
    by (simp add: o_def tariff_round)
  moreover have "map provider_of (map (fill OnDemandProviderCfg) (map provider_admin ps)) = map settled_provider ps" for ps
    by (simp add: provider_round)
  ultimately show ?thesis
    by (simp add: MobilityCfg_def schema_simps mobility_public_def mobility_of_def settled_mobility_def policy_round del: map_map)
qed

definition settled_cds :: "city \<Rightarrow> cds_cfg" where
  "settled_cds c = (om_cds (ci_open_mobility c))\<lparr>cd_currency := Some (rate_currency c),
     cd_events := map (\<lambda>p. p\<lparr>ep_token_hash := None\<rparr>) (cd_events (om_cds (ci_open_mobility c)))\<rparr>"

definition settled_operator :: "mds_provider \<Rightarrow> mds_provider" where
  "settled_operator p = p\<lparr>mp_auth := (mp_auth p)\<lparr>au_client_id := map_of (mp_credentials p) ''clientId'', au_client_secret := map_of (mp_credentials p) ''clientSecret''\<rparr>,
     mp_credentials := filter (\<lambda>(k, v). v \<noteq> []) (mp_credentials p)\<rparr>"

lemma dict_field: "text_opt (jfield (jdict JStr kvs) k) = map_of kvs k"
  by (induction kvs) (auto simp: jdict_def jfield_def jget_def text_opt_def opt_of_def)

lemma operator_round: "mds_provider_of (fill MdsProviderCfg (mds_provider_public True p)) = settled_operator p"
  by (simp add: MdsProviderCfg_def MdsAuthCfg_def schema_simps mds_provider_public_def mds_provider_of_def settled_operator_def kept_credentials_def
    Let_def dict_field o_def)

definition settled_open_mobility :: "city \<Rightarrow> open_mobility" where
  "settled_open_mobility c = (let om = ci_open_mobility c in
     om\<lparr>om_cds := settled_cds c, om_mds := (om_mds om)\<lparr>md_providers := map settled_operator (md_providers (om_mds om))\<rparr>\<rparr>)"

lemma open_mobility_round: "open_mobility_of (fill OpenMobilityCfg (open_mobility_public True c)) = settled_open_mobility c"
proof -
  have o: "map mds_provider_of (map (fill MdsProviderCfg) (map (mds_provider_public True) ps)) = map settled_operator ps" for ps
    by (simp add: operator_round)
  have t: "text_opt (JStr s) = Some s" for s by (simp add: text_opt_def opt_of_def)
  have n: "text_opt JNull = None" by (simp add: text_opt_def opt_of_def)
  have e: "map (\<lambda>p. \<lparr>ep_id = text_of (jfield p ''id''), ep_name = text_of (jfield p ''name''), ep_token_hash = text_opt (jfield p ''tokenHash'')\<rparr>)
       (map (fill CdsEventsProviderCfg) (map (\<lambda>p. JObj [(''id'', JStr (ep_id p)), (''name'', JStr (ep_name p))]) es))
      = map (\<lambda>p. p\<lparr>ep_token_hash := None\<rparr>) es" for es
    by (simp add: CdsEventsProviderCfg_def schema_simps n)
  show ?thesis
    by (simp add: OpenMobilityCfg_def CdsCfg_def MdsCfg_def CdsCurbsSourceCfg_def CdsEventsSectionCfg_def ParkRideCfg_def schema_simps open_mobility_public_def
      curbs_public_def open_mobility_of_def cds_of_def curbs_of_def settled_open_mobility_def settled_cds_def Let_def o e t del: map_map)
qed

lemma geocoder_round: "geocoder_of (fill GeocoderCfg (geocoder_admin g)) = g"
  by (simp add: GeocoderCfg_def IdecaCfg_def PlaceAreasCfg_def schema_simps geocoder_admin_def ideca_admin_def areas_admin_def geocoder_of_def Let_def)

section \<open>A city without an override\<close>

definition own_sections :: "(string \<Rightarrow> json) \<Rightarrow> city \<Rightarrow> sections" where
  "own_sections account c = \<lparr>se_fares = map_option (\<lambda>f. fill FaresCfg (fares_public f)) (ci_fares c),
     se_config = fill ConfigCfg (config_view account (ci_config c) (assistant_admin (ac_assistant (ci_config c)))),
     se_links = fill LinksCfg (links_public (ci_links c)), se_services = map (fill ServiceCfg) (map tile_public (ci_services c)),
     se_branding = fill BrandingCfg (JObj [(''primaryColor'', JStr (br_primary (ci_branding c)))]),
     se_mobility = fill MobilityCfg (mobility_public True (ci_mobility c)), se_open_mobility = fill OpenMobilityCfg (open_mobility_public True c),
     se_landing = fill LandingCfg (ci_landing c), se_geocoder = fill GeocoderCfg (geocoder_admin (ci_geocoder c))\<rparr>"

definition admissible :: "(string \<Rightarrow> json) \<Rightarrow> city \<Rightarrow> bool" where
  \<comment> \<open>the YAML respects the rules the panel enforces\<close>
  "admissible account c \<longleftrightarrow> (case ci_fares c of None \<Rightarrow> True | Some f \<Rightarrow> fits FaresCfg (fares_public f))
     \<and> fits ConfigCfg (config_view account (ci_config c) (assistant_admin (ac_assistant (ci_config c))))
     \<and> fits LinksCfg (links_public (ci_links c)) \<and> list_all (\<lambda>s. fits ServiceCfg (tile_public s)) (ci_services c)
     \<and> fits BrandingCfg (JObj [(''primaryColor'', JStr (br_primary (ci_branding c)))])
     \<and> fits MobilityCfg (mobility_public True (ci_mobility c)) \<and> list_all (\<lambda>n. bk_single n \<noteq> Some JNull) (mo_bikes (ci_mobility c))
     \<and> fits OpenMobilityCfg (open_mobility_public True c) \<and> fits GeocoderCfg (geocoder_admin (ci_geocoder c))
     \<and> fits LandingCfg (ci_landing c) \<and> fill LandingCfg (ci_landing c) = ci_landing c \<and> truthy (ci_landing c)
     \<and> checked (own_sections account c) = Inr (own_sections account c)"

definition settled :: "(string \<Rightarrow> json) \<Rightarrow> city \<Rightarrow> city" where
  "settled account c = c\<lparr>ci_config := settled_config account (ci_config c), ci_mobility := settled_mobility (ci_mobility c),
     ci_open_mobility := settled_open_mobility c,
     ci_features := (ci_features c)\<lparr>ff_bike_share := mo_bikes (ci_mobility c) \<noteq> [], ff_on_demand := list_ex op_enabled (mo_on_demand (ci_mobility c)),
       ff_open_mobility := cd_enabled (om_cds (ci_open_mobility c)) \<or> md_enabled (om_mds (ci_open_mobility c))\<rparr>\<rparr>"

lemma section_defaults:
  "defaults_ok FaresCfg" "defaults_ok ConfigCfg" "defaults_ok LinksCfg" "defaults_ok ServiceCfg" "defaults_ok BrandingCfg" "defaults_ok MobilityCfg"
  "defaults_ok OpenMobilityCfg" "defaults_ok LandingCfg" "defaults_ok GeocoderCfg"
  using sections_defaults_ok by (simp_all add: SECTIONS_def)

lemma validate_fits: "pydantic mv \<Longrightarrow> defaults_ok s \<Longrightarrow> fits s v \<Longrightarrow> validate mv name s v = Inr (fill s v)"
  by (simp add: pydantic_def validate_def)

lemma traverse_fits:
  "pydantic mv \<Longrightarrow> defaults_ok s \<Longrightarrow> list_all (fits s) vs \<Longrightarrow> traverse (validate mv name s) vs = Inr (map (fill s) vs)"
  by (induction vs) (simp_all add: validate_fits)

lemma jor_obj: "kvs \<noteq> [] \<Longrightarrow> jor (JObj kvs) d = JObj kvs" by (simp add: jor_def)

lemma own_sections_valid:
  assumes "pydantic mv" "admissible account c"
  shows "validate_sections mv (yaml_sections account c) = Inr (own_sections account c)"
proof -
  have look: "jfield (JObj (yaml_sections account c)) ''fares'' = jopt fares_public (ci_fares c)"
    "section_of (yaml_sections account c) ''config'' = config_view account (ci_config c) (assistant_admin (ac_assistant (ci_config c)))"
    "section_of (yaml_sections account c) ''links'' = links_public (ci_links c)"
    "jfield (JObj (yaml_sections account c)) ''services'' = JArr (map tile_public (ci_services c))"
    "section_of (yaml_sections account c) ''branding'' = JObj [(''primaryColor'', JStr (br_primary (ci_branding c)))]"
    "section_of (yaml_sections account c) ''mobility'' = mobility_public True (ci_mobility c)"
    "section_of (yaml_sections account c) ''openMobility'' = open_mobility_public True c"
    "section_of (yaml_sections account c) ''geocoder'' = geocoder_admin (ci_geocoder c)"
    by (simp_all add: yaml_sections_def section_of_def jor_obj config_view_def links_public_def mobility_public_def open_mobility_public_def geocoder_admin_def Let_def)
  have land: "section_of (yaml_sections account c) ''landing'' = ci_landing c"
    using assms(2) by (simp add: yaml_sections_def section_of_def jor_def admissible_def)
  have tiles: "list_all (fits ServiceCfg) (map tile_public (ci_services c))"
    using assms(2) by (simp add: admissible_def list_all_iff)
  have el: "elements (JArr js) = Inr js" for js by (cases js) (simp_all add: elements_def)
  have t: "truthy (fares_public x)" for x by (simp add: fares_public_def)
  note v = validate_fits[OF assms(1)]
  have fits: "fits ConfigCfg (config_view account (ci_config c) (assistant_admin (ac_assistant (ci_config c))))" "fits LinksCfg (links_public (ci_links c))"
    "fits BrandingCfg (JObj [(''primaryColor'', JStr (br_primary (ci_branding c)))])" "fits MobilityCfg (mobility_public True (ci_mobility c))"
    "fits OpenMobilityCfg (open_mobility_public True c)" "fits LandingCfg (ci_landing c)" "fits GeocoderCfg (geocoder_admin (ci_geocoder c))"
    "checked (own_sections account c) = Inr (own_sections account c)"
    using assms(2) by (simp_all add: admissible_def)
  have f: "(if truthy (jopt fares_public (ci_fares c)) then and_then (validate mv ''fares'' FaresCfg (jopt fares_public (ci_fares c))) (\<lambda>f. Inr (Some f)) else Inr None)
      = Inr (map_option (\<lambda>f. fill FaresCfg (fares_public f)) (ci_fares c))"
    using assms(2) section_defaults(1) by (cases "ci_fares c") (simp_all add: t v admissible_def)
  show ?thesis
    unfolding validate_sections_def look land el f and_then_simps traverse_fits[OF assms(1) section_defaults(4) tiles]
      v[OF section_defaults(2) fits(1)] v[OF section_defaults(3) fits(2)] v[OF section_defaults(5) fits(3)] v[OF section_defaults(6) fits(4)]
      v[OF section_defaults(7) fits(5)] v[OF section_defaults(8) fits(6)] v[OF section_defaults(9) fits(7)]
    using fits(8) by (simp add: own_sections_def)
qed

lemma branding_round: "text_of (jfield (fill BrandingCfg (JObj [(''primaryColor'', JStr x)])) ''primaryColor'') = x"
  by (simp add: BrandingCfg_def schema_simps)

lemma build_own:
  assumes "admissible account c"
  shows "build_city c (own_sections account c) = settled account c"
proof -
  have m: "mobility_of (fill MobilityCfg (mobility_public True (ci_mobility c))) = settled_mobility (ci_mobility c)"
    by (rule mobility_round) (use assms in \<open>simp_all add: admissible_def list_all_iff\<close>)
  have "map_option fares_of (map_option (\<lambda>f. fill FaresCfg (fares_public f)) x) = x" for x
    by (cases x) (simp_all add: fares_round)
  moreover have "map tile_of (map (fill ServiceCfg) (map tile_public ts)) = ts" for ts
    by (simp add: o_def tile_round)
  moreover have "fill LandingCfg (ci_landing c) = ci_landing c" using assms by (simp add: admissible_def)
  moreover have "list_ex op_enabled (map settled_provider ps) = list_ex op_enabled ps" for ps
    by (induction ps) (simp_all add: settled_provider_def)
  ultimately show ?thesis
    unfolding build_city_def own_sections_def sections.simps Let_def m open_mobility_round
    by (simp add: settled_def config_round links_round geocoder_round branding_round settled_mobility_def settled_open_mobility_def settled_cds_def
      Let_def del: map_map)
qed


section \<open>A city to try it on\<close>

definition demo_push :: push_cfg where
  "demo_push = \<lparr>pu_enabled = True, pu_reminders = True,
     pu_apns = \<lparr>ap_key_id = None, ap_team_id = None, ap_bundle_id = None, ap_key_path = None, ap_key_p8 = None\<rparr>,
     pu_fcm = \<lparr>fm_project = None, fm_email = None, fm_key = None, fm_account = None\<rparr>\<rparr>"

definition demo_config :: app_config where
  "demo_config = \<lparr>ac_poll = 15, ac_departures = 20, ac_features = [(''board'', True)],
     ac_min_version = \<lparr>ve_ios = ''1.0.0'', ve_android = ''1.0.0''\<rparr>, ac_update_urls = \<lparr>ur_ios = None, ur_android = None\<rparr>,
     ac_maintenance = \<lparr>mt_active = False, mt_message = None\<rparr>, ac_analytics = \<lparr>an_enabled = True, an_retention = 90, an_k = 5\<rparr>,
     ac_share = \<lparr>sc_enabled = True, sc_ttl = 60, sc_max_ttl = 120, sc_web_base = Some ''https://ver.co''\<rparr>,
     ac_push = demo_push, ac_assistant = assistant_of (blank AssistantCfg)\<rparr>"

definition demo_city :: city where
  "demo_city = \<lparr>ci_id = ''bog'', ci_name = ''Bogota'', ci_country = ''CO'', ci_timezone = ''America/Bogota'', ci_locale = ''es'',
     ci_center = (46/10, -741/10), ci_bbox = [-742/10, 45/10, -740/10, 48/10], ci_zoom = 12, ci_modes = [''BUS''],
     ci_branding = \<lparr>br_primary = CHR 0x23 # ''00A859'', br_logo = None\<rparr>,
     ci_features = \<lparr>ff_vehicles = True, ff_trip_updates = True, ff_alerts = True, ff_fares = True, ff_bike_share = True, ff_on_demand = True,
       ff_open_mobility = False\<rparr>, ci_attribution = [],
     ci_feeds = \<lparr>fd_static = ''https://g.co'', fd_positions = None, fd_tripupdates = None, fd_alerts = None, fd_poll_seconds = 15, fd_refresh_hours = 6\<rparr>,
     ci_otp = \<lparr>otp_base_url = ''http://otp'', otp_feed_id = ''bog'', otp_trip_ids_url = None\<rparr>,
     ci_geocoder = geocoder_of (blank GeocoderCfg), ci_agencies = [], ci_components = [], ci_route_types = [],
     ci_fares = Some (fares_of (fill FaresCfg demo_fares)), ci_config = demo_config, ci_links = links_of (blank LinksCfg), ci_services = [],
     ci_mobility = mobility_of (blank MobilityCfg), ci_open_mobility = open_mobility_of (blank OpenMobilityCfg), ci_landing = blank LandingCfg,
     ci_offline = None, ci_offline_patterns = None\<rparr>"

lemma demo_admissible: "admissible (\<lambda>_. JNull) demo_city"
  by code_simp


end
