(* ===== verification/Config_Store.thy ===== *)
theory Config_Store
  imports City_Roundtrip Admin_Auth "HOL-Library.Multiset" "HOL-Library.Product_Lexorder"
begin

text \<open>
  Where overrides live and how they reach a running city: the two stores at the end of
  \<open>app/admin_config.py\<close>, the runtime glue (\<open>apply_to_runtime\<close>, \<open>load_overrides\<close>, \<open>describe\<close>) and the config
  handlers of \<open>app/routers/admin.py\<close>.  A store is used through the locale \<open>config_store\<close>.  Postgres keeps a JSON
  document up to the order of its keys: what is read back from a \<open>jsonb\<close> column is the argument \<open>jsonb\<close>.
  Instants are integers; rebuilding the GBFS clients after a change is not modelled.
\<close>

section \<open>The interface\<close>

type_synonym override = "(string \<times> json) list"

record config_row =
  cf_data :: "override option"
  cf_revision :: int
  cf_at :: "int option"
  cf_by :: "string option"

record log_entry =
  le_revision :: int
  le_at :: int
  le_by :: "string option"
  le_note :: "string option"
  le_data :: override

record 's config_ops =
  co_load :: "'s \<Rightarrow> string \<Rightarrow> config_row option"
  co_save :: "string \<Rightarrow> override \<Rightarrow> string option \<Rightarrow> string option \<Rightarrow> int \<Rightarrow> 's \<Rightarrow> 's \<times> config_row"
  co_clear :: "string \<Rightarrow> string option \<Rightarrow> int \<Rightarrow> 's \<Rightarrow> 's \<times> config_row"
  co_history :: "'s \<Rightarrow> string \<Rightarrow> nat \<Rightarrow> log_entry list"

definition revision_of :: "config_row option \<Rightarrow> int" where
  "revision_of r = (case r of None \<Rightarrow> 0 | Some x \<Rightarrow> cf_revision x)"

definition saved_row :: "override \<Rightarrow> string option \<Rightarrow> int \<Rightarrow> config_row option \<Rightarrow> config_row" where
  "saved_row d by now prev = \<lparr>cf_data = Some d, cf_revision = revision_of prev + 1, cf_at = Some now, cf_by = by\<rparr>"

definition cleared_row :: "string option \<Rightarrow> config_row option \<Rightarrow> config_row" where
  "cleared_row by prev = \<lparr>cf_data = None, cf_revision = revision_of prev + 1, cf_at = None, cf_by = by\<rparr>"

definition log_of :: "config_row \<Rightarrow> int \<Rightarrow> string option \<Rightarrow> log_entry" where
  "log_of r now note = \<lparr>le_revision = cf_revision r, le_at = now, le_by = cf_by r, le_note = note, le_data = or_else (cf_data r) []\<rparr>"

locale config_store =
  fixes ops :: "'s config_ops" and read_back :: "override \<Rightarrow> override" and log :: "'s \<Rightarrow> string \<Rightarrow> log_entry list"
  assumes save_load: "co_load ops (fst (co_save ops c d by note now s)) c' =
      (if c' = c then Some (saved_row (read_back d) by now (co_load ops s c)) else co_load ops s c')"
    and save_told: "snd (co_save ops c d by note now s) = saved_row (read_back d) by now (co_load ops s c)"
    and clear_load: "co_load ops (fst (co_clear ops c by now s)) c' = (if c' = c then None else co_load ops s c')"
    and clear_told: "snd (co_clear ops c by now s) = cleared_row by (co_load ops s c)"
    and save_log: "log (fst (co_save ops c d by note now s)) c' =
      (if c' = c then log s c @ [log_of (saved_row (read_back d) by now (co_load ops s c)) now note] else log s c')"
    and clear_log: "log (fst (co_clear ops c by now s)) c' =
      (if c' = c then log s c @ [log_of (cleared_row by (co_load ops s c)) now (Some ''reset'')] else log s c')"
    and history_log: "length (co_history ops s c n) = min n (length (log s c)) \<and> mset (co_history ops s c n) \<subseteq># mset (log s c)"

section \<open>\<open>MemoryConfigStore\<close>\<close>

record mem_config =
  mc_rows :: "(string \<times> config_row) list"
  mc_log :: "(string \<times> log_entry list) list"

definition mem_load :: "mem_config \<Rightarrow> string \<Rightarrow> config_row option" where
  "mem_load s c = map_of (mc_rows s) c"

definition mem_logged :: "string \<Rightarrow> log_entry \<Rightarrow> mem_config \<Rightarrow> mem_config" where
  \<comment> \<open>\<open>log.setdefault(c, []).insert(0, e)\<close>\<close>
  "mem_logged c e s = s\<lparr>mc_log := AList.update c (e # or_else (map_of (mc_log s) c) []) (mc_log s)\<rparr>"

definition mem_save :: "string \<Rightarrow> override \<Rightarrow> string option \<Rightarrow> string option \<Rightarrow> int \<Rightarrow> mem_config \<Rightarrow> mem_config \<times> config_row" where
  "mem_save c d by note now s = (let r = saved_row d by now (mem_load s c) in
     (mem_logged c (log_of r now note) (s\<lparr>mc_rows := AList.update c r (mc_rows s)\<rparr>), r))"

definition mem_clear :: "string \<Rightarrow> string option \<Rightarrow> int \<Rightarrow> mem_config \<Rightarrow> mem_config \<times> config_row" where
  "mem_clear c by now s = (let r = cleared_row by (mem_load s c) in
     (mem_logged c (log_of r now (Some ''reset'')) (s\<lparr>mc_rows := AList.delete c (mc_rows s)\<rparr>), r))"

definition mem_history :: "mem_config \<Rightarrow> string \<Rightarrow> nat \<Rightarrow> log_entry list" where
  "mem_history s c n = take n (or_else (map_of (mc_log s) c) [])"

definition mem_config_ops :: "mem_config config_ops" where
  "mem_config_ops = \<lparr>co_load = mem_load, co_save = mem_save, co_clear = mem_clear, co_history = mem_history\<rparr>"

section \<open>\<open>PgConfigStore\<close>\<close>

text \<open>\<open>city_config_override\<close> has the city as its primary key; the rows of \<open>city_config_history\<close> are in the order of
  their serial number.\<close>

record pg_config =
  pc_rows :: "(string \<times> config_row) list"
  pc_history :: "(string \<times> log_entry) list"

definition pg_load :: "pg_config \<Rightarrow> string \<Rightarrow> config_row option" where
  "pg_load s c = map_of (pc_rows s) c"

definition pg_save :: "(override \<Rightarrow> override) \<Rightarrow> string \<Rightarrow> override \<Rightarrow> string option \<Rightarrow> string option \<Rightarrow> int \<Rightarrow> pg_config \<Rightarrow> pg_config \<times> config_row" where
  \<comment> \<open>both statements in one transaction, then \<open>load\<close>\<close>
  "pg_save jsonb c d by note now s = (let r = saved_row (jsonb d) by now (pg_load s c);
       s' = s\<lparr>pc_rows := AList.update c r (pc_rows s), pc_history := pc_history s @ [(c, log_of r now note)]\<rparr>
     in (s', or_else (pg_load s' c) r))"

definition pg_clear :: "string \<Rightarrow> string option \<Rightarrow> int \<Rightarrow> pg_config \<Rightarrow> pg_config \<times> config_row" where
  "pg_clear c by now s = (let r = cleared_row by (pg_load s c) in
     (s\<lparr>pc_rows := AList.delete c (pc_rows s), pc_history := pc_history s @ [(c, log_of r now (Some ''reset''))]\<rparr>, r))"

definition pg_log :: "pg_config \<Rightarrow> string \<Rightarrow> log_entry list" where
  "pg_log s c = map snd (filter (\<lambda>(k, e). k = c) (pc_history s))"

definition pg_history :: "pg_config \<Rightarrow> string \<Rightarrow> nat \<Rightarrow> log_entry list" where
  \<comment> \<open>\<open>ORDER BY revision DESC, id DESC LIMIT n\<close>: the sort is stable and the rows are in the order of \<open>id\<close>\<close>
  "pg_history s c n = take n (rev (sort_key le_revision (pg_log s c)))"

definition pg_config_ops :: "(override \<Rightarrow> override) \<Rightarrow> pg_config config_ops" where
  "pg_config_ops jsonb = \<lparr>co_load = pg_load, co_save = pg_save jsonb, co_clear = pg_clear, co_history = pg_history\<rparr>"

section \<open>The running city\<close>

record runtime =
  rt_city :: city
  rt_base :: "city option"
  rt_override :: "override option"
  rt_revision :: int
  rt_at :: "int option"
  rt_by :: "string option"

definition some_keys :: "override option \<Rightarrow> override option" where
  \<comment> \<open>\<open>data or None\<close>\<close>
  "some_keys d = (case d of Some [] \<Rightarrow> None | _ \<Rightarrow> d)"

definition row_data :: "config_row option \<Rightarrow> override option" where
  "row_data r = (case r of None \<Rightarrow> None | Some x \<Rightarrow> some_keys (cf_data x))"

definition yaml_of :: "runtime \<Rightarrow> city" where
  \<comment> \<open>\<open>rt.base_city or rt.city\<close>\<close>
  "yaml_of rt = or_else (rt_base rt) (rt_city rt)"

definition apply_to_runtime :: "validator \<Rightarrow> (string \<Rightarrow> json) \<Rightarrow> runtime \<Rightarrow> config_row option \<Rightarrow> runtime \<times> (raised + unit)" where
  "apply_to_runtime mv account rt row = (let rt = rt\<lparr>rt_base := Some (yaml_of rt)\<rparr> in
     case effective_city mv account (yaml_of rt) (or_else (row_data row) []) of
       Inl e \<Rightarrow> (rt, Inl e)
     | Inr c \<Rightarrow> (rt\<lparr>rt_city := c, rt_override := row_data row, rt_revision := revision_of row,
         rt_at := (case row of None \<Rightarrow> None | Some r \<Rightarrow> cf_at r), rt_by := (case row of None \<Rightarrow> None | Some r \<Rightarrow> cf_by r)\<rparr>, Inr ()))"

definition load_overrides :: "'s config_ops \<Rightarrow> validator \<Rightarrow> (string \<Rightarrow> json) \<Rightarrow> 's \<Rightarrow> runtime list \<Rightarrow> runtime list" where
  \<comment> \<open>an override that cannot be applied is logged and the YAML keeps being served\<close>
  "load_overrides ops mv account s rts = map (\<lambda>rt. fst (apply_to_runtime mv account rt (co_load ops s (ci_id (rt_city rt))))) rts"

definition EDITABLE :: "string list" where
  "EDITABLE = [''fares'', ''config'', ''links'', ''services'', ''branding'', ''mobility'', ''openMobility'', ''landing'', ''geocoder'']"

definition describe :: "(string \<Rightarrow> json) \<Rightarrow> (int \<Rightarrow> string) \<Rightarrow> runtime \<Rightarrow> json" where
  "describe account stamp rt = JObj [(''effective'', city_public account (rt_city rt)), (''override'', mask_secrets (jopt JObj (rt_override rt))),
     (''yaml'', mask_secrets (JObj (yaml_sections account (yaml_of rt)))), (''revision'', JInt (rt_revision rt)),
     (''updatedAt'', jopt (JStr \<circ> stamp) (rt_at rt)), (''updatedBy'', jtext (rt_by rt)), (''editable'', JArr (map JStr EDITABLE))]"

section \<open>Handlers\<close>

definition unmask_section :: "string \<Rightarrow> (json \<Rightarrow> raised + json) \<Rightarrow> override \<Rightarrow> raised + override" where
  "unmask_section k f ss = (if truthy (jfield (JObj ss) k) then and_then (f (jfield (JObj ss) k)) (\<lambda>v. Inr (AList.update k v ss)) else Inr ss)"

definition unmasked :: "runtime \<Rightarrow> override \<Rightarrow> raised + override" where
  "unmasked rt ss =
     and_then (unmask_section ''mobility'' (\<lambda>p. unmask_patch p (rt_city rt)) ss) (\<lambda>ss.
     and_then (unmask_section ''openMobility'' (\<lambda>p. unmask_open_mobility_patch p (rt_city rt)) ss) (\<lambda>ss.
     and_then (unmask_section ''config'' (\<lambda>p. unmask_assistant_patch p (rt_city rt) (yaml_of rt)) ss) (\<lambda>ss.
     unmask_section ''geocoder'' (\<lambda>p. unmask_geocoder_patch p (rt_city rt) (yaml_of rt)) ss)))"

text \<open>A patch holds the sections the body sets, in the order of the model.\<close>

record config_patch =
  cp_sections :: override
  cp_note :: "string option"
  cp_by :: "string option"

definition put_config :: "'s config_ops \<Rightarrow> validator \<Rightarrow> (string \<Rightarrow> json) \<Rightarrow> int \<Rightarrow> principal \<Rightarrow> config_patch \<Rightarrow> 's \<times> runtime \<Rightarrow> ('s \<times> runtime) \<times> (raised + unit)" where
  \<comment> \<open>what is left to do on success is \<open>describe\<close>\<close>
  "put_config ops mv account now me patch st = (case st of (s, rt) \<Rightarrow>
     case unmasked rt (cp_sections patch) of Inl e \<Rightarrow> (st, Inl e) | Inr ss \<Rightarrow>
     let d = deep_merge (or_else (rt_override rt) []) ss in
     case effective_city mv account (yaml_of rt) d of Inl e \<Rightarrow> (st, Inl e) | Inr _ \<Rightarrow>
     let saved = co_save ops (ci_id (rt_city rt)) d (author me (cp_by patch)) (cp_note patch) now s;
         ap = apply_to_runtime mv account rt (Some (snd saved))
     in ((fst saved, fst ap), snd ap))"

definition delete_config :: "'s config_ops \<Rightarrow> validator \<Rightarrow> (string \<Rightarrow> json) \<Rightarrow> int \<Rightarrow> principal \<Rightarrow> string option \<Rightarrow> 's \<times> runtime \<Rightarrow> ('s \<times> runtime) \<times> (raised + unit)" where
  "delete_config ops mv account now me by st = (case st of (s, rt) \<Rightarrow>
     let cleared = co_clear ops (ci_id (rt_city rt)) (author me by) now s;
         ap = apply_to_runtime mv account rt (Some (snd cleared))
     in ((fst cleared, fst ap), snd ap))"

definition config_history :: "'s config_ops \<Rightarrow> nat \<Rightarrow> 's \<times> runtime \<Rightarrow> (log_entry \<times> json) list" where
  \<comment> \<open>the items with their data masked\<close>
  "config_history ops n st = (case st of (s, rt) \<Rightarrow> map (\<lambda>e. (e, mask_secrets (JObj (le_data e)))) (co_history ops s (ci_id (rt_city rt)) n))"

section \<open>What a city goes through\<close>

definition fresh :: "city \<Rightarrow> runtime" where
  \<comment> \<open>\<open>CityRuntime(city=c, ...)\<close>\<close>
  "fresh c = \<lparr>rt_city = c, rt_base = None, rt_override = None, rt_revision = 0, rt_at = None, rt_by = None\<rparr>"

definition started :: "'s config_ops \<Rightarrow> validator \<Rightarrow> (string \<Rightarrow> json) \<Rightarrow> 's \<Rightarrow> city \<Rightarrow> runtime" where
  \<comment> \<open>the runtime \<open>load_overrides\<close> leaves\<close>
  "started ops mv account s c = fst (apply_to_runtime mv account (fresh c) (co_load ops s (ci_id c)))"

inductive config_reach :: "'s config_ops \<Rightarrow> validator \<Rightarrow> (string \<Rightarrow> json) \<Rightarrow> 's \<times> runtime \<Rightarrow> 's \<times> runtime \<Rightarrow> bool"
  for ops mv account st0 where
  start: "config_reach ops mv account st0 st0"
| put: "config_reach ops mv account st0 st \<Longrightarrow> config_reach ops mv account st0 (fst (put_config ops mv account now me patch st))"
| delete: "config_reach ops mv account st0 st \<Longrightarrow> config_reach ops mv account st0 (fst (delete_config ops mv account now me by st))"
| other_put: "config_reach ops mv account st0 (s, rt) \<Longrightarrow> c \<noteq> ci_id (rt_city rt) \<Longrightarrow>
    config_reach ops mv account st0 (fst (co_save ops c d by note now s), rt)"
| other_delete: "config_reach ops mv account st0 (s, rt) \<Longrightarrow> c \<noteq> ci_id (rt_city rt) \<Longrightarrow>
    config_reach ops mv account st0 (fst (co_clear ops c by now s), rt)"

definition in_sync :: "'s config_ops \<Rightarrow> validator \<Rightarrow> (string \<Rightarrow> json) \<Rightarrow> city \<Rightarrow> 's \<times> runtime \<Rightarrow> bool" where
  "in_sync ops mv account yaml st \<longleftrightarrow> (case st of (s, rt) \<Rightarrow> let stored = co_load ops s (ci_id yaml) in
     rt_base rt = Some yaml \<and> effective_city mv account yaml (or_else (row_data stored) []) = Inr (rt_city rt)
     \<and> rt_override rt = row_data stored \<and> (stored \<noteq> None \<longrightarrow> rt_revision rt = revision_of stored))"

lemma effective_id: "effective_city mv account b d = Inr c \<Longrightarrow> ci_id c = ci_id b"
  by (auto simp: effective_city_def build_city_def Let_def and_then_def split: sum.splits)

lemma or_else_some_keys [simp]: "or_else (some_keys (Some d)) [] = d"
  by (cases d) (simp_all add: some_keys_def)

lemma some_keys_None [simp]: "some_keys None = None" "row_data None = None"
  by (simp_all add: some_keys_def row_data_def)

lemma row_data_saved [simp]: "row_data (Some (saved_row d by now p)) = some_keys (Some d)" "row_data (Some (cleared_row by p)) = None"
  by (simp_all add: row_data_def saved_row_def cleared_row_def)

context config_store
begin

lemma started_in_sync:
  assumes "effective_city mv account yaml (or_else (row_data (co_load ops s (ci_id yaml))) []) = Inr c"
  shows "in_sync ops mv account yaml (s, started ops mv account s yaml)"
  using assms by (simp add: in_sync_def started_def apply_to_runtime_def fresh_def yaml_of_def Let_def)

lemma put_in_sync:
  assumes sync: "in_sync ops mv account yaml st" and rb: "\<And>b d. effective_city mv account b (read_back d) = effective_city mv account b d"
  shows "in_sync ops mv account yaml (fst (put_config ops mv account now me patch st))"
proof -
  obtain s rt where st: "st = (s, rt)" by (cases st)
  have y: "yaml_of rt = yaml" and i: "ci_id (rt_city rt) = ci_id yaml"
    using sync effective_id by (auto simp: in_sync_def yaml_of_def st Let_def)
  show ?thesis
  proof (cases "unmasked rt (cp_sections patch)")
    case (Inr ss)
    then show ?thesis using sync
      by (cases "effective_city mv account yaml (deep_merge (or_else (rt_override rt) []) ss)")
        (simp_all add: put_config_def in_sync_def apply_to_runtime_def st y i Let_def save_load save_told rb yaml_of_def)
  qed (use sync in \<open>simp add: put_config_def st\<close>)
qed

lemma delete_in_sync:
  assumes sync: "in_sync ops mv account yaml st" and own: "effective_city mv account yaml [] = Inr c"
  shows "in_sync ops mv account yaml (fst (delete_config ops mv account now me by st))"
proof -
  obtain s rt where st: "st = (s, rt)" by (cases st)
  have "yaml_of rt = yaml" "ci_id (rt_city rt) = ci_id yaml" "rt_base rt = Some yaml"
    using sync effective_id by (auto simp: in_sync_def yaml_of_def st Let_def)
  then show ?thesis using own
    by (simp add: delete_config_def in_sync_def apply_to_runtime_def st Let_def clear_load clear_told yaml_of_def)
qed

lemma reach_in_sync:
  assumes "config_reach ops mv account st0 st" "in_sync ops mv account yaml st0" "effective_city mv account yaml [] = Inr c"
    "\<And>b d. effective_city mv account b (read_back d) = effective_city mv account b d"
  shows "in_sync ops mv account yaml st"
  using assms(1)
proof (induction rule: config_reach.induct)
  case (other_put s rt c d w n t)
  then have "ci_id (rt_city rt) = ci_id yaml" using effective_id by (auto simp: in_sync_def Let_def)
  then show ?case using other_put by (simp add: in_sync_def save_load)
next
  case (other_delete s rt c w t)
  then have "ci_id (rt_city rt) = ci_id yaml" using effective_id by (auto simp: in_sync_def Let_def)
  then show ?case using other_delete by (simp add: in_sync_def clear_load)
qed (use assms put_in_sync delete_in_sync in auto)

lemma restart_same:
  assumes "in_sync ops mv account yaml (s, rt)"
  shows "rt_city (started ops mv account s yaml) = rt_city rt \<and> rt_override (started ops mv account s yaml) = rt_override rt"
  using assms by (simp add: in_sync_def started_def apply_to_runtime_def fresh_def yaml_of_def Let_def)

end

section \<open>Both stores keep the contract\<close>

lemma map_of_delete: "map_of (AList.delete c xs) c' = (if c' = c then None else map_of xs c')"
  by (simp add: delete_conv')

interpretation mem: config_store mem_config_ops id "\<lambda>s c. rev (or_else (map_of (mc_log s) c) [])"
proof unfold_locales
  fix s c n
  show "length (co_history mem_config_ops s c n) = min n (length (rev (or_else (map_of (mc_log s) c) [])))
    \<and> mset (co_history mem_config_ops s c n) \<subseteq># mset (rev (or_else (map_of (mc_log s) c) []))"
    using mset_subset_eq_add_left[of "mset (take n (or_else (map_of (mc_log s) c) []))" "mset (drop n (or_else (map_of (mc_log s) c) []))"]
    by (simp add: mem_config_ops_def mem_history_def min.commute flip: mset_append)
qed (auto simp: mem_config_ops_def mem_save_def mem_clear_def mem_load_def mem_logged_def Let_def update_conv' map_of_delete)

interpretation pg: config_store "pg_config_ops jsonb" jsonb pg_log for jsonb
proof unfold_locales
  fix s c n
  show "length (co_history (pg_config_ops jsonb) s c n) = min n (length (pg_log s c))
    \<and> mset (co_history (pg_config_ops jsonb) s c n) \<subseteq># mset (pg_log s c)"
    using mset_subset_eq_add_left[of "mset (take n (rev (sort_key le_revision (pg_log s c))))" "mset (drop n (rev (sort_key le_revision (pg_log s c))))"]
    by (simp add: pg_config_ops_def pg_history_def min.commute flip: mset_append)
qed (auto simp: pg_config_ops_def pg_save_def pg_clear_def pg_load_def pg_log_def Let_def update_conv' map_of_delete)

section \<open>Properties\<close>


lemma sort_key_Nil: "sort_key f xs = [] \<longleftrightarrow> xs = []"
  by (metis length_0_conv length_sort)

lemma sort_key_last: "x \<in> set xs \<Longrightarrow> f x \<le> f (last (sort_key f xs))"
proof -
  assume x: "x \<in> set xs"
  have "sorted (map f (sort_key f xs))" by (rule sorted_sort_key)
  moreover have n: "sort_key f xs \<noteq> []" using x by (auto simp: sort_key_Nil)
  obtain i where "i < length (sort_key f xs)" "sort_key f xs ! i = x" using x by (metis in_set_conv_nth set_sort)
  moreover have "i \<le> length (sort_key f xs) - 1" using calculation by simp
  ultimately have "map f (sort_key f xs) ! i \<le> map f (sort_key f xs) ! (length (sort_key f xs) - 1)"
    by (intro sorted_nth_mono) auto
  then show ?thesis using n \<open>i < _\<close> \<open>_ ! i = x\<close> by (simp add: last_conv_nth)
qed

text \<open>Revisions start again after a reset, because it deletes the row they are counted in, while the history
  orders by revision: after a reset and a save the Postgres history begins with an entry that is not the
  newest one, for any override that was stored before.  The memory store, used by the tests, always begins
  with the newest entry.\<close>
theorem pg_history_is_not_newest_first:
  assumes "pg_load s c = Some r" "1 \<le> cf_revision r"
    "s' = fst (pg_save jsonb c d w n t (fst (pg_clear c v u s)))"
  shows "revision_of (pg_load s' c) = 1 \<and> last (pg_log s' c) = log_of (saved_row (jsonb d) w t None) t n
    \<and> 2 \<le> le_revision (hd (pg_history s' c (Suc m))) \<and> hd (pg_history s' c (Suc m)) \<noteq> last (pg_log s' c)
    \<and> hd (mem_history (fst (mem_save c d w n t ms)) c (Suc m)) = log_of (saved_row d w t (mem_load ms c)) t n"
proof -
  let ?reset = "log_of (cleared_row v (Some r)) u (Some ''reset'')" and ?new = "log_of (saved_row (jsonb d) w t None) t n"
  have log: "pg_log s' c = pg_log s c @ [?reset, ?new]"
    using assms by (simp add: pg_save_def pg_clear_def pg_log_def pg_load_def Let_def map_of_delete)
  then have "le_revision ?reset \<le> le_revision (last (sort_key le_revision (pg_log s' c)))"
    by (intro sort_key_last) simp
  moreover have "sort_key le_revision (pg_log s' c) \<noteq> []" using log by (simp add: sort_key_Nil)
  moreover have r: "le_revision ?reset = cf_revision r + 1" "le_revision ?new = 1"
    by (simp_all add: log_of_def cleared_row_def saved_row_def revision_of_def)
  ultimately have two: "2 \<le> le_revision (hd (pg_history s' c (Suc m)))"
    using assms(2) by (simp add: pg_history_def hd_rev hd_take)
  moreover have "hd (pg_history s' c (Suc m)) \<noteq> last (pg_log s' c)"
    using two r(2) log by auto
  moreover have "revision_of (pg_load s' c) = 1"
    using assms by (simp add: pg_save_def pg_clear_def pg_load_def Let_def update_conv' map_of_delete saved_row_def revision_of_def)
  moreover have "hd (mem_history (fst (mem_save c d w n t ms)) c (Suc m)) = log_of (saved_row d w t (mem_load ms c)) t n"
    by (simp add: mem_history_def mem_save_def mem_logged_def Let_def update_conv')
  ultimately show ?thesis using log by simp
qed

definition merged_value :: "json option \<Rightarrow> json \<Rightarrow> json option" where
  \<comment> \<open>what becomes of a key\<close>
  "merged_value old v = (case v of JNull \<Rightarrow> None
     | JObj pv \<Rightarrow> Some (JObj (case old of Some (JObj bv) \<Rightarrow> deep_merge bv pv | _ \<Rightarrow> pv)) | _ \<Rightarrow> Some v)"

definition with_key :: "string \<Rightarrow> json option \<Rightarrow> override \<Rightarrow> override" where
  "with_key k w base = (case w of None \<Rightarrow> AList.delete k base | Some v \<Rightarrow> AList.update k v base)"

lemma deep_merge_Cons: "deep_merge base ((k, v) # patch) = deep_merge (with_key k (merged_value (map_of base k) v) base) patch"
  by (cases v) (simp_all add: with_key_def merged_value_def split: option.split json.split)

lemma with_key_None [simp]: "with_key k None base = AList.delete k base"
  by (simp add: with_key_def)

lemma map_of_with_key: "map_of (with_key k w base) k' = (if k' = k then w else map_of base k')"
  by (simp add: with_key_def map_of_delete update_conv' split: option.split)

lemma deep_merge_lookup:
  "distinct (map fst patch) \<Longrightarrow> map_of (deep_merge base patch) k =
    (case map_of patch k of None \<Rightarrow> map_of base k | Some v \<Rightarrow> merged_value (map_of base k) v)"
proof (induction patch arbitrary: base)
  case (Cons x patch)
  obtain k' v where x: "x = (k', v)" by (cases x)
  have "map_of patch k' = None" using Cons.prems by (simp add: x map_of_eq_None_iff)
  then show ?case using Cons
    by (cases "k = k'"; cases "map_of patch k") (simp_all add: x deep_merge_Cons map_of_with_key del: deep_merge.simps(2))
qed simp

lemma keys_distinct_merge: "distinct (map fst base) \<Longrightarrow> distinct (map fst (deep_merge base patch))"
proof (induction patch arbitrary: base)
  case (Cons x patch)
  obtain k v where x: "x = (k, v)" by (cases x)
  have "distinct (map fst (with_key k w base))" for w
    using Cons.prems by (simp add: with_key_def distinct_update distinct_delete split: option.split)
  then show ?case using Cons by (simp add: x deep_merge_Cons del: deep_merge.simps(2))
qed simp

text \<open>What a null inside a section does.  The handler promises that the YAML value applies again.  That is so
  when the override already has the section: its key goes and the YAML's shows through.  When it does
  not, the null itself is stored, and it deletes the YAML's key from the effective section, which then
  gets the class default.\<close>
theorem null_may_delete_the_yaml_value:
  assumes "distinct (map fst ov)" "map_of yaml sec = Some (JObj bv)"
  shows "map_of (deep_merge yaml (deep_merge ov [(sec, JObj [(k, JNull)])])) sec = Some (JObj (case map_of ov sec of
      Some (JObj old) \<Rightarrow> deep_merge bv (AList.delete k old)
    | _ \<Rightarrow> AList.delete k bv))"
proof -
  let ?o = "deep_merge ov [(sec, JObj [(k, JNull)])]"
  have d: "distinct (map fst ?o)" by (rule keys_distinct_merge[OF assms(1)])
  have "map_of ?o sec = Some (JObj (case map_of ov sec of Some (JObj old) \<Rightarrow> AList.delete k old | _ \<Rightarrow> [(k, JNull)]))"
    by (simp add: deep_merge_Cons map_of_with_key merged_value_def del: deep_merge.simps(2) split: option.split json.split)
  then show ?thesis
    by (simp add: deep_merge_lookup[OF d] merged_value_def assms(2) del: deep_merge.simps(2) split: option.split json.split) simp
qed

definition demo_override :: override where
  "demo_override = [(''config'', JObj [(''vehiclePollSeconds'', JInt 30)])]"

definition demo_editor :: principal where
  "demo_editor = \<lparr>p_kind = User, p_role = ''admin'', p_user_id = Some 1, p_email = ''ana@co'', p_name = ''Ana'', p_cities = [], p_session = None\<rparr>"

definition demo_run :: "pg_config \<times> runtime" where
  \<comment> \<open>a first start, then a save that changes nothing\<close>
  "demo_run = fst (put_config (pg_config_ops id) strict (\<lambda>_. JNull) 7 demo_editor \<lparr>cp_sections = [], cp_note = None, cp_by = None\<rparr>
     (\<lparr>pc_rows = [], pc_history = []\<rparr>, started (pg_config_ops id) strict (\<lambda>_. JNull) \<lparr>pc_rows = [], pc_history = []\<rparr> demo_city))"


lemma pg_history_is_not_newest_first_witness:
  "map le_revision (pg_history (fst (pg_save id ''bog'' [] None None 3 (fst (pg_clear ''bog'' None 2
      (fst (pg_save id ''bog'' demo_override None None 1 \<lparr>pc_rows = [], pc_history = []\<rparr>)))))) ''bog'' (Suc 9)) = [2, 1, 1]
    \<and> 2 \<le> le_revision (hd (pg_history (fst (pg_save id ''bog'' [] None None 3 (fst (pg_clear ''bog'' None 2
      (fst (pg_save id ''bog'' demo_override None None 1 \<lparr>pc_rows = [], pc_history = []\<rparr>)))))) ''bog'' (Suc 9)))"
  using pg_history_is_not_newest_first[OF _ _ refl, of "fst (pg_save id ''bog'' demo_override None None 1 \<lparr>pc_rows = [], pc_history = []\<rparr>)" "''bog''"
      "saved_row demo_override None 1 None" id "[]" None None 3 None 2 9]
  by (simp add: pg_save_def pg_load_def saved_row_def revision_of_def pg_history_def pg_log_def pg_clear_def cleared_row_def log_of_def Let_def)

lemma null_may_delete_the_yaml_value_witness:
  "map_of (deep_merge (yaml_sections (\<lambda>_. JNull) demo_city) (deep_merge [] [(''branding'', JObj [(''primaryColor'', JNull)])])) ''branding'' = Some (JObj [])
    \<and> map_of (yaml_sections (\<lambda>_. JNull) demo_city) ''branding'' = Some (JObj [(''primaryColor'', JStr (CHR 0x23 # ''00A859''))])"
  using null_may_delete_the_yaml_value[of "[]" "yaml_sections (\<lambda>_. JNull) demo_city" "''branding''" "[(''primaryColor'', JStr (CHR 0x23 # ''00A859''))]" "''primaryColor''"]
  by (simp add: yaml_sections_def demo_city_def)

end
