(* ===== verification/Iso_Print.thy ===== *)
theory Iso_Print
  imports Iso_Time
begin

text \<open>
  \<open>datetime.isoformat\<close> and arithmetic on ISO texts, with the round trip through \<open>fromisoformat\<close>.  A moment is
  the wall-clock seconds since day 0 and the UTC offset in seconds, as \<open>iso_local\<close> reads it.
  Python's years end at 9999; the texts of later moments are not meaningful here.
\<close>

section \<open>From a day number back to a date\<close>

function year_up :: "int \<Rightarrow> int \<Rightarrow> int" where
  "year_up n y = (if ordinal (y + 1) 1 1 \<le> n \<and> ordinal y 1 1 < ordinal (y + 1) 1 1 then year_up n (y + 1) else y)"
  by pat_completeness auto
termination by (relation "measure (\<lambda>(n, y). nat (n - ordinal y 1 1 + 1))") auto

declare year_up.simps [simp del]

definition year_of :: "int \<Rightarrow> int" where
  "year_of n = year_up n ((n - 1) div 366 + 1)"

definition month_of :: "int \<Rightarrow> int \<Rightarrow> nat" where
  "month_of n y = last (filter (\<lambda>m. ordinal y m 1 \<le> n) [1..<13])"

definition pad_to :: "nat \<Rightarrow> nat \<Rightarrow> string" where
  "pad_to k n = replicate (k - length (show_nat n)) CHR ''0'' @ show_nat n"

definition show_day :: "int \<Rightarrow> string" where
  "show_day n = (let y = year_of n; m = month_of n y in
     pad_to 4 (nat y) @ ''-'' @ pad2 m @ ''-'' @ pad2 (nat (n - ordinal y m 1 + 1)))"

definition show_offset :: "int option \<Rightarrow> string" where
  "show_offset off = (case off of None \<Rightarrow> [] | Some z \<Rightarrow> (let n = nat \<bar>z\<bar> in
     (if z < 0 then ''-'' else ''+'') @ pad2 (n div 3600) @ '':'' @ pad2 (n mod 3600 div 60)))"

definition show_clock :: "nat \<Rightarrow> string" where
  "show_clock s = pad2 (s div 3600) @ '':'' @ pad2 (s mod 3600 div 60) @ '':'' @ pad2 (s mod 60)"

definition iso_show :: "rat \<times> int option \<Rightarrow> string" where
  "iso_show m = (case m of (t, off) \<Rightarrow> let n = \<lfloor>t\<rfloor>; micro = nat \<lfloor>(t - of_int n) * 1000000\<rfloor> in
     show_day (n div day_seconds) @ ''T'' @ show_clock (nat (n mod day_seconds))
       @ (if micro = 0 then [] else ''.'' @ pad_to 6 micro) @ show_offset off)"

section \<open>The calendar\<close>

lemma ordinal_month: "1 \<le> m \<Longrightarrow> ordinal y (Suc m) 1 = ordinal y m 1 + month_days y m"
  by (simp add: ordinal_def)

lemma ordinal_day: "ordinal y m d = ordinal y m 1 + (d - 1)"
  by (simp add: ordinal_def)

lemma leap_sum:
  assumes "a = a' + (if p then 1 else 0 :: int)" "b = b' + (if q then 1 else 0)" "c = c' + (if r then 1 else 0)" "r \<Longrightarrow> q" "q \<Longrightarrow> p"
  shows "a - b + c = a' - b' + c' + (if p \<and> (\<not> q \<or> r) then 1 else 0)"
  using assms by auto

lemma leap_step: "y div 4 - y div 100 + y div 400 = (y - 1) div 4 - (y - 1) div 100 + (y - 1) div 400 + (if leap y then 1 else 0 :: int)"
proof -
  have d: "y div k = (y - 1) div k + (if y mod k = 0 then 1 else 0)" if "0 < k" for k
  proof (cases "y mod k = 0")
    case True
    then have "y = k * (y div k)" by (metis add.right_neutral mult_div_mod_eq)
    then have "(y - 1) div k = (k * (y div k) + -1) div k" by simp
    also have "\<dots> = y div k + -1 div k" using that by (metis div_mult_self3 mult.commute add.commute less_irrefl)
    also have "-1 div k = -1" using that by (simp add: div_eq_minus1)
    finally show ?thesis using True by simp
  next
    case False
    then have "y - 1 = k * (y div k) + (y mod k - 1)" by (metis add_diff_eq mult_div_mod_eq)
    moreover have "0 \<le> y mod k - 1" "y mod k - 1 < k" using False that pos_mod_sign[of k y] pos_mod_bound[of k y] by linarith+
    ultimately have "(y - 1) div k = y div k" by (metis div_pos_pos_trivial div_mult_self4 add_0_right less_irrefl that)
    then show ?thesis using False by simp
  qed
  have "y mod 100 = 0" if "y mod 400 = 0" using that by presburger
  moreover have "y mod 4 = 0" if "y mod 100 = 0" using that by presburger
  ultimately show ?thesis unfolding leap_def by (intro leap_sum d) simp_all
qed

lemma year_length: "ordinal (y + 1) 1 1 = ordinal y 12 1 + 31"
proof -
  have "[1..<12] = [1, 2, 3, 4, 5, 6, 7, 8, 9, 10, 11::nat]" by (simp add: upt_rec)
  then have "ordinal y 12 1 = 365 * (y - 1) + (y - 1) div 4 - (y - 1) div 100 + (y - 1) div 400 + 334 + (if leap y then 1 else 0) + 1"
    by (simp add: ordinal_def month_days_def)
  then show ?thesis using leap_step[of y] by (simp add: ordinal_def algebra_simps)
qed

lemma month_days_bounds: "28 \<le> month_days y m" "month_days y m \<le> 31"
  by (simp_all add: month_days_def)

lemma months_mono: "1 \<le> m \<Longrightarrow> m \<le> k \<Longrightarrow> ordinal y m 1 \<le> ordinal y k 1"
proof (induction k)
  case (Suc k)
  then show ?case using ordinal_month[of k y] month_days_bounds(1)[of y k] by (cases "m = Suc k") (auto simp: le_Suc_eq)
qed simp

lemma year_grows: "ordinal y 1 1 < ordinal (y + 1) 1 1"
  using months_mono[of 1 12 y] by (simp add: year_length del: One_nat_def)

lemma year_up_bounds: "ordinal y 1 1 \<le> n \<Longrightarrow> ordinal (year_up n y) 1 1 \<le> n \<and> n < ordinal (year_up n y + 1) 1 1 \<and> y \<le> year_up n y"
proof (induction n y rule: year_up.induct)
  case (1 n y)
  show ?case
  proof (cases "ordinal (y + 1) 1 1 \<le> n")
    case True
    then have "year_up n y = year_up n (y + 1)" by (subst year_up.simps) (simp add: year_grows del: One_nat_def)
    then show ?thesis using 1 True year_grows[of y] by auto
  next
    case False
    then have "year_up n y = y" by (subst year_up.simps) simp
    then show ?thesis using 1 False by simp
  qed
qed

lemma year_of_bounds: "1 \<le> n \<Longrightarrow> ordinal (year_of n) 1 1 \<le> n \<and> n < ordinal (year_of n + 1) 1 1 \<and> 1 \<le> year_of n"
proof -
  assume "1 \<le> n"
  let ?y = "(n - 1) div 366 + 1"
  have y: "1 \<le> ?y" using \<open>1 \<le> n\<close> by (simp add: pos_imp_zdiv_nonneg_iff)
  have "(?y - 1) div 4 + (?y - 1) div 400 \<le> (?y - 1) + (?y - 1) div 100"
    using zdiv_mono2[of "?y - 1" 1 4] zdiv_mono2[of "?y - 1" 100 400] y by simp
  then have "ordinal ?y 1 1 \<le> 366 * ((n - 1) div 366) + 1" by (simp add: ordinal_def)
  also have "\<dots> \<le> n" using mult_div_mod_eq[of 366 "n - 1"] pos_mod_sign[of 366 "n - 1"] by linarith
  finally have "ordinal ?y 1 1 \<le> n" .
  from year_up_bounds[OF this] y show ?thesis by (simp add: year_of_def)
qed

lemma years_grow: "y \<le> z \<Longrightarrow> ordinal y 1 1 \<le> ordinal z 1 1"
proof (induction "nat (z - y)" arbitrary: z)
  case (Suc k)
  then have "ordinal y 1 1 \<le> ordinal (z - 1) 1 1" by simp
  then show ?case using year_grows[of "z - 1"] by simp
qed simp

lemma year_of_limit: "1 \<le> n \<Longrightarrow> n \<le> 3652059 \<Longrightarrow> year_of n \<le> 9999"
proof (rule ccontr)
  assume n: "1 \<le> n" "n \<le> 3652059" and "\<not> year_of n \<le> 9999"
  then have "ordinal 10000 1 1 \<le> ordinal (year_of n) 1 1" by (intro years_grow) simp
  moreover have "ordinal 10000 1 1 = 3652060" by (simp add: ordinal_def)
  ultimately show False using year_of_bounds[OF n(1)] n(2) by linarith
qed

lemma month_of_bounds:
  assumes "ordinal y 1 1 \<le> n" "n < ordinal (y + 1) 1 1"
  shows "1 \<le> month_of n y \<and> month_of n y \<le> 12 \<and> ordinal y (month_of n y) 1 \<le> n \<and> n < ordinal y (month_of n y) 1 + month_days y (month_of n y)"
proof -
  let ?f = "filter (\<lambda>m. ordinal y m 1 \<le> n) [1..<13]"
  have "1 \<in> set ?f" using assms by (simp del: One_nat_def)
  then have ne: "?f \<noteq> []" by (metis empty_iff empty_set)
  then have "last ?f \<in> set ?f" by (rule last_in_set)
  then have m: "1 \<le> month_of n y" "month_of n y \<le> 12" "ordinal y (month_of n y) 1 \<le> n" by (auto simp: month_of_def)
  have top: "k \<le> month_of n y" if "k \<in> set ?f" for k
  proof -
    have "sorted ?f" by (rule sorted_filter[of id, simplified]) simp
    then show ?thesis using that ne unfolding month_of_def
      by (metis in_set_conv_nth last_conv_nth le_eq_less_or_eq length_greater_0_conv diff_less less_Suc_eq_le
        One_nat_def Suc_pred sorted_nth_mono zero_less_one)
  qed
  have "n < ordinal y (month_of n y) 1 + month_days y (month_of n y)"
  proof (cases "month_of n y = 12")
    case True
    then show ?thesis using assms(2) by (simp add: year_length month_days_def del: One_nat_def)
  next
    case False
    have "Suc (month_of n y) \<notin> set ?f" using top[of "Suc (month_of n y)"] by fastforce
    then have "n < ordinal y (Suc (month_of n y)) 1" using m False by auto
    then show ?thesis using ordinal_month[OF m(1), of y] by simp
  qed
  then show ?thesis using m by blast
qed

section \<open>Reading back what was printed\<close>

lemma digits_no_sign: "list_all is_digit s \<Longrightarrow> c \<in> {CHR ''-'', CHR ''+'', CHR '':'', CHR ''.'', CHR ''Z''} \<Longrightarrow> c \<notin> set s"
  by (auto simp: list_all_iff is_digit_def)

lemma length_show_nat: "n < 10 ^ Suc k \<Longrightarrow> length (show_nat n) \<le> Suc k"
proof (induction k arbitrary: n)
  case 0
  then show ?case by (simp add: length_show_nat_small)
next
  case (Suc k)
  then have "n div 10 < 10 ^ Suc k" by (simp add: less_mult_imp_div_less mult.commute)
  from Suc.IH[OF this] show ?case by (subst show_nat.simps) simp
qed

lemma foldl_zeros: "foldl (\<lambda>n c. 10 * n + digit_val c) 0 (replicate k CHR ''0'' @ s) = foldl (\<lambda>n c. 10 * n + digit_val c) 0 s"
  by (induction k) simp_all

lemma pad_to_digits: "list_all is_digit (pad_to k n)"
  using show_nat_digits[of n] by (auto simp: pad_to_def list_all_iff set_replicate_conv_if)

lemma fixed_pad_to: "n < 10 ^ Suc k \<Longrightarrow> fixed_nat (Suc k) (pad_to (Suc k) n) = Some n"
  using length_show_nat[of n k] pad_to_digits[of "Suc k" n] foldl_zeros[of _ "show_nat n"]
  by (simp add: fixed_nat_def pad_to_def parse_nat_def show_nat_value del: foldl_append)

lemma fixed_pad2: "n < 100 \<Longrightarrow> fixed_nat 2 (pad2 n) = Some n"
  by (simp add: fixed_nat_def length_pad2)

lemma pad2_free: "CHR ''-'' \<notin> set (pad2 n)" "CHR ''+'' \<notin> set (pad2 n)" "CHR '':'' \<notin> set (pad2 n)" "CHR ''.'' \<notin> set (pad2 n)" "CHR ''Z'' \<notin> set (pad2 n)"
  using digits_no_sign[OF pad2_digits] by auto

lemma pad2_nonempty [simp]: "pad2 n \<noteq> []"
  by (simp add: pad2_def)

lemma parse_hm_pad: "h < 24 \<Longrightarrow> m < 60 \<Longrightarrow> parse_hm (pad2 h @ CHR '':'' # pad2 m) = Some (int (h * 3600 + m * 60))"
  by (simp add: parse_hm_def split_on_append pad2_free split_on_free fixed_pad2)

lemma parse_show_clock: "s < 86400 \<Longrightarrow> parse_clock (show_clock s) = Some (of_nat s)"
proof -
  assume "s < 86400"
  then have b: "s div 3600 < 24" "s mod 3600 div 60 < 60" "s mod 60 < 60" by (simp_all add: less_mult_imp_div_less)
  let ?hm = "pad2 (s div 3600) @ CHR '':'' # pad2 (s mod 3600 div 60)"
  have c: "show_clock s = ?hm @ CHR '':'' # pad2 (s mod 60)" by (simp add: show_clock_def)
  have "parse_seconds (pad2 (s mod 60)) = Some (of_nat (s mod 60))"
    using b by (simp add: parse_seconds_def split_on_free pad2_free fixed_pad2)
  moreover have "s div 3600 * 3600 + s mod 3600 div 60 * 60 + s mod 60 = s"
  proof -
    have "s mod 3600 mod 60 = s mod 60" by (simp add: mod_mod_cancel)
    then show ?thesis using div_mult_mod_eq[of s 3600] div_mult_mod_eq[of "s mod 3600" 60] by linarith
  qed
  then have "of_int (int (s div 3600 * 3600 + s mod 3600 div 60 * 60)) + of_nat (s mod 60) = (of_nat s :: rat)"
    by (metis of_int_of_nat_eq of_nat_add)
  moreover have "take 5 (show_clock s) = ?hm" "drop 6 (show_clock s) = pad2 (s mod 60)" "show_clock s ! 5 = CHR '':''" "\<not> length (show_clock s) \<le> 5"
    using b unfolding c by (simp_all add: nth_append length_pad2)
  ultimately show ?thesis using parse_hm_pad[OF b(1,2)] by (simp add: parse_clock_def)
qed

lemma parse_show_day: "1 \<le> n \<Longrightarrow> year_of n \<le> 9999 \<Longrightarrow> parse_date (show_day n) = Some n \<and> length (show_day n) = 10"
proof -
  assume a: "1 \<le> n" "year_of n \<le> 9999"
  let ?y = "year_of n" let ?m = "month_of n ?y" let ?d = "n - ordinal ?y ?m 1 + 1"
  have y: "ordinal ?y 1 1 \<le> n" "n < ordinal (?y + 1) 1 1" "1 \<le> ?y" using year_of_bounds[OF a(1)] by auto
  note m = month_of_bounds[OF y(1,2)]
  have d: "1 \<le> ?d" "?d \<le> month_days ?y ?m" using m by auto
  then have db: "nat ?d < 100" "int (nat ?d) = ?d" "1 \<le> nat ?d" "1 \<le> nat ?y" using month_days_bounds(2)[of ?y ?m] y(3) by linarith+
  have f: "fixed_nat 4 (pad_to 4 (nat ?y)) = Some (nat ?y)" using fixed_pad_to[of "nat ?y" 3] a(2) by (simp add: nat_less_iff)
  have free: "CHR ''-'' \<notin> set (pad_to 4 (nat ?y))" using digits_no_sign[OF pad_to_digits] by simp
  have "ordinal ?y ?m ?d = n" using ordinal_day[of ?y ?m ?d] by simp
  then have "parse_date (show_day n) = Some n"
    using d db m y a(2) by (simp add: parse_date_def show_day_def Let_def split_on_append free pad2_free split_on_free f fixed_pad2)
  moreover have "length (pad_to 4 (nat ?y)) = 4" using f by (simp add: fixed_nat_def split: if_splits)
  then have "length (show_day n) = 10" using db(1) m by (simp add: show_day_def Let_def length_pad2)
  ultimately show ?thesis by blast
qed

definition whole_offset :: "int option \<Rightarrow> bool" where
  "whole_offset off \<longleftrightarrow> (case off of None \<Rightarrow> True | Some z \<Rightarrow> 60 dvd z \<and> \<bar>z\<bar> < 86400)"

lemma last_pad2: "last (pad2 n) \<noteq> CHR ''Z''"
  by (metis last_in_set pad2_free(5) pad2_nonempty)

lemma show_clock_free: "s < 86400 \<Longrightarrow> \<forall>c \<in> set (show_clock s). c \<noteq> CHR ''+'' \<and> c \<noteq> CHR ''-''" "last (show_clock s) \<noteq> CHR ''Z''" "show_clock s \<noteq> []"
  using pad2_free by (auto simp: show_clock_def last_pad2)

lemma split_show_offset:
  assumes "whole_offset off" "s < 86400"
  shows "split_offset (show_clock s @ show_offset off) = (show_clock s, map_option Some off)"
proof (cases off)
  case None
  then show ?thesis using show_clock_free(1)[OF assms(2)] show_clock_free(2,3)[of s]
    by (simp add: show_offset_def split_offset_def Let_def takeWhile_eq_all_conv[THEN iffD2])
next
  case (Some z)
  let ?n = "nat \<bar>z\<bar>"
  have z: "60 dvd z" "?n < 86400" using assms(1) Some by (auto simp: whole_offset_def)
  then have "int 60 dvd int ?n" by simp
  then have "60 dvd ?n" by (simp only: int_dvd_int_iff)
  then have "60 dvd ?n mod 3600" by (intro dvd_mod) simp_all
  then have "?n mod 3600 div 60 * 60 = ?n mod 3600" by (rule dvd_div_mult_self)
  then have n: "?n div 3600 * 3600 + ?n mod 3600 div 60 * 60 = ?n" by simp
  have b: "?n div 3600 < 24" "?n mod 3600 div 60 < 60" using z by (simp_all add: less_mult_imp_div_less)
  let ?hm = "pad2 (?n div 3600) @ CHR '':'' # pad2 (?n mod 3600 div 60)"
  have hm: "parse_hm ?hm = Some \<bar>z\<bar>" using parse_hm_pad[OF b] n by simp
  have o: "show_offset off = (if z < 0 then CHR ''-'' else CHR ''+'') # ?hm" by (simp add: Some show_offset_def Let_def)
  have l: "last ?hm \<noteq> CHR ''Z''" by (simp add: last_pad2)
  have t: "takeWhile (\<lambda>c. c \<noteq> CHR ''+'' \<and> c \<noteq> CHR ''-'') (show_clock s @ show_offset off) = show_clock s"
    using show_clock_free(1)[OF assms(2)] by (simp add: o takeWhile_append2)
  have "last (show_clock s @ show_offset off) \<noteq> CHR ''Z''" using l by (simp add: o)
  then show ?thesis unfolding split_offset_def t Let_def using hm show_clock_free(3)[of s] by (simp add: o[unfolded Some] Some)
qed

lemma iso_roundtrip:
  \<comment> \<open>from 0001-01-01 to 9999-12-31\<close>
  assumes "86400 \<le> t" "t div 86400 \<le> 3652059" "whole_offset off"
  shows "iso_local (iso_show (of_int t, off)) = Some (of_int t, off)"
proof -
  let ?d = "t div 86400" and ?s = "nat (t mod 86400)"
  have "1 \<le> ?d" using assms(1) by (simp add: pos_imp_zdiv_nonneg_iff zdiv_mono1[of 86400 t 86400, simplified])
  note day = parse_show_day[OF this year_of_limit[OF this assms(2)]]
  have s: "?s < 86400" by (simp add: nat_less_iff)
  have i: "iso_show (of_int t, off) = show_day ?d @ CHR ''T'' # show_clock ?s @ show_offset off"
    by (simp add: iso_show_def Let_def day_seconds_def)
  have "of_int (?d * 86400) + of_nat ?s = (of_int t :: rat)"
    using div_mult_mod_eq[of t 86400] by (metis nat_0_le of_int_add of_int_of_nat_eq pos_mod_sign zero_less_numeral)
  then show ?thesis unfolding i iso_local_def using day parse_show_clock[OF s] split_show_offset[OF assms(3) s]
    by (simp add: day_seconds_def split: option.splits)
qed

end
