(* ===== verification/Handoff.thy ===== *)
theory Handoff
  imports City_Views Admin_Config Iso_Print "HOL-Library.Sublist"
begin

text \<open>
  Hand-off links of \<open>app/ondemand.py\<close> and the hand-off handler of \<open>app/routers/ondemand.py\<close>: a provider's
  template is filled with URL-encoded values and the city's credentials.  Texts are UTF-8 bytes; Python's
  shortest text of a float (\<open>repr\<close>) is the argument \<open>show_float\<close>.
\<close>

section \<open>URL encoding and number formats\<close>

definition unreserved :: "char \<Rightarrow> bool" where
  "unreserved c \<longleftrightarrow> is_alpha c \<or> is_digit c \<or> c \<in> set ''_.-~''"

definition hex_digit :: "nat \<Rightarrow> char" where
  "hex_digit n = (if n < 10 then char_of (48 + n) else char_of (55 + n))"

definition percent :: "char \<Rightarrow> string" where
  "percent c = [CHR 0x25, hex_digit (of_char c div 16), hex_digit (of_char c mod 16)]"

definition url_quote :: "string \<Rightarrow> string" where
  \<comment> \<open>\<open>quote(s, safe="")\<close>\<close>
  "url_quote s = concat (map (\<lambda>c. if unreserved c then [c] else percent c) s)"

definition quote_plus :: "string \<Rightarrow> string" where
  "quote_plus s = concat (map (\<lambda>c. if c = CHR '' '' then ''+'' else if unreserved c then [c] else percent c) s)"

definition urlencode :: "(string \<times> string) list \<Rightarrow> string" where
  "urlencode kvs = join_with [CHR 0x26] (map (\<lambda>(k, v). quote_plus k @ ''='' @ quote_plus v) kvs)"

definition fixed6 :: "rat \<Rightarrow> string" where
  \<comment> \<open>\<open>f"{x:.6f}"\<close>\<close>
  "fixed6 x = (let n = nat (py_round (\<bar>x\<bar> * 1000000)) in
     (if x < 0 then ''-'' else []) @ show_nat (n div 1000000) @ ''.'' @ pad_to 6 (n mod 1000000))"

definition json_char :: "char \<Rightarrow> string" where
  \<comment> \<open>\<open>json.dumps\<close> with \<open>ensure_ascii=False\<close>\<close>
  "json_char c = (if c = CHR 0x22 then [CHR 0x5C, CHR 0x22] else if c = CHR 0x5C then [CHR 0x5C, CHR 0x5C]
     else if c = CHR 0x0A then CHR 0x5C # ''n'' else if c = CHR 0x0D then CHR 0x5C # ''r'' else if c = CHR 0x09 then CHR 0x5C # ''t''
     else if c = CHR 0x0C then CHR 0x5C # ''f'' else if c = CHR 0x08 then CHR 0x5C # ''b''
     else if (of_char c :: nat) < 32 then CHR 0x5C # ''u00'' @ [hex_digit (of_char c div 16), lower_char (hex_digit (of_char c mod 16))] else [c])"

definition json_text :: "string \<Rightarrow> string" where
  "json_text s = CHR 0x22 # concat (map json_char s) @ [CHR 0x22]"

section \<open>Templates\<close>

definition match_placeholder :: "string \<Rightarrow> (string \<times> string) option" where
  \<comment> \<open>\<open>PLACEHOLDER\<close> at the start of the text: the name and what follows\<close>
  "match_placeholder s = (if placeholder_at s
     then let w = takeWhile (\<lambda>c. is_alpha c \<or> is_digit c) (tl s) in Some (w, drop (length w + 2) s) else None)"

lemma match_placeholder_shorter: "match_placeholder s = Some (w, r) \<Longrightarrow> length r < length s"
  by (auto simp: match_placeholder_def placeholder_at_def Let_def split: if_splits)

function fill_template :: "(string \<Rightarrow> string) \<Rightarrow> string \<Rightarrow> string" where
  \<comment> \<open>\<open>PLACEHOLDER.sub\<close>\<close>
  "fill_template f [] = []"
| "fill_template f (c # cs) = (case match_placeholder (c # cs) of Some (w, r) \<Rightarrow> f w @ fill_template f r | None \<Rightarrow> c # fill_template f cs)"
  by pat_completeness auto
termination by (relation "measure (length \<circ> snd)") (auto dest: match_placeholder_shorter)

function placeholders :: "string \<Rightarrow> string list" where
  \<comment> \<open>\<open>PLACEHOLDER.findall\<close>\<close>
  "placeholders [] = []"
| "placeholders (c # cs) = (case match_placeholder (c # cs) of Some (w, r) \<Rightarrow> w # placeholders r | None \<Rightarrow> placeholders cs)"
  by pat_completeness auto
termination by (relation "measure length") (auto dest: match_placeholder_shorter)

section \<open>Building a link\<close>

definition CREDENTIAL_PLACEHOLDERS :: "string list" where
  "CREDENTIAL_PLACEHOLDERS = [''clientId'', ''clientSecret'', ''apiKey'', ''partnerId'', ''token'']"

definition app_link :: "od_handoff \<Rightarrow> string \<Rightarrow> string option" where
  "app_link h platform = or_else (map_of (oh_apps h) platform) None"

definition fallback :: "od_provider \<Rightarrow> string option \<Rightarrow> string option" where
  "fallback p platform = (let h = op_handoff p; ios = app_link h ''ios''; android = app_link h ''android''; web = oh_web h in
     if platform = Some ''ios'' then str_or ios (str_or web android)
     else if platform = Some ''android'' then str_or android (str_or web ios)
     else str_or web (str_or ios android))"

record ride_ends =
  re_from_lat :: rat
  re_from_lon :: rat
  re_to_lat :: rat
  re_to_lon :: rat
  re_from_name :: "string option"
  re_to_name :: "string option"

definition spot_json :: "(rat \<Rightarrow> string) \<Rightarrow> rat \<Rightarrow> rat \<Rightarrow> string \<Rightarrow> string" where
  "spot_json show_float lat lon name = ''{'' @ json_text ''latitude'' @ '':'' @ show_float lat @ '','' @ json_text ''longitude'' @ '':'' @ show_float lon
     @ '','' @ json_text ''addressLine1'' @ '':'' @ json_text name @ ''}''"

definition ride_values :: "(rat \<Rightarrow> string) \<Rightarrow> ride_ends \<Rightarrow> (string \<times> string) list" where
  "ride_values show_float e = (let a = or_else (re_from_name e) []; b = or_else (re_to_name e) [] in
     [(''pickupLat'', fixed6 (re_from_lat e)), (''pickupLon'', fixed6 (re_from_lon e)), (''pickupName'', a),
      (''dropoffLat'', fixed6 (re_to_lat e)), (''dropoffLon'', fixed6 (re_to_lon e)), (''dropoffName'', b),
      (''pickupJson'', spot_json show_float (re_from_lat e) (re_from_lon e) a), (''dropoffJson'', spot_json show_float (re_to_lat e) (re_to_lon e) b)])"

definition all_values :: "(rat \<Rightarrow> string) \<Rightarrow> od_provider \<Rightarrow> ride_ends \<Rightarrow> string \<rightharpoonup> string" where
  \<comment> \<open>the credentials last\<close>
  "all_values show_float p e = map_of (fold (\<lambda>(k, v). AList.update k v) (op_credentials p) (ride_values show_float e))"

definition missing_credentials :: "(string \<rightharpoonup> string) \<Rightarrow> string \<Rightarrow> string list" where
  "missing_credentials values template = filter (\<lambda>n. n \<in> set CREDENTIAL_PLACEHOLDERS \<and> \<not> truthy_str (values n)) (placeholders template)"

record built_link =
  bl_url :: "string option"
  bl_fallback :: "string option"
  bl_kind :: string
  bl_missing :: "string list"

definition build_handoff :: "(rat \<Rightarrow> string) \<Rightarrow> od_provider \<Rightarrow> ride_ends \<Rightarrow> string option \<Rightarrow> built_link" where
  "build_handoff show_float p e platform = (let fb = fallback p platform; h = op_handoff p in
     if oh_kind h = ''none'' then \<lparr>bl_url = None, bl_fallback = fb, bl_kind = ''none'', bl_missing = []\<rparr>
     else if oh_kind h = ''url'' \<or> \<not> truthy_str (oh_template h) then \<lparr>bl_url = fb, bl_fallback = fb, bl_kind = ''url'', bl_missing = []\<rparr>
     else let values = all_values show_float p e; template = the (oh_template h); missing = missing_credentials values template in
       if missing \<noteq> [] then \<lparr>bl_url = fb, bl_fallback = fb, bl_kind = ''url'', bl_missing = missing\<rparr>
       else \<lparr>bl_url = Some (fill_template (\<lambda>n. url_quote (or_else (values n) [])) template), bl_fallback = fb, bl_kind = ''template'', bl_missing = []\<rparr>)"

definition rstrip_slash :: "string \<Rightarrow> string" where
  "rstrip_slash s = rev (dropWhile (\<lambda>c. c = CHR ''/'') (rev s))"

definition handoff_api_url :: "string \<Rightarrow> string \<Rightarrow> string \<Rightarrow> ride_ends \<Rightarrow> string" where
  \<comment> \<open>names are cut to 120 characters\<close>
  "handoff_api_url base_url city_id provider e =
     rstrip_slash base_url @ ''/v1/cities/'' @ city_id @ ''/ondemand/handoff?'' @ urlencode
       ([(''providerId'', provider), (''fromLat'', fixed6 (re_from_lat e)), (''fromLon'', fixed6 (re_from_lon e)), (''toLat'', fixed6 (re_to_lat e)),
         (''toLon'', fixed6 (re_to_lon e))]
        @ (if truthy_str (re_from_name e) then [(''fromName'', concat (take 120 (utf8_chars (the (re_from_name e)))))] else [])
        @ (if truthy_str (re_to_name e) then [(''toName'', concat (take 120 (utf8_chars (the (re_to_name e)))))] else []))"

section \<open>The handler\<close>

definition ondemand_disabled :: "city \<Rightarrow> api_error" where
  "ondemand_disabled c = raise_error 404 ''ONDEMAND_DISABLED'' (''on-demand mobility is not configured for '' @ ci_name c) None None"

definition provider_not_found :: "string \<Rightarrow> api_error" where
  "provider_not_found i = raise_error 404 ''PROVIDER_NOT_FOUND'' (''unknown provider '' @ i) None None"

definition handoff_unavailable :: "od_provider \<Rightarrow> api_error" where
  "handoff_unavailable p = raise_error 404 ''HANDOFF_UNAVAILABLE'' (op_name p @ '' has no link configured'') None None"

datatype handoff_answer = Redirect string | Link built_link

definition browser_nav :: "string \<Rightarrow> bool" where
  "browser_nav accept \<longleftrightarrow> sublist ''text/html'' accept \<and> \<not> sublist ''application/json'' (hd (split_on CHR '','' accept))"

definition handoff :: "(rat \<Rightarrow> string) \<Rightarrow> city \<Rightarrow> string \<Rightarrow> ride_ends \<Rightarrow> string option \<Rightarrow> bool \<Rightarrow> string \<Rightarrow> handoff_answer outcome" where
  "handoff show_float c provider e platform redirect accept = (if \<not> on_demand_enabled c then Inl (ondemand_disabled c)
     else case on_demand_provider c (Some provider) of
       None \<Rightarrow> Inl (provider_not_found provider)
     | Some p \<Rightarrow> if \<not> op_enabled p then Inl (provider_not_found provider)
       else let built = build_handoff show_float p e platform; target = str_or (bl_url built) (bl_fallback built) in
         if redirect \<or> browser_nav accept then (if truthy_str target then Inr (Redirect (the target)) else Inl (handoff_unavailable p))
         else Inr (Link built))"

section \<open>Facts\<close>

definition url_safe :: "char \<Rightarrow> bool" where "url_safe c \<longleftrightarrow> unreserved c \<or> c = CHR 0x25"

lemma hex_digit_unreserved: "n < 16 \<Longrightarrow> unreserved (hex_digit n)"
proof -
  assume "n < 16"
  then have "n \<in> set [0..<16]" by simp
  moreover have "list_all (\<lambda>n. unreserved (hex_digit n)) [0..<16]" by code_simp
  ultimately show ?thesis by (simp only: list_all_iff)
qed

lemma high_nibble [simp]: "(of_char c :: nat) div 16 < 16"
proof -
  have "(of_char c :: nat) < 256" by (metis of_char_of mod_less_divisor char_of_char zero_less_numeral)
  then show ?thesis by (intro less_mult_imp_div_less) simp
qed

lemma url_quote_safe: "c \<in> set (url_quote s) \<Longrightarrow> url_safe c"
  by (auto simp: url_quote_def percent_def url_safe_def hex_digit_unreserved split: if_splits)

lemma filter_fill_template:
  "(\<And>w c. c \<in> set (f w) \<Longrightarrow> \<not> P c) \<Longrightarrow> filter P (fill_template f s) = filter P (fill_template (\<lambda>_. []) s)"
proof (induction f s rule: fill_template.induct)
  case (2 f c cs)
  have "filter P (f w) = []" for w using 2(3) by (auto simp: filter_empty_conv)
  then show ?case using 2 by (auto split: option.split)
qed simp

function unquote :: "string \<Rightarrow> string" where
  \<comment> \<open>what the receiver does with a quoted value\<close>
  "unquote [] = []"
| "unquote (c # cs) = (if c = CHR 0x25 then (case cs of a # b # r \<Rightarrow>
       char_of (16 * (of_char a - (if is_digit a then 48 else 55)) + (of_char b - (if is_digit b then 48 else 55)) :: nat) # unquote r | _ \<Rightarrow> c # unquote cs)
     else c # unquote cs)"
  by pat_completeness auto
termination by (relation "measure length") auto

lemma hex_value: "n < 16 \<Longrightarrow> (of_char (hex_digit n) :: nat) - (if is_digit (hex_digit n) then 48 else 55) = n"
  by (auto simp: hex_digit_def is_digit_def Let_def)

lemma unreserved_not_percent: "unreserved c \<Longrightarrow> c \<noteq> CHR 0x25"
  by (auto simp: unreserved_def is_alpha_def is_lower_def is_upper_def is_digit_def less_eq_char_def)

lemma unquote_quote: "unquote (url_quote s) = s"
proof (induction s)
  case (Cons c s)
  have "16 * (of_char c div 16) + of_char c mod 16 = (of_char c :: nat)" by simp
  then show ?case
    using Cons unreserved_not_percent[of c] by (auto simp: url_quote_def percent_def hex_value)
qed (simp add: url_quote_def)


definition demo_ride :: ride_ends where
  "demo_ride = \<lparr>re_from_lat = 4, re_from_lon = -74, re_to_lat = 5, re_to_lon = -74, re_from_name = Some ''A/B?'', re_to_name = None\<rparr>"

definition demo_template :: string where
  "demo_template = ''x:/?id={clientId},n={pickupName}''"

definition templated :: "string \<Rightarrow> od_provider" where
  "templated secret = demo_provider\<lparr>op_handoff := (op_handoff demo_provider)\<lparr>oh_kind := ''template'', oh_template := Some demo_template\<rparr>,
     op_credentials := [(''clientId'', secret)]\<rparr>"

lemma demo_filled: "fill_template f demo_template = ''x:/?id='' @ f ''clientId'' @ '',n='' @ f ''pickupName''"
  "placeholders demo_template = [''clientId'', ''pickupName'']"
  by (simp_all add: demo_template_def match_placeholder_def placeholder_at_def is_alpha_def is_lower_def is_upper_def is_digit_def less_eq_char_def startswith_def)


end
