(* ===== verification/On_Demand.thy ===== *)
theory On_Demand
  imports Handoff Plan_Merge City_Roundtrip
begin

text \<open>
  Rides of taxi and ride-hailing providers (\<open>app/ondemand.py\<close>, \<open>app/routers/ondemand.py\<close>): traffic factors, the car
  route cache, quotes, and the decoration of a plan's car legs.  A moment is a wall clock with its UTC
  offset; the holiday calendar of the city's country is the argument \<open>holiday\<close>.
\<close>

section \<open>Car durations\<close>

definition clock_of :: "rat \<Rightarrow> local_time" where
  "clock_of t = \<lparr>lt_day = \<lfloor>t\<rfloor> div day_seconds, lt_sec = \<lfloor>t\<rfloor> mod day_seconds\<rparr>"

definition is_night :: "city \<Rightarrow> local_time \<Rightarrow> py_error + bool" where
  \<comment> \<open>the first surcharge, of any tariff, that has a night window\<close>
  "is_night c when = (case find (\<lambda>s. truthy_str (sw_night_from (su_when s)) \<and> truthy_str (sw_night_to (su_when s)))
       (concat (map tc_surcharges (mo_tariffs (ci_mobility c)))) of
     None \<Rightarrow> Inr False | Some s \<Rightarrow> in_night_window when (sw_night_from (su_when s)) (sw_night_to (su_when s)))"

definition traffic_factor :: "city \<Rightarrow> local_time \<Rightarrow> py_error + rat" where
  "traffic_factor c when = (let pol = mo_policy (ci_mobility c) in
     and_then (is_night c when) (\<lambda>night. Inr (if night then po_night_factor pol else po_factor pol)))"

record car_route =
  car_distance :: int
  car_duration :: int
  car_geometry :: "string option"
  car_factor :: "rat option"

definition adjusted_route :: "city \<Rightarrow> car_route \<Rightarrow> local_time \<Rightarrow> py_error + car_route" where
  "adjusted_route c r when = and_then (traffic_factor c when) (\<lambda>f.
     Inr (r\<lparr>car_duration := py_round (of_int (car_duration r) * f), car_factor := Some f\<rparr>))"

section \<open>Car routes from OTP\<close>

definition number_of :: "json \<Rightarrow> rat" where
  \<comment> \<open>\<open>float(x or 0)\<close> of a GraphQL \<open>Float\<close>, which is a number or null\<close>
  "number_of j = (case j of JInt n \<Rightarrow> of_int n | JFloat x \<Rightarrow> x | _ \<Rightarrow> 0)"

definition edge_route :: "json \<Rightarrow> car_route option" where
  "edge_route edge = (let ls = filter (\<lambda>lg. truthy lg \<and> jfield lg ''mode'' = JStr ''CAR'') (items (jfield (jfield edge ''node'') ''legs'')) in
     if ls = [] then None else
       Some \<lparr>car_distance = py_round (sum_list (map (\<lambda>lg. number_of (jfield lg ''distance'')) ls)),
             car_duration = py_trunc (sum_list (map (\<lambda>lg. number_of (jfield lg ''duration'')) ls)),
             car_geometry = (if length ls = 1 then (case jfield (jfield (hd ls) ''legGeometry'') ''points'' of
               JStr g \<Rightarrow> if g = [] then None else Some g | _ \<Rightarrow> None) else None),
             car_factor = None\<rparr>)"

fun first_route :: "json list \<Rightarrow> car_route option" where
  "first_route [] = None"
| "first_route (e # es) = (case edge_route e of None \<Rightarrow> first_route es | Some r \<Rightarrow> Some r)"

definition route_from_otp :: "json \<Rightarrow> car_route option" where
  "route_from_otp data = first_route (items (jfield (jfield data ''planConnection'') ''edges''))"

text \<open>The cache of \<open>CarRouter\<close>: keys are rounded coordinates and a five-minute bucket, or the probe's.\<close>

datatype car_key = Probe | Ride int int int int int

definition car_key_of :: "rat \<Rightarrow> rat \<Rightarrow> rat \<Rightarrow> rat \<Rightarrow> rat \<Rightarrow> car_key" where
  \<comment> \<open>\<open>ts\<close>: the departure's timestamp\<close>
  "car_key_of fla flo tla tlo ts = Ride (py_round (fla * 10000)) (py_round (flo * 10000)) (py_round (tla * 10000)) (py_round (tlo * 10000)) \<lfloor>ts / 300\<rfloor>"

datatype car_value = Found car_route | Probed bool

type_synonym car_cache = "(car_key \<times> rat \<times> car_value) list"

definition TTL_S :: rat where "TTL_S = 30"

definition pruned :: "car_cache \<Rightarrow> car_cache" where
  \<comment> \<open>more than 500 entries: the 250 oldest go\<close>
  "pruned cache = (if 500 < length cache then fold AList.delete (map fst (take 250 (sort_key (fst \<circ> snd) cache))) cache else cache)"

definition cached_route :: "car_cache \<Rightarrow> car_key \<Rightarrow> rat \<Rightarrow> car_route option" where
  \<comment> \<open>a hit younger than the TTL; the probe's key never meets a ride's\<close>
  "cached_route cache k now = (case map_of cache k of Some (t, Found r) \<Rightarrow> if now - t < TTL_S then Some r else None | _ \<Rightarrow> None)"

definition route :: "car_key \<Rightarrow> rat \<Rightarrow> ('e + json) \<Rightarrow> car_cache \<Rightarrow> car_cache \<times> ('e + car_route option)" where
  \<comment> \<open>\<open>answer\<close>: what OTP says, if it is asked\<close>
  "route k now answer cache = (case cached_route cache k now of Some r \<Rightarrow> (cache, Inr (Some r)) | None \<Rightarrow>
     (case answer of Inl e \<Rightarrow> (cache, Inl e) | Inr data \<Rightarrow>
       case route_from_otp data of None \<Rightarrow> (cache, Inr None)
       | Some r \<Rightarrow> (pruned (AList.update k (now, Found r) cache), Inr (Some r))))"

definition probe :: "car_key \<Rightarrow> rat \<Rightarrow> ('e + json) \<Rightarrow> car_cache \<Rightarrow> car_cache \<times> bool" where
  \<comment> \<open>\<open>k\<close>: the key of the short route near the centre at this moment\<close>
  "probe k now answer cache = (let fresh = (case map_of cache Probe of Some (t, Probed ok) \<Rightarrow> if now - t < 600 then Some ok else None | _ \<Rightarrow> None) in
     case fresh of Some ok \<Rightarrow> (cache, ok) | None \<Rightarrow>
       let (cache', res) = route k now answer cache; ok = (case res of Inr (Some _) \<Rightarrow> True | _ \<Rightarrow> False)
       in (AList.update Probe (now, Probed ok) cache', ok))"

section \<open>Quotes\<close>

definition in_app :: "string \<Rightarrow> string" where
  "in_app locale = (if startswith (if locale = [] then ''es'' else locale) ''en'' then ''Price in the app'' else ''Precio en la app'')"

definition price_of :: "price_band \<Rightarrow> on_demand_price" where
  "price_of b = \<lparr>odp_amount = pb_amount b, odp_min = pb_min b, odp_max = pb_max b, odp_currency = pb_currency b,
     odp_breakdown = map (\<lambda>(l, a). \<lparr>line_label = l, line_amount = a\<rparr>) (pb_breakdown b), odp_surcharges = pb_applied b, odp_note = Some (pb_note b),
     odp_tariff_id = Some (pb_tariff b)\<rparr>"

record ride_ask =
  ra_distance :: rat
  ra_duration :: rat
  ra_when :: local_time
  ra_from :: "rat option \<times> rat option"
  ra_to :: "rat option \<times> rat option"
  ra_from_name :: "string option"
  ra_to_name :: "string option"
  ra_optional :: "string list"
  ra_locale :: string

definition quote_provider :: "(int \<Rightarrow> bool) \<Rightarrow> city \<Rightarrow> od_provider \<Rightarrow> ride_ask \<Rightarrow> py_error + on_demand_quote" where
  "quote_provider holiday c p a = (let t = (if oe_kind (op_estimate p) = ''tariff'' then taxi_tariff c (oe_tariff (op_estimate p)) else None) in
     and_then (case t of None \<Rightarrow> Inr None
       | Some t \<Rightarrow> and_then (estimate (meter t) (ra_distance a) (ra_duration a) (ra_when a) holiday [ra_from a, ra_to a] (ra_optional a) (ra_locale a))
           (\<lambda>b. Inr (Some (price_of b))))
     (\<lambda>price. Inr \<lparr>provider_id = op_id p, quote_name = op_name p, quote_kind = op_kind p, quote_price = price,
        quote_source = (if t = None then ''none'' else ''tariff''),
        price_label = (if price = None then Some (in_app (ra_locale a)) else None), handoff_url = None\<rparr>))"

definition known_ends :: "ride_ask \<Rightarrow> py_error + ride_ends" where
  \<comment> \<open>formatting a missing coordinate raises\<close>
  "known_ends a = (case (ra_from a, ra_to a) of
     ((Some fla, Some flo), (Some tla, Some tlo)) \<Rightarrow> Inr \<lparr>re_from_lat = fla, re_from_lon = flo, re_to_lat = tla, re_to_lon = tlo,
        re_from_name = ra_from_name a, re_to_name = ra_to_name a\<rparr>
   | _ \<Rightarrow> Inl TypeError)"

definition full_quote :: "(int \<Rightarrow> bool) \<Rightarrow> string \<Rightarrow> city \<Rightarrow> ride_ask \<Rightarrow> od_provider \<Rightarrow> py_error + on_demand_quote" where
  "full_quote holiday base_url c a p = and_then (quote_provider holiday c p a) (\<lambda>q. and_then (known_ends a) (\<lambda>e.
     Inr (q\<lparr>handoff_url := Some (handoff_api_url base_url (ci_id c) (op_id p) e)\<rparr>)))"

definition quotes_for :: "(int \<Rightarrow> bool) \<Rightarrow> string \<Rightarrow> city \<Rightarrow> string list \<Rightarrow> ride_ask \<Rightarrow> py_error + on_demand_quote list" where
  \<comment> \<open>\<open>ids\<close>: the providers wanted, all of them when empty\<close>
  "quotes_for holiday base_url c ids a =
     traverse (full_quote holiday base_url c a) (filter (\<lambda>p. ids = [] \<or> op_id p \<in> set ids) (on_demand_providers c))"

definition recommended :: "on_demand_quote list \<Rightarrow> string option" where
  "recommended qs = (case min_by (\<lambda>q. odp_amount (the (quote_price q))) (filter (\<lambda>q. quote_price q \<noteq> None) qs) of
     Some q \<Rightarrow> Some (provider_id q) | None \<Rightarrow> (case qs of [] \<Rightarrow> None | q # _ \<Rightarrow> Some (provider_id q)))"

definition ride_kind :: "on_demand_quote list \<Rightarrow> string" where
  "ride_kind qs = (let kinds = remdups (map quote_kind qs) in
     if kinds = [''taxi''] then ''taxi'' else if kinds = [''ridehail''] then ''ridehail'' else ''mixed'')"

section \<open>Stretching a car leg\<close>

definition parse_iso :: "string option \<Rightarrow> (rat \<times> int option) option" where
  \<comment> \<open>\<open>_parse\<close>\<close>
  "parse_iso s = (if truthy_str s then iso_local (the s) else None)"

definition shift :: "string option \<Rightarrow> int \<Rightarrow> string option" where
  "shift s n = (case parse_iso s of None \<Rightarrow> s | Some (t, off) \<Rightarrow> Some (iso_show (t + of_int n, off)))"

definition shift_leg :: "int \<Rightarrow> leg \<Rightarrow> leg" where
  "shift_leg n lg = lg\<lparr>leg_start := shift (leg_start lg) n, leg_end := shift (leg_end lg) n\<rparr>"

definition stretch_delta :: "leg \<Rightarrow> rat \<Rightarrow> int" where
  "stretch_delta lg f = (let base = or_else (leg_duration lg) 0 in py_round (of_int base * f) - base)"

definition stretch_car_leg :: "itinerary \<Rightarrow> nat \<Rightarrow> rat \<Rightarrow> itinerary" where
  "stretch_car_leg it idx f = (let lg = legs it ! idx; delta = stretch_delta lg f; before = take idx (legs it); after = drop (Suc idx) (legs it) in
     if delta \<le> 0 then it else
     let lg = lg\<lparr>leg_duration := Some (or_else (leg_duration lg) 0 + delta), duration_factor := Some f\<rparr>;
         it = it\<lparr>it_duration := Some (or_else (it_duration it) 0 + delta)\<rparr> in
     if list_ex transit after
     then it\<lparr>legs := map (shift_leg (- delta)) before @ lg\<lparr>leg_start := shift (leg_start lg) (- delta)\<rparr> # after,
             it_start := shift (it_start it) (- delta)\<rparr>
     else it\<lparr>legs := before @ lg\<lparr>leg_end := shift (leg_end lg) delta\<rparr> # map (shift_leg delta) after,
             it_end := shift (it_end it) delta\<rparr>)"

section \<open>Decorating a plan\<close>

record plan_env =
  pv_holiday :: "int \<Rightarrow> bool"
  pv_when :: local_time
  pv_base_url :: string
  pv_locale :: string
  pv_show_float :: "rat \<Rightarrow> string"

definition fares_config_of :: "city \<Rightarrow> fares_config option" where
  "fares_config_of c = map_option (\<lambda>f. \<lparr>fc_currency = fa_currency f, fc_base = fa_base f, fc_transfer = fa_transfer f,
     fc_window_minutes = fa_window f, fc_max_transfers = fa_max f\<rparr>) (ci_fares c)"

definition charges_per_minute :: "city \<Rightarrow> string \<Rightarrow> bool" where
  "charges_per_minute c network = (case bike_network_of c (Some network) of None \<Rightarrow> False | Some n \<Rightarrow> bk_per_minute n \<noteq> None)"

definition ask_of :: "plan_env \<Rightarrow> local_time \<Rightarrow> leg \<Rightarrow> ride_ask" where
  "ask_of v start lg = \<lparr>ra_distance = or_else (leg_distance lg) 0, ra_duration = of_int (or_else (leg_duration lg) 0), ra_when = start,
     ra_from = (place_lat (leg_origin lg), place_lon (leg_origin lg)), ra_to = (place_lat (leg_dest lg), place_lon (leg_dest lg)),
     ra_from_name = place_name (leg_origin lg), ra_to_name = place_name (leg_dest lg), ra_optional = [], ra_locale = pv_locale v\<rparr>"

definition attach_leg :: "plan_env \<Rightarrow> city \<Rightarrow> nat \<Rightarrow> itinerary \<Rightarrow> py_error + itinerary" where
  \<comment> \<open>the loop body for a car leg\<close>
  "attach_leg v c idx it = (let start = (case parse_iso (leg_start (legs it ! idx)) of Some (t, _) \<Rightarrow> clock_of t | None \<Rightarrow> pv_when v) in
     and_then (traffic_factor c start) (\<lambda>f.
     let it = stretch_car_leg it idx f; lg = legs it ! idx in
     and_then (quotes_for (pv_holiday v) (pv_base_url v) c [] (ask_of v start lg)) (\<lambda>qs.
     Inr (it\<lparr>legs := (legs it)[idx := lg\<lparr>leg_on_demand := Some \<lparr>od_kind = ride_kind qs, od_providers = qs, od_recommended = recommended qs\<rparr>\<rparr>]\<rparr>))))"

fun attach_legs :: "plan_env \<Rightarrow> city \<Rightarrow> nat list \<Rightarrow> itinerary \<Rightarrow> py_error + itinerary" where
  "attach_legs v c [] it = Inr it"
| "attach_legs v c (i # ns) it = (if is_ondemand_leg (legs it ! i) then and_then (attach_leg v c i it) (attach_legs v c ns) else attach_legs v c ns it)"

definition attach_itinerary :: "plan_env \<Rightarrow> city \<Rightarrow> itinerary \<Rightarrow> py_error + itinerary" where
  "attach_itinerary v c it = (if filter is_ondemand_leg (legs it) = [] then Inr it else
     and_then (attach_legs v c [0..<length (legs it)] it) (\<lambda>it.
     Inr (it\<lparr>modes_used := map (\<lambda>m. if m = ''CAR'' then ''CAR_ONDEMAND'' else m) (modes_used it),
       it_fare := estimate_fare (charges_per_minute c) (pv_show_float v) (fares_config_of c) (legs it) (pv_locale v) None\<rparr>)))"

definition attach_to_plan :: "plan_env \<Rightarrow> city \<Rightarrow> itinerary list \<Rightarrow> py_error + itinerary list" where
  "attach_to_plan v c its = traverse (attach_itinerary v c) its"

section \<open>The estimate handler\<close>

definition wanted_options :: "string option \<Rightarrow> string list" where
  "wanted_options s = filter (\<lambda>w. w \<noteq> []) (map strip (split_on CHR '','' (or_else s [])))"

record estimate_answer =
  ea_route :: car_route
  ea_quotes :: "on_demand_quote list"

definition estimate_handler :: "(int \<Rightarrow> bool) \<Rightarrow> string \<Rightarrow> city \<Rightarrow> string option \<Rightarrow> ride_ask \<Rightarrow> rat \<Rightarrow> car_key \<Rightarrow> (raised + json) \<Rightarrow> car_cache
    \<Rightarrow> car_cache \<times> (raised + estimate_answer)" where
  \<comment> \<open>\<open>GET /ondemand/estimate\<close>; the ask holds the moment and the ends, the ride itself comes from the route\<close>
  "estimate_handler holiday base_url c provider a now k answer cache = (if \<not> on_demand_enabled c then (cache, Inl (Api (ondemand_disabled c)))
     else if truthy_str provider \<and> on_demand_provider c provider = None then (cache, Inl (Api (provider_not_found (the provider))))
     else case route k now answer cache of
       (cache', Inl e) \<Rightarrow> (cache', Inl e)
     | (cache', Inr None) \<Rightarrow> (cache', Inl (Api (raise_error 404 ''NO_ROUTE'' ''no car route found between these points'' None None)))
     | (cache', Inr (Some r)) \<Rightarrow> (cache',
         case and_then (adjusted_route c r (ra_when a)) (\<lambda>r. and_then
            (quotes_for holiday base_url c (if truthy_str provider then [the provider] else [])
              (a\<lparr>ra_distance := of_int (car_distance r), ra_duration := of_int (car_duration r)\<rparr>))
            (\<lambda>qs. Inr \<lparr>ea_route = r, ea_quotes = qs\<rparr>)) of
           Inl e \<Rightarrow> Inl (Uncaught e) | Inr x \<Rightarrow> Inr x))"

section \<open>Timelines\<close>

lemma parse_shift:
  assumes "parse_iso s = Some (of_int t, off)" "86400 \<le> t + n" "(t + n) div 86400 \<le> 3652059" "whole_offset off"
  shows "parse_iso (shift s n) = Some (of_int (t + n), off)"
proof -
  have r: "iso_local (iso_show (of_int (t + n), off)) = Some (of_int (t + n), off)" by (rule iso_roundtrip[OF assms(2-4)])
  then have "iso_show (of_int (t + n), off) \<noteq> []" by (auto simp: iso_local_def parse_date_def)
  then show ?thesis using assms(1) r by (simp add: shift_def parse_iso_def truthy_str_def)
qed

lemma shift_leg_kept [simp]: "transit (shift_leg n lg) = transit lg" "leg_mode (shift_leg n lg) = leg_mode lg" "leg_rental (shift_leg n lg) = leg_rental lg"
  "park_ride (shift_leg n lg) = park_ride lg" "leg_on_demand (shift_leg n lg) = leg_on_demand lg"
  by (simp_all add: shift_leg_def)

lemma stretch_length [simp]: "idx < length (legs it) \<Longrightarrow> length (legs (stretch_car_leg it idx f)) = length (legs it)"
  by (simp add: stretch_car_leg_def Let_def) linarith

lemma filter_none: "\<not> list_ex P xs \<Longrightarrow> filter P xs = []"
  by (simp add: list_ex_iff filter_empty_conv)

lemma filter_map_shift: "\<not> list_ex transit xs \<Longrightarrow> filter transit (map (shift_leg n) xs) = []"
  by (simp add: list_ex_iff filter_empty_conv)

lemma id_take_at_drop: "i < length xs \<Longrightarrow> filter P xs = filter P (take i xs) @ filter P [xs ! i] @ filter P (drop (Suc i) xs)"
  by (metis append_Cons append_Nil filter_append id_take_nth_drop)


text \<open>C10: A ride between two transit legs breaks the timetable: the legs before it are all moved earlier by the
  extra seconds, so the bus the traveller takes first is shown leaving before it does.\<close>
theorem stretch_moves_an_earlier_bus:
  assumes "idx < length (legs it)" "i < idx" "transit (legs it ! i)" "list_ex transit (drop (Suc idx) (legs it))"
    "0 < stretch_delta (legs it ! idx) f" "parse_iso (leg_start (legs it ! i)) = Some (of_int t, off)" "whole_offset off"
    "86400 \<le> t - stretch_delta (legs it ! idx) f" "(t - stretch_delta (legs it ! idx) f) div 86400 \<le> 3652059"
  shows "transit (legs (stretch_car_leg it idx f) ! i)
    \<and> parse_iso (leg_start (legs (stretch_car_leg it idx f) ! i)) = Some (of_int (t - stretch_delta (legs it ! idx) f), off)"
proof -
  have "legs (stretch_car_leg it idx f) ! i = shift_leg (- stretch_delta (legs it ! idx) f) (legs it ! i)"
    using assms by (simp add: stretch_car_leg_def Let_def nth_append)
  then show ?thesis
    using parse_shift[OF assms(6), of "- stretch_delta (legs it ! idx) f"] assms by (simp add: shift_leg_def)
qed

section \<open>Quotes\<close>

lemma quote_fields:
  "full_quote holiday base_url c a p = Inr q \<Longrightarrow> provider_id q = op_id p \<and> quote_kind q = op_kind p \<and> (quote_price q = None \<longleftrightarrow> price_label q \<noteq> None)"
  by (auto simp: full_quote_def quote_provider_def Let_def and_then_def split: sum.splits option.splits)

text \<open>What a traveller is offered: one quote for every enabled provider asked for, in the city's order; a quote
  has a price or the label that says where the price is; the recommended provider is one of them and no
  priced one is cheaper.\<close>
theorem quotes_are_the_citys_providers:
  assumes "quotes_for holiday base_url c ids a = Inr qs"
  shows "map provider_id qs = map op_id (filter (\<lambda>p. ids = [] \<or> op_id p \<in> set ids) (on_demand_providers c))
    \<and> list_all (\<lambda>q. quote_price q = None \<longleftrightarrow> price_label q \<noteq> None) qs
    \<and> (recommended qs = None \<longleftrightarrow> qs = [])
    \<and> list_all (\<lambda>q. quote_price q = None \<or> (\<exists>r \<in> set qs. recommended qs = Some (provider_id r) \<and> quote_price r \<noteq> None
          \<and> odp_amount (the (quote_price r)) \<le> odp_amount (the (quote_price q)))) qs"
proof -
  let ?ps = "filter (\<lambda>p. ids = [] \<or> op_id p \<in> set ids) (on_demand_providers c)"
  have all: "list_all2 (\<lambda>p q. full_quote holiday base_url c a p = Inr q) ?ps qs"
    using assms by (simp add: quotes_for_def traverse_Inr)
  then have "list_all2 (\<lambda>p q. provider_id q = op_id p \<and> (quote_price q = None \<longleftrightarrow> price_label q \<noteq> None)) ?ps qs"
    by (rule list_all2_mono) (use quote_fields in blast)
  then have ids: "map provider_id qs = map op_id ?ps" and lbl: "\<forall>q \<in> set qs. quote_price q = None \<longleftrightarrow> price_label q \<noteq> None"
    by (induction rule: list_all2_induct) auto
  let ?amount = "\<lambda>q. odp_amount (the (quote_price q))" and ?priced = "filter (\<lambda>q. quote_price q \<noteq> None) qs"
  have none: "recommended qs = None \<longleftrightarrow> qs = []"
    by (cases qs) (auto simp: recommended_def split: option.splits)
  have "\<exists>r \<in> set qs. recommended qs = Some (provider_id r) \<and> quote_price r \<noteq> None \<and> ?amount r \<le> ?amount q" if q: "q \<in> set qs" "quote_price q \<noteq> None" for q
  proof -
    obtain r where "min_by ?amount ?priced = Some r" using q min_by_None[of ?amount ?priced] by (cases "min_by ?amount ?priced") (auto simp: filter_empty_conv)
    moreover from min_by_in[OF this] min_by_le[OF this, of q] q have "r \<in> set ?priced" "?amount r \<le> ?amount q" by auto
    ultimately show ?thesis by (auto simp: recommended_def)
  qed
  then show ?thesis using ids lbl none by (auto simp: list_all_iff)
qed

section \<open>The cache of car routes\<close>

inductive car_reach :: "(car_key \<times> rat \<times> json) list \<Rightarrow> car_cache \<Rightarrow> bool" where
  \<comment> \<open>with the answers OTP has given\<close>
  empty: "car_reach [] []"
| asked: "car_reach given cache \<Longrightarrow> cached_route cache k now = None \<Longrightarrow> car_reach ((k, now, data) # given) (fst (route k now (Inr data :: raised + json) cache))"
| other: "car_reach given cache \<Longrightarrow> cached_route cache k now \<noteq> None \<or> answer = Inl e \<Longrightarrow> car_reach given (fst (route k now (answer :: raised + json) cache))"
| probed: "car_reach given cache \<Longrightarrow> car_reach given (AList.update Probe (now, Probed ok) cache)"

definition car_ok :: "(car_key \<times> rat \<times> json) list \<Rightarrow> car_cache \<Rightarrow> bool" where
  "car_ok given cache \<longleftrightarrow> distinct (map fst cache) \<and> length (filter (\<lambda>e. fst e \<noteq> Probe) cache) \<le> 500
     \<and> (\<forall>k t r. map_of cache k = Some (t, Found r) \<longrightarrow> (\<exists>data. (k, t, data) \<in> set given \<and> route_from_otp data = Some r))"

lemma delete_length: "distinct (map fst xs) \<Longrightarrow> k \<in> fst ` set xs \<Longrightarrow> Suc (length (AList.delete k xs)) = length xs"
  by (induction xs) auto

lemma deletes_sub: "map_of (fold AList.delete ks xs) k = Some v \<Longrightarrow> map_of xs k = Some v"
proof (induction ks arbitrary: xs)
  case (Cons a ks)
  from Cons.IH[of "AList.delete a xs"] Cons.prems have "map_of (AList.delete a xs) k = Some v" by simp
  then show ?case by (simp add: delete_conv' split: if_splits)
qed simp

lemma deletes_distinct: "distinct (map fst xs) \<Longrightarrow> distinct (map fst (fold AList.delete ks xs))"
  by (induction ks arbitrary: xs) (simp_all add: distinct_delete)

lemma deletes_length:
  "distinct (map fst xs) \<Longrightarrow> distinct ks \<Longrightarrow> set ks \<subseteq> fst ` set xs \<Longrightarrow> length (fold AList.delete ks xs) + length ks = length xs"
proof (induction ks arbitrary: xs)
  case (Cons k ks)
  have "fst ` set (AList.delete k xs) = fst ` set xs - {k}" by (metis delete_keys list.set_map set_removeAll)
  then have "set ks \<subseteq> fst ` set (AList.delete k xs)" using Cons.prems by auto
  then have "length (fold AList.delete ks (AList.delete k xs)) + length ks = length (AList.delete k xs)"
    using Cons.prems by (intro Cons.IH) (simp_all add: distinct_delete)
  then show ?case using delete_length[of xs k] Cons.prems by simp
qed simp

lemma one_probe: "distinct (map fst cache) \<Longrightarrow> length cache \<le> Suc (length (filter (\<lambda>e. fst e \<noteq> Probe) cache))"
proof (induction cache)
  case (Cons e cache)
  have "filter (\<lambda>e. fst e \<noteq> Probe) cache = cache" if "fst e = Probe"
    using that Cons.prems by (intro filter_True) force
  then show ?case using Cons by (cases "fst e = Probe") auto
qed simp

lemma pruned_small:
  assumes "distinct (map fst cache)" "length cache \<le> 502"
  shows "length (filter P (pruned cache)) \<le> 500"
proof (cases "500 < length cache")
  case True
  let ?ks = "map fst (take 250 (sort_key (fst \<circ> snd) cache))"
  have "mset (map fst (sort_key (fst \<circ> snd) cache)) = mset (map fst cache)" by simp
  then have "distinct (map fst (sort_key (fst \<circ> snd) cache))" using assms(1) mset_eq_imp_distinct_iff by blast
  then have "distinct ?ks" by (simp add: take_map[symmetric])
  moreover have "set ?ks \<subseteq> fst ` set cache" using set_take_subset[of 250 "sort_key (fst \<circ> snd) cache"] by auto
  ultimately have "length (fold AList.delete ?ks cache) + length ?ks = length cache" by (rule deletes_length[OF assms(1)])
  moreover have "length ?ks = 250" using True by simp
  ultimately have "length (pruned cache) \<le> 500" using True assms(2) by (simp add: pruned_def)
  then show ?thesis using length_filter_le le_trans by blast
next
  case False
  then show ?thesis by (simp add: pruned_def) (meson length_filter_le le_trans not_less)
qed

lemma update_count: "length (filter (\<lambda>e. P (fst e)) (AList.update k v xs)) \<le> Suc (length (filter (\<lambda>e. P (fst e)) xs))"
  by (induction xs) auto

lemma update_same: "\<not> P k \<Longrightarrow> length (filter (\<lambda>e. P (fst e)) (AList.update k v xs)) = length (filter (\<lambda>e. P (fst e)) xs)"
  by (induction xs) auto

lemma car_ok_more: "car_ok given cache \<Longrightarrow> car_ok (x # given) cache"
  unfolding car_ok_def list.set(2) by blast

lemma car_reach_ok: "car_reach given cache \<Longrightarrow> car_ok given cache"
proof (induction rule: car_reach.induct)
  case (asked given cache k now data)
  show ?case
  proof (cases "route_from_otp data")
    case None
    then have "fst (route k now (Inr data :: raised + json) cache) = cache" using asked by (simp add: route_def)
    then show ?thesis using car_ok_more asked by metis
  next
    case (Some r)
    let ?c = "AList.update k (now, Found r) cache"
    have d: "distinct (map fst ?c)" using asked.IH by (simp add: car_ok_def distinct_update)
    moreover have "length ?c \<le> 502"
      using one_probe[OF d] update_count[of "\<lambda>k. k \<noteq> Probe" k "(now, Found r)" cache] asked.IH by (simp add: car_ok_def)
    ultimately have "length (filter (\<lambda>e. fst e \<noteq> Probe) (pruned ?c)) \<le> 500" by (rule pruned_small)
    moreover have "distinct (map fst (pruned ?c))" using deletes_distinct[OF d] d by (simp add: pruned_def)
    moreover have "\<exists>d. (k', t, d) \<in> set ((k, now, data) # given) \<and> route_from_otp d = Some x" if "map_of (pruned ?c) k' = Some (t, Found x)" for k' t x
    proof -
      have "map_of ?c k' = Some (t, Found x)" using that deletes_sub by (auto simp: pruned_def split: if_splits)
      then show ?thesis using asked.IH Some by (fastforce simp: car_ok_def update_conv' split: if_splits)
    qed
    ultimately show ?thesis using asked Some by (simp add: car_ok_def route_def)
  qed
next
  case (other given cache k now answer e)
  then show ?case by (auto simp: route_def split: option.splits)
next
  case (probed given cache now ok)
  then show ?case using update_same[of "\<lambda>k. k \<noteq> Probe" Probe "(now, Probed ok)" cache]
    by (auto simp: car_ok_def distinct_update update_conv' split: if_splits)
qed (simp add: car_ok_def)

text \<open>The cache of car routes, whatever rides are asked for and whenever the probe runs: it never holds more
  than 501 entries, each key once; and a route it serves is the one OTP gave for the same rounded ends and
  five-minute bucket less than 30 seconds before.\<close>
theorem car_cache_is_sound:
  assumes "car_reach given cache"
  shows "length cache \<le> 501 \<and> distinct (map fst cache)
    \<and> (\<forall>k now r. cached_route cache k now = Some r \<longrightarrow> (\<exists>t data. (k, t, data) \<in> set given \<and> now - t < 30 \<and> route_from_otp data = Some r))"
proof -
  have ok: "car_ok given cache" by (rule car_reach_ok[OF assms])
  then have "length cache \<le> 501" using one_probe[of cache] by (simp add: car_ok_def)
  moreover have "\<exists>t data. (k, t, data) \<in> set given \<and> now - t < 30 \<and> route_from_otp data = Some r" if "cached_route cache k now = Some r" for k now r
    using that ok by (fastforce simp: cached_route_def car_ok_def TTL_S_def split: option.splits car_value.splits if_splits prod.splits)
  ultimately show ?thesis using ok by (simp add: car_ok_def)
qed

section \<open>A ride to try it on\<close>

definition demo_bus :: "string \<Rightarrow> string \<Rightarrow> leg" where
  "demo_bus a b = no_leg\<lparr>leg_mode := Some ''BUS'', transit := True, leg_start := Some a, leg_end := Some b\<rparr>"

definition demo_car :: leg where
  "demo_car = no_leg\<lparr>leg_mode := Some ''CAR'', leg_start := Some ''2026-03-02T08:00:00-05:00'', leg_end := Some ''2026-03-02T08:10:00-05:00'', leg_duration := Some 600\<rparr>"

definition demo_trip :: itinerary where
  "demo_trip = no_itinerary\<lparr>it_duration := Some 600, it_start := Some ''2026-03-02T08:00:00-05:00'', legs := [demo_car, demo_bus ''2026-03-02T08:10:00-05:00'' ''2026-03-02T08:40:00-05:00'']\<rparr>"

lemma demo_times:
  "parse_iso (Some ''2026-03-02T08:00:00-05:00'') = Some (of_int 63908121600, Some (- 18000))"
  "parse_iso (Some ''2026-03-02T07:30:00-05:00'') = Some (of_int 63908119800, Some (- 18000))"
  by (simp_all add: parse_iso_def truthy_str_def iso_local_def parse_date_def fixed_nat_def parse_nat_def is_digit_def digit_val_def month_days_def
    ordinal_def split_offset_def parse_hm_def parse_clock_def parse_seconds_def day_seconds_def Let_def upt_rec leap_def)

lemma demo_delta: "stretch_delta demo_car (3/2) = 300"
  by (simp add: stretch_delta_def demo_car_def py_round_def)


definition between_buses :: itinerary where
  "between_buses = demo_trip\<lparr>legs := demo_bus ''2026-03-02T07:30:00-05:00'' ''2026-03-02T08:00:00-05:00'' # legs demo_trip\<rparr>"

lemma stretch_moves_an_earlier_bus_witness:
  "transit (legs (stretch_car_leg between_buses 1 (3/2)) ! 0)
    \<and> parse_iso (leg_start (legs (stretch_car_leg between_buses 1 (3/2)) ! 0)) = Some (of_int (63908119800 - 300), Some (- 18000))
    \<and> leg_start (legs between_buses ! 0) = Some ''2026-03-02T07:30:00-05:00''"
proof -
  have l: "1 < length (legs between_buses)" "transit (legs between_buses ! 0)" "list_ex transit (drop (Suc 1) (legs between_buses))"
    "leg_start (legs between_buses ! 0) = Some ''2026-03-02T07:30:00-05:00''" "legs between_buses ! 1 = demo_car"
    by (simp_all add: between_buses_def demo_trip_def demo_bus_def no_leg_def)
  show ?thesis using stretch_moves_an_earlier_bus[of 1 between_buses 0 "3/2" 63908119800 "Some (- 18000)"] l demo_times(2) by (simp add: demo_delta whole_offset_def)
qed

definition demo_answer :: json where
  "demo_answer = JObj [(''planConnection'', JObj [(''edges'', JArr [JObj [(''node'', JObj [(''legs'', JArr [JObj [(''mode'', JStr ''CAR''),
     (''distance'', JFloat 1500), (''duration'', JFloat 240)]])])]])])]"

lemma car_cache_is_sound_witness:
  "\<exists>cache. length cache = 1 \<and> length cache \<le> 501 \<and> cached_route cache (Ride 1 2 3 4 5) 29 \<noteq> None \<and> cached_route cache (Ride 1 2 3 4 5) 31 = None"
proof -
  let ?c = "fst (route (Ride 1 2 3 4 5) 0 (Inr demo_answer :: raised + json) [])"
  have "car_reach [(Ride 1 2 3 4 5, 0, demo_answer)] ?c" by (intro car_reach.intros) (simp add: cached_route_def)
  moreover have "length ?c = 1" "cached_route ?c (Ride 1 2 3 4 5) 29 \<noteq> None" "cached_route ?c (Ride 1 2 3 4 5) 31 = None"
    by (simp_all add: route_def cached_route_def demo_answer_def route_from_otp_def edge_route_def Let_def pruned_def TTL_S_def items_def)
  ultimately show ?thesis using car_cache_is_sound by blast
qed

definition demo_ask :: ride_ask where
  "demo_ask = \<lparr>ra_distance = 1500, ra_duration = 240, ra_when = \<lparr>lt_day = 739677, lt_sec = 28800\<rparr>, ra_from = (Some 4, Some (-74)), ra_to = (Some 5, Some (-74)),
     ra_from_name = None, ra_to_name = None, ra_optional = [], ra_locale = ''es''\<rparr>"

definition one_provider :: city where
  "one_provider = demo_city\<lparr>ci_mobility := (ci_mobility demo_city)\<lparr>mo_on_demand := [demo_provider]\<rparr>\<rparr>"

lemma quotes_are_the_citys_providers_witness:
  "\<exists>q. quotes_for (\<lambda>_. False) [] one_provider [] demo_ask = Inr [q] \<and> provider_id q = ''uno'' \<and> recommended [q] = Some ''uno''"
proof -
  have ps: "on_demand_providers one_provider = [demo_provider]"
    by (simp add: on_demand_providers_def one_provider_def) (simp add: demo_provider_def)
  have "oe_kind (op_estimate demo_provider) = ''none''" by (simp add: demo_provider_def)
  then obtain q where "full_quote (\<lambda>_. False) [] one_provider demo_ask demo_provider = Inr q"
    by (simp add: full_quote_def quote_provider_def known_ends_def demo_ask_def)
  then have q: "quotes_for (\<lambda>_. False) [] one_provider [] demo_ask = Inr [q]" by (simp add: quotes_for_def ps)
  from quotes_are_the_citys_providers[OF q] have "provider_id q = ''uno''" by (simp add: ps) (simp add: demo_provider_def)
  moreover have "recommended [q] = Some (provider_id q)" by (simp add: recommended_def)
  ultimately show ?thesis using q by auto
qed

end
