(* ===== verification/Oidc.thy ===== *)
theory Oidc
  imports Handoff Admin_Auth
begin

text \<open>
  Sign-in with Google or Microsoft (\<open>app/oidc.py\<close>): which providers are on, the single-use states and both
  their stores, the provider's documents with their caches, both legs of the flow and the checks on the
  id_token.  PyJWT and the network are arguments (\<open>jwt_lib\<close>, \<open>net\<close>); what the code relies on of PyJWT's
  documentation is \<open>pyjwt\<close>.  Instants are integers, the monotonic clock is \<open>tick\<close>.
\<close>

section \<open>Configuration\<close>

record oidc_settings =
  oc_google_id :: "string option"
  oc_google_secret :: "string option"
  oc_microsoft_id :: "string option"
  oc_microsoft_secret :: "string option"
  oc_tenant :: "string option"
  oc_allowed :: "string option"
  oc_redirect_base :: "string option"
  oc_web_base :: "string option"
  oc_insecure :: bool

record provider =
  pv_id :: string
  pv_label :: string
  pv_client :: string
  pv_secret :: string
  pv_discovery :: string
  pv_scopes :: string
  pv_tenants :: "string list"

definition GOOGLE :: string where "GOOGLE = ''google''"
definition MICROSOFT :: string where "MICROSOFT = ''microsoft''"
definition GOOGLE_DISCOVERY :: string where "GOOGLE_DISCOVERY = ''https://accounts.google.com/.well-known/openid-configuration''"
definition GOOGLE_ISSUERS :: "string list" where "GOOGLE_ISSUERS = [''https://accounts.google.com'', ''accounts.google.com'']"
definition SCOPES :: string where "SCOPES = ''openid email profile''"

definition split_csv :: "string option \<Rightarrow> string list" where
  "split_csv csv = filter (\<lambda>s. s \<noteq> []) (map strip (split_on CHR '','' (or_else csv [])))"

definition is_guid :: "string \<Rightarrow> bool" where
  "is_guid s \<longleftrightarrow> map length (split_on CHR ''-'' s) = [8, 4, 4, 4, 12] \<and> list_all (\<lambda>c. is_hex c \<or> c = CHR ''-'') s"

definition allowed_tenants :: "oidc_settings \<Rightarrow> string \<Rightarrow> string list" where
  "allowed_tenants cfg tenant = map lower (split_csv (oc_allowed cfg)) @ (if is_guid tenant then [lower tenant] else [])"

definition configured_providers :: "oidc_settings \<Rightarrow> provider list" where
  \<comment> \<open>a half-configured provider is off, and so is Microsoft without a tenant allowlist\<close>
  "configured_providers cfg = (let stripped = (\<lambda>s. strip (or_else s []));
       gid = stripped (oc_google_id cfg); gs = stripped (oc_google_secret cfg);
       mid = stripped (oc_microsoft_id cfg); ms = stripped (oc_microsoft_secret cfg);
       tenant = stripped (oc_tenant cfg); tenants = allowed_tenants cfg tenant in
     (if gid \<noteq> [] \<and> gs \<noteq> [] then [\<lparr>pv_id = GOOGLE, pv_label = ''Google'', pv_client = gid, pv_secret = gs, pv_discovery = GOOGLE_DISCOVERY,
        pv_scopes = SCOPES, pv_tenants = []\<rparr>] else [])
     @ (if mid \<noteq> [] \<and> ms \<noteq> [] \<and> tenant \<noteq> [] \<and> tenants \<noteq> [] then [\<lparr>pv_id = MICROSOFT, pv_label = ''Microsoft'', pv_client = mid, pv_secret = ms,
        pv_discovery = ''https://login.microsoftonline.com/'' @ tenant @ ''/v2.0/.well-known/openid-configuration'', pv_scopes = SCOPES,
        pv_tenants = tenants\<rparr>] else []))"

definition unavailable :: "string \<Rightarrow> raised" where
  "unavailable m = Api (raise_error 500 [] m (Some ''UNAVAILABLE'') (Some 503))"

definition redirect_uri_for :: "oidc_settings \<Rightarrow> string \<Rightarrow> raised + string" where
  "redirect_uri_for cfg provider = (let base = rstrip_slash (strip (or_else (str_or (oc_redirect_base cfg) (oc_web_base cfg)) [])) in
     if base = [] then Inl (unavailable ''provider sign-in needs OIDC_REDIRECT_BASE (the web client's public URL)'')
     else if \<not> startswith base ''https://'' \<and> \<not> oc_insecure cfg then Inl (unavailable ''OIDC_REDIRECT_BASE must be https (set OIDC_ALLOW_INSECURE_HTTP=1 for localhost)'')
     else Inr (base @ ''/admin/auth/callback/'' @ provider))"

section \<open>States\<close>

record oidc_state =
  os_browser :: string
  os_provider :: string
  os_verifier :: string
  os_nonce :: string
  os_redirect :: string
  os_expires :: int

record 's state_ops =
  so_create :: "string \<Rightarrow> oidc_state \<Rightarrow> 's \<Rightarrow> raised + 's"
  so_take :: "string \<Rightarrow> int \<Rightarrow> 's \<Rightarrow> 's \<times> oidc_state option"
  so_drop :: "int \<Rightarrow> 's \<Rightarrow> 's \<times> nat"

definition live :: "int \<Rightarrow> oidc_state option \<Rightarrow> oidc_state option" where
  "live now r = (case r of None \<Rightarrow> None | Some x \<Rightarrow> if os_expires x \<le> now then None else Some x)"

locale oidc_states =
  fixes ops :: "'s state_ops" and held :: "'s \<Rightarrow> string \<rightharpoonup> oidc_state" and ok :: "'s \<Rightarrow> bool"
  assumes create_new: "ok s \<Longrightarrow> held s h = None \<Longrightarrow> \<exists>s'. so_create ops h r s = Inr s' \<and> ok s' \<and> held s' = (held s)(h \<mapsto> r)"
    and create_frame: "ok s \<Longrightarrow> so_create ops h r s = Inr s' \<Longrightarrow> ok s' \<and> (\<forall>k. k \<noteq> h \<longrightarrow> held s' k = held s k)"
    and take_ok: "ok s \<Longrightarrow> ok (fst (so_take ops h now s))"
    and take_gone: "ok s \<Longrightarrow> held (fst (so_take ops h now s)) = (held s)(h := None)"
    and take_told: "ok s \<Longrightarrow> snd (so_take ops h now s) = live now (held s h)"
    and drop_ok: "ok s \<Longrightarrow> ok (fst (so_drop ops now s))"
    and drop_held: "ok s \<Longrightarrow> held (fst (so_drop ops now s)) = (\<lambda>h. live now (held s h))"

type_synonym state_rows = "(string \<times> oidc_state) list"

definition pg_create_state :: "string \<Rightarrow> oidc_state \<Rightarrow> state_rows \<Rightarrow> raised + state_rows" where
  \<comment> \<open>\<open>state_hash\<close> is the primary key\<close>
  "pg_create_state h r s = (if map_of s h \<noteq> None then Inl (Database UniqueViolation) else Inr (s @ [(h, r)]))"

definition pg_take_state :: "string \<Rightarrow> int \<Rightarrow> state_rows \<Rightarrow> state_rows \<times> oidc_state option" where
  \<comment> \<open>\<open>DELETE ... RETURNING\<close>\<close>
  "pg_take_state h now s = (filter (\<lambda>(k, r). k \<noteq> h) s, live now (map_of s h))"

definition pg_drop_states :: "int \<Rightarrow> state_rows \<Rightarrow> state_rows \<times> nat" where
  "pg_drop_states now s = (let keep = filter (\<lambda>(k, r). now < os_expires r) s in (keep, length s - length keep))"

definition pg_states :: "state_rows state_ops" where
  "pg_states = \<lparr>so_create = pg_create_state, so_take = pg_take_state, so_drop = pg_drop_states\<rparr>"

definition mem_create_state :: "string \<Rightarrow> oidc_state \<Rightarrow> state_rows \<Rightarrow> raised + state_rows" where
  "mem_create_state h r s = Inr (AList.update h r s)"

definition mem_take_state :: "string \<Rightarrow> int \<Rightarrow> state_rows \<Rightarrow> state_rows \<times> oidc_state option" where
  \<comment> \<open>\<open>pop\<close>\<close>
  "mem_take_state h now s = (AList.delete h s, live now (map_of s h))"

definition mem_drop_states :: "int \<Rightarrow> state_rows \<Rightarrow> state_rows \<times> nat" where
  "mem_drop_states now s = (let keep = filter (\<lambda>(k, r). now < os_expires r) s in (keep, length s - length keep))"

definition mem_states :: "state_rows state_ops" where
  "mem_states = \<lparr>so_create = mem_create_state, so_take = mem_take_state, so_drop = mem_drop_states\<rparr>"

section \<open>The library and the network\<close>

datatype jwt_failure = Expired | BadAudience | BadIssuer | MissingClaim | BadSignature | OtherJwt

datatype flow_error = Refused raised | JwtRaised | NetworkRaised

type_synonym 'a flow = "flow_error + 'a"

record jwt_lib =
  jl_header :: "string \<Rightarrow> (string \<times> string option) option"
  jl_payload :: "string \<Rightarrow> json option"
  jl_rsa :: "json \<Rightarrow> bool"
  jl_decode :: "string \<Rightarrow> json \<Rightarrow> string \<Rightarrow> string \<Rightarrow> int \<Rightarrow> jwt_failure + json"
  jl_repr :: "json \<Rightarrow> string"

record net =
  nt_get :: "string \<Rightarrow> flow_error + json"
  nt_post :: "string \<Rightarrow> (string \<times> string) list \<Rightarrow> flow_error + json"

definition CLOCK_SKEW :: int where "CLOCK_SKEW = 60"

definition aud_ok :: "json \<Rightarrow> string \<Rightarrow> bool" where
  "aud_ok aud client \<longleftrightarrow> aud = JStr client \<or> JStr client \<in> set (items aud)"

definition pyjwt :: "jwt_lib \<Rightarrow> (json \<Rightarrow> string \<Rightarrow> bool) \<Rightarrow> bool" where
  \<comment> \<open>what \<open>jwt.decode\<close> with RS256 and these options documents; \<open>signed\<close>: the signature is the key's\<close>
  "pyjwt j signed \<longleftrightarrow> (\<forall>raw key client issuer now claims. jl_decode j raw key client issuer now = Inr claims \<longrightarrow>
     signed key raw \<and> jl_payload j raw = Some claims \<and> jfield claims ''iss'' = JStr issuer \<and> aud_ok (jfield claims ''aud'') client
     \<and> (\<exists>e. py_int (jfield claims ''exp'') = Inr e \<and> now < e + CLOCK_SKEW))"

record oidc_service =
  sv_providers :: "provider list"
  sv_discovery :: "(string \<times> rat \<times> json) list"
  sv_jwks :: "(string \<times> rat \<times> (string \<times> json) list) list"
  sv_miss :: "(string \<times> rat) list"

definition refuse_flow :: "string \<Rightarrow> 'a flow" where
  "refuse_flow m = Inl (Refused (Api (unauthorized m)))"

definition provider_of_id :: "oidc_service \<Rightarrow> string \<Rightarrow> provider flow" where
  "provider_of_id v i = (case find (\<lambda>p. pv_id p = i) (sv_providers v) of
     None \<Rightarrow> Inl (Refused (Api (raise_error 500 [] (i @ '': sign-in with this provider is not configured here'') (Some ''NOT_FOUND'') (Some 404))))
   | Some p \<Rightarrow> Inr p)"

definition DISCOVERY_TTL :: rat where "DISCOVERY_TTL = 3600"
definition JWKS_TTL :: rat where "JWKS_TTL = 3600"
definition JWKS_MIN_REFETCH :: rat where "JWKS_MIN_REFETCH = 60"
definition never :: rat where "never = - 1000000000"

definition is_text :: "json \<Rightarrow> bool" where "is_text j = (case j of JStr _ \<Rightarrow> True | _ \<Rightarrow> False)"

definition fetch_metadata :: "net \<Rightarrow> rat \<Rightarrow> provider \<Rightarrow> oidc_service \<Rightarrow> oidc_service \<times> json flow" where
  "fetch_metadata n tick p v = (case nt_get n (pv_discovery p) of Inl e \<Rightarrow> (v, Inl e) | Inr doc \<Rightarrow>
     case find (\<lambda>f. \<not> is_text (jfield doc f)) [''authorization_endpoint'', ''token_endpoint'', ''jwks_uri'', ''issuer''] of
       Some f \<Rightarrow> (v, Inl (Refused (Api (raise_error 500 [] (pv_id p @ '': its discovery document has no '' @ f) (Some ''OIDC_ERROR'') (Some 502)))))
     | None \<Rightarrow> (v\<lparr>sv_discovery := AList.update (pv_id p) (tick, doc) (sv_discovery v)\<rparr>, Inr doc))"

definition metadata :: "net \<Rightarrow> rat \<Rightarrow> provider \<Rightarrow> oidc_service \<Rightarrow> oidc_service \<times> json flow" where
  "metadata n tick p v = (case map_of (sv_discovery v) (pv_id p) of
     Some (t, doc) \<Rightarrow> if tick - t < DISCOVERY_TTL then (v, Inr doc) else fetch_metadata n tick p v
   | None \<Rightarrow> fetch_metadata n tick p v)"

definition text_at :: "json \<Rightarrow> string \<Rightarrow> string" where
  \<comment> \<open>a field of a discovery document, a text once it is accepted\<close>
  "text_at j k = (case jfield j k of JStr s \<Rightarrow> s | _ \<Rightarrow> [])"

definition keys_of :: "(json \<Rightarrow> string) \<Rightarrow> json \<Rightarrow> (string \<times> json) list" where
  \<comment> \<open>the dictionary comprehension: the last key of a \<open>kid\<close> wins\<close>
  "keys_of repr doc = fold (\<lambda>k. AList.update (py_str repr (jfield k ''kid'')) k) (filter (\<lambda>k. truthy (jfield k ''kid'')) (items (jfield doc ''keys''))) []"

definition fetch_jwks :: "(json \<Rightarrow> string) \<Rightarrow> net \<Rightarrow> rat \<Rightarrow> provider \<Rightarrow> string \<Rightarrow> oidc_service \<Rightarrow> oidc_service \<times> (string \<times> json) list flow" where
  "fetch_jwks repr n tick p uri v = (case nt_get n uri of Inl e \<Rightarrow> (v, Inl e)
     | Inr doc \<Rightarrow> (v\<lparr>sv_jwks := AList.update (pv_id p) (tick, keys_of repr doc) (sv_jwks v)\<rparr>, Inr (keys_of repr doc)))"

definition known_keys :: "oidc_service \<Rightarrow> provider \<Rightarrow> rat \<times> (string \<times> json) list" where
  "known_keys v p = or_else (map_of (sv_jwks v) (pv_id p)) (never, [])"

definition last_miss :: "oidc_service \<Rightarrow> provider \<Rightarrow> rat" where
  "last_miss v p = or_else (map_of (sv_miss v) (pv_id p)) never"

definition stale :: "oidc_service \<Rightarrow> provider \<Rightarrow> rat \<Rightarrow> bool" where
  "stale v p tick \<longleftrightarrow> JWKS_TTL \<le> tick - fst (known_keys v p)"

definition missed :: "oidc_service \<Rightarrow> provider \<Rightarrow> string option \<Rightarrow> rat \<Rightarrow> bool" where
  \<comment> \<open>an unknown \<open>kid\<close>, and the last one was long enough ago\<close>
  "missed v p kid tick \<longleftrightarrow> truthy_str kid \<and> map_of (snd (known_keys v p)) (the kid) = None \<and> JWKS_MIN_REFETCH \<le> tick - last_miss v p"

definition kid_text :: "string option \<Rightarrow> string" where
  "kid_text kid = (case kid of None \<Rightarrow> ''None'' | Some k \<Rightarrow> k)"

definition chosen_key :: "jwt_lib \<Rightarrow> string option \<Rightarrow> (string \<times> json) list \<Rightarrow> json flow" where
  "chosen_key j kid keys = (case map_of keys (kid_text kid) of
     None \<Rightarrow> refuse_flow ''id_token: signed with a key this provider does not publish''
   | Some k \<Rightarrow> if jfield k ''kty'' \<noteq> JStr ''RSA'' then refuse_flow ''id_token: unexpected key type''
       else if jl_rsa j k then Inr k else Inl JwtRaised)"

definition signing_key :: "jwt_lib \<Rightarrow> net \<Rightarrow> rat \<Rightarrow> provider \<Rightarrow> string option \<Rightarrow> oidc_service \<Rightarrow> oidc_service \<times> json flow" where
  "signing_key j n tick p kid v = (case metadata n tick p v of (v, Inl e) \<Rightarrow> (v, Inl e) | (v, Inr meta) \<Rightarrow>
     if stale v p tick \<or> missed v p kid tick then
       (let v = (if stale v p tick then v else v\<lparr>sv_miss := AList.update (pv_id p) tick (sv_miss v)\<rparr>) in
        case fetch_jwks (jl_repr j) n tick p (text_at meta ''jwks_uri'') v of
          (v, Inl e) \<Rightarrow> (v, Inl e) | (v, Inr keys) \<Rightarrow> (v, chosen_key j kid keys))
     else (v, chosen_key j kid (snd (known_keys v p))))"

section \<open>To the provider\<close>

record flow_secrets =
  fs_state :: string
  fs_browser :: string
  fs_verifier :: string
  fs_nonce :: string

record started_flow =
  sf_url :: string
  sf_state :: string
  sf_browser :: string
  sf_expires :: int

definition start :: "'s state_ops \<Rightarrow> crypto \<Rightarrow> (string \<Rightarrow> string) \<Rightarrow> net \<Rightarrow> rat \<Rightarrow> int \<Rightarrow> flow_secrets \<Rightarrow> string \<Rightarrow> string \<Rightarrow> int
    \<Rightarrow> 's \<times> oidc_service \<Rightarrow> ('s \<times> oidc_service) \<times> started_flow flow" where
  \<comment> \<open>\<open>challenge\<close>: \<open>code_challenge\<close>, SHA-256 in URL-safe base64\<close>
  "start ops c challenge n tick now sec provider redirect ttl st = (case st of (s, v) \<Rightarrow>
     case provider_of_id v provider of Inl e \<Rightarrow> (st, Inl e) | Inr p \<Rightarrow>
     case metadata n tick p v of (v, Inl e) \<Rightarrow> ((s, v), Inl e) | (v, Inr meta) \<Rightarrow>
     let expires = now + max 60 ttl; ep = text_at meta ''authorization_endpoint'' in
     case so_create ops (c_sha c (fs_state sec)) \<lparr>os_browser = c_sha c (fs_browser sec), os_provider = pv_id p, os_verifier = fs_verifier sec,
          os_nonce = fs_nonce sec, os_redirect = redirect, os_expires = expires\<rparr> s of
       Inl e \<Rightarrow> ((s, v), Inl (Refused e))
     | Inr s \<Rightarrow> ((s, v), Inr \<lparr>sf_url = ep @ (if CHR 0x3F \<in> set ep then [CHR 0x26] else [CHR 0x3F]) @ urlencode
           [(''client_id'', pv_client p), (''response_type'', ''code''), (''redirect_uri'', redirect), (''scope'', pv_scopes p), (''state'', fs_state sec),
            (''nonce'', fs_nonce sec), (''code_challenge'', challenge (fs_verifier sec)), (''code_challenge_method'', ''S256''), (''response_mode'', ''query''),
            (''prompt'', ''select_account'')],
         sf_state = fs_state sec, sf_browser = fs_browser sec, sf_expires = expires\<rparr>))"

section \<open>The id_token\<close>

definition json_true :: "json \<Rightarrow> bool" where
  \<comment> \<open>\<open>_truthy\<close>\<close>
  "json_true j = (case j of JBool b \<Rightarrow> b | JStr s \<Rightarrow> lower (strip s) = ''true'' | _ \<Rightarrow> False)"

definition claim_text :: "(json \<Rightarrow> string) \<Rightarrow> json \<Rightarrow> string \<Rightarrow> string" where
  \<comment> \<open>\<open>str(claims.get(k) or "")\<close>\<close>
  "claim_text repr claims k = py_str repr (jor (jfield claims k) (JStr []))"

definition replace_tenant :: "string \<Rightarrow> string \<Rightarrow> string" where
  \<comment> \<open>\<open>s.replace("{tenantid}", tid)\<close>, of which an issuer has at most one\<close>
  "replace_tenant s tid = (case find (\<lambda>n. startswith (drop n s) ''{tenantid}'') [0..<length s] of
     None \<Rightarrow> s | Some n \<Rightarrow> take n s @ tid @ drop (n + 10) s)"

definition expected_issuer :: "(json \<Rightarrow> string) \<Rightarrow> provider \<Rightarrow> json \<Rightarrow> json \<Rightarrow> string flow" where
  "expected_issuer repr p unverified meta = (if pv_id p = GOOGLE
     then (let iss = claim_text repr unverified ''iss'' in
       if iss \<notin> set GOOGLE_ISSUERS then refuse_flow ''id_token: unexpected issuer'' else Inr iss)
     else (let tid = lower (claim_text repr unverified ''tid'') in
       if tid \<notin> set (pv_tenants p) then refuse_flow ''id_token: this Microsoft tenant may not sign in here''
       else Inr (replace_tenant (text_at meta ''issuer'') tid)))"

definition identity_from_claims :: "(json \<Rightarrow> string) \<Rightarrow> provider \<Rightarrow> json \<Rightarrow> provider_identity flow" where
  \<comment> \<open>names are cut to 120 characters\<close>
  "identity_from_claims repr p claims = (let email = normalize_email (claim_text repr claims ''email'');
       name = concat (take 120 (utf8_chars (claim_text repr claims ''name''))) in
     if \<not> email_shape email then refuse_flow ''the provider did not return an email address''
     else if pv_id p = GOOGLE then
       (if \<not> json_true (jfield claims ''email_verified'') then refuse_flow ''the provider says this email address is not verified''
        else Inr \<lparr>pi_provider = pv_id p, pi_subject = py_str repr (jfield claims ''sub''), pi_email = email, pi_name = name\<rparr>)
     else if lower (claim_text repr claims ''tid'') \<notin> set (pv_tenants p) then refuse_flow ''id_token: this Microsoft tenant may not sign in here''
     else if jfield claims ''xms_edov'' \<noteq> JNull \<and> \<not> json_true (jfield claims ''xms_edov'') then refuse_flow ''the provider says this email domain is not verified''
     else Inr \<lparr>pi_provider = pv_id p, pi_subject = py_str repr (jor (jfield claims ''oid'') (jfield claims ''sub'')), pi_email = email, pi_name = name\<rparr>)"

definition jwt_message :: "jwt_failure \<Rightarrow> string" where
  "jwt_message f = (case f of Expired \<Rightarrow> ''id_token: expired'' | BadAudience \<Rightarrow> ''id_token: not issued for this application''
     | BadIssuer \<Rightarrow> ''id_token: unexpected issuer'' | MissingClaim \<Rightarrow> ''id_token: a required claim is missing''
     | BadSignature \<Rightarrow> ''id_token: bad signature'' | OtherJwt \<Rightarrow> ''id_token: refused'')"

definition ascii :: "string \<Rightarrow> bool" where "ascii s = list_all (\<lambda>c. (of_char c :: nat) < 128) s"

definition check_nonce :: "(json \<Rightarrow> string) \<Rightarrow> json \<Rightarrow> string \<Rightarrow> unit flow" where
  \<comment> \<open>\<open>compare_digest\<close> raises on texts that are not ASCII\<close>
  "check_nonce repr claims nonce = (if nonce = [] then refuse_flow ''id_token: nonce does not match this sign-in''
     else let got = claim_text repr claims ''nonce'' in
       if \<not> ascii got \<or> \<not> ascii nonce then Inl (Refused (Uncaught TypeError))
       else if got \<noteq> nonce then refuse_flow ''id_token: nonce does not match this sign-in'' else Inr ())"

definition identity :: "jwt_lib \<Rightarrow> net \<Rightarrow> rat \<Rightarrow> int \<Rightarrow> provider \<Rightarrow> string \<Rightarrow> string \<Rightarrow> oidc_service \<Rightarrow> oidc_service \<times> provider_identity flow" where
  "identity j n tick now p raw nonce v = (case jl_header j raw of
     None \<Rightarrow> (v, refuse_flow ''id_token: malformed'')
   | Some (alg, kid) \<Rightarrow> if alg \<noteq> ''RS256'' then (v, refuse_flow ''id_token: unacceptable signature algorithm'') else
     case jl_payload j raw of None \<Rightarrow> (v, Inl JwtRaised) | Some unverified \<Rightarrow>
     case metadata n tick p v of (v, Inl e) \<Rightarrow> (v, Inl e) | (v, Inr meta) \<Rightarrow>
     case expected_issuer (jl_repr j) p unverified meta of Inl e \<Rightarrow> (v, Inl e) | Inr issuer \<Rightarrow>
     case signing_key j n tick p kid v of (v, Inl e) \<Rightarrow> (v, Inl e) | (v, Inr key) \<Rightarrow>
     case jl_decode j raw key (pv_client p) issuer now of Inl f \<Rightarrow> (v, refuse_flow (jwt_message f)) | Inr claims \<Rightarrow>
     (v, and_then (check_nonce (jl_repr j) claims nonce) (\<lambda>_. identity_from_claims (jl_repr j) p claims)))"

section \<open>Back from the provider\<close>

record callback =
  cb_state :: string
  cb_code :: string
  cb_browser :: string

definition check_state :: "crypto \<Rightarrow> provider \<Rightarrow> callback \<Rightarrow> string \<Rightarrow> oidc_state option \<Rightarrow> oidc_state flow" where
  "check_state c p cb redirect rec = (case rec of
     None \<Rightarrow> refuse_flow ''this sign-in has expired or was already used; start again''
   | Some r \<Rightarrow> if os_provider r \<noteq> pv_id p then refuse_flow ''this sign-in was started for a different provider''
     else if cb_browser cb = [] \<or> c_sha c (cb_browser cb) \<noteq> os_browser r then refuse_flow ''this sign-in was started in a different browser''
     else if os_redirect r \<noteq> redirect then refuse_flow ''this sign-in was started for a different address''
     else if cb_code cb = [] then refuse_flow ''the provider returned no authorization code'' else Inr r)"

definition complete :: "'s state_ops \<Rightarrow> crypto \<Rightarrow> jwt_lib \<Rightarrow> net \<Rightarrow> rat \<Rightarrow> int \<Rightarrow> string \<Rightarrow> callback \<Rightarrow> string
    \<Rightarrow> 's \<times> oidc_service \<Rightarrow> ('s \<times> oidc_service) \<times> provider_identity flow" where
  "complete ops c j n tick now provider cb redirect st = (case st of (s, v) \<Rightarrow>
     case provider_of_id v provider of Inl e \<Rightarrow> (st, Inl e) | Inr p \<Rightarrow>
     case so_take ops (c_sha c (cb_state cb)) now s of (s, rec) \<Rightarrow>
     case check_state c p cb redirect rec of Inl e \<Rightarrow> ((s, v), Inl e) | Inr r \<Rightarrow>
     case metadata n tick p v of (v, Inl e) \<Rightarrow> ((s, v), Inl e) | (v, Inr meta) \<Rightarrow>
     case nt_post n (text_at meta ''token_endpoint'') [(''grant_type'', ''authorization_code''), (''code'', cb_code cb), (''redirect_uri'', redirect),
         (''client_id'', pv_client p), (''client_secret'', pv_secret p), (''code_verifier'', os_verifier r)] of
       Inl e \<Rightarrow> ((s, v), Inl e)
     | Inr tokens \<Rightarrow> (case jfield tokens ''id_token'' of
         JStr raw \<Rightarrow> if raw = [] then ((s, v), refuse_flow ''the provider returned no id_token'')
           else (case identity j n tick now p raw (os_nonce r) v of (v, res) \<Rightarrow> ((s, v), res))
       | _ \<Rightarrow> ((s, v), refuse_flow ''the provider returned no id_token'')))"

section \<open>Both stores keep the contract\<close>

definition one_each :: "state_rows \<Rightarrow> bool" where "one_each s \<longleftrightarrow> distinct (map fst s)"

lemma map_of_live: "one_each s \<Longrightarrow> map_of (filter (\<lambda>(k, r). now < os_expires r) s) h = live now (map_of s h)"
  by (induction s) (auto simp: one_each_def live_def map_of_eq_None_iff split: option.splits)

lemma one_each_filter: "one_each s \<Longrightarrow> one_each (filter P s)"
  by (simp add: one_each_def distinct_map_filter)

lemma map_of_without: "map_of (filter (\<lambda>(k, r). k \<noteq> h) s) = (map_of s)(h := None)"
  by (induction s) auto

lemma append_new: "map_of s h = None \<Longrightarrow> map_of (s @ [(h, r)]) = (map_of s)(h \<mapsto> r)"
  by (auto simp: fun_eq_iff map_add_def split: option.split)

lemma one_each_append: "one_each s \<Longrightarrow> map_of s h = None \<Longrightarrow> one_each (s @ [(h, r)])"
  by (auto simp: one_each_def map_of_eq_None_iff)

lemma one_each_update: "one_each s \<Longrightarrow> one_each (AList.update h r s)"
  by (simp add: one_each_def distinct_update)

interpretation pg_states: oidc_states pg_states map_of one_each
proof unfold_locales
  fix s s' :: state_rows and h r
  assume s: "one_each s"
  { assume "map_of s h = None"
    then show "\<exists>s'. so_create pg_states h r s = Inr s' \<and> one_each s' \<and> map_of s' = (map_of s)(h \<mapsto> r)"
      using append_new[of s h r] one_each_append[OF s] by (simp add: pg_states_def pg_create_state_def) }
  { assume "so_create pg_states h r s = Inr s'"
    then have new: "map_of s h = None" "s' = s @ [(h, r)]" by (auto simp: pg_states_def pg_create_state_def split: if_splits)
    then show "one_each s' \<and> (\<forall>k. k \<noteq> h \<longrightarrow> map_of s' k = map_of s k)"
      using append_new[of s h r] one_each_append[OF s] by simp }
qed (simp_all add: pg_states_def pg_take_state_def pg_drop_states_def map_of_without map_of_live one_each_filter Let_def fun_eq_iff)

interpretation mem_states: oidc_states mem_states map_of one_each
proof unfold_locales
  fix s s' :: state_rows and h r
  assume s: "one_each s"
  { assume "so_create mem_states h r s = Inr s'"
    then show "one_each s' \<and> (\<forall>k. k \<noteq> h \<longrightarrow> map_of s' k = map_of s k)"
      using one_each_update[OF s] by (auto simp: mem_states_def mem_create_state_def update_conv') }
qed (simp_all add: mem_states_def mem_create_state_def mem_take_state_def mem_drop_states_def map_of_live one_each_filter one_each_update update_conv'
       Let_def fun_eq_iff delete_conv' one_each_def distinct_update distinct_delete distinct_map_filter)

section \<open>What a sign-in proves\<close>

lemma refuse_not_Inr [simp]: "refuse_flow m \<noteq> Inr x"
  by (simp add: refuse_flow_def)

lemma metadata_kept: "metadata n tick p v = (v', r) \<Longrightarrow> sv_providers v' = sv_providers v \<and> sv_jwks v' = sv_jwks v \<and> sv_miss v' = sv_miss v"
  by (auto simp: metadata_def fetch_metadata_def split: option.splits sum.splits if_splits prod.splits)

lemma signing_key_kept: "signing_key j n tick p kid v = (v', r) \<Longrightarrow> sv_providers v' = sv_providers v"
  using metadata_kept[of n tick p v]
  by (auto simp: signing_key_def fetch_jwks_def Let_def split: prod.splits sum.splits if_splits)

lemma identity_kept: "identity j n tick now p raw nonce v = (v', r) \<Longrightarrow> sv_providers v' = sv_providers v"
  by (auto simp: identity_def split: option.splits prod.splits if_splits sum.splits dest!: metadata_kept signing_key_kept)

lemma claims_identity: "identity_from_claims repr p claims = Inr i \<Longrightarrow> pi_provider i = pv_id p \<and> pi_email i = normalize_email (claim_text repr claims ''email'')
    \<and> email_shape (pi_email i) \<and> (if pv_id p = GOOGLE then json_true (jfield claims ''email_verified'') else lower (claim_text repr claims ''tid'') \<in> set (pv_tenants p))"
  by (auto simp: identity_from_claims_def Let_def split: if_splits)

lemma nonce_checked: "check_nonce repr claims nonce = Inr u \<Longrightarrow> nonce \<noteq> [] \<and> claim_text repr claims ''nonce'' = nonce"
  by (auto simp: check_nonce_def Let_def split: if_splits)

lemma google_issuer: "expected_issuer repr p unverified meta = Inr iss \<Longrightarrow> pv_id p = GOOGLE \<Longrightarrow> iss \<in> set GOOGLE_ISSUERS"
  by (auto simp: expected_issuer_def Let_def split: if_splits)

lemma identity_steps:
  assumes "identity j n tick now p raw nonce v = (v', Inr i)"
  obtains key issuer claims unverified meta where "expected_issuer (jl_repr j) p unverified meta = Inr issuer"
    "jl_decode j raw key (pv_client p) issuer now = Inr claims" "check_nonce (jl_repr j) claims nonce = Inr ()" "identity_from_claims (jl_repr j) p claims = Inr i"
  using assms that by (auto simp: identity_def and_then_def split: option.splits prod.splits if_splits sum.splits)

definition token_proves :: "jwt_lib \<Rightarrow> (json \<Rightarrow> string \<Rightarrow> bool) \<Rightarrow> int \<Rightarrow> provider \<Rightarrow> string \<Rightarrow> provider_identity \<Rightarrow> string \<Rightarrow> bool" where
  \<comment> \<open>what a token must say for a sign-in\<close>
  "token_proves j signed now p nonce i raw \<longleftrightarrow> (\<exists>key claims e. signed key raw \<and> jl_payload j raw = Some claims \<and> aud_ok (jfield claims ''aud'') (pv_client p)
     \<and> py_int (jfield claims ''exp'') = Inr e \<and> now < e + CLOCK_SKEW \<and> nonce \<noteq> [] \<and> claim_text (jl_repr j) claims ''nonce'' = nonce
     \<and> pi_email i = normalize_email (claim_text (jl_repr j) claims ''email'') \<and> email_shape (pi_email i)
     \<and> (if pv_id p = GOOGLE then jfield claims ''iss'' \<in> JStr ` set GOOGLE_ISSUERS \<and> json_true (jfield claims ''email_verified'')
        else lower (claim_text (jl_repr j) claims ''tid'') \<in> set (pv_tenants p)))"

lemma identity_proved:
  assumes "pyjwt j signed" "identity j n tick now p raw nonce v = (v', Inr i)"
  shows "token_proves j signed now p nonce i raw"
proof -
  obtain key issuer claims unverified meta where steps: "expected_issuer (jl_repr j) p unverified meta = Inr issuer"
    "jl_decode j raw key (pv_client p) issuer now = Inr claims" "check_nonce (jl_repr j) claims nonce = Inr ()" "identity_from_claims (jl_repr j) p claims = Inr i"
    using identity_steps[OF assms(2)] .
  have lib: "signed key raw \<and> jl_payload j raw = Some claims \<and> jfield claims ''iss'' = JStr issuer \<and> aud_ok (jfield claims ''aud'') (pv_client p)
      \<and> (\<exists>e. py_int (jfield claims ''exp'') = Inr e \<and> now < e + CLOCK_SKEW)"
    using assms(1) steps(2) unfolding pyjwt_def by metis
  then obtain e where e: "py_int (jfield claims ''exp'') = Inr e" "now < e + CLOCK_SKEW" by blast
  show ?thesis unfolding token_proves_def
    by (rule exI[of _ key], rule exI[of _ claims], rule exI[of _ e])
      (use lib e claims_identity[OF steps(4)] nonce_checked[OF steps(3)] google_issuer[OF steps(1)] in auto)
qed

lemma checked_state: "check_state c p cb redirect rec = Inr r \<Longrightarrow> rec = Some r \<and> os_provider r = pv_id p \<and> cb_browser cb \<noteq> []
    \<and> c_sha c (cb_browser cb) = os_browser r \<and> os_redirect r = redirect"
  by (auto simp: check_state_def split: option.splits if_splits)

lemma live_Some: "live now x = Some r \<Longrightarrow> x = Some r \<and> now < os_expires r"
  by (auto simp: live_def split: option.splits if_splits)

text \<open>What either store owes the flow: a state that is not there stays away unless it is started again.\<close>

datatype oidc_op = Started net rat int flow_secrets string string int | Returned net rat int string callback string | Swept int

definition oidc_step :: "'s state_ops \<Rightarrow> crypto \<Rightarrow> (string \<Rightarrow> string) \<Rightarrow> jwt_lib \<Rightarrow> 's \<times> oidc_service \<Rightarrow> oidc_op \<Rightarrow> 's \<times> oidc_service" where
  "oidc_step ops c challenge j st e = (case e of
     Started n tick now sec provider redirect ttl \<Rightarrow> fst (start ops c challenge n tick now sec provider redirect ttl st)
   | Returned n tick now provider cb redirect \<Rightarrow> fst (complete ops c j n tick now provider cb redirect st)
   | Swept now \<Rightarrow> (fst (so_drop ops now (fst st)), snd st))"

definition starts_with :: "crypto \<Rightarrow> string \<Rightarrow> oidc_op \<Rightarrow> bool" where
  \<comment> \<open>this sign-in is filed under the hash\<close>
  "starts_with c h e = (case e of Started n tick now sec provider redirect ttl \<Rightarrow> c_sha c (fs_state sec) = h | _ \<Rightarrow> False)"

context oidc_states
begin

lemma start_frame: "ok s \<Longrightarrow> start ops c challenge n tick now sec provider redirect ttl (s, v) = ((s', v'), r) \<Longrightarrow>
    ok s' \<and> sv_providers v' = sv_providers v \<and> (\<forall>k. k \<noteq> c_sha c (fs_state sec) \<longrightarrow> held s' k = held s k)"
  using create_frame[of s "c_sha c (fs_state sec)"] metadata_kept[of n tick _ v]
  by (auto simp: start_def Let_def split: sum.splits prod.splits)

lemma complete_frame:
  assumes "ok s" "complete ops c j n tick now provider cb redirect (s, v) = ((s', v'), r)"
  shows "ok s' \<and> sv_providers v' = sv_providers v \<and> s' \<in> {s, fst (so_take ops (c_sha c (cb_state cb)) now s)}
    \<and> (\<forall>p. provider_of_id v provider = Inr p \<longrightarrow> s' = fst (so_take ops (c_sha c (cb_state cb)) now s))"
  using assms take_ok[OF assms(1)] metadata_kept[of n tick _ v] identity_kept[of j n tick now]
  by (auto simp: complete_def split: sum.splits prod.splits json.splits if_splits) (metis fst_conv)+

lemma step_frame:
  assumes "ok (fst st)" "held (fst st) h = None" "\<not> starts_with c h e" "oidc_step ops c challenge j st e = st'"
  shows "ok (fst st') \<and> held (fst st') h = None \<and> sv_providers (snd st') = sv_providers (snd st)"
proof (cases e)
  case (Started n tick now sec provider redirect ttl)
  obtain s' v' r where "start ops c challenge n tick now sec provider redirect ttl (fst st, snd st) = ((s', v'), r)" by (metis surj_pair)
  then show ?thesis using Started assms start_frame[OF assms(1), of c challenge n tick now sec provider redirect ttl "snd st" s' v' r]
    by (auto simp: oidc_step_def starts_with_def)
next
  case (Returned n tick now provider cb redirect)
  obtain s' v' r where r: "complete ops c j n tick now provider cb redirect (fst st, snd st) = ((s', v'), r)" by (metis surj_pair)
  then show ?thesis using Returned assms complete_frame[OF assms(1) r] take_gone[OF assms(1)]
    by (auto simp: oidc_step_def)
next
  case (Swept now)
  then show ?thesis using assms drop_ok drop_held by (auto simp: oidc_step_def live_def)
qed

lemma run_frame:
  assumes "ok (fst st)" "held (fst st) h = None" "\<forall>e \<in> set es. \<not> starts_with c h e"
  shows "ok (fst (foldl (oidc_step ops c challenge j) st es)) \<and> held (fst (foldl (oidc_step ops c challenge j) st es)) h = None
    \<and> sv_providers (snd (foldl (oidc_step ops c challenge j) st es)) = sv_providers (snd st)"
  using assms
proof (induction es arbitrary: st)
  case (Cons e es)
  have "ok (fst (oidc_step ops c challenge j st e)) \<and> held (fst (oidc_step ops c challenge j st e)) h = None
      \<and> sv_providers (snd (oidc_step ops c challenge j st e)) = sv_providers (snd st)"
    by (rule step_frame[OF Cons.prems(1,2) _ refl]) (use Cons.prems(3) in simp)
  then show ?case using Cons.IH[of "oidc_step ops c challenge j st e"] Cons.prems(3) by simp
qed simp

lemma absent_refused:
  assumes "ok s" "held s (c_sha c (cb_state cb)) = None" "provider_of_id v provider = Inr p"
  shows "snd (complete ops c j n tick now provider cb redirect (s, v)) = refuse_flow ''this sign-in has expired or was already used; start again''"
proof -
  obtain s1 where "so_take ops (c_sha c (cb_state cb)) now s = (s1, None)"
    using take_told[OF assms(1), of "c_sha c (cb_state cb)" now] assms(2) by (cases "so_take ops (c_sha c (cb_state cb)) now s") (simp add: live_def)
  then show ?thesis using assms(3) by (simp add: complete_def check_state_def refuse_flow_def)
qed

lemma spent_for_good:
  assumes "ok s" "provider_of_id v provider = Inr p" "\<forall>e \<in> set es. \<not> starts_with c (c_sha c (cb_state cb)) e" "cb_state cb2 = cb_state cb"
    "st = foldl (oidc_step ops c challenge j) (fst (complete ops c j n tick now provider cb redirect (s, v))) es"
  shows "snd (complete ops c j n2 tick2 now2 provider cb2 redirect2 st) = refuse_flow ''this sign-in has expired or was already used; start again''"
proof -
  obtain s' v' r where r: "complete ops c j n tick now provider cb redirect (s, v) = ((s', v'), r)" by (metis surj_pair)
  note f = complete_frame[OF assms(1) r]
  have gone: "held s' (c_sha c (cb_state cb)) = None" using f assms(2) take_gone[OF assms(1)] by simp
  have "ok (fst st) \<and> held (fst st) (c_sha c (cb_state cb)) = None \<and> sv_providers (snd st) = sv_providers v'"
    using run_frame[of "(s', v')" "c_sha c (cb_state cb)" es c challenge j] f gone assms(3,5) r by simp
  then show ?thesis using absent_refused[of "fst st" c cb2 "snd st" provider p] f assms(2,4) by (simp add: provider_of_id_def)
qed

end

text \<open>C8: A sign-in state is spent once, whatever happens in between.  After a browser has come back with a state
  (whether that sign-in succeeded or not), any number of sign-ins may be started, completed or swept; unless
  one of them is started with the very same secret, a second return with that state is refused with the one
  message that covers expired, unknown and spent states, and never reaches the provider.\<close>
theorem state_is_single_use:
  assumes "one_each s" "provider_of_id v provider = Inr p" "\<forall>e \<in> set es. \<not> starts_with c (c_sha c (cb_state cb)) e" "cb_state cb2 = cb_state cb"
    "st = foldl (oidc_step pg_states c challenge j) (fst (complete pg_states c j n tick now provider cb redirect (s, v))) es"
  shows "snd (complete pg_states c j n2 tick2 now2 provider cb2 redirect2 st) = refuse_flow ''this sign-in has expired or was already used; start again''"
  using pg_states.spent_for_good[OF assms] .

text \<open>C7: Who comes back from the provider.  A completed sign-in spends a state that this service created less
  than its lifetime ago for this very provider, this browser and this redirect address, and the state is gone;
  the id_token behind it is signed by a key the library checked, issued for this application, unexpired up to
  the clock skew, carries the nonce of this sign-in, and names a well-formed email which Google says is
  verified, or whose Microsoft tenant this deployment allows.\<close>
theorem sign_in_is_bound:
  assumes "pyjwt j signed" "one_each s" "complete pg_states c j n tick now provider cb redirect (s, v) = ((s', v'), Inr ident)"
  shows "\<exists>r p raw. map_of s (c_sha c (cb_state cb)) = Some r \<and> now < os_expires r \<and> os_provider r = provider \<and> c_sha c (cb_browser cb) = os_browser r
    \<and> os_redirect r = redirect \<and> map_of s' (c_sha c (cb_state cb)) = None \<and> p \<in> set (sv_providers v) \<and> pv_id p = provider
    \<and> token_proves j signed now p (os_nonce r) ident raw"
proof -
  have p: "\<exists>p. provider_of_id v provider = Inr p" using assms(3) by (auto simp: complete_def split: sum.splits)
  then obtain p where p: "provider_of_id v provider = Inr p" by blast
  then have pid: "p \<in> set (sv_providers v)" "pv_id p = provider"
    by (auto simp: provider_of_id_def find_Some_iff split: option.splits)
  let ?h = "c_sha c (cb_state cb)"
  have take: "so_take pg_states ?h now s = (fst (so_take pg_states ?h now s), live now (map_of s ?h))"
    using pg_states.take_told[OF assms(2)] by (metis prod.collapse)
  obtain r where r: "check_state c p cb redirect (live now (map_of s ?h)) = Inr r"
    using assms(3) p take by (cases "check_state c p cb redirect (live now (map_of s ?h))") (auto simp: complete_def split: prod.splits)
  have "\<exists>vm raw vi. identity j n tick now p raw (os_nonce r) vm = (vi, Inr ident) \<and> s' = fst (so_take pg_states ?h now s)"
    using assms(3) p take r by (auto simp: complete_def split: prod.splits sum.splits json.splits if_splits)
  then obtain vm raw vi where i: "identity j n tick now p raw (os_nonce r) vm = (vi, Inr ident)" "s' = fst (so_take pg_states ?h now s)" by blast
  have "map_of s' ?h = None" using pg_states.take_gone[OF assms(2), of ?h now] i(2) by simp
  then show ?thesis using pid identity_proved[OF assms(1) i(1)] checked_state[OF r] live_Some[of now "map_of s ?h" r] by metis
qed


section \<open>Unknown keys do not flood the provider\<close>

fun miss_fetches :: "jwt_lib \<Rightarrow> provider \<Rightarrow> (net \<times> rat \<times> string option) list \<Rightarrow> oidc_service \<Rightarrow> nat" where
  \<comment> \<open>how often a run of look-ups fetches the keys because a token names an unknown one\<close>
  "miss_fetches j p [] v = 0"
| "miss_fetches j p ((n, tick, kid) # calls) v =
     (if \<not> isl (snd (metadata n tick p v)) \<and> \<not> stale v p tick \<and> missed v p kid tick then 1 else 0)
     + miss_fetches j p calls (fst (signing_key j n tick p kid v))"

lemma last_miss_after: "last_miss (fst (signing_key j n tick p kid v)) p =
    (if \<not> isl (snd (metadata n tick p v)) \<and> \<not> stale v p tick \<and> missed v p kid tick then tick else last_miss v p)"
proof -
  obtain v1 r where m: "metadata n tick p v = (v1, r)" by (cases "metadata n tick p v")
  note same = metadata_kept[OF m]
  have look: "stale v1 p tick = stale v p tick" "missed v1 p kid tick = missed v p kid tick" "last_miss v1 p = last_miss v p"
    using same by (simp_all add: stale_def missed_def last_miss_def known_keys_def)
  have fetched: "sv_miss (fst (fetch_jwks repr n tick p uri w)) = sv_miss w" for repr uri w
    by (simp add: fetch_jwks_def split: sum.split)
  have told: "sv_miss (fst (case fetch_jwks repr n tick p uri w of (v, Inl e) \<Rightarrow> (v, Inl e) | (v, Inr keys) \<Rightarrow> (v, chosen_key j kid keys))) = sv_miss w" for repr uri w
    using fetched[of repr uri w] by (cases "fetch_jwks repr n tick p uri w") (simp split: sum.split)
  show ?thesis using look m
    by (cases r) (simp_all add: signing_key_def Let_def told last_miss_def update_conv')
qed

lemma recent_miss_is_quiet:
  assumes "\<forall>(n, tick, kid) \<in> set calls. tick < last_miss v p + JWKS_MIN_REFETCH"
  shows "miss_fetches j p calls v = 0"
  using assms
proof (induction calls arbitrary: v)
  case (Cons call calls)
  obtain n tick kid where c: "call = (n, tick, kid)" by (cases call)
  have "\<not> missed v p kid tick" using Cons.prems c by (auto simp: missed_def)
  then show ?case using Cons c by (simp add: last_miss_after)
qed simp

text \<open>Tokens that name unknown keys cannot make this service hammer its provider: over any run of look-ups
  within one minute, in any order of known and forged key ids, with every fetch failing or not, the keys are
  fetched at most once on account of an unknown key id.\<close>
theorem unknown_keys_do_not_flood:
  assumes "\<forall>(n, tick, kid) \<in> set calls. t0 \<le> tick \<and> tick < t0 + JWKS_MIN_REFETCH"
  shows "miss_fetches j p calls v \<le> 1"
  using assms
proof (induction calls arbitrary: v)
  case (Cons call calls)
  obtain n tick kid where c: "call = (n, tick, kid)" by (cases call)
  let ?v = "fst (signing_key j n tick p kid v)"
  show ?case
  proof (cases "\<not> isl (snd (metadata n tick p v)) \<and> \<not> stale v p tick \<and> missed v p kid tick")
    case True
    then have "last_miss ?v p = tick" by (simp add: last_miss_after)
    then have "miss_fetches j p calls ?v = 0" using Cons.prems c by (intro recent_miss_is_quiet) fastforce
    then show ?thesis using c by simp
  next
    case False
    then have "miss_fetches j p (call # calls) v = miss_fetches j p calls ?v" using c by auto
    then show ?thesis using Cons.IH[of ?v] Cons.prems by simp
  qed
qed simp

section \<open>One sign-in, run\<close>

definition demo_google :: provider where
  "demo_google = \<lparr>pv_id = GOOGLE, pv_label = ''Google'', pv_client = ''app'', pv_secret = ''s'', pv_discovery = ''d'', pv_scopes = SCOPES, pv_tenants = []\<rparr>"

definition demo_meta :: json where
  "demo_meta = JObj [(''authorization_endpoint'', JStr ''a''), (''token_endpoint'', JStr ''t''), (''jwks_uri'', JStr ''k''), (''issuer'', JStr ''i'')]"

definition demo_jwk :: json where
  "demo_jwk = JObj [(''kid'', JStr ''k1''), (''kty'', JStr ''RSA'')]"

definition demo_claims :: json where
  "demo_claims = JObj [(''iss'', JStr ''accounts.google.com''), (''aud'', JStr ''app''), (''exp'', JInt 1000), (''sub'', JStr ''42''),
     (''nonce'', JStr ''n''), (''email'', JStr ''a@b.co''), (''email_verified'', JBool True)]"

definition demo_net :: net where
  "demo_net = \<lparr>nt_get = (\<lambda>url. Inr (if url = ''d'' then demo_meta else JObj [(''keys'', JArr [demo_jwk])])),
     nt_post = (\<lambda>_ _. Inr (JObj [(''id_token'', JStr ''tok'')]))\<rparr>"

definition demo_jwt :: jwt_lib where
  "demo_jwt = \<lparr>jl_header = (\<lambda>_. Some (''RS256'', Some ''k1'')), jl_payload = (\<lambda>raw. if raw = ''tok'' then Some demo_claims else None), jl_rsa = (\<lambda>_. True),
     jl_decode = (\<lambda>raw key client issuer now. if raw = ''tok'' \<and> key = demo_jwk \<and> client = ''app'' \<and> issuer = ''accounts.google.com'' \<and> now < 1060
        then Inr demo_claims else Inl OtherJwt), jl_repr = (\<lambda>_. [])\<rparr>"

definition demo_states :: state_rows where
  "demo_states = [(rev ''st'', \<lparr>os_browser = rev ''br'', os_provider = GOOGLE, os_verifier = ''v'', os_nonce = ''n'', os_redirect = ''r'', os_expires = 600\<rparr>)]"

definition demo_service :: oidc_service where
  "demo_service = \<lparr>sv_providers = [demo_google], sv_discovery = [], sv_jwks = [], sv_miss = []\<rparr>"

definition demo_callback :: callback where
  "demo_callback = \<lparr>cb_state = ''st'', cb_code = ''c'', cb_browser = ''br''\<rparr>"

lemma demo_pyjwt: "pyjwt demo_jwt (\<lambda>key raw. key = demo_jwk)"
  by (auto simp: pyjwt_def demo_jwt_def demo_claims_def aud_ok_def CLOCK_SKEW_def split: if_splits)

definition demo_identity :: provider_identity where
  "demo_identity = \<lparr>pi_provider = GOOGLE, pi_subject = ''42'', pi_email = ''a@b.co'', pi_name = []\<rparr>"

lemma demo_meta_fields: "jfield demo_meta ''authorization_endpoint'' = JStr ''a''" "jfield demo_meta ''token_endpoint'' = JStr ''t''"
    "jfield demo_meta ''jwks_uri'' = JStr ''k''" "jfield demo_meta ''issuer'' = JStr ''i''"
  by (simp_all add: demo_meta_def)

lemma demo_metadata: "sv_discovery v = [] \<Longrightarrow> metadata demo_net 0 demo_google v = (v\<lparr>sv_discovery := [(GOOGLE, 0, demo_meta)]\<rparr>, Inr demo_meta)"
  by (simp add: metadata_def fetch_metadata_def demo_net_def demo_google_def demo_meta_fields is_text_def)

lemma demo_metadata_again: "sv_discovery v = [(GOOGLE, 0, demo_meta)] \<Longrightarrow> metadata demo_net 0 demo_google v = (v, Inr demo_meta)"
  by (simp add: metadata_def demo_google_def DISCOVERY_TTL_def)

lemma demo_keys: "keys_of repr (JObj [(''keys'', JArr [demo_jwk])]) = [(''k1'', demo_jwk)]"
  by (simp add: keys_of_def demo_jwk_def items_def)

lemma demo_signing_key: "sv_discovery v = [(GOOGLE, 0, demo_meta)] \<Longrightarrow> sv_jwks v = [] \<Longrightarrow>
    snd (signing_key demo_jwt demo_net 0 demo_google (Some ''k1'') v) = Inr demo_jwk"
  by (simp add: signing_key_def demo_metadata_again stale_def known_keys_def never_def JWKS_TTL_def Let_def fetch_jwks_def text_at_def demo_meta_fields)
    (simp add: demo_net_def demo_keys chosen_key_def kid_text_def demo_jwt_def demo_jwk_def [THEN arg_cong[where f = "\<lambda>k. jfield k ''kty''"]])

lemma demo_claim_texts: "claim_text r demo_claims ''iss'' = ''accounts.google.com''" "claim_text r demo_claims ''nonce'' = ''n''"
    "claim_text r demo_claims ''email'' = ''a@b.co''" "claim_text r demo_claims ''name'' = []"
  by (simp_all add: claim_text_def demo_claims_def jor_def)

lemma demo_identity_of_claims: "identity_from_claims r demo_google demo_claims = Inr demo_identity"
proof -
  have "normalize_email ''a@b.co'' = ''a@b.co''" "email_shape ''a@b.co''" "concat (take 120 (utf8_chars [])) = []" by code_simp+
  moreover have "jfield demo_claims ''email_verified'' = JBool True" "jfield demo_claims ''sub'' = JStr ''42''" by (simp_all add: demo_claims_def)
  ultimately show ?thesis
    by (simp add: identity_from_claims_def demo_claim_texts Let_def json_true_def demo_google_def demo_identity_def)
qed

lemma demo_verified:
  assumes "sv_discovery v = [(GOOGLE, 0, demo_meta)]" "sv_jwks v = []"
  shows "snd (identity demo_jwt demo_net 0 500 demo_google ''tok'' ''n'' v) = Inr demo_identity"
proof -
  obtain v1 where key: "signing_key demo_jwt demo_net 0 demo_google (Some ''k1'') v = (v1, Inr demo_jwk)"
    using demo_signing_key[OF assms] by (metis prod.collapse)
  have lib: "jl_header demo_jwt ''tok'' = Some (''RS256'', Some ''k1'')" "jl_payload demo_jwt ''tok'' = Some demo_claims"
    "jl_decode demo_jwt ''tok'' demo_jwk ''app'' ''accounts.google.com'' 500 = Inr demo_claims" by (simp_all add: demo_jwt_def)
  have iss: "expected_issuer r demo_google demo_claims demo_meta = Inr ''accounts.google.com''" for r
    by (simp add: expected_issuer_def demo_claim_texts demo_google_def GOOGLE_ISSUERS_def)
  have client: "pv_client demo_google = ''app''" by (simp add: demo_google_def)
  have nonce: "check_nonce r demo_claims ''n'' = Inr ()" for r by (simp add: check_nonce_def demo_claim_texts ascii_def)
  show ?thesis
    by (simp add: identity_def lib demo_metadata_again[OF assms(1)] iss key demo_identity_of_claims nonce and_then_def client)
qed

lemma demo_complete: "\<exists>v'. complete pg_states demo_crypto demo_jwt demo_net 0 500 GOOGLE demo_callback ''r'' (demo_states, demo_service)
    = (([], v'), Inr demo_identity)"
proof -
  have p: "provider_of_id demo_service GOOGLE = Inr demo_google" by (simp add: provider_of_id_def demo_service_def demo_google_def)
  have taken: "so_take pg_states (c_sha demo_crypto (cb_state demo_callback)) 500 demo_states = ([], Some (snd (hd demo_states)))"
    by (simp add: pg_states_def pg_take_state_def demo_states_def demo_crypto_def demo_callback_def live_def)
  have checked: "check_state demo_crypto demo_google demo_callback ''r'' (Some (snd (hd demo_states))) = Inr (snd (hd demo_states))"
    by (simp add: check_state_def demo_google_def demo_callback_def demo_states_def demo_crypto_def)
  have nonce: "os_nonce (snd (hd demo_states)) = ''n''" by (simp add: demo_states_def)
  let ?v = "demo_service\<lparr>sv_discovery := [(GOOGLE, 0, demo_meta)]\<rparr>"
  have meta: "metadata demo_net 0 demo_google demo_service = (?v, Inr demo_meta)" by (rule demo_metadata) (simp add: demo_service_def)
  have post: "nt_post demo_net u d = Inr (JObj [(''id_token'', JStr ''tok'')])" for u d by (simp add: demo_net_def)
  have "snd (identity demo_jwt demo_net 0 500 demo_google ''tok'' ''n'' ?v) = Inr demo_identity"
    by (rule demo_verified) (simp_all add: demo_service_def)
  then obtain v' where "identity demo_jwt demo_net 0 500 demo_google ''tok'' ''n'' ?v = (v', Inr demo_identity)" by (metis prod.collapse)
  then show ?thesis by (simp add: complete_def p taken checked meta post nonce)
qed

lemma demo_rows: "one_each demo_states" by (simp add: one_each_def demo_states_def)

theorem sign_in_is_bound_witness:
  "map_of demo_states (rev ''st'') \<noteq> None \<and> (\<exists>raw. token_proves demo_jwt (\<lambda>key raw. key = demo_jwk) 500 demo_google ''n'' demo_identity raw)"
proof -
  obtain v' where run: "complete pg_states demo_crypto demo_jwt demo_net 0 500 GOOGLE demo_callback ''r'' (demo_states, demo_service) = (([], v'), Inr demo_identity)"
    using demo_complete by blast
  obtain r p raw where *: "map_of demo_states (c_sha demo_crypto (cb_state demo_callback)) = Some r" "p \<in> set (sv_providers demo_service)"
    "token_proves demo_jwt (\<lambda>key raw. key = demo_jwk) 500 p (os_nonce r) demo_identity raw"
    using sign_in_is_bound[OF demo_pyjwt demo_rows run] by blast
  then have "p = demo_google" "os_nonce r = ''n''"
    by (simp_all add: demo_service_def demo_states_def demo_crypto_def demo_callback_def split: if_splits) auto
  then show ?thesis using * by (auto simp: demo_crypto_def demo_callback_def)
qed

theorem state_is_single_use_witness:
  "snd (complete pg_states demo_crypto demo_jwt demo_net 0 510 GOOGLE demo_callback ''r''
     (fst (complete pg_states demo_crypto demo_jwt demo_net 0 500 GOOGLE demo_callback ''r'' (demo_states, demo_service))))
   = refuse_flow ''this sign-in has expired or was already used; start again''"
proof -
  have p: "provider_of_id demo_service GOOGLE = Inr demo_google" by (simp add: provider_of_id_def demo_service_def demo_google_def)
  show ?thesis
    by (rule state_is_single_use[OF demo_rows p, of "[]" demo_crypto demo_callback demo_callback _ rev demo_jwt demo_net 0 500]) simp_all
qed

theorem unknown_keys_do_not_flood_witness: "miss_fetches demo_jwt demo_google
    [(demo_net, 4000, Some ''x''), (demo_net, 4001, Some ''y''), (demo_net, 4059, Some ''z'')] demo_service \<le> 1"
  by (rule unknown_keys_do_not_flood[of _ 4000]) (simp add: JWKS_MIN_REFETCH_def)

end
