(* ===== verification/Normalize.thy ===== *)
theory Normalize
  imports On_Demand
begin

text \<open>
  From the router's GraphQL answers to the public contract (\<open>app/normalize.py\<close>).  The answers are records whose
  fields are the ones the queries select, at their GraphQL types (a nullable field is an \<open>option\<close>); the results
  have exactly the keys the code builds.  \<open>planner_leg\<close> is what the merging code sees of such a leg.
\<close>

section \<open>Times\<close>

definition unix_epoch :: int where
  \<comment> \<open>1970-01-01, in the seconds since day 0 that \<open>iso_local\<close> counts\<close>
  "unix_epoch = 719163 * 86400"

definition utc_iso :: "int \<Rightarrow> string" where
  \<comment> \<open>\<open>datetime.fromtimestamp(ts, UTC).isoformat().replace("+00:00", "Z")\<close>\<close>
  "utc_iso ts = iso_show (of_int (ts + unix_epoch), None) @ ''Z''"

definition rt_iso :: "int option \<Rightarrow> string option" where
  \<comment> \<open>\<open>rt.iso\<close>: zero counts as no time\<close>
  "rt_iso ts = (case ts of None \<Rightarrow> None | Some t \<Rightarrow> if t = 0 then None else Some (utc_iso t))"

definition iso_epoch :: "string \<Rightarrow> int option" where
  \<comment> \<open>\<open>_epoch\<close>; every time handed to it carries an offset\<close>
  "iso_epoch s = map_option (\<lambda>t. py_trunc (t - of_int unix_epoch)) (iso_instant s)"

section \<open>Durations\<close>

definition digits_before :: "string \<Rightarrow> string \<Rightarrow> (string \<times> string) option" where
  \<comment> \<open>digits and then the unit, at the front of the text\<close>
  "digits_before u s = (let ds = takeWhile is_digit s; rest = drop (length ds) s in
     if ds \<noteq> [] \<and> startswith rest u then Some (ds, drop (length u) rest) else None)"

definition int_group :: "string \<Rightarrow> string \<Rightarrow> nat \<times> string" where
  \<comment> \<open>an optional group \<open>(?:(\d+)U)?\<close>\<close>
  "int_group u s = (case digits_before u s of None \<Rightarrow> (0, s) | Some (ds, rest) \<Rightarrow> (or_else (parse_nat ds) 0, rest))"

definition seconds_group :: "string \<Rightarrow> rat \<times> string" where
  \<comment> \<open>\<open>(?:(\d+(?:\.\d+)?)S)?\<close>\<close>
  "seconds_group s = (let ds = takeWhile is_digit s; rest = drop (length ds) s in
     if ds = [] then (0, s)
     else if startswith rest ''S'' then (of_nat (or_else (parse_nat ds) 0), tl rest)
     else if startswith rest ''.'' then (let fs = takeWhile is_digit (tl rest); after = drop (length fs) (tl rest) in
       if fs \<noteq> [] \<and> startswith after ''S''
       then (of_nat (or_else (parse_nat ds) 0) + of_nat (or_else (parse_nat fs) 0) / 10 ^ length fs, tl after) else (0, s))
     else (0, s))"

definition unsigned_duration :: "string \<Rightarrow> rat option" where
  \<comment> \<open>\<open>P(..D)?T?(..H)?(..M)?(..S)?$\<close>; a final newline matches the end too\<close>
  "unsigned_duration s = (if \<not> startswith s ''P'' then None else
     let (d, s) = int_group ''D'' (tl s); s = (if startswith s ''T'' then tl s else s);
         (h, s) = int_group ''H'' s; (m, s) = int_group ''M'' s; (x, s) = seconds_group s in
     if s = [] \<or> s = [CHR 0x0A] then Some (of_nat (d * 86400 + h * 3600 + m * 60) + x) else None)"

definition parse_duration :: "string option \<Rightarrow> int option" where
  "parse_duration s = (if \<not> truthy_str s then None
     else if startswith (the s) ''-'' then map_option (\<lambda>x. py_trunc (- x)) (unsigned_duration (tl (the s)))
     else map_option py_trunc (unsigned_duration (the s)))"

section \<open>Routes\<close>

record otp_agency =
  oa_id :: "string option"
  oa_name :: "string option"

record otp_route =
  or_id :: "string option"
  or_short :: "string option"
  or_long :: "string option"
  or_color :: "string option"
  or_text :: "string option"
  or_mode :: "string option"
  or_agency :: "otp_agency option"

record wire_route =
  wr_id :: "string option"
  wr_short :: "string option"
  wr_long :: "string option"
  wr_color :: "string option"
  wr_text :: "string option"
  wr_mode :: string
  wr_agency :: "string option"
  wr_component :: string

definition hash_color :: "string option \<Rightarrow> string option" where
  \<comment> \<open>GTFS writes colours without the hash\<close>
  "hash_color c = (if truthy_str c \<and> \<not> startswith (the c) ''#'' then Some (CHR ''#'' # the c) else c)"

definition route_ref_of :: "city \<Rightarrow> otp_route option \<Rightarrow> string option \<Rightarrow> wire_route option" where
  "route_ref_of c r gtfs_id = (case r of None \<Rightarrow> None | Some r \<Rightarrow>
     let agency = Option.bind (or_agency r) oa_id; raw = (if truthy_str agency then Some (unscoped c (the agency)) else None) in
     Some \<lparr>wr_id = str_or (or_id r) gtfs_id, wr_short = or_short r, wr_long = or_long r, wr_color = hash_color (or_color r),
       wr_text = hash_color (or_text r), wr_mode = or_else (str_or (or_mode r) (Some ''BUS'')) [], wr_agency = raw, wr_component = component_of_agency c raw\<rparr>)"

definition gtfs_route_type_to_mode :: "int option \<Rightarrow> string" where
  \<comment> \<open>\<open>t or 3\<close>: a tram's 0 counts as absent\<close>
  "gtfs_route_type_to_mode t = (let n = (case t of None \<Rightarrow> 3 | Some n \<Rightarrow> if n = 0 then 3 else n) in
     or_else (map_of [(0, ''TRAM''), (1, ''SUBWAY''), (2, ''RAIL''), (3, ''BUS''), (4, ''FERRY''), (5, ''CABLE_CAR''), (6, ''GONDOLA''),
       (7, ''FUNICULAR''), (11, ''TROLLEYBUS''), (12, ''MONORAIL'')] n) ''BUS'')"

record route_row =
  rr_id :: "string option"
  rr_short :: "string option"
  rr_long :: "string option"
  rr_color :: "string option"
  rr_text :: "string option"
  rr_type :: "int option"
  rr_agency :: "string option"
  rr_component :: "string option"

definition route_ref_from_db :: "city \<Rightarrow> route_row option \<Rightarrow> string option \<Rightarrow> wire_route option" where
  "route_ref_from_db c row raw_id = map_option (\<lambda>r.
     \<lparr>wr_id = scoped c (str_or (rr_id r) raw_id), wr_short = rr_short r, wr_long = rr_long r, wr_color = rr_color r, wr_text = rr_text r,
      wr_mode = gtfs_route_type_to_mode (rr_type r), wr_agency = rr_agency r,
      wr_component = or_else (str_or (rr_component r) (Some (component_of_agency c (rr_agency r)))) []\<rparr>) row"

section \<open>Stops and patterns\<close>

type_synonym feed_flags = "(string \<times> (string \<times> json) list) list"

definition set_feed_flags :: "string \<Rightarrow> (string \<times> json) list option \<Rightarrow> feed_flags \<Rightarrow> feed_flags" where
  "set_feed_flags city_id flags ff = AList.update city_id (or_else flags []) ff"

definition feed_flags :: "feed_flags \<Rightarrow> string \<Rightarrow> (string \<times> json) list" where
  "feed_flags ff city_id = or_else (map_of ff city_id) []"

definition wheelchair_unverified :: "feed_flags \<Rightarrow> city \<Rightarrow> bool" where
  "wheelchair_unverified ff c = truthy (or_else (map_of (feed_flags ff (ci_id c)) ''wheelchairUnverified'') JNull)"

definition wheelchair_of :: "string option \<Rightarrow> string" where
  \<comment> \<open>\<open>_WHEELCHAIR\<close> on the enumeration of GraphQL\<close>
  "wheelchair_of v = or_else (map_of [(Some ''POSSIBLE'', ''accessible''), (Some ''NOT_POSSIBLE'', ''not_accessible'')] v) ''unknown''"

definition wheelchair_code :: "int option \<Rightarrow> string" where
  \<comment> \<open>\<open>_WHEELCHAIR\<close> on GTFS codes\<close>
  "wheelchair_code v = or_else (map_of [(Some 1, ''accessible''), (Some 2, ''not_accessible'')] v) ''unknown''"

definition location_of :: "string option \<Rightarrow> string" where
  "location_of v = or_else (map_of [(Some ''STATION'', ''station''), (Some ''ENTRANCE'', ''entrance'')] v) ''stop''"

definition location_code :: "int option \<Rightarrow> string" where
  "location_code v = or_else (map_of [(Some 1, ''station''), (Some 2, ''entrance'')] v) ''stop''"

record otp_stop =
  op_gtfs :: string
  op_code :: "string option"
  op_name :: "string option"
  op_lat :: "rat option"
  op_lon :: "rat option"
  op_location :: "string option"
  op_wheelchair :: "string option"
  op_parent :: "string option"

record stop_row =
  sr_stop :: string
  sr_code :: "string option"
  sr_name :: "string option"
  sr_lat :: rat
  sr_lon :: rat
  sr_location :: "int option"
  sr_component :: "string option"
  sr_wheelchair :: "int option"
  sr_parent :: "string option"

record wire_stop =
  ws_id :: "string option"
  ws_code :: "string option"
  ws_name :: string
  ws_lat :: "rat option"
  ws_lon :: "rat option"
  ws_location :: string
  ws_component :: "string option"
  ws_wheelchair :: string
  ws_access :: access_block
  ws_parent :: "string option"

definition stop_from_otp :: "feed_flags \<Rightarrow> city \<Rightarrow> otp_stop option \<Rightarrow> wire_stop option" where
  "stop_from_otp ff c s = map_option (\<lambda>s. \<lparr>ws_id = Some (op_gtfs s), ws_code = op_code s,
     ws_name = or_else (str_or (op_name s) (Some (op_gtfs s))) [], ws_lat = op_lat s, ws_lon = op_lon s,
     ws_location = location_of (op_location s), ws_component = None, ws_wheelchair = wheelchair_of (op_wheelchair s),
     ws_access = accessibility_block (wheelchair_of (op_wheelchair s)) (wheelchair_unverified ff c) ''es'', ws_parent = op_parent s\<rparr>) s"

definition stop_from_db :: "feed_flags \<Rightarrow> city \<Rightarrow> stop_row \<Rightarrow> wire_stop" where
  "stop_from_db ff c r = \<lparr>ws_id = scoped c (Some (sr_stop r)), ws_code = sr_code r, ws_name = strip (or_else (sr_name r) []),
     ws_lat = Some (sr_lat r), ws_lon = Some (sr_lon r), ws_location = location_code (sr_location r), ws_component = sr_component r,
     ws_wheelchair = wheelchair_code (sr_wheelchair r),
     ws_access = accessibility_block (wheelchair_code (sr_wheelchair r)) (wheelchair_unverified ff c) ''es'',
     ws_parent = (if truthy_str (sr_parent r) then scoped c (sr_parent r) else None)\<rparr>"

definition clean_headsign :: "(string \<Rightarrow> string) \<Rightarrow> string option \<Rightarrow> string option \<Rightarrow> string option" where
  \<comment> \<open>\<open>casefold\<close>: Unicode case folding\<close>
  "clean_headsign casefold headsign short = (if \<not> truthy_str headsign then None else
     let h = strip (the headsign) in
     if truthy_str short \<and> casefold h = casefold (strip (the short)) then None else if h = [] then None else Some h)"

record otp_pattern =
  pt_code :: string
  pt_headsign :: "string option"
  pt_direction :: "int option"
  pt_points :: "string option"
  pt_stops :: "otp_stop option list"

record wire_pattern =
  wt_id :: string
  wt_headsign :: "string option"
  wt_direction :: "int option"
  wt_geometry :: "string option"
  wt_stops :: "wire_stop list"

definition text_opt :: "string option \<Rightarrow> string option" where
  \<comment> \<open>empty texts count as absent\<close>
  "text_opt s = (if truthy_str s then s else None)"

definition pattern_from_otp :: "(string \<Rightarrow> string) \<Rightarrow> feed_flags \<Rightarrow> city \<Rightarrow> otp_pattern \<Rightarrow> string option \<Rightarrow> wire_pattern" where
  "pattern_from_otp casefold ff c p short = (let stops = List.map_filter (stop_from_otp ff c) (pt_stops p) in
     \<lparr>wt_id = pt_code p,
      wt_headsign = str_or (clean_headsign casefold (pt_headsign p) short) (if stops = [] then None else Some (ws_name (last stops))),
      wt_direction = (if pt_direction p \<in> {Some 0, Some 1} then pt_direction p else None),
      wt_geometry = text_opt (pt_points p), wt_stops = stops\<rparr>)"

section \<open>Alerts and departures from the schedule\<close>

record otp_alert =
  oal_id :: "string option"
  oal_cause :: "string option"
  oal_effect :: "string option"
  oal_severity :: "string option"
  oal_header :: "string option"
  oal_description :: "string option"
  oal_url :: "string option"
  oal_start :: "int option"
  oal_end :: "int option"
  oal_entities :: "(string \<times> string) option list"

record wire_alert =
  wa_id :: string
  wa_cause :: "string option"
  wa_effect :: "string option"
  wa_severity :: string
  wa_from_feed :: bool
  wa_header :: "string option"
  wa_description :: "string option"
  wa_url :: "string option"
  wa_start :: "string option"
  wa_end :: "string option"
  wa_routes :: "string list"
  wa_stops :: "string list"

definition entities_of :: "string \<Rightarrow> otp_alert \<Rightarrow> string list" where
  \<comment> \<open>the ids of the entities of a type\<close>
  "entities_of kind a = List.map_filter (\<lambda>e. case e of Some (t, i) \<Rightarrow> if t = kind then Some i else None | None \<Rightarrow> None) (oal_entities a)"

definition alert_of :: "otp_alert \<Rightarrow> wire_alert" where
  "alert_of a = \<lparr>wa_id = or_else (oal_id a) ''None'', wa_cause = oal_cause a, wa_effect = oal_effect a,
     wa_severity = infer_severity (oal_severity a) (oal_effect a), wa_from_feed = (oal_severity a \<in> Some ` {''INFO'', ''WARNING'', ''SEVERE''}),
     wa_header = oal_header a, wa_description = text_opt (oal_description a), wa_url = oal_url a,
     wa_start = rt_iso (oal_start a), wa_end = rt_iso (oal_end a), wa_routes = entities_of ''Route'' a, wa_stops = entities_of ''Stop'' a\<rparr>"

record otp_time =
  ot_scheduled :: "string option"
  ot_estimated :: "(string option \<times> string option) option" \<comment> \<open>time and delay\<close>

definition leg_time :: "otp_time option \<Rightarrow> string option \<times> string option \<times> int option" where
  \<comment> \<open>\<open>_time\<close>: effective time, scheduled time, delay\<close>
  "leg_time lt = (case lt of None \<Rightarrow> (None, None, None) | Some t \<Rightarrow> (case ot_estimated t of
       Some (time, delay) \<Rightarrow> if truthy_str time then (time, ot_scheduled t, parse_duration delay) else (ot_scheduled t, ot_scheduled t, None)
     | None \<Rightarrow> (ot_scheduled t, ot_scheduled t, None)))"

section \<open>Rental vehicles\<close>

datatype otp_count = Total "int option" | Plain int

definition count_of :: "otp_count option \<Rightarrow> int option" where
  "count_of v = (case v of None \<Rightarrow> None | Some (Total t) \<Rightarrow> t | Some (Plain n) \<Rightarrow> Some n)"

record otp_station =
  os_station :: "string option"
  os_name :: "string option"
  os_lat :: "rat option"
  os_lon :: "rat option"
  os_network :: "string option"
  os_vehicles :: "otp_count option"
  os_spaces :: "otp_count option"

record station_ref =
  rf_station :: string
  rf_name :: "string option"
  rf_lat :: "rat option"
  rf_lon :: "rat option"
  rf_vehicles :: "int option"
  rf_docks :: "int option"
  rf_reported :: "string option"
  rf_lookup :: "(string option \<times> string) option" \<comment> \<open>the private keys \<open>_otpNetwork\<close> and \<open>_raw\<close>\<close>

definition raw_station :: "bike_network option \<Rightarrow> string \<Rightarrow> string" where
  "raw_station net raw = (case net of None \<Rightarrow> raw | Some n \<Rightarrow>
     if startswith raw (bk_network n @ '':'') then (case split_once CHR '':'' raw of Some (_, r) \<Rightarrow> r | None \<Rightarrow> raw) else raw)"

definition rental_station_ref :: "city \<Rightarrow> otp_station option \<Rightarrow> station_ref option" where
  "rental_station_ref c st = (case st of None \<Rightarrow> None | Some s \<Rightarrow> if \<not> truthy_str (os_station s) then None else
     let net = bike_network_of c (os_network s); raw = raw_station net (the (os_station s)) in
     Some \<lparr>rf_station = (case net of Some n \<Rightarrow> bk_id n @ '':'' @ raw | None \<Rightarrow> raw), rf_name = os_name s, rf_lat = os_lat s, rf_lon = os_lon s,
       rf_vehicles = count_of (os_vehicles s), rf_docks = count_of (os_spaces s), rf_reported = None, rf_lookup = Some (os_network s, raw)\<rparr>)"

record otp_vehicle =
  ov_network :: "string option"
  ov_form :: "string option"
  ov_propulsion :: "string option"

record otp_place =
  ol_name :: "string option"
  ol_lat :: "rat option"
  ol_lon :: "rat option"
  ol_stop :: "(string option \<times> string option) option" \<comment> \<open>its GTFS id and code\<close>
  ol_arrival :: "otp_time option"
  ol_departure :: "otp_time option"
  ol_station :: "otp_station option"
  ol_vehicle :: "otp_vehicle option"

record wire_place = place +
  wp_arrival :: "string option"
  wp_departure :: "string option"
  wp_component :: "string option"

definition place_from_otp :: "city \<Rightarrow> otp_place option \<Rightarrow> string option \<Rightarrow> wire_place option" where
  "place_from_otp c p component = map_option (\<lambda>p. \<lparr>place_name = ol_name p, place_lat = ol_lat p, place_lon = ol_lon p,
     place_stop_id = Option.bind (ol_stop p) fst, place_stop_code = Option.bind (ol_stop p) snd,
     rental_station_id = map_option rf_station (rental_station_ref c (ol_station p)),
     wp_arrival = fst (leg_time (ol_arrival p)), wp_departure = fst (leg_time (ol_departure p)),
     wp_component = (if ol_stop p = None then None else component)\<rparr>) p"

definition no_otp_place :: otp_place where
  "no_otp_place = \<lparr>ol_name = None, ol_lat = None, ol_lon = None, ol_stop = None, ol_arrival = None, ol_departure = None, ol_station = None, ol_vehicle = None\<rparr>"

definition VEHICLE_TYPE :: "((string option \<times> string option) \<times> string) list" where
  "VEHICLE_TYPE = [((Some ''BICYCLE'', Some ''ELECTRIC_ASSIST''), ''electric_assist''), ((Some ''BICYCLE'', Some ''ELECTRIC''), ''electric_assist''),
     ((Some ''SCOOTER'', None), ''scooter''), ((Some ''SCOOTER_STANDING'', None), ''scooter''), ((Some ''SCOOTER_SEATED'', None), ''scooter'')]"

definition vehicle_type_of :: "otp_vehicle option \<Rightarrow> string option \<Rightarrow> string option" where
  "vehicle_type_of v mode = (let form = map_option upper (text_opt (Option.bind v ov_form)); prop = map_option upper (text_opt (Option.bind v ov_propulsion)) in
     case map_of VEHICLE_TYPE (form, prop) of Some t \<Rightarrow> Some t | None \<Rightarrow>
     (case map_of VEHICLE_TYPE (form, None) of Some t \<Rightarrow> Some t | None \<Rightarrow>
      if form = Some ''BICYCLE'' \<or> mode = Some ''BICYCLE'' then Some ''bicycle'' else None))"

record wire_rental = rental_info +
  wn_color :: "string option"
  wn_pickup :: "station_ref option"
  wn_dropoff :: "station_ref option"
  wn_free :: bool

record otp_step =
  st_direction :: "string option"
  st_absolute :: "string option"
  st_street :: "string option"
  st_distance :: "rat option"
  st_lat :: "rat option"
  st_lon :: "rat option"

record otp_leg =
  og_mode :: "string option"
  og_transit :: bool
  og_start :: "otp_time option"
  og_end :: "otp_time option"
  og_duration :: "rat option"
  og_distance :: "rat option"
  og_from :: "otp_place option"
  og_to :: "otp_place option"
  og_route :: "otp_route option"
  og_headsign :: "string option"
  og_agency :: "otp_agency option"
  og_points :: "string option"
  og_realtime :: bool
  og_state :: "string option"
  og_trip :: "string option"
  og_stops :: "otp_stop option list"
  og_steps :: "otp_step option list"
  og_alerts :: "otp_alert option list"
  og_rented :: bool

definition otp_network :: "otp_station option \<Rightarrow> otp_station option \<Rightarrow> otp_vehicle option \<Rightarrow> string option" where
  \<comment> \<open>the first network named: pick-up, drop-off, vehicle\<close>
  "otp_network a b v = Option.bind (find truthy_str [Option.bind a os_network, Option.bind b os_network, Option.bind v ov_network]) id"

definition rental_price_of :: "(string \<times> price_estimate) list \<Rightarrow> bike_network option \<Rightarrow> otp_leg \<Rightarrow> string option \<Rightarrow> price_estimate option" where
  \<comment> \<open>pay-as-you-go is priced from this ride, everything else from the shared quote\<close>
  "rental_price_of prices net lg vtype = (case net of None \<Rightarrow> None | Some n \<Rightarrow> (case bk_per_minute n of
       Some pm \<Rightarrow> Some (ride_quote pm (Some (or_else (og_duration lg) 0 / 60)) (vtype = Some ''electric_assist''))
     | None \<Rightarrow> map_of prices (bk_id n)))"

definition rental_from_otp :: "city \<Rightarrow> (string \<times> price_estimate) list \<Rightarrow> otp_leg \<Rightarrow> wire_rental option" where
  "rental_from_otp c prices lg = (let fp = or_else (og_from lg) no_otp_place; tp = or_else (og_to lg) no_otp_place;
       a = ol_station fp; b = ol_station tp; v = (case ol_vehicle fp of Some v \<Rightarrow> Some v | None \<Rightarrow> ol_vehicle tp) in
     if \<not> (og_rented lg \<or> a \<noteq> None \<or> b \<noteq> None \<or> v \<noteq> None) then None
     else if og_mode lg \<notin> {Some ''BICYCLE'', Some ''SCOOTER'', None} then None
     else let otp_net = otp_network a b v; net = bike_network_of c otp_net; vtype = vehicle_type_of v (og_mode lg) in
       Some \<lparr>network_id = (case net of Some n \<Rightarrow> bk_id n | None \<Rightarrow> or_else otp_net ''unknown''),
         network_name = (case net of Some n \<Rightarrow> Some (bk_name n) | None \<Rightarrow> otp_net), vehicle_type = vtype,
         rental_price = rental_price_of prices net lg vtype, wn_color = map_option bk_color net,
         wn_pickup = rental_station_ref c a, wn_dropoff = rental_station_ref c b, wn_free = (v \<noteq> None \<and> a = None)\<rparr>)"

section \<open>Legs\<close>

definition STEP_WORDS_ES :: "(string \<times> string) list" where
  "STEP_WORDS_ES = [(''DEPART'', ''Sal por''), (''CONTINUE'', ''Contin'' @ [CHR 0xC3] @ [CHR 0xBA] @ ''a por''), (''LEFT'', ''Gira a la izquierda en''),
     (''RIGHT'', ''Gira a la derecha en''), (''SLIGHTLY_LEFT'', ''Gira levemente a la izquierda en''), (''SLIGHTLY_RIGHT'', ''Gira levemente a la derecha en''),
     (''HARD_LEFT'', ''Gira fuerte a la izquierda en''), (''HARD_RIGHT'', ''Gira fuerte a la derecha en''), (''UTURN_LEFT'', ''Da la vuelta en''),
     (''UTURN_RIGHT'', ''Da la vuelta en''), (''ENTER_STATION'', ''Entra a la estaci'' @ [CHR 0xC3] @ [CHR 0xB3] @ ''n''), (''EXIT_STATION'', ''Sal de la estaci'' @ [CHR 0xC3] @ [CHR 0xB3] @ ''n''),
     (''ELEVATOR'', ''Toma el ascensor''), (''FOLLOW_SIGNS'', ''Sigue las se'' @ [CHR 0xC3] @ [CHR 0xB1] @ ''ales hacia''), (''CIRCLE_CLOCKWISE'', ''Toma la glorieta hacia''),
     (''CIRCLE_COUNTERCLOCKWISE'', ''Toma la glorieta hacia'')]"

definition STEP_WORDS_EN :: "(string \<times> string) list" where
  "STEP_WORDS_EN = [(''DEPART'', ''Head along''), (''CONTINUE'', ''Continue on''), (''LEFT'', ''Turn left onto''),
     (''RIGHT'', ''Turn right onto''), (''SLIGHTLY_LEFT'', ''Bear left onto''), (''SLIGHTLY_RIGHT'', ''Bear right onto''),
     (''HARD_LEFT'', ''Turn sharp left onto''), (''HARD_RIGHT'', ''Turn sharp right onto''), (''UTURN_LEFT'', ''Make a U-turn onto''),
     (''UTURN_RIGHT'', ''Make a U-turn onto''), (''ENTER_STATION'', ''Enter the station''), (''EXIT_STATION'', ''Exit the station''),
     (''ELEVATOR'', ''Take the elevator''), (''FOLLOW_SIGNS'', ''Follow signs to''), (''CIRCLE_CLOCKWISE'', ''Take the roundabout to''),
     (''CIRCLE_COUNTERCLOCKWISE'', ''Take the roundabout to'')]"

definition instruction :: "string \<Rightarrow> otp_step \<Rightarrow> string" where
  "instruction locale s = (let words = (if english locale then STEP_WORDS_EN else STEP_WORDS_ES);
       verb = or_else (map_of words (or_else (str_or (st_direction s) (Some ''CONTINUE'')) [])) (or_else (map_of words ''CONTINUE'') []);
       street = or_else (str_or (st_street s) (Some (if english locale then ''path'' else ''camino''))) [] in verb @ '' '' @ street)"

record wire_step =
  wx_instruction :: string
  wx_distance :: rat
  wx_lat :: "rat option"
  wx_lon :: "rat option"
  wx_direction :: "string option"
  wx_absolute :: "string option"
  wx_street :: "string option"

definition step_of :: "string \<Rightarrow> otp_step \<Rightarrow> wire_step" where
  "step_of locale s = \<lparr>wx_instruction = instruction locale s, wx_distance = py_round_to 1 (or_else (st_distance s) 0), wx_lat = st_lat s, wx_lon = st_lon s,
     wx_direction = st_direction s, wx_absolute = st_absolute s, wx_street = st_street s\<rparr>"

record wire_leg =
  wl_mode :: string
  wl_transit :: bool
  wl_start :: "string option"
  wl_end :: "string option"
  wl_duration :: int
  wl_distance :: rat
  wl_from :: "wire_place option"
  wl_to :: "wire_place option"
  wl_route :: "wire_route option"
  wl_headsign :: "string option"
  wl_agency :: "(string option \<times> string option) option"
  wl_trip :: "string option"
  wl_realtime :: bool
  wl_state :: "string option"
  wl_delay :: "int option"
  wl_geometry :: "string option"
  wl_stops :: "wire_place list"
  wl_steps :: "wire_step list"
  wl_alerts :: "wire_alert list"
  wl_rental :: "wire_rental option"

definition passed_stop :: "string option \<Rightarrow> otp_stop \<Rightarrow> wire_place" where
  "passed_stop component s = \<lparr>place_name = op_name s, place_lat = op_lat s, place_lon = op_lon s, place_stop_id = Some (op_gtfs s),
     place_stop_code = op_code s, rental_station_id = None, wp_arrival = None, wp_departure = None, wp_component = component\<rparr>"

definition leg_agency :: "city \<Rightarrow> otp_leg \<Rightarrow> (string option \<times> string option) option" where
  "leg_agency c lg = map_option (\<lambda>a. (if truthy_str (oa_id a) then Some (unscoped c (the (oa_id a))) else None, oa_name a))
     (case og_agency lg of Some a \<Rightarrow> Some a | None \<Rightarrow> Option.bind (og_route lg) or_agency)"

definition leg_from_otp :: "(string \<Rightarrow> string) \<Rightarrow> city \<Rightarrow> string \<Rightarrow> (string \<times> price_estimate) list \<Rightarrow> otp_leg \<Rightarrow> wire_leg" where
  "leg_from_otp casefold c locale prices lg = (let st = leg_time (og_start lg); en = leg_time (og_end lg); r = route_ref_of c (og_route lg) None;
       component = map_option wr_component r in
     \<lparr>wl_mode = or_else (str_or (og_mode lg) (Some (if og_transit lg then ''BUS'' else ''WALK''))) [], wl_transit = og_transit lg,
      wl_start = fst st, wl_end = fst en, wl_duration = py_trunc (or_else (og_duration lg) 0), wl_distance = py_round_to 1 (or_else (og_distance lg) 0),
      wl_from = place_from_otp c (og_from lg) component, wl_to = place_from_otp c (og_to lg) component, wl_route = r,
      wl_headsign = clean_headsign casefold (og_headsign lg) (Option.bind r wr_short), wl_agency = leg_agency c lg, wl_trip = og_trip lg,
      wl_realtime = (og_realtime lg \<or> Option.bind (og_start lg) ot_estimated \<noteq> None), wl_state = (if og_transit lg then og_state lg else None),
      wl_delay = (case snd (snd st) of Some d \<Rightarrow> Some d | None \<Rightarrow> snd (snd en)), wl_geometry = text_opt (og_points lg),
      wl_stops = map (passed_stop component) (List.map_filter id (og_stops lg)), wl_steps = map (step_of locale) (List.map_filter id (og_steps lg)),
      wl_alerts = map alert_of (List.map_filter id (og_alerts lg)), wl_rental = rental_from_otp c prices lg\<rparr>)"

definition planner_route :: "wire_route \<Rightarrow> route_ref" where
  "planner_route r = \<lparr>route_id = wr_id r, short_name = wr_short r, long_name = wr_long r, route_mode = Some (wr_mode r), route_component = Some (wr_component r)\<rparr>"

definition planner_leg :: "wire_leg \<Rightarrow> leg" where
  \<comment> \<open>the keys the fare estimate and the merges read\<close>
  "planner_leg w = \<lparr>leg_mode = Some (wl_mode w), transit = wl_transit w, leg_start = wl_start w, leg_end = wl_end w, leg_duration = Some (wl_duration w),
     leg_distance = Some (wl_distance w), leg_from = map_option place.truncate (wl_from w), leg_to = map_option place.truncate (wl_to w),
     leg_route = map_option planner_route (wl_route w), leg_trip_id = wl_trip w, leg_realtime = wl_realtime w,
     leg_rental = map_option rental_info.truncate (wl_rental w), leg_on_demand = None, duration_factor = None, park_ride = False\<rparr>"

section \<open>Itineraries and plans\<close>

record otp_itinerary =
  oi_start :: "string option"
  oi_end :: "string option"
  oi_duration :: "rat option"
  oi_walk_distance :: "rat option"
  oi_walk_time :: "rat option"
  oi_waiting :: "rat option"
  oi_transfers :: "int option"
  oi_score :: "rat option"
  oi_legs :: "otp_leg option list"

record wire_itinerary =
  wi_id :: string
  wi_start :: "string option"
  wi_end :: "string option"
  wi_duration :: int
  wi_walk_distance :: rat
  wi_walk_time :: int
  wi_waiting :: int
  wi_transfers :: int
  wi_fare :: "fare option"
  wi_accessible :: "bool option"
  wi_rental_legs :: nat
  wi_modes :: "string list"
  wi_source :: string
  wi_legs :: "wire_leg list"

definition mode_used :: "wire_leg \<Rightarrow> string" where
  "mode_used w = (case wl_rental w of Some r \<Rightarrow> if vehicle_type r = Some ''scooter'' then ''SCOOTER_RENTAL'' else ''BICYCLE_RENTAL''
     | None \<Rightarrow> if wl_mode w = [] then ''WALK'' else wl_mode w)"

definition modes_of :: "wire_leg list \<Rightarrow> string list" where
  \<comment> \<open>each mode once, in the order it is first used\<close>
  "modes_of ls = fold (\<lambda>w ms. if mode_used w \<in> set ms then ms else ms @ [mode_used w]) ls []"

record plan_context =
  pc_casefold :: "string \<Rightarrow> string"
  pc_show_float :: "rat \<Rightarrow> string"
  pc_city :: city
  pc_locale :: string
  pc_prices :: "(string \<times> price_estimate) list"

definition itinerary_from_otp :: "plan_context \<Rightarrow> otp_itinerary \<Rightarrow> nat \<Rightarrow> wire_itinerary" where
  "itinerary_from_otp x it idx = (let c = pc_city x; ls = map (leg_from_otp (pc_casefold x) c (pc_locale x) (pc_prices x)) (List.map_filter id (oi_legs it)) in
     \<lparr>wi_id = ''it-'' @ show_nat idx, wi_start = oi_start it, wi_end = oi_end it, wi_duration = py_trunc (or_else (oi_duration it) 0),
      wi_walk_distance = py_round_to 1 (or_else (oi_walk_distance it) 0), wi_walk_time = py_trunc (or_else (oi_walk_time it) 0),
      wi_waiting = py_trunc (or_else (oi_waiting it) 0), wi_transfers = or_else (oi_transfers it) 0,
      wi_fare = estimate_fare (charges_per_minute c) (pc_show_float x) (fares_config_of c) (map planner_leg ls) (pc_locale x) None,
      wi_accessible = map_option (\<lambda>s. 99 / 100 \<le> s) (oi_score it), wi_rental_legs = length (filter (\<lambda>w. wl_rental w \<noteq> None) ls),
      wi_modes = modes_of ls, wi_source = ''primary'', wi_legs = ls\<rparr>)"

definition planner_itinerary :: "nat \<Rightarrow> wire_itinerary \<Rightarrow> itinerary" where
  \<comment> \<open>the itinerary of the merging code; the first argument is its object identity\<close>
  "planner_itinerary n w = \<lparr>obj = n, it_id = wi_id w, it_start = wi_start w, it_end = wi_end w, it_duration = Some (wi_duration w),
     walk_distance = Some (wi_walk_distance w), it_transfers = Some (wi_transfers w), it_fare = wi_fare w, rental_legs = Some (int (wi_rental_legs w)),
     modes_used = wi_modes w, it_source = Some (wi_source w), legs = map planner_leg (wi_legs w)\<rparr>"

record otp_answer =
  oq_edges :: "otp_itinerary option list"
  oq_errors :: "(string option \<times> string option) list"

record wire_end =
  we_name :: "string option"
  we_lat :: rat
  we_lon :: rat

record wire_plan =
  wq_from :: wire_end
  wq_to :: wire_end
  wq_itineraries :: "wire_itinerary list"
  wq_version :: "string option"
  wq_warnings :: "string list"

fun itineraries_from :: "plan_context \<Rightarrow> nat \<Rightarrow> otp_itinerary option list \<Rightarrow> wire_itinerary list" where
  \<comment> \<open>\<open>for i, e in enumerate(edges) if e\<close>: an empty edge keeps its number\<close>
  "itineraries_from x n [] = []"
| "itineraries_from x n (None # es) = itineraries_from x (n + 1) es"
| "itineraries_from x n (Some e # es) = itinerary_from_otp x e n # itineraries_from x (n + 1) es"

definition plan_from_otp :: "plan_context \<Rightarrow> otp_answer option \<Rightarrow> wire_end \<Rightarrow> wire_end \<Rightarrow> string option \<Rightarrow> wire_plan" where
  \<comment> \<open>\<open>None\<close>: no \<open>planConnection\<close>\<close>
  "plan_from_otp x answer origin dest version = (let a = or_else answer \<lparr>oq_edges = [], oq_errors = []\<rparr>; its = itineraries_from x 0 (oq_edges a);
       warnings = map (\<lambda>(code, desc). or_else code ''None'' @ '': '' @ or_else desc ''None'') (oq_errors a) in
     \<lparr>wq_from = origin, wq_to = dest, wq_itineraries = its, wq_version = version,
      wq_warnings = (if its = [] \<and> warnings = [] then [''NO_ITINERARIES: no itineraries found for this search''] else warnings)\<rparr>)"

definition named :: "string \<Rightarrow> wire_place option \<Rightarrow> py_error + wire_place option" where
  \<comment> \<open>a place that is not a stop takes the name; \<open>None.get\<close> raises\<close>
  "named name p = (case p of None \<Rightarrow> Inl AttributeError | Some p \<Rightarrow>
     Inr (Some (if truthy_str (place_stop_id p) then p else p\<lparr>place_name := Some name\<rparr>)))"

definition name_start :: "string \<Rightarrow> wire_itinerary \<Rightarrow> py_error + wire_itinerary" where
  "name_start name it = (case wi_legs it of [] \<Rightarrow> Inr it | w # ls \<Rightarrow>
     and_then (named name (wl_from w)) (\<lambda>p. Inr (it\<lparr>wi_legs := w\<lparr>wl_from := p\<rparr> # ls\<rparr>)))"

definition name_end :: "string \<Rightarrow> wire_itinerary \<Rightarrow> py_error + wire_itinerary" where
  "name_end name it = (case wi_legs it of [] \<Rightarrow> Inr it | _ \<Rightarrow>
     and_then (named name (wl_to (last (wi_legs it)))) (\<lambda>p. Inr (it\<lparr>wi_legs := butlast (wi_legs it) @ [(last (wi_legs it))\<lparr>wl_to := p\<rparr>]\<rparr>)))"

definition apply_endpoint_names :: "wire_plan \<Rightarrow> string option \<Rightarrow> string option \<Rightarrow> py_error + wire_plan" where
  "apply_endpoint_names plan from_name to_name =
     and_then (if \<not> truthy_str from_name then Inr plan else
       and_then (traverse (name_start (the from_name)) (wq_itineraries plan))
         (\<lambda>its. Inr (plan\<lparr>wq_from := (wq_from plan)\<lparr>we_name := from_name\<rparr>, wq_itineraries := its\<rparr>)))
     (\<lambda>plan. if \<not> truthy_str to_name then Inr plan else
       and_then (traverse (name_end (the to_name)) (wq_itineraries plan))
         (\<lambda>its. Inr (plan\<lparr>wq_to := (wq_to plan)\<lparr>we_name := to_name\<rparr>, wq_itineraries := its\<rparr>)))"

record live_station =
  lv_name :: "string option"
  lv_vehicles :: "int option"
  lv_docks :: "int option"
  lv_reported :: "string option"

definition enrich_ref :: "(string option \<Rightarrow> string \<Rightarrow> live_station option) \<Rightarrow> station_ref \<Rightarrow> station_ref" where
  \<comment> \<open>the private keys are popped whether or not the station is known\<close>
  "enrich_ref lookup r = (let live = (case rf_lookup r of None \<Rightarrow> None | Some (n, raw) \<Rightarrow> lookup n raw); r = r\<lparr>rf_lookup := None\<rparr> in
     case live of None \<Rightarrow> r | Some s \<Rightarrow> r\<lparr>rf_name := str_or (lv_name s) (rf_name r), rf_vehicles := lv_vehicles s, rf_docks := lv_docks s, rf_reported := lv_reported s\<rparr>)"

definition enrich_leg :: "(string option \<Rightarrow> string \<Rightarrow> live_station option) \<Rightarrow> wire_leg \<Rightarrow> wire_leg" where
  "enrich_leg lookup w = w\<lparr>wl_rental := map_option (\<lambda>r. r\<lparr>wn_pickup := map_option (enrich_ref lookup) (wn_pickup r),
     wn_dropoff := map_option (enrich_ref lookup) (wn_dropoff r)\<rparr>) (wl_rental w)\<rparr>"

definition enrich_rental :: "(string option \<Rightarrow> string \<Rightarrow> live_station option) \<Rightarrow> wire_plan \<Rightarrow> wire_plan" where
  "enrich_rental lookup plan = plan\<lparr>wq_itineraries := map (\<lambda>it. it\<lparr>wi_legs := map (enrich_leg lookup) (wi_legs it)\<rparr>) (wq_itineraries plan)\<rparr>"

section \<open>Times read back\<close>

lemma utc_iso_text:
  "utc_iso ts = show_day ((ts + unix_epoch) div 86400) @ CHR ''T'' # show_clock (nat ((ts + unix_epoch) mod 86400)) @ ''Z''"
proof -
  have "iso_show (of_int t, None) = show_day (t div 86400) @ CHR ''T'' # show_clock (nat (t mod 86400))" for t
    by (simp add: iso_show_def Let_def day_seconds_def show_offset_def)
  then show ?thesis by (simp only: utc_iso_def) simp
qed

definition in_calendar :: "int \<Rightarrow> bool" where
  \<comment> \<open>the instants of the years 1 to 9999\<close>
  "in_calendar ts \<longleftrightarrow> 86400 \<le> ts + unix_epoch \<and> (ts + unix_epoch) div 86400 \<le> 3652059"

lemma utc_iso_instant:
  assumes "in_calendar ts"
  shows "iso_instant (utc_iso ts) = Some (of_int (ts + unix_epoch))"
proof -
  let ?t = "ts + unix_epoch"
  let ?d = "?t div 86400" and ?s = "nat (?t mod 86400)"
  have b: "86400 \<le> ?t" "?d \<le> 3652059" using assms by (simp_all add: in_calendar_def)
  have "1 \<le> ?d" using b(1) zdiv_mono1[of 86400 ?t 86400] by simp
  note day = parse_show_day[OF this year_of_limit[OF this b(2)]]
  have s: "?s < 86400" by (simp add: nat_less_iff)
  have z: "split_offset (show_clock ?s @ ''Z'') = (show_clock ?s, Some (Some 0))" by (simp add: split_offset_def)
  have "of_int (?d * 86400) + of_nat ?s = (of_int ?t :: rat)"
    using div_mult_mod_eq[of ?t 86400] by (metis nat_0_le of_int_add of_int_of_nat_eq pos_mod_sign zero_less_numeral)
  then show ?thesis unfolding iso_instant_def iso_local_def utc_iso_text using day parse_show_clock[OF s] z
    by (simp add: day_seconds_def)
qed

lemma iso_epoch_utc: "in_calendar ts \<Longrightarrow> iso_epoch (utc_iso ts) = Some ts"
  by (simp add: iso_epoch_def utc_iso_instant py_trunc_def)

section \<open>Durations read back\<close>

definition unit_text :: "nat \<Rightarrow> string \<Rightarrow> string" where
  \<comment> \<open>a part of a duration; zero parts are left out\<close>
  "unit_text n u = (if n = 0 then [] else show_nat n @ u)"

definition duration_text :: "int \<Rightarrow> string" where
  \<comment> \<open>\<open>java.time.Duration.toString\<close> of whole seconds, the sign in front as the router's scalar writes it\<close>
  "duration_text n = (if n = 0 then ''PT0S'' else let k = nat \<bar>n\<bar> in
     (if n < 0 then ''-'' else []) @ ''PT'' @ unit_text (k div 3600) ''H'' @ unit_text (k mod 3600 div 60) ''M'' @ unit_text (k mod 60) ''S'')"

lemma takeWhile_number: "rest = [] \<or> \<not> is_digit (hd rest) \<Longrightarrow> takeWhile is_digit (show_nat n @ rest) = show_nat n"
  using show_nat_digits[of n] by (cases rest) (auto simp: list_all_iff takeWhile_append2 takeWhile_eq_all_conv[THEN iffD2])

lemma int_group_number:
  assumes "u \<noteq> []" "\<not> is_digit (hd u)"
  shows "int_group u (show_nat n @ u @ rest) = (n, rest)"
  using takeWhile_number[of "u @ rest" n] assms by (simp add: int_group_def digits_before_def Let_def startswith_def)

lemma int_group_other:
  assumes "s = [] \<or> \<not> is_digit (hd s) \<or> (\<exists>n c r. s = show_nat n @ c # r \<and> \<not> is_digit c \<and> [c] \<noteq> u)" "length u = 1"
  shows "int_group u s = (0, s)"
  using assms
proof (elim disjE exE conjE)
  fix n c r assume "s = show_nat n @ c # r" "\<not> is_digit c" "[c] \<noteq> u"
  then show ?thesis using takeWhile_number[of "c # r" n] assms(2)
    by (auto simp: int_group_def digits_before_def Let_def startswith_def length_Suc_conv)
qed (auto simp: int_group_def digits_before_def Let_def takeWhile_eq_Nil_iff)

lemma seconds_group_number: "seconds_group (show_nat n @ ''S'') = (of_nat n, [])"
  using takeWhile_number[of "''S''" n] by (simp add: seconds_group_def Let_def startswith_def is_digit_def)

lemma unit_letters: "\<not> is_digit CHR ''D''" "\<not> is_digit CHR ''H''" "\<not> is_digit CHR ''M''" "\<not> is_digit CHR ''S''" "\<not> is_digit CHR ''T''" "\<not> is_digit CHR ''P''"
  by (simp_all add: is_digit_def)

lemma hours_group: "int_group ''H'' (unit_text h ''H'' @ unit_text m ''M'' @ unit_text s ''S'') = (h, unit_text m ''M'' @ unit_text s ''S'')"
  using int_group_number[of "''H''" h] unit_letters
  by (cases "h = 0"; cases "m = 0"; cases "s = 0") (auto simp: unit_text_def intro!: int_group_other)

lemma minutes_group: "int_group ''M'' (unit_text m ''M'' @ unit_text s ''S'') = (m, unit_text s ''S'')"
  using int_group_number[of "''M''" m] unit_letters
  by (cases "m = 0"; cases "s = 0") (auto simp: unit_text_def intro!: int_group_other)

lemma seconds_part: "seconds_group (unit_text s ''S'') = (of_nat s, [])"
  using seconds_group_number[of s] by (cases "s = 0") (simp_all add: unit_text_def, simp add: seconds_group_def)

lemma days_absent: "int_group ''D'' (CHR ''T'' # s) = (0, CHR ''T'' # s)"
  by (rule int_group_other) (simp_all add: unit_letters)

lemma unsigned_duration_text:
  "unsigned_duration (''PT'' @ unit_text h ''H'' @ unit_text m ''M'' @ unit_text s ''S'') = Some (of_nat (h * 3600 + m * 60 + s))"
  by (simp add: unsigned_duration_def Let_def startswith_def days_absent hours_group minutes_group seconds_part)

lemma hms: "n div 3600 * 3600 + n mod 3600 div 60 * 60 + n mod 60 = (n :: nat)"
proof -
  have "n mod 3600 mod 60 = n mod 60" by (rule mod_mod_cancel) simp
  then show ?thesis using div_mult_mod_eq[of n 3600] div_mult_mod_eq[of "n mod 3600" 60] by linarith
qed

lemma parse_signed:
  assumes "unsigned_duration (CHR ''P'' # w) = Some (of_nat k)"
  shows "parse_duration (Some (CHR ''P'' # w)) = Some (int k)" "parse_duration (Some (CHR ''-'' # CHR ''P'' # w)) = Some (- int k)"
proof -
  have "py_trunc (of_nat k :: rat) = int k" "py_trunc (- of_nat k :: rat) = - int k"
    by (simp_all add: py_trunc_def) (simp add: ceiling_minus)
  then show "parse_duration (Some (CHR ''P'' # w)) = Some (int k)" "parse_duration (Some (CHR ''-'' # CHR ''P'' # w)) = Some (- int k)"
    using assms by (simp_all add: parse_duration_def startswith_def)
qed


section \<open>Plans hang together\<close>

lemma modes_fold: "set (fold (\<lambda>w ms. if mode_used w \<in> set ms then ms else ms @ [mode_used w]) ls ms) = set ms \<union> mode_used ` set ls
    \<and> (distinct ms \<longrightarrow> distinct (fold (\<lambda>w ms. if mode_used w \<in> set ms then ms else ms @ [mode_used w]) ls ms))"
  by (induction ls arbitrary: ms) auto

lemma modes_of: "set (modes_of ls) = mode_used ` set ls" "distinct (modes_of ls)"
  using modes_fold[of ls "[]"] by (simp_all add: modes_of_def)

lemma itinerary_modes: "wi_modes (itinerary_from_otp x e i) = modes_of (wi_legs (itinerary_from_otp x e i))"
  by (simp add: itinerary_from_otp_def Let_def)

lemma itinerary_id: "wi_id (itinerary_from_otp x e i) = ''it-'' @ show_nat i"
  by (simp add: itinerary_from_otp_def Let_def)

lemma itineraries_ids: "it \<in> set (itineraries_from x n es) \<Longrightarrow> \<exists>i \<ge> n. wi_id it = ''it-'' @ show_nat i"
  by (induction x n es rule: itineraries_from.induct) (auto simp: itinerary_id dest: Suc_leD)

lemma itineraries_distinct: "distinct (map wi_id (itineraries_from x n es))"
proof (induction x n es rule: itineraries_from.induct)
  case (3 x n e es)
  have "wi_id it \<noteq> ''it-'' @ show_nat n" if "it \<in> set (itineraries_from x (n + 1) es)" for it
    using itineraries_ids[OF that] show_nat_inj by fastforce
  then have "''it-'' @ show_nat n \<notin> wi_id ` set (itineraries_from x (n + 1) es)" by force
  then show ?case using 3 by (simp add: itinerary_id)
qed simp_all

lemma itineraries_shape: "it \<in> set (itineraries_from x n es) \<Longrightarrow> \<exists>e i. Some e \<in> set es \<and> it = itinerary_from_otp x e i"
  by (induction x n es rule: itineraries_from.induct) auto

definition coherent :: "plan_context \<Rightarrow> wire_itinerary \<Rightarrow> bool" where
  "coherent x it \<longleftrightarrow> wi_source it = ''primary'' \<and> distinct (wi_modes it) \<and> set (wi_modes it) = mode_used ` set (wi_legs it)
     \<and> wi_rental_legs it = length (filter (\<lambda>w. wl_rental w \<noteq> None) (wi_legs it))
     \<and> wi_fare it = estimate_fare (charges_per_minute (pc_city x)) (pc_show_float x) (fares_config_of (pc_city x)) (map planner_leg (wi_legs it)) (pc_locale x) None
     \<and> (has_rental (planner_itinerary 0 it) = list_ex (\<lambda>lg. leg_rental lg \<noteq> None) (map planner_leg (wi_legs it)))"

lemma itinerary_coherent: "coherent x (itinerary_from_otp x e i)"
proof -
  have m: "set (wi_modes (itinerary_from_otp x e i)) = mode_used ` set (wi_legs (itinerary_from_otp x e i))" "distinct (wi_modes (itinerary_from_otp x e i))"
    by (simp_all only: itinerary_modes modes_of)
  have r: "filter P xs \<noteq> [] \<longleftrightarrow> list_ex P xs" for P :: "wire_leg \<Rightarrow> bool" and xs by (induction xs) auto
  show ?thesis unfolding coherent_def using m
    by (simp add: itinerary_from_otp_def Let_def planner_itinerary_def has_rental_def planner_leg_def list_ex_iff filter_empty_conv)
qed

text \<open>C12: A normalised plan hangs together: one itinerary per edge of the router's answer that is not null, each under
  its own id, marked as found by the primary search, with every mode it uses listed once, the fare estimated
  from its own legs, and a count of rental legs that the merges read as "has a rental leg" exactly when a leg
  has one; and a plan without itineraries always says why.\<close>
theorem normalised_plan_is_coherent:
  assumes "p = plan_from_otp x (Some a) origin dest version"
  shows "length (wq_itineraries p) = length (filter (\<lambda>e. e \<noteq> None) (oq_edges a)) \<and> distinct (map wi_id (wq_itineraries p))
    \<and> list_all (coherent x) (wq_itineraries p) \<and> (wq_itineraries p = [] \<longrightarrow> wq_warnings p \<noteq> [])"
proof -
  have its: "wq_itineraries p = itineraries_from x 0 (oq_edges a)" by (simp add: assms plan_from_otp_def Let_def)
  have "length (itineraries_from x n es) = length (filter (\<lambda>e. e \<noteq> None) es)" for n es
    by (induction x n es rule: itineraries_from.induct) simp_all
  moreover have "distinct (map wi_id (itineraries_from x 0 es))" for es
    by (rule itineraries_distinct)
  moreover have "list_all (coherent x) (itineraries_from x 0 es)" for es
    using itineraries_shape itinerary_coherent by (fastforce simp: list_all_iff)
  moreover have "wq_itineraries p = [] \<longrightarrow> wq_warnings p \<noteq> []" by (simp add: assms plan_from_otp_def Let_def)
  ultimately show ?thesis using its by simp
qed

definition demo_walk :: otp_itinerary where
  "demo_walk = \<lparr>oi_start = Some ''2026-01-05T08:00:00-05:00'', oi_end = Some ''2026-01-05T08:10:00-05:00'', oi_duration = Some 600, oi_walk_distance = Some 700,
     oi_walk_time = Some 600, oi_waiting = None, oi_transfers = Some 0, oi_score = None, oi_legs = [None]\<rparr>"

definition demo_context :: plan_context where
  "demo_context = \<lparr>pc_casefold = lower, pc_show_float = (\<lambda>_. []), pc_city = demo_city, pc_locale = ''es'', pc_prices = []\<rparr>"

definition demo_end :: wire_end where
  "demo_end = \<lparr>we_name = None, we_lat = 4, we_lon = - 74\<rparr>"

theorem normalised_plan_is_coherent_witness:
  "length (wq_itineraries (plan_from_otp demo_context (Some \<lparr>oq_edges = [None, Some demo_walk, None], oq_errors = []\<rparr>) demo_end demo_end None)) = 1
   \<and> wq_warnings (plan_from_otp demo_context (Some \<lparr>oq_edges = [None], oq_errors = []\<rparr>) demo_end demo_end None) \<noteq> []"
proof -
  have "length (wq_itineraries (plan_from_otp demo_context (Some \<lparr>oq_edges = [None, Some demo_walk, None], oq_errors = []\<rparr>) demo_end demo_end None)) = 1"
    using normalised_plan_is_coherent[OF refl, of demo_context "\<lparr>oq_edges = [None, Some demo_walk, None], oq_errors = []\<rparr>" demo_end demo_end None] by simp
  moreover have "wq_itineraries (plan_from_otp demo_context (Some \<lparr>oq_edges = [None], oq_errors = []\<rparr>) demo_end demo_end None) = []"
    by (simp add: plan_from_otp_def Let_def)
  ultimately show ?thesis
    using normalised_plan_is_coherent[OF refl, of demo_context "\<lparr>oq_edges = [None], oq_errors = []\<rparr>" demo_end demo_end None] by blast
qed

end
