(* ===== verification/Departures.thy ===== *)
theory Departures
  imports Normalize Rt Polyline
begin

text \<open>
  Departures of a stop: from the router's stop times to rows (\<open>departure_from_otp\<close>, \<open>merge_departures\<close> and
  \<open>apply_stop_predictions\<close> of \<open>app/normalize.py\<close>), the arrival board and the next buses of a route
  (\<open>app/routers/board.py\<close>).  Unix instants are integers, or reals where the code adds fractions of seconds.
\<close>

section \<open>Departures\<close>

record otp_stoptime =
  oe_day :: "int option"
  oe_scheduled :: "int option"
  oe_realtime_departure :: "int option"
  oe_realtime :: bool
  oe_headsign :: "string option"
  oe_trip :: "string option"
  oe_trip_headsign :: "string option"
  oe_route :: "otp_route option"
  oe_delay :: "int option"
  oe_state :: "string option"
  oe_position :: "nat option"

record stop_departure =
  sd_route :: wire_route
  sd_headsign :: "string option"
  sd_trip :: "string option"
  sd_scheduled :: "string option"
  sd_realtime_time :: "string option"
  sd_realtime :: bool
  sd_delay :: "int option"
  sd_canceled :: bool
  sd_seq :: "nat option"
  sd_source :: "string option"
  sd_vehicle :: "vehicle option" \<comment> \<open>with its id, once the board has matched it\<close>

definition bare_route :: "string \<Rightarrow> wire_route" where
  \<comment> \<open>\<open>{"id": rid, "mode": "BUS"}\<close>: the other keys are absent\<close>
  "bare_route rid = \<lparr>wr_id = Some rid, wr_short = None, wr_long = None, wr_color = None, wr_text = None, wr_mode = ''BUS'', wr_agency = None, wr_component = []\<rparr>"

definition departure_from_otp :: "(string \<Rightarrow> string) \<Rightarrow> city \<Rightarrow> otp_stoptime \<Rightarrow> stop_departure" where
  "departure_from_otp casefold c st = (let day = or_else (oe_day st) 0; sched = day + or_else (oe_scheduled st) 0; rt = oe_realtime st in
     \<lparr>sd_route = or_else (route_ref_of c (oe_route st) None) (bare_route []),
      sd_headsign = clean_headsign casefold (str_or (oe_headsign st) (oe_trip_headsign st)) (Option.bind (oe_route st) or_short),
      sd_trip = oe_trip st, sd_scheduled = rt_iso (Some sched),
      sd_realtime_time = (if rt then rt_iso (Some (day + or_else (oe_realtime_departure st) 0)) else None), sd_realtime = rt,
      sd_delay = (if rt then oe_delay st else None), sd_canceled = (oe_state st = Some ''CANCELED''), sd_seq = oe_position st,
      sd_source = (if rt then Some ''trip'' else None), sd_vehicle = None\<rparr>)"

definition effective :: "stop_departure \<Rightarrow> string option" where
  \<comment> \<open>\<open>d.get("realtimeTime") or d["scheduledTime"]\<close>\<close>
  "effective d = str_or (sd_realtime_time d) (sd_scheduled d)"

definition merge_departures :: "stop_departure list \<Rightarrow> py_error + stop_departure list" where
  \<comment> \<open>comparing with a missing time raises; an empty trip id is no id\<close>
  "merge_departures deps = (if 2 \<le> length deps \<and> list_ex (\<lambda>d. effective d = None) deps then Inl TypeError
     else Inr (uniq_by (\<lambda>d. text_opt (sd_trip d)) [] (sort_key (\<lambda>d. or_else (effective d) []) deps)))"

section \<open>Predictions by stop\<close>

definition raw_route_of :: "stop_departure \<Rightarrow> string" where
  "raw_route_of d = (let r = or_else (wr_id (sd_route d)) [] in case split_once CHR '':'' r of Some (_, raw) \<Rightarrow> raw | None \<Rightarrow> r)"

definition route_fits :: "stop_departure \<Rightarrow> arrival \<Rightarrow> bool" where
  \<comment> \<open>the same route, or one side does not say\<close>
  "route_fits d a \<longleftrightarrow> \<not> (truthy_str (ar_route a) \<and> raw_route_of d \<noteq> [] \<and> ar_route a \<noteq> Some (raw_route_of d))"

definition awaiting :: "stop_departure \<Rightarrow> int option" where
  \<comment> \<open>the scheduled instant of a departure that still lacks realtime\<close>
  "awaiting d = (if \<not> truthy_str (sd_scheduled d) \<or> truthy_str (sd_realtime_time d) then None else iso_epoch (the (sd_scheduled d)))"

definition prediction_for :: "int \<Rightarrow> stop_departure \<Rightarrow> int \<Rightarrow> arrival list \<Rightarrow> arrival option" where
  \<comment> \<open>the first of the nearest predictions within the window\<close>
  "prediction_for window d sched unused = min_by (\<lambda>a. \<bar>ar_eta a - sched\<bar>) (filter (\<lambda>a. route_fits d a \<and> \<bar>ar_eta a - sched\<bar> \<le> window) unused)"

definition predicted :: "stop_departure \<Rightarrow> int \<Rightarrow> arrival \<Rightarrow> stop_departure" where
  "predicted d sched a = d\<lparr>sd_realtime_time := rt_iso (Some (ar_eta a)), sd_realtime := True, sd_delay := Some (ar_eta a - sched), sd_source := Some ''stop''\<rparr>"

fun pair_predictions :: "int \<Rightarrow> stop_departure list \<Rightarrow> arrival list \<Rightarrow> stop_departure list \<times> arrival list" where
  \<comment> \<open>the loop over the departures: each takes its prediction out of \<open>unused\<close>\<close>
  "pair_predictions window [] unused = ([], unused)"
| "pair_predictions window (d # deps) unused = (case awaiting d of
     None \<Rightarrow> (let (ds, left) = pair_predictions window deps unused in (d # ds, left))
   | Some sched \<Rightarrow> (case prediction_for window d sched unused of
       None \<Rightarrow> (let (ds, left) = pair_predictions window deps unused in (d # ds, left))
     | Some a \<Rightarrow> (let (ds, left) = pair_predictions window deps (remove1 a unused) in (predicted d sched a # ds, left))))"

definition unscheduled :: "city \<Rightarrow> arrival \<Rightarrow> stop_departure" where
  \<comment> \<open>an arrival the schedule did not describe\<close>
  "unscheduled c a = \<lparr>sd_route = bare_route (if truthy_str (ar_route a) then or_else (scoped c (ar_route a)) [] else []), sd_headsign = None, sd_trip = None,
     sd_scheduled = None, sd_realtime_time = rt_iso (Some (ar_eta a)), sd_realtime = True, sd_delay = None, sd_canceled = False, sd_seq = ar_seq a,
     sd_source = Some ''stop'', sd_vehicle = None\<rparr>"

definition fresh_arrivals :: "int \<Rightarrow> arrival list \<Rightarrow> arrival list" where
  "fresh_arrivals now arrivals = sort_key ar_eta (filter (\<lambda>a. now - 120 \<le> ar_eta a) arrivals)"

definition apply_stop_predictions :: "city \<Rightarrow> int \<Rightarrow> int \<Rightarrow> arrival list \<Rightarrow> stop_departure list \<Rightarrow> stop_departure list" where
  "apply_stop_predictions c now window arrivals deps = (if arrivals = [] then deps
     else let (ds, left) = pair_predictions window deps (fresh_arrivals now arrivals) in ds @ map (unscheduled c) left)"

section \<open>The board\<close>

definition minutes_until :: "string \<Rightarrow> 'a::floor_ceiling \<Rightarrow> py_error + int" where
  "minutes_until iso_time now = (case iso_instant iso_time of None \<Rightarrow> Inl ValueError
     | Some t \<Rightarrow> Inr (py_round ((of_rat (t - of_int unix_epoch) - now) / 60)))"

definition board_source :: "stop_departure \<Rightarrow> string" where
  "board_source d = (if \<not> sd_realtime d then ''scheduled'' else if sd_source d = Some ''stop'' then ''estimated''
     else if Option.bind (sd_vehicle d) v_match = Some ''schedule'' then ''estimated''
     else if sd_source d = Some ''trip'' then ''live'' else ''estimated'')"

record board_time =
  bt_time :: string
  bt_minutes :: int
  bt_realtime :: bool
  bt_source :: string
  bt_delay :: "int option"
  bt_trip :: "string option"
  bt_vehicle :: "vehicle option"

record board_row =
  br_route :: wire_route
  br_headsign :: "string option"
  br_next :: "board_time list"

definition board_key :: "stop_departure \<Rightarrow> string option \<times> string option" where
  "board_key d = (wr_id (sd_route d), sd_headsign d)"

definition board_time_of :: "'a::floor_ceiling \<Rightarrow> stop_departure \<Rightarrow> py_error + board_time" where
  \<comment> \<open>a departure with no time at all has no text to parse\<close>
  "board_time_of now d = (case effective d of None \<Rightarrow> Inl AttributeError | Some t \<Rightarrow> and_then (minutes_until t now) (\<lambda>m.
     Inr \<lparr>bt_time = t, bt_minutes = m, bt_realtime = sd_realtime d, bt_source = board_source d, bt_delay = sd_delay d, bt_trip = sd_trip d, bt_vehicle = sd_vehicle d\<rparr>))"

type_synonym board_rows = "((string option \<times> string option) \<times> board_row) list"

definition board_step :: "nat \<Rightarrow> 'a::floor_ceiling \<Rightarrow> stop_departure \<Rightarrow> board_rows \<Rightarrow> py_error + board_rows" where
  \<comment> \<open>\<open>rows.setdefault(key, ...)\<close>; a full row is skipped before its time is read\<close>
  "board_step per_route now d rows = (let row = or_else (map_of rows (board_key d)) \<lparr>br_route = sd_route d, br_headsign = sd_headsign d, br_next = []\<rparr> in
     if per_route \<le> length (br_next row) then Inr (AList.update (board_key d) row rows)
     else and_then (board_time_of now d) (\<lambda>t. Inr (AList.update (board_key d) (row\<lparr>br_next := br_next row @ [t]\<rparr>) rows)))"

fun board_rows_of :: "nat \<Rightarrow> 'a::floor_ceiling \<Rightarrow> stop_departure list \<Rightarrow> board_rows \<Rightarrow> py_error + board_rows" where
  "board_rows_of per_route now [] rows = Inr rows"
| "board_rows_of per_route now (d # deps) rows = and_then (board_step per_route now d rows) (board_rows_of per_route now deps)"

definition row_order :: "board_row \<Rightarrow> int \<times> string" where
  "row_order r = (case br_next r of [] \<Rightarrow> 1000000 | t # _ \<Rightarrow> bt_minutes t, or_else (wr_short (br_route r)) [])"

definition group_board :: "nat \<Rightarrow> 'a::floor_ceiling \<Rightarrow> stop_departure list \<Rightarrow> py_error + board_row list" where
  "group_board per_route now deps = and_then (board_rows_of per_route now deps []) (\<lambda>rows. Inr (sort_key row_order (map snd rows)))"

section \<open>The board handler\<close>

definition with_vehicle :: "city \<Rightarrow> vehicle list \<Rightarrow> stop_departure \<Rightarrow> stop_departure" where
  \<comment> \<open>the last vehicle of a trip wins, as in the dictionary comprehension\<close>
  "with_vehicle c vs d = d\<lparr>sd_vehicle := (if truthy_str (sd_trip d)
     then find (\<lambda>v. truthy_str (v_trip v) \<and> v_trip v = Some (unscoped c (the (sd_trip d)))) (rev vs) else None)\<rparr>"

definition board :: "(string \<Rightarrow> string) \<Rightarrow> city \<Rightarrow> vehicle list \<Rightarrow> arrival list \<Rightarrow> wire_route list \<Rightarrow> nat \<Rightarrow> rat \<Rightarrow> otp_stoptime option list \<Rightarrow> py_error + board_row list" where
  \<comment> \<open>\<open>arrivals\<close>: the predictions of the stop and its children; \<open>serving\<close>: the routes the database lists for it\<close>
  "board casefold c vs arrivals serving per_route now sts =
     (let deps = map (\<lambda>st. with_vehicle c vs (departure_from_otp casefold c st)) (List.map_filter id sts);
          deps = (if arrivals = [] then deps else filter (\<lambda>d. truthy_str (sd_scheduled d)) (apply_stop_predictions c (py_trunc now) 900 arrivals deps)) in
      and_then (merge_departures deps) (\<lambda>deps. and_then (group_board per_route now deps) (\<lambda>rows.
        Inr (rows @ map (\<lambda>r. \<lparr>br_route = r, br_headsign = None, br_next = []\<rparr>)
          (filter (\<lambda>r. wr_id r \<notin> (\<lambda>r. wr_id (br_route r)) ` set rows) serving)))))"

section \<open>Predictions are used once\<close>

definition matched :: "stop_departure \<Rightarrow> arrival option \<Rightarrow> stop_departure" where
  "matched d m = (case m of None \<Rightarrow> d | Some a \<Rightarrow> predicted d (the (awaiting d)) a)"

definition pairable :: "int \<Rightarrow> stop_departure \<Rightarrow> arrival \<Rightarrow> bool" where
  \<comment> \<open>what may be paired at all\<close>
  "pairable window d a \<longleftrightarrow> (case awaiting d of None \<Rightarrow> False | Some t \<Rightarrow> route_fits d a \<and> \<bar>ar_eta a - t\<bar> \<le> window)"

definition pair_ok :: "int \<Rightarrow> arrival list \<Rightarrow> stop_departure \<Rightarrow> arrival option \<Rightarrow> bool" where
  "pair_ok window left d m \<longleftrightarrow> (case m of Some a \<Rightarrow> pairable window d a | None \<Rightarrow> \<not> list_ex (pairable window d) left)"

lemma pairing_simps [simp]:
  "matched d None = d" "matched d (Some a) = predicted d (the (awaiting d)) a"
  "pair_ok window left d (Some a) = pairable window d a" "pair_ok window left d None = (\<not> list_ex (pairable window d) left)"
  by (simp_all add: matched_def pair_ok_def)

fun used :: "arrival option list \<Rightarrow> arrival list" where
  \<comment> \<open>the predictions given to departures\<close>
  "used [] = []"
| "used (None # ms) = used ms"
| "used (Some a # ms) = a # used ms"

lemma prediction_for_Some: "prediction_for window d t unused = Some a \<Longrightarrow> awaiting d = Some t \<Longrightarrow> a \<in> set unused \<and> pairable window d a"
  using min_by_in[of _ _ a] by (fastforce simp: prediction_for_def pairable_def)

lemma prediction_for_None: "prediction_for window d t unused = None \<Longrightarrow> awaiting d = Some t \<Longrightarrow> set left \<subseteq> set unused \<Longrightarrow> \<not> list_ex (pairable window d) left"
  by (auto simp: prediction_for_def pairable_def list_ex_iff filter_empty_conv)

lemma pair_predictions:
  assumes "pair_predictions window deps unused = (ds, left)"
  shows "\<exists>ms. length ms = length deps \<and> ds = map2 matched deps ms \<and> mset unused = mset (used ms) + mset left
    \<and> list_all2 (pair_ok window left) deps ms"
  using assms
proof (induction window deps unused arbitrary: ds left rule: pair_predictions.induct)
  case (1 window unused)
  then show ?case by simp
next
  case (2 window d deps unused)
  show ?case
  proof (cases "\<exists>t a. awaiting d = Some t \<and> prediction_for window d t unused = Some a")
    case True
    then obtain t a where ta: "awaiting d = Some t" "prediction_for window d t unused = Some a" by blast
    obtain ds1 where rest: "pair_predictions window deps (remove1 a unused) = (ds1, left)" and ds: "ds = predicted d t a # ds1"
      using 2(4) ta by (auto split: prod.splits)
    from 2(3)[OF ta rest] obtain ms where ms: "length ms = length deps" "ds1 = map2 matched deps ms"
      "mset (remove1 a unused) = mset (used ms) + mset left" "list_all2 (pair_ok window left) deps ms" by blast
    have a: "a \<in> set unused" "pairable window d a" using prediction_for_Some[OF ta(2,1)] by simp_all
    then have "mset unused = add_mset a (mset (used ms) + mset left)" using ms(3) by (metis mset_remove1 insert_DiffM in_multiset_in_set)
    then show ?thesis using ms(1,2,4) ds ta(1) a(2) by (intro exI[of _ "Some a # ms"]) simp
  next
    case False
    then obtain ds1 where rest: "pair_predictions window deps unused = (ds1, left)" and ds: "ds = d # ds1"
      using 2(4) by (auto split: option.splits prod.splits)
    have "\<exists>ms. length ms = length deps \<and> ds1 = map2 matched deps ms \<and> mset unused = mset (used ms) + mset left \<and> list_all2 (pair_ok window left) deps ms"
    proof (cases "awaiting d")
      case None
      show ?thesis by (rule 2(1)[OF None rest])
    next
      case (Some t)
      then have "prediction_for window d t unused = None" using False by simp
      then show ?thesis by (rule 2(2)[OF Some _ rest])
    qed
    then obtain ms where ms: "length ms = length deps" "ds1 = map2 matched deps ms"
      "mset unused = mset (used ms) + mset left" "list_all2 (pair_ok window left) deps ms" by blast
    have "mset left \<subseteq># mset unused" using ms(3) by simp
    then have sub: "set left \<subseteq> set unused" using set_mset_mono by fastforce
    have "pair_ok window left d None"
    proof (cases "awaiting d")
      case (Some t)
      then show ?thesis using False prediction_for_None[OF _ Some sub] by simp
    qed (simp add: pairable_def list_ex_iff)
    then show ?thesis using ms ds by (intro exI[of _ "None # ms"]) simp
  qed
qed

lemma predictions_used:
  assumes "arrivals \<noteq> []"
  shows "\<exists>ms left. length ms = length deps
    \<and> apply_stop_predictions c now window arrivals deps = map2 matched deps ms @ map (unscheduled c) left
    \<and> mset (used ms) + mset left = mset (filter (\<lambda>a. now - 120 \<le> ar_eta a) arrivals)
    \<and> list_all2 (pair_ok window left) deps ms"
proof -
  obtain ds left where p: "pair_predictions window deps (fresh_arrivals now arrivals) = (ds, left)" by (metis surj_pair)
  then have "apply_stop_predictions c now window arrivals deps = ds @ map (unscheduled c) left"
    using assms by (simp add: apply_stop_predictions_def)
  then show ?thesis using pair_predictions[OF p] by (fastforce simp: fresh_arrivals_def)
qed

text \<open>C14: Pairing predictions with the timetable invents nothing and loses nothing.  Every arrival that is not over for
  two minutes is used exactly once: either it gives its time to one departure that has a scheduled time and no
  realtime yet, of the same route when both say which, at most the window away from the schedule; or it is
  added as an arrival without a schedule.  No arrival is left over that could still have served a departure
  without one, and all other departures stay as they were.\<close>
theorem predictions_used_once:
  assumes "arrivals \<noteq> []"
  shows "\<exists>ms left. length ms = length deps
    \<and> apply_stop_predictions c now window arrivals deps = map2 matched deps ms @ map (unscheduled c) left
    \<and> mset (used ms) + mset left = mset (filter (\<lambda>a. now - 120 \<le> ar_eta a) arrivals)
    \<and> list_all2 (pair_ok window left) deps ms"
  using predictions_used[OF assms] .

section \<open>A prediction may go to the wrong departure\<close>

definition due :: "int \<Rightarrow> stop_departure" where
  \<comment> \<open>a scheduled departure of route A\<close>
  "due ts = \<lparr>sd_route = bare_route ''city:A'', sd_headsign = None, sd_trip = None, sd_scheduled = rt_iso (Some ts), sd_realtime_time = None, sd_realtime = False,
     sd_delay = None, sd_canceled = False, sd_seq = None, sd_source = None, sd_vehicle = None\<rparr>"

lemma awaiting_due: "in_calendar ts \<Longrightarrow> ts \<noteq> 0 \<Longrightarrow> awaiting (due ts) = Some ts"
  using iso_epoch_utc[of ts] by (simp add: awaiting_def due_def rt_iso_def truthy_str_def utc_iso_def)

lemma fits_due: "ar_route a = Some ''A'' \<Longrightarrow> route_fits (due ts) a"
proof -
  have "raw_route_of (due ts) = ''A''" by (simp add: raw_route_of_def due_def bare_route_def split_once_def)
  then show "ar_route a = Some ''A'' \<Longrightarrow> route_fits (due ts) a" by (simp add: route_fits_def)
qed


section \<open>Merged departures\<close>

lemma uniq_by_first:
  \<comment> \<open>of the rows with one key, the first is kept\<close>
  assumes "x \<in> set (uniq_by key seen xs)" "y \<in> set xs" "key x = Some k" "key y = Some k" "sorted (map f xs)"
  shows "f x \<le> f y"
  using assms
proof (induction xs arbitrary: seen)
  case (Cons z zs)
  have s: "sorted (map f zs)" "\<forall>w \<in> set zs. f z \<le> f w" using Cons.prems(5) by auto
  show ?case
  proof (cases "x = z")
    case True
    then show ?thesis using s(2) Cons.prems(2) by auto
  next
    case False
    then obtain seen' where x: "x \<in> set (uniq_by key seen' zs)" "key z = Some k \<Longrightarrow> k \<in> set seen'"
      using Cons.prems(1) by (auto split: option.splits if_splits)
    then have "key z \<noteq> Some k" using uniq_by_fresh[OF x(1) Cons.prems(3)] by blast
    then have "y \<in> set zs" using Cons.prems(2,4) by auto
    then show ?thesis using Cons.IH[OF x(1) _ Cons.prems(3,4) s(1)] by blast
  qed
qed simp

lemma subseq_sorted: "subseq xs ys \<Longrightarrow> sorted ys \<Longrightarrow> sorted xs"
  by (induction rule: list_emb.induct) (use subseq_imp_set in fastforce)+

definition time_key :: "stop_departure \<Rightarrow> string" where
  "time_key d = or_else (effective d) []"

text \<open>What a station shows after its child stops' departures are merged: in the order of their times, no trip twice,
  every trip that any of them listed, each at its earliest time, and every departure without a trip id.\<close>
theorem merged_departures:
  assumes "merge_departures deps = Inr out"
  shows "sorted (map time_key out) \<and> set out \<subseteq> set deps \<and> distinct (List.map_filter (\<lambda>d. text_opt (sd_trip d)) out)
    \<and> (\<forall>d \<in> set deps. (text_opt (sd_trip d) = None \<longrightarrow> d \<in> set out)
        \<and> (text_opt (sd_trip d) \<noteq> None \<longrightarrow> (\<exists>d' \<in> set out. text_opt (sd_trip d') = text_opt (sd_trip d) \<and> time_key d' \<le> time_key d)))"
proof -
  let ?s = "sort_key time_key deps" and ?k = "\<lambda>d. text_opt (sd_trip d)"
  have out: "out = uniq_by ?k [] ?s" using assms by (auto simp: merge_departures_def time_key_def[abs_def] split: if_splits)
  have sub: "subseq (map time_key out) (map time_key ?s)" unfolding out by (intro subseq_map subseq_uniq_by)
  have srt: "sorted (map time_key ?s)" by simp
  have "sorted (map time_key out)" using subseq_sorted[OF sub srt] .
  moreover have "set out \<subseteq> set deps" using set_uniq_by[of ?k "[]" ?s] by (simp add: out)
  moreover have "distinct (List.map_filter ?k out)" unfolding out by (rule uniq_by_distinct)
  moreover have "d \<in> set out" if "d \<in> set deps" "?k d = None" for d
    unfolding out using that by (intro uniq_by_keeps_unkeyed) simp_all
  moreover have "\<exists>d' \<in> set out. ?k d' = ?k d \<and> time_key d' \<le> time_key d" if d: "d \<in> set deps" "?k d = Some t" for d t
  proof -
    obtain d' where d': "d' \<in> set out" "?k d' = Some t" using uniq_by_covers[of d ?s ?k t "[]"] d by (auto simp: out)
    have "time_key d' \<le> time_key d" by (rule uniq_by_first[where key = ?k and seen = "[]" and xs = ?s and k = t]) (use d d' srt out in auto)
    then show ?thesis using d' d by auto
  qed
  ultimately show ?thesis by blast
qed

section \<open>The board groups departures\<close>

definition row_of :: "nat \<Rightarrow> 'a::floor_ceiling \<Rightarrow> stop_departure list \<Rightarrow> py_error + board_row" where
  \<comment> \<open>the row of one route and headsign, from all its departures\<close>
  "row_of per_route now ds = and_then (traverse (board_time_of now) (take per_route ds)) (\<lambda>ts.
     Inr \<lparr>br_route = sd_route (hd ds), br_headsign = sd_headsign (hd ds), br_next = ts\<rparr>)"

definition rows_match :: "('v \<Rightarrow> 'w \<Rightarrow> bool) \<Rightarrow> ('k \<times> 'v) list \<Rightarrow> ('k \<times> 'w) list \<Rightarrow> bool" where
  "rows_match S g rows \<longleftrightarrow> list_all2 (\<lambda>(k, a) (k', b). k = k' \<and> S a b) g rows"

lemma rows_match_update: "rows_match S g rows \<Longrightarrow> S v w \<Longrightarrow> rows_match S (AList.update k v g) (AList.update k w rows)"
  unfolding rows_match_def by (induction rule: list_all2_induct) auto

lemma rows_match_look: "rows_match S g rows \<Longrightarrow> (map_of g k = None \<and> map_of rows k = None) \<or> (\<exists>a b. map_of g k = Some a \<and> map_of rows k = Some b \<and> S a b)"
  unfolding rows_match_def by (induction rule: list_all2_induct) auto

lemma traverse_snoc: "traverse f (xs @ [x]) = and_then (traverse f xs) (\<lambda>ys. and_then (f x) (\<lambda>y. Inr (ys @ [y])))"
proof (induction xs)
  case Nil
  then show ?case by (cases "f x") simp_all
next
  case (Cons a xs)
  then show ?case by (cases "f a"; cases "traverse f xs"; cases "f x") simp_all
qed

lemma traverse_source: "traverse f xs = Inr ys \<Longrightarrow> y \<in> set ys \<Longrightarrow> \<exists>x \<in> set xs. f x = Inr y"
  by (induction xs arbitrary: ys) auto

lemma traverse_length: "traverse f xs = Inr ys \<Longrightarrow> length ys = length xs"
  by (induction xs arbitrary: ys) auto

lemma board_rows_snoc: "board_rows_of n now (deps @ [d]) rows = and_then (board_rows_of n now deps rows) (board_step n now d)"
proof (induction deps arbitrary: rows)
  case Nil
  then show ?case by (cases "board_step n now d rows") simp_all
next
  case (Cons a deps)
  then show ?case by (cases "board_step n now a rows") simp_all
qed

lemma board_step_row:
  assumes "rows_match (\<lambda>ds r. row_of n now ds = Inr r) (group_by board_key deps) rows" "board_step n now d rows = Inr rows'"
  shows "rows_match (\<lambda>ds r. row_of n now ds = Inr r) (group_by board_key (deps @ [d])) rows'"
proof -
  let ?g = "group_by board_key deps" and ?k = "board_key d"
  let ?ds = "or_else (map_of ?g ?k) [] @ [d]"
  let ?row = "or_else (map_of rows ?k) \<lparr>br_route = sd_route d, br_headsign = sd_headsign d, br_next = []\<rparr>"
  have new: "group_by board_key (deps @ [d]) = AList.update ?k ?ds ?g"
    by (simp add: group_by_snoc group_add_def or_else_def split: option.split)
  have first: "hd (a @ [d]) = hd a" if "map_of ?g ?k = Some a" for a
    using group_by_nonempty[OF map_of_SomeD[OF that]] by simp
  have old: "br_route ?row = sd_route (hd ?ds) \<and> br_headsign ?row = sd_headsign (hd ?ds)
      \<and> traverse (board_time_of now) (take n (or_else (map_of ?g ?k) [])) = Inr (br_next ?row)"
    using rows_match_look[OF assms(1), of ?k] first by (auto simp: row_of_def)
  have same: "\<lparr>br_route = sd_route (hd ?ds), br_headsign = sd_headsign (hd ?ds), br_next = ts\<rparr> = ?row\<lparr>br_next := ts\<rparr>" for ts
    using old by (cases ?row) simp
  have row: "row_of n now ?ds = and_then (traverse (board_time_of now) (take n ?ds)) (\<lambda>ts. Inr (?row\<lparr>br_next := ts\<rparr>))"
    by (simp only: row_of_def same)
  have len: "length (br_next ?row) = min n (length (or_else (map_of ?g ?k) []))" using traverse_length old by fastforce
  have "\<exists>r. rows' = AList.update ?k r rows \<and> row_of n now ?ds = Inr r"
  proof (cases "n \<le> length (br_next ?row)")
    case True
    then have "take n ?ds = take n (or_else (map_of ?g ?k) [])" using len by simp
    then have "row_of n now ?ds = Inr ?row" using old unfolding row by simp
    moreover have "rows' = AList.update ?k ?row rows" using True assms(2) by (simp add: board_step_def Let_def)
    ultimately show ?thesis by blast
  next
    case False
    then have "take n ?ds = ?ds" "take n (or_else (map_of ?g ?k) []) = or_else (map_of ?g ?k) []" using len by simp_all
    moreover obtain bt where "board_time_of now d = Inr bt" "rows' = AList.update ?k (?row\<lparr>br_next := br_next ?row @ [bt]\<rparr>) rows"
      using False assms(2) by (auto simp: board_step_def Let_def)
    ultimately have "row_of n now ?ds = Inr (?row\<lparr>br_next := br_next ?row @ [bt]\<rparr>)" using old unfolding row by (simp add: traverse_snoc)
    then show ?thesis using \<open>rows' = _\<close> by blast
  qed
  then show ?thesis using rows_match_update[OF assms(1)] unfolding new by blast
qed

lemma board_rows_match: "board_rows_of n now deps [] = Inr rows \<Longrightarrow> rows_match (\<lambda>ds r. row_of n now ds = Inr r) (group_by board_key deps) rows"
proof (induction deps arbitrary: rows rule: rev_induct)
  case (snoc d deps)
  then show ?case using board_step_row by (fastforce simp: board_rows_snoc)
qed (simp add: rows_match_def)

text \<open>C16: The board is the grouping it is meant to be: one row for every route and headsign that departs, holding
  exactly the first departures of that route and headsign, as many as asked for, in the order given, and the
  rows are ordered by their first departure and then by the route's short name.\<close>
theorem board_is_the_grouping:
  assumes "group_board n now deps = Inr out"
  shows "\<exists>rows. out = sort_key row_order rows \<and> list_all2 (\<lambda>(k, ds) r. row_of n now ds = Inr r) (group_by board_key deps) rows"
proof -
  obtain rows where rows: "board_rows_of n now deps [] = Inr rows" "out = sort_key row_order (map snd rows)"
    using assms by (auto simp: group_board_def)
  have "list_all2 (\<lambda>(k, ds) r. row_of n now ds = Inr r) (group_by board_key deps) (map snd rows)"
    using board_rows_match[OF rows(1)] by (auto simp: rows_match_def list_all2_map2 elim!: list_all2_mono)
  then show ?thesis using rows(2) by blast
qed

section \<open>The board always answers\<close>

lemma board_rows_answer:
  assumes "\<forall>d \<in> set deps. \<exists>t. board_time_of now d = Inr t"
  shows "\<exists>rows'. board_rows_of n now deps rows = Inr rows'"
  using assms
proof (induction deps arbitrary: rows)
  case (Cons d deps)
  have "\<exists>rows1. board_step n now d rows = Inr rows1" using Cons.prems by (auto simp: board_step_def Let_def)
  then show ?case using Cons by auto
qed simp

definition dated :: "int \<Rightarrow> bool" where
  \<comment> \<open>an instant that prints\<close>
  "dated ts \<longleftrightarrow> ts \<noteq> 0 \<and> in_calendar ts"

lemma dated_iso: "dated ts \<Longrightarrow> rt_iso (Some ts) = Some (utc_iso ts) \<and> utc_iso ts \<noteq> [] \<and> iso_instant (utc_iso ts) = Some (of_int (ts + unix_epoch))"
  by (simp add: dated_def rt_iso_def utc_iso_instant) (simp add: utc_iso_def)

definition timetable_ok :: "otp_stoptime \<Rightarrow> bool" where
  "timetable_ok st \<longleftrightarrow> dated (or_else (oe_day st) 0 + or_else (oe_scheduled st) 0) \<and> dated (or_else (oe_day st) 0 + or_else (oe_realtime_departure st) 0)"

definition tells_time :: "stop_departure \<Rightarrow> bool" where
  "tells_time d \<longleftrightarrow> (\<exists>ts. dated ts \<and> sd_scheduled d = Some (utc_iso ts)) \<and> (sd_realtime_time d = None \<or> (\<exists>ts. dated ts \<and> sd_realtime_time d = Some (utc_iso ts)))"

lemma tells_time_effective: "tells_time d \<Longrightarrow> \<exists>ts. dated ts \<and> effective d = Some (utc_iso ts)"
  using dated_iso by (fastforce simp: tells_time_def effective_def str_or_def truthy_str_def)

lemma tells_time_board:
  assumes "tells_time d"
  shows "\<exists>t. board_time_of now d = Inr t"
proof -
  obtain ts where "dated ts" "effective d = Some (utc_iso ts)" using tells_time_effective[OF assms] by blast
  then show ?thesis using dated_iso[of ts] by (simp add: board_time_of_def minutes_until_def)
qed

lemma timetable_tells_time: "timetable_ok st \<Longrightarrow> tells_time (departure_from_otp f c st)"
  using dated_iso by (auto simp: timetable_ok_def tells_time_def departure_from_otp_def Let_def)

lemma with_vehicle_times [simp]: "sd_scheduled (with_vehicle c vs d) = sd_scheduled d" "sd_realtime_time (with_vehicle c vs d) = sd_realtime_time d"
  by (simp_all add: with_vehicle_def)

lemma pairing_tells_time:
  assumes "arrivals \<noteq> []" "\<forall>a \<in> set arrivals. dated (ar_eta a)" "\<forall>d \<in> set deps. tells_time d" "d \<in> set (apply_stop_predictions c now window arrivals deps)" "truthy_str (sd_scheduled d)"
  shows "tells_time d"
proof -
  obtain ms left where ms: "length ms = length deps" "apply_stop_predictions c now window arrivals deps = map2 matched deps ms @ map (unscheduled c) left"
    "mset (used ms) + mset left = mset (filter (\<lambda>a. now - 120 \<le> ar_eta a) arrivals)" using predictions_used[OF assms(1)] by blast
  have used: "a \<in> set arrivals" if "Some a \<in> set ms" for a
  proof -
    have "a \<in> set (used ms)" using that by (induction ms rule: used.induct) auto
    then have "a \<in># mset (filter (\<lambda>a. now - 120 \<le> ar_eta a) arrivals)" unfolding ms(3)[symmetric] by simp
    then show ?thesis by simp
  qed
  have "d \<in> set (map2 matched deps ms)" using assms(4,5) unfolding ms(2) by (auto simp: unscheduled_def)
  then obtain e m where e: "e \<in> set deps" "m \<in> set ms" "d = matched e m" by (auto simp: set_zip) (metis nth_mem)
  have "tells_time e" using e assms(3) by blast
  then show ?thesis using e used assms(2) dated_iso by (cases m) (auto simp: tells_time_def predicted_def)
qed

text \<open>C17: The board always answers: whatever the router lists (null stop times included), whatever the live vehicles and
  predictions are, as long as every instant in them is a date, the handler builds its rows without an error.\<close>
theorem board_always_answers:
  assumes "\<forall>st. Some st \<in> set sts \<longrightarrow> timetable_ok st" "\<forall>a \<in> set arrivals. dated (ar_eta a)"
  shows "\<exists>rows. board casefold c vs arrivals serving per_route now sts = Inr rows"
proof -
  let ?deps = "map (\<lambda>st. with_vehicle c vs (departure_from_otp casefold c st)) (List.map_filter id sts)"
  let ?rest = "if arrivals = [] then ?deps else filter (\<lambda>d. truthy_str (sd_scheduled d)) (apply_stop_predictions c (py_trunc now) 900 arrivals ?deps)"
  have "tells_time (with_vehicle c vs (departure_from_otp casefold c st))" if "Some st \<in> set sts" for st
    using timetable_tells_time[of st casefold c] assms(1) that by (simp add: tells_time_def)
  then have deps: "\<forall>d \<in> set ?deps. tells_time d" by (auto simp: set_map_filter_id)
  have rest: "\<forall>d \<in> set ?rest. tells_time d"
    using deps pairing_tells_time[OF _ assms(2) deps, of _ c "py_trunc now" 900] by auto
  have "\<forall>d \<in> set ?rest. effective d \<noteq> None" using rest tells_time_effective by fastforce
  then obtain merged where m: "merge_departures ?rest = Inr merged" by (auto simp: merge_departures_def list_ex_iff)
  then have "set merged \<subseteq> set ?rest"
    using set_uniq_by[of "\<lambda>d. text_opt (sd_trip d)" "[]"] by (fastforce simp: merge_departures_def split: if_splits)
  then have "\<forall>d \<in> set merged. \<exists>t. board_time_of now d = Inr t" using rest tells_time_board by blast
  then obtain rows where "board_rows_of per_route now merged [] = Inr rows" using board_rows_answer by blast
  then show ?thesis using m by (simp add: board_def Let_def group_board_def)
qed

section \<open>The next buses\<close>

record bus_pattern =
  bp_line :: "point list"
  bp_stops :: "string list"
  bp_along :: "real list"

definition bus_pattern_of :: "otp_pattern \<Rightarrow> bus_pattern option" where
  \<comment> \<open>the loop body of \<open>_patterns\<close>; \<open>None\<close>: the geometry does not decode, or a stop lacks its position\<close>
  "bus_pattern_of p = (let geom = text_opt (pt_points p); stops = List.map_filter id (pt_stops p) in
     case (case geom of None \<Rightarrow> Some [] | Some g \<Rightarrow> decode_polyline g) of None \<Rightarrow> None | Some line \<Rightarrow>
       if line \<noteq> [] \<and> list_ex (\<lambda>s. op_lon s = None \<or> op_lat s = None) stops then None else
       Some \<lparr>bp_line = line, bp_stops = map op_gtfs stops,
         bp_along = map (\<lambda>(i, s). if line = [] then of_nat i * 500 else fst (along_track line (of_rat (the (op_lon s))) (of_rat (the (op_lat s))))) (enumerate 0 stops)\<rparr>)"

definition closest :: "vehicle \<Rightarrow> bus_pattern list \<Rightarrow> (bus_pattern \<times> real \<times> real) option" where
  \<comment> \<open>pattern, offset and position of the nearest line\<close>
  "closest v pats = fold (\<lambda>p best. if bp_line p = [] then best else
     (case along_track (bp_line p) (v_lon v) (v_lat v) of (along, None) \<Rightarrow> best
      | (along, Some off) \<Rightarrow> if closer off (map_option (fst \<circ> snd) best) then Some (p, off, along) else best)) pats None"

definition locate_vehicle :: "city \<Rightarrow> vehicle \<Rightarrow> bus_pattern list \<Rightarrow> (bus_pattern \<times> nat \<times> real) option" where
  \<comment> \<open>the reported stop, else the nearest line within 250 m\<close>
  "locate_vehicle c v pats = (case (if truthy_str (v_stop v) then find (\<lambda>p. the (scoped c (v_stop v)) \<in> set (bp_stops p)) pats else None) of
     Some p \<Rightarrow> (let i = length (takeWhile (\<lambda>s. s \<noteq> the (scoped c (v_stop v))) (bp_stops p)) in
       Some (p, i, if bp_line p \<noteq> [] then fst (along_track (bp_line p) (v_lon v) (v_lat v)) else bp_along p ! i))
   | None \<Rightarrow> (case closest v pats of None \<Rightarrow> None | Some (p, off, along) \<Rightarrow>
       if 250 < off then None else Some (p, length (filter (\<lambda>a. a < along) (bp_along p)), along)))"

definition SPEED_KMH :: "(string \<times> real) list" where
  "SPEED_KMH = [(''trunk'', 22), (''cable'', 15), (''feeder'', 15), (''dual'', 16), (''zonal'', 14)]"

definition DWELL_S :: real where "DWELL_S = 20"

record next_row =
  nr_minutes :: int
  nr_time :: string
  nr_source :: string
  nr_vehicle :: "vehicle option"
  nr_stops_away :: "nat option"
  nr_distance :: "int option"
  nr_trip :: "string option"
  nr_delay :: "int option"

definition utc_iso_fine :: "real \<Rightarrow> string" where
  \<comment> \<open>\<open>fromtimestamp\<close> rounds to microseconds\<close>
  "utc_iso_fine x = iso_show (of_int (py_round (x * 1000000)) / 1000000 + of_int unix_epoch, None) @ ''Z''"

definition departure_of_trip :: "city \<Rightarrow> stop_departure list \<Rightarrow> string option \<Rightarrow> stop_departure option" where
  \<comment> \<open>\<open>dep_by_trip.get(v.get("tripId") or "")\<close>; the last departure of a trip wins\<close>
  "departure_of_trip c deps trip = find (\<lambda>d. truthy_str (sd_trip d) \<and> unscoped c (the (sd_trip d)) = or_else trip []) (rev deps)"

definition upstream :: "string list \<Rightarrow> bus_pattern \<Rightarrow> nat \<Rightarrow> nat option" where
  \<comment> \<open>the stop's place on the pattern, when the vehicle has not passed it\<close>
  "upstream targets p i = (case find (\<lambda>k. bp_stops p ! k \<in> set targets) [0..<length (bp_stops p)] of
     None \<Rightarrow> None | Some t \<Rightarrow> if t < i then None else Some t)"

definition vehicle_row :: "city \<Rightarrow> real \<Rightarrow> real \<Rightarrow> stop_departure list \<Rightarrow> vehicle \<Rightarrow> bus_pattern \<Rightarrow> nat \<Rightarrow> real \<Rightarrow> nat \<Rightarrow> py_error + next_row" where
  "vehicle_row c speed now deps v p i along t = (let away = t - i; dist = max 0 (bp_along p ! t - along) in
     case (case departure_of_trip c deps (v_trip v) of Some d \<Rightarrow> if sd_realtime d \<and> truthy_str (sd_realtime_time d) then Some d else None | None \<Rightarrow> None) of
       Some d \<Rightarrow> and_then (minutes_until (the (sd_realtime_time d)) now) (\<lambda>m.
         Inr \<lparr>nr_minutes = m, nr_time = the (sd_realtime_time d), nr_source = ''live'', nr_vehicle = Some v, nr_stops_away = Some away,
           nr_distance = Some (py_round dist), nr_trip = scoped c (v_trip v), nr_delay = sd_delay d\<rparr>)
     | None \<Rightarrow> (let eta = now + dist / speed + of_nat away * DWELL_S in
         Inr \<lparr>nr_minutes = py_round ((eta - now) / 60), nr_time = utc_iso_fine eta, nr_source = ''estimated'', nr_vehicle = Some v, nr_stops_away = Some away,
           nr_distance = Some (py_round dist), nr_trip = scoped c (v_trip v), nr_delay = None\<rparr>))"

definition bus_row :: "city \<Rightarrow> real \<Rightarrow> real \<Rightarrow> string list \<Rightarrow> bus_pattern list \<Rightarrow> stop_departure list \<Rightarrow> vehicle \<Rightarrow> py_error + next_row option" where
  "bus_row c speed now targets pats deps v = (case locate_vehicle c v pats of None \<Rightarrow> Inr None | Some (p, i, along) \<Rightarrow>
     (case upstream targets p i of None \<Rightarrow> Inr None | Some t \<Rightarrow> and_then (vehicle_row c speed now deps v p i along t) (\<lambda>r. Inr (Some r))))"

definition scheduled_row :: "real \<Rightarrow> stop_departure \<Rightarrow> py_error + next_row" where
  "scheduled_row now d = (case effective d of None \<Rightarrow> Inl AttributeError | Some t \<Rightarrow> and_then (minutes_until t now) (\<lambda>m.
     Inr \<lparr>nr_minutes = m, nr_time = t, nr_source = (if sd_realtime d then ''live'' else ''scheduled''), nr_vehicle = None, nr_stops_away = None,
       nr_distance = None, nr_trip = sd_trip d, nr_delay = sd_delay d\<rparr>))"

definition covered_trip :: "city \<Rightarrow> next_row list \<Rightarrow> stop_departure \<Rightarrow> bool" where
  \<comment> \<open>a departure whose bus is already a row\<close>
  "covered_trip c rows d \<longleftrightarrow> truthy_str (sd_trip d) \<and> list_ex (\<lambda>r. case nr_vehicle r of Some v \<Rightarrow> or_else (v_trip v) [] = unscoped c (the (sd_trip d)) | None \<Rightarrow> False) rows"

fun add_scheduled :: "city \<Rightarrow> real \<Rightarrow> nat \<Rightarrow> next_row list \<Rightarrow> stop_departure list \<Rightarrow> next_row list \<Rightarrow> py_error + next_row list" where
  \<comment> \<open>the loop over the departures; \<open>buses\<close> are the rows of vehicles\<close>
  "add_scheduled c now limit buses [] rows = Inr rows"
| "add_scheduled c now limit buses (d # deps) rows = (if limit \<le> length rows then Inr rows
     else if covered_trip c buses d then add_scheduled c now limit buses deps rows
     else and_then (scheduled_row now d) (\<lambda>r. add_scheduled c now limit buses deps (rows @ [r])))"

definition next_rows :: "city \<Rightarrow> string option \<Rightarrow> real \<Rightarrow> nat \<Rightarrow> string list \<Rightarrow> vehicle list \<Rightarrow> bus_pattern list \<Rightarrow> stop_departure list \<Rightarrow> py_error + next_row list" where
  "next_rows c component now limit targets vs pats deps =
     and_then (traverse (bus_row c (or_else (map_of SPEED_KMH (or_else component [])) 15 / (36 / 10)) now targets pats deps) vs) (\<lambda>buses.
     let buses = sort_key nr_minutes (List.map_filter id buses) in
     and_then (add_scheduled c now limit buses deps buses) (\<lambda>rows. Inr (take limit (sort_key nr_minutes rows))))"

section \<open>What the next buses are\<close>

definition bus_ahead :: "city \<Rightarrow> string list \<Rightarrow> bus_pattern list \<Rightarrow> next_row \<Rightarrow> vehicle \<Rightarrow> bool" where
  \<comment> \<open>the vehicle is on a pattern that still reaches the stop, as many stops away as the row says\<close>
  "bus_ahead c targets pats r v \<longleftrightarrow> (\<exists>p i along t. locate_vehicle c v pats = Some (p, i, along) \<and> t < length (bp_stops p)
     \<and> bp_stops p ! t \<in> set targets \<and> i \<le> t \<and> nr_stops_away r = Some (t - i))"

lemma upstream_Some: "upstream targets p i = Some t \<Longrightarrow> t < length (bp_stops p) \<and> bp_stops p ! t \<in> set targets \<and> i \<le> t"
  by (auto simp: upstream_def find_Some_iff split: option.splits if_splits)

lemma vehicle_row_fields: "vehicle_row c speed now deps v p i along t = Inr r \<Longrightarrow> nr_vehicle r = Some v \<and> nr_stops_away r = Some (t - i)"
  by (auto simp: vehicle_row_def Let_def split: option.splits if_splits)

lemma bus_row_ahead: "bus_row c speed now targets pats deps v = Inr (Some r) \<Longrightarrow> nr_vehicle r = Some v \<and> bus_ahead c targets pats r v"
  by (auto simp: bus_row_def bus_ahead_def split: option.splits dest!: vehicle_row_fields upstream_Some)

lemma add_scheduled_rows:
  assumes "add_scheduled c now limit buses deps rows = Inr out"
  shows "\<exists>ds. out = rows @ ds \<and> (\<forall>r \<in> set ds. nr_vehicle r = None \<and> (\<exists>d \<in> set deps. scheduled_row now d = Inr r \<and> \<not> covered_trip c buses d))"
  using assms
proof (induction deps arbitrary: rows)
  case (Cons d deps)
  show ?case
  proof (cases "limit \<le> length rows")
    case True
    then show ?thesis using Cons.prems by auto
  next
    case False
    show ?thesis
    proof (cases "covered_trip c buses d")
      case True
      then show ?thesis using False Cons.prems Cons.IH[of rows] by fastforce
    next
      case new: False
      then obtain r where r: "scheduled_row now d = Inr r" "add_scheduled c now limit buses deps (rows @ [r]) = Inr out"
        using False Cons.prems by auto
      obtain ds where ds: "out = (rows @ [r]) @ ds" "\<forall>r \<in> set ds. nr_vehicle r = None \<and> (\<exists>d \<in> set deps. scheduled_row now d = Inr r \<and> \<not> covered_trip c buses d)"
        using Cons.IH[OF r(2)] by blast
      have "nr_vehicle r = None" using r(1) by (auto simp: scheduled_row_def split: option.splits)
      then show ?thesis using ds r(1) new by (intro exI[of _ "r # ds"]) auto
    qed
  qed
qed simp

text \<open>C18: What \<open>next\<close> answers: at most as many rows as asked for, the soonest first; every row with a vehicle is one of the
  route's vehicles, located on a pattern that has yet to reach the stop, with the number of stops in between;
  every row without one is a departure of the timetable whose trip is not already there as a bus.\<close>
theorem next_rows_are_sound:
  assumes "next_rows c component now limit targets vs pats deps = Inr out"
  shows "length out \<le> limit \<and> sorted (map nr_minutes out)
    \<and> (\<forall>r \<in> set out. case nr_vehicle r of Some v \<Rightarrow> v \<in> set vs \<and> bus_ahead c targets pats r v
        | None \<Rightarrow> \<exists>d \<in> set deps. scheduled_row now d = Inr r \<and> (\<forall>b \<in> set out. case nr_vehicle b of None \<Rightarrow> True
            | Some v \<Rightarrow> \<not> truthy_str (sd_trip d) \<or> or_else (v_trip v) [] \<noteq> unscoped c (the (sd_trip d))))"
proof -
  define speed where "speed = or_else (map_of SPEED_KMH (or_else component [])) 15 / (36 / 10)"
  obtain found rows where f: "traverse (bus_row c speed now targets pats deps) vs = Inr found"
    and rows: "add_scheduled c now limit (sort_key nr_minutes (List.map_filter id found)) deps (sort_key nr_minutes (List.map_filter id found)) = Inr rows"
    and out: "out = take limit (sort_key nr_minutes rows)"
    using assms by (auto simp: next_rows_def Let_def speed_def)
  let ?buses = "sort_key nr_minutes (List.map_filter id found)"
  obtain ds where ds: "rows = ?buses @ ds"
    "\<forall>r \<in> set ds. nr_vehicle r = None \<and> (\<exists>d \<in> set deps. scheduled_row now d = Inr r \<and> \<not> covered_trip c ?buses d)"
    using add_scheduled_rows[OF rows] by blast
  have buses: "\<exists>v \<in> set vs. nr_vehicle r = Some v \<and> bus_ahead c targets pats r v" if "r \<in> set ?buses" for r
  proof -
    have "Some r \<in> set found" using that by (simp add: set_map_filter_id)
    then obtain v where "v \<in> set vs" "bus_row c speed now targets pats deps v = Inr (Some r)"
      using traverse_source[OF f] by blast
    then show ?thesis using bus_row_ahead by blast
  qed
  have sub: "set out \<subseteq> set ?buses \<union> set ds" using set_take_subset[of limit "sort_key nr_minutes rows"] by (auto simp: out ds(1))
  have "sorted (map nr_minutes out)" unfolding out by (simp add: sorted_wrt_take flip: take_map)
  moreover have "length out \<le> limit" by (simp add: out)
  moreover have "case nr_vehicle r of Some v \<Rightarrow> v \<in> set vs \<and> bus_ahead c targets pats r v
        | None \<Rightarrow> \<exists>d \<in> set deps. scheduled_row now d = Inr r \<and> (\<forall>b \<in> set out. case nr_vehicle b of None \<Rightarrow> True
            | Some v \<Rightarrow> \<not> truthy_str (sd_trip d) \<or> or_else (v_trip v) [] \<noteq> unscoped c (the (sd_trip d)))" if r: "r \<in> set out" for r
  proof (cases "nr_vehicle r")
    case None
    then have "r \<in> set ds" using r sub buses by fastforce
    then obtain d where d: "d \<in> set deps" "scheduled_row now d = Inr r" "\<not> covered_trip c ?buses d" using ds(2) by blast
    have "\<not> truthy_str (sd_trip d) \<or> or_else (v_trip v) [] \<noteq> unscoped c (the (sd_trip d))" if "b \<in> set out" "nr_vehicle b = Some v" for b v
    proof -
      have "b \<in> set ?buses" using that sub ds(2) by fastforce
      then show ?thesis using d(3) that(2) by (auto simp: covered_trip_def list_ex_iff)
    qed
    then show ?thesis using None d by (auto split: option.splits)
  next
    case (Some v)
    then have "r \<in> set ?buses" using r sub ds(2) by fastforce
    then show ?thesis using Some buses by fastforce
  qed
  ultimately show ?thesis by blast
qed

section \<open>A far bus hides a near departure\<close>

definition demo_bus :: vehicle where
  "demo_bus = \<lparr>v_id = ''b1'', v_label = None, v_route = Some ''A'', v_trip = None, v_resolved = False, v_match = None, v_lat = 4, v_lon = - 74, v_bearing = None,
     v_bearing_source = None, v_ts = 0, v_stop = Some ''s0'', v_seq = None, v_occupancy = None\<rparr>"

definition demo_line :: bus_pattern where
  "demo_line = \<lparr>bp_line = [], bp_stops = [''bog:s0'', ''bog:s1'', ''bog:s2'', ''bog:s3''], bp_along = [0, 5000, 10000, 15000]\<rparr>"

lemma demo_located: "locate_vehicle demo_city demo_bus [demo_line] = Some (demo_line, 0, 0)"
proof -
  have "scoped demo_city (Some ''s0'') = Some ''bog:s0''" by code_simp
  then show ?thesis by (simp add: locate_vehicle_def demo_bus_def demo_line_def)
qed

lemma demo_bus_row: "\<exists>r. bus_row demo_city (15 / (36 / 10)) 1767600000 [''bog:s3''] [demo_line] [due 1767600300] demo_bus = Inr (Some r)
    \<and> nr_minutes r = 61 \<and> nr_vehicle r = Some demo_bus"
proof -
  have t: "upstream [''bog:s3''] demo_line 0 = Some 3" by (simp add: upstream_def demo_line_def upt_rec)
  have no: "departure_of_trip demo_city [due 1767600300] (v_trip demo_bus) = None" by (simp add: departure_of_trip_def due_def)
  have far: "bp_along demo_line ! 3 = 15000" by (simp add: demo_line_def)
  have "py_round (61 :: real) = 61" using py_round_of_int[of 61, where 'a = real] by simp
  then show ?thesis by (simp add: bus_row_def demo_located t vehicle_row_def no far Let_def DWELL_S_def)
qed


section \<open>Witnesses\<close>

definition demo_prediction :: arrival where
  "demo_prediction = \<lparr>ar_route = Some ''A'', ar_trip = None, ar_eta = 1767600540, ar_seq = None\<rparr>"

lemma demo_dated: "dated 1767600000" "dated 1767600300" "dated 1767600540" "dated 1767600600"
  by (simp_all add: dated_def in_calendar_def unix_epoch_def)

lemma due_tells_time: "dated ts \<Longrightarrow> tells_time (due ts)"
  using dated_iso[of ts] by (auto simp: tells_time_def due_def)

theorem predictions_used_once_witness:
  "\<exists>ms left. length ms = 2 \<and> mset (used ms) + mset left = {#demo_prediction#}
    \<and> apply_stop_predictions demo_city 1767600000 900 [demo_prediction] [due 1767600000, due 1767600600]
      = map2 matched [due 1767600000, due 1767600600] ms @ map (unscheduled demo_city) left"
proof -
  have "filter (\<lambda>a. 1767600000 - 120 \<le> ar_eta a) [demo_prediction] = [demo_prediction]" by (simp add: demo_prediction_def)
  moreover have "length [due 1767600000, due 1767600600] = 2" by simp
  ultimately show ?thesis
    using predictions_used_once[of "[demo_prediction]" "[due 1767600000, due 1767600600]" demo_city 1767600000 900]
    by (metis list.distinct(1) mset_single_iff_right)
qed

lemma demo_merge: "\<exists>out. merge_departures [due 1767600600, due 1767600000] = Inr out"
  using tells_time_effective[OF due_tells_time[OF demo_dated(1)]] tells_time_effective[OF due_tells_time[OF demo_dated(4)]]
  by (auto simp: merge_departures_def)

theorem merged_departures_witness:
  "\<exists>out. merge_departures [due 1767600600, due 1767600000] = Inr out \<and> sorted (map time_key out) \<and> set out = {due 1767600600, due 1767600000}"
proof -
  obtain out where out: "merge_departures [due 1767600600, due 1767600000] = Inr out" using demo_merge by blast
  have "text_opt (sd_trip (due ts)) = None" for ts by (simp add: due_def text_opt_def)
  then show ?thesis using merged_departures[OF out] out by auto
qed

theorem board_is_the_grouping_witness:
  "\<exists>out rows. group_board 1 (1767600000 :: rat) [due 1767600000, due 1767600600] = Inr out \<and> out = sort_key row_order rows \<and> length rows = 1"
proof -
  have "\<forall>d \<in> set [due 1767600000, due 1767600600]. \<exists>t. board_time_of (1767600000 :: rat) d = Inr t"
    by (auto intro!: tells_time_board due_tells_time demo_dated)
  then obtain rs where "board_rows_of 1 (1767600000 :: rat) [due 1767600000, due 1767600600] [] = Inr rs" using board_rows_answer by blast
  then have g: "group_board 1 (1767600000 :: rat) [due 1767600000, due 1767600600] = Inr (sort_key row_order (map snd rs))" by (simp only: group_board_def and_then_simps)
  have "length (group_by board_key [due 1767600000, due 1767600600]) = 1" by (simp add: group_by_def group_add_def board_key_def due_def)
  then show ?thesis using board_is_the_grouping[OF g] g by (metis list_all2_lengthD)
qed

definition demo_stoptime :: otp_stoptime where
  "demo_stoptime = \<lparr>oe_day = Some 1767571200, oe_scheduled = Some 28800, oe_realtime_departure = Some 28860, oe_realtime = True, oe_headsign = None,
     oe_trip = Some ''bog:t1'', oe_trip_headsign = None, oe_route = None, oe_delay = Some 60, oe_state = None, oe_position = None\<rparr>"

theorem board_always_answers_witness:
  "\<exists>rows. board lower demo_city [demo_bus] [demo_prediction] [] 3 1767600000 [None, Some demo_stoptime] = Inr rows"
  by (rule board_always_answers) (simp_all add: demo_stoptime_def timetable_ok_def demo_prediction_def dated_def in_calendar_def unix_epoch_def)

theorem next_rows_are_sound_witness:
  "\<exists>out. next_rows demo_city None 1767600000 1 [''bog:s3''] [demo_bus] [demo_line] [due 1767600300] = Inr out \<and> length out \<le> 1"
proof -
  obtain r where "bus_row demo_city (15 / (36 / 10)) 1767600000 [''bog:s3''] [demo_line] [due 1767600300] demo_bus = Inr (Some r)"
    using demo_bus_row by blast
  then have out: "next_rows demo_city None 1767600000 1 [''bog:s3''] [demo_bus] [demo_line] [due 1767600300] = Inr [r]"
    by (simp add: next_rows_def SPEED_KMH_def List.map_filter_simps)
  then show ?thesis using next_rows_are_sound[OF out] by blast
qed

end
