(* ===== verification/Analytics_Events.thy ===== *)
theory Analytics_Events
  imports Geohash Admin_Schema Credentials Rate_Limit Api_Error
begin

text \<open>
  Usage statistics, the way in (\<open>app/analytics.py\<close>, \<open>ingest_events\<close> of \<open>app/routers/analytics.py\<close>): one schema
  per event type, what is taken off an event before it becomes a row, and the handler.  Instants are
  microseconds since the start of day 0 (day 1 is 0001-01-01); a date-time of a body is its wall clock with an optional
  offset.  SHA-256, the salts, the clock, gzip and pydantic's reading of a batch are arguments.
\<close>

section \<open>Event schemas\<close>

abbreviation optional :: "string \<Rightarrow> schema \<Rightarrow> string \<times> schema \<times> json option" where
  "optional k s \<equiv> dflt k (SOpt s) JNull"

definition SCREENS :: "string list" where
  "SCREENS = [''home'', ''planner'', ''results'', ''itinerary'', ''go'', ''stop'', ''board'', ''route'', ''routes'', ''locate'', ''live'',
     ''alerts'', ''favorites'', ''settings'', ''rental_station'', ''vehicle'', ''landing'', ''about'', ''city_picker'', ''other'']"

definition MODES :: "string list" where
  "MODES = [''WALK'', ''BUS'', ''RAIL'', ''SUBWAY'', ''TRAM'', ''CABLE_CAR'', ''FERRY'', ''BICYCLE'', ''BIKE_RENTAL'',
     ''SCOOTER_RENTAL'', ''CAR'', ''CAR_ONDEMAND'', ''TRANSIT'', ''ONDEMAND'', ''BICYCLE_RENTAL'']"

definition RESULT_TYPES :: "string list" where
  "RESULT_TYPES = [''stop'', ''station'', ''address'', ''poi'', ''place'', ''rental_station'', ''street'']"

definition LABELLED_RESULT_TYPES :: "string list" where
  "LABELLED_RESULT_TYPES = [''stop'', ''station'', ''poi'', ''rental_station'']"

definition AppOpen :: schema where
  "AppOpen = model [optional ''coldStart'' SBool, optional ''entry'' (SLit [''home'', ''deeplink'', ''widget'', ''notification''])]"

definition ScreenView :: schema where
  "ScreenView = model [req ''screen'' (SLit SCREENS)]"

definition SearchSelect :: schema where
  "SearchSelect = model [req ''resultType'' (SLit RESULT_TYPES), optional ''resultId'' (text_upto 80),
     optional ''label'' (text_upto 120), optional ''lat'' (SFloat (ranged (-90) 90)), optional ''lon'' (SFloat (ranged (-180) 180)),
     optional ''field'' (SLit [''from'', ''to'', ''locate'']), optional ''position'' (int_in 0 50)]"

definition place_kind :: schema where
  "place_kind = SLit [''myLocation'', ''stop'', ''address'', ''poi'', ''favorite'', ''map'']"

definition PlanRequest :: schema where
  "PlanRequest = model [req ''fromLat'' (SFloat (ranged (-90) 90)), req ''fromLon'' (SFloat (ranged (-180) 180)),
     req ''toLat'' (SFloat (ranged (-90) 90)), req ''toLon'' (SFloat (ranged (-180) 180)),
     optional ''fromKind'' place_kind, optional ''toKind'' place_kind,
     dflt ''modes'' (SArr (at_most 8) text_any) (JArr []), optional ''timeType'' (SLit [''now'', ''depart'', ''arrive'']),
     optional ''wheelchair'' SBool, optional ''rental'' SBool, optional ''onDemand'' SBool, optional ''bike'' SBool]"

definition PlanResult :: schema where
  "PlanResult = model [req ''count'' (int_in 0 50), optional ''bestDurationSeconds'' (int_in 0 86400),
     optional ''bestTransfers'' (int_in 0 20), optional ''hasRental'' SBool, optional ''hasOnDemand'' SBool,
     optional ''latencyMs'' (int_in 0 600000)]"

definition ItinerarySelect :: schema where
  "ItinerarySelect = model [optional ''index'' (int_in 0 50), optional ''source'' (SLit [''primary'', ''rental'', ''ondemand'']),
     dflt ''modes'' (SArr (at_most 8) text_any) (JArr []), optional ''durationSeconds'' (int_in 0 86400),
     optional ''transfers'' (int_in 0 20), optional ''fareAmount'' (SFloat (ranged 0 10000000)),
     dflt ''routeIds'' (SArr (at_most 12) text_any) (JArr [])]"

definition GoEvent :: schema where
  "GoEvent = model [optional ''durationSeconds'' (int_in 0 86400), optional ''completed'' SBool, optional ''legs'' (int_in 0 30)]"

definition StopEvent :: schema where
  "StopEvent = model [req ''stopId'' (text_upto 80), optional ''component'' (text_upto 20)]"

definition RouteView :: schema where
  "RouteView = model [req ''routeId'' (text_upto 80)]"

definition LocateQuery :: schema where
  "LocateQuery = model [req ''stopId'' (text_upto 80), req ''routeId'' (text_upto 80), optional ''liveRows'' (int_in 0 50),
     optional ''scheduledRows'' (int_in 0 50)]"

definition HandoffEvent :: schema where
  "HandoffEvent = model [req ''providerId'' (text_upto 40), optional ''kind'' (SLit [''taxi'', ''ridehail'', ''mixed'']),
     optional ''legIndex'' (int_in 0 30), optional ''hadEstimate'' SBool]"

definition RentalStationView :: schema where
  "RentalStationView = model [req ''stationId'' (text_upto 80), optional ''networkId'' (text_upto 40)]"

definition Favorite :: schema where
  "Favorite = model [req ''kind'' (SLit [''place'', ''stop'', ''route'']), optional ''label'' (text_upto 60)]"

definition AlertView :: schema where
  "AlertView = model [req ''alertId'' (text_upto 80)]"

definition LayerToggle :: schema where
  "LayerToggle = model [req ''layer'' (text_upto 30), req ''on'' SBool]"

definition ModeToggle :: schema where
  "ModeToggle = model [req ''mode'' (text_upto 30), req ''on'' SBool]"

definition AssistantQuery :: schema where
  "AssistantQuery = model [dflt ''toolsUsed'' (int_in 0 20) (JInt 0), dflt ''latencyMs'' (int_in 0 120000) (JInt 0),
     dflt ''ok'' SBool (JBool True)]"

definition ErrorEvent :: schema where
  "ErrorEvent = model [req ''code'' (text_upto 40), optional ''screen'' (text_upto 30)]"

definition SCHEMAS :: "(string \<times> schema) list" where
  "SCHEMAS = [(''app_open'', AppOpen), (''screen_view'', ScreenView), (''search_select'', SearchSelect), (''plan_request'', PlanRequest),
     (''plan_result'', PlanResult), (''itinerary_select'', ItinerarySelect), (''go_start'', GoEvent), (''go_end'', GoEvent),
     (''stop_view'', StopEvent), (''board_view'', StopEvent), (''route_view'', RouteView), (''locate_query'', LocateQuery),
     (''handoff'', HandoffEvent), (''rental_station_view'', RentalStationView), (''favorite_add'', Favorite),
     (''favorite_remove'', Favorite), (''alert_view'', AlertView), (''layer_toggle'', LayerToggle), (''mode_toggle'', ModeToggle),
     (''error'', ErrorEvent), (''assistant_query'', AssistantQuery)]"

definition schema_fields :: "schema \<Rightarrow> (string \<times> schema \<times> json option) list" where
  "schema_fields s = (case s of SModel fs _ \<Rightarrow> fs | _ \<Rightarrow> [])"

definition known_props :: "schema \<Rightarrow> (string \<times> json) list \<Rightarrow> (string \<times> json) list" where
  \<comment> \<open>\<open>extra="ignore"\<close>\<close>
  "known_props s props = filter (\<lambda>(k, v). k \<in> fst ` set (schema_fields s)) props"

definition read_props :: "(schema \<Rightarrow> json \<Rightarrow> string + json) \<Rightarrow> schema \<Rightarrow> (string \<times> json) list \<Rightarrow> (string \<times> json) list option" where
  \<comment> \<open>\<open>model.model_validate(props).model_dump(exclude_none=True)\<close>\<close>
  "read_props mv s props = (case mv s (JObj (known_props s props)) of
     Inr (JObj kvs) \<Rightarrow> Some (filter (\<lambda>(k, v). v \<noteq> JNull) kvs) | _ \<Rightarrow> None)"

section \<open>What a batch is\<close>

type_synonym py_datetime = "int \<times> int option"  \<comment> \<open>wall clock and UTC offset, in microseconds\<close>

record event_in =
  ev_type :: string
  ev_at :: py_datetime
  ev_props :: "(string \<times> json) list"

record batch_in =
  ba_session :: string
  ba_cohort :: string
  ba_platform :: string
  ba_version :: string
  ba_locale :: string
  ba_events :: "event_in list"

definition client_id :: "string \<Rightarrow> bool" where
  "client_id s \<longleftrightarrow> ranged 8 64 (length s) \<and> list_all (\<lambda>c. is_alpha c \<or> is_digit c \<or> c \<in> set ''_-'') s"

definition MAX_EVENTS :: nat where "MAX_EVENTS = 50"

definition batch_ok :: "batch_in \<Rightarrow> bool" where
  \<comment> \<open>the constraints of \<open>BatchIn\<close> and \<open>EventIn\<close>\<close>
  "batch_ok b \<longleftrightarrow> client_id (ba_session b) \<and> client_id (ba_cohort b) \<and> ba_platform b \<in> {''ios'', ''android'', ''web''}
     \<and> texts 0 32 (ba_version b) \<and> texts 0 10 (ba_locale b) \<and> at_most MAX_EVENTS (length (ba_events b))
     \<and> list_all (\<lambda>e. texts 0 40 (ev_type e)) (ba_events b)"

section \<open>Privacy\<close>

definition usec :: int where "usec = 1000000"
definition day_usec :: int where "day_usec = 86400 * usec"
definition BUCKET_SECONDS :: int where "BUCKET_SECONDS = 300"
definition COARSE_DECIMALS :: nat where "COARSE_DECIMALS = 3"

definition date_of :: "int \<Rightarrow> int" where
  \<comment> \<open>\<open>t.date()\<close> as an ordinal\<close>
  "date_of t = t div day_usec"

definition to_utc :: "py_datetime \<Rightarrow> int option" where
  \<comment> \<open>a naive time is taken as UTC; outside the years 1 to 9999 \<open>astimezone\<close> raises \<open>OverflowError\<close>\<close>
  "to_utc t = (let u = fst t - or_else (snd t) 0 in if 1 \<le> date_of u \<and> date_of u \<le> 3652059 then Some u else None)"

definition bucket :: "py_datetime \<Rightarrow> int option" where
  "bucket t = map_option (\<lambda>u. let secs = (u div usec mod 3600) mod BUCKET_SECONDS; v = u - secs * usec in v - v mod usec) (to_utc t)"

definition as_float :: "json \<Rightarrow> rat option" where
  "as_float j = (case j of JFloat x \<Rightarrow> Some x | _ \<Rightarrow> None)"

definition cell :: "rat option \<Rightarrow> rat option \<Rightarrow> string option" where
  "cell lat lon = (case (lat, lon) of
     (Some la, Some lo) \<Rightarrow> Some (encode (py_round_to COARSE_DECIMALS la) (py_round_to COARSE_DECIMALS lo) 7) | _ \<Rightarrow> None)"

type_synonym salts = "(int \<times> string) list"

definition salt :: "(int \<Rightarrow> string) \<Rightarrow> int \<Rightarrow> salts \<Rightarrow> salts \<times> string" where
  \<comment> \<open>\<open>Hasher.salt\<close>; \<open>source\<close> is the awaited source, or a fresh token\<close>
  "salt source day s = (case map_of s day of Some v \<Rightarrow> (s, v)
     | None \<Rightarrow> (filter (\<lambda>(d, v). \<not> d < day - 2) (AList.update day (source day) s), source day))"

definition hash_id :: "(string \<Rightarrow> string) \<Rightarrow> (int \<Rightarrow> string) \<Rightarrow> string \<Rightarrow> int \<Rightarrow> salts \<Rightarrow> salts \<times> string" where
  "hash_id sha source v day s = (let (s', x) = salt source day s in (s', sha (x @ '':'' @ v)))"

definition pval :: "(string \<times> json) list \<Rightarrow> string \<Rightarrow> json" where
  \<comment> \<open>\<open>props.get(k)\<close>\<close>
  "pval p k = or_else (map_of p k) JNull"

definition drop_privacy :: "string \<Rightarrow> (string \<times> json) list \<Rightarrow> (string \<times> json) list" where
  "drop_privacy etype props =
     (let p1 = (if etype = ''search_select'' \<and> pval props ''resultType'' \<notin> JStr ` set LABELLED_RESULT_TYPES
                then AList.update ''label'' JNull props else props);
          p2 = (if etype = ''search_select'' \<and> pval p1 ''resultType'' \<notin> JStr ` {''stop'', ''station'', ''rental_station''}
                then AList.update ''resultId'' JNull p1 else p1)
      in if etype \<in> {''favorite_add'', ''favorite_remove''} \<and> pval p2 ''label'' \<notin> {JStr ''home'', JStr ''work''}
         then AList.update ''label'' JNull p2 else p2)"

section \<open>Rows\<close>

record event_row =
  er_city :: string
  er_at :: int
  er_received :: int
  er_type :: string
  er_session :: string
  er_cohort :: string
  er_platform :: string
  er_version :: string
  er_locale :: string
  er_props :: "(string \<times> json) list"
  er_gh7 :: "string option"
  er_from :: "string option"
  er_to :: "string option"

definition cut :: "nat \<Rightarrow> string \<Rightarrow> string" where
  \<comment> \<open>\<open>s[:n]\<close>\<close>
  "cut n s = concat (take n (utf8_chars s))"

definition coordinate_keys :: "string list" where
  "coordinate_keys = [''lat'', ''lon'', ''fromLat'', ''fromLon'', ''toLat'', ''toLon'']"

datatype 'a checked = Stored 'a | Rejected | Overflow

definition prepare_event :: "(schema \<Rightarrow> json \<Rightarrow> string + json) \<Rightarrow> string \<Rightarrow> batch_in \<Rightarrow> string \<Rightarrow> string \<Rightarrow> int \<Rightarrow> event_in
    \<Rightarrow> event_row checked" where
  "prepare_event mv city b session_hash cohort_hash received ev = (case map_of SCHEMAS (ev_type ev) of
     None \<Rightarrow> Rejected
   | Some s \<Rightarrow> (case read_props mv s (ev_props ev) of
       None \<Rightarrow> Rejected
     | Some props0 \<Rightarrow>
         let props = drop_privacy (ev_type ev) props0;
             at_cell = (\<lambda>a b. cell (as_float (pval props a)) (as_float (pval props b)));
             planned = (ev_type ev = ''plan_request'');
             gh = (if ev_type ev = ''search_select'' then at_cell ''lat'' ''lon'' else None);
             from_gh = (if planned then at_cell ''fromLat'' ''fromLon'' else None);
             to_gh = (if planned then at_cell ''toLat'' ''toLon'' else None);
             left = fold AList.delete coordinate_keys props
         in (case bucket (ev_at ev) of
           None \<Rightarrow> Overflow
         | Some t \<Rightarrow> if 7 * day_usec < \<bar>received - t\<bar> then Rejected
             else Stored \<lparr>er_city = city, er_at = t, er_received = received, er_type = ev_type ev, er_session = session_hash,
                er_cohort = cohort_hash, er_platform = ba_platform b, er_version = cut 32 (ba_version b),
                er_locale = cut 10 (ba_locale b), er_props = filter (\<lambda>(k, v). v \<noteq> JNull) left,
                er_gh7 = gh, er_from = from_gh, er_to = to_gh\<rparr>)))"

fun collect :: "('a \<Rightarrow> 'b checked) \<Rightarrow> nat \<Rightarrow> 'a list \<Rightarrow> ('b list \<times> nat list) option" where
  \<comment> \<open>the loop over \<open>enumerate(batch.events)\<close>; an exception ends it\<close>
  "collect f i [] = Some ([], [])"
| "collect f i (x # xs) = (case f x of
     Overflow \<Rightarrow> None
   | Rejected \<Rightarrow> map_option (\<lambda>(rows, rejected). (rows, i # rejected)) (collect f (Suc i) xs)
   | Stored r \<Rightarrow> map_option (\<lambda>(rows, rejected). (r # rows, rejected)) (collect f (Suc i) xs))"

record hash_env =
  he_sha :: "string \<Rightarrow> string"
  he_source :: "int \<Rightarrow> string"

definition prepare_rows :: "(schema \<Rightarrow> json \<Rightarrow> string + json) \<Rightarrow> hash_env \<Rightarrow> string \<Rightarrow> batch_in \<Rightarrow> int \<Rightarrow> salts
    \<Rightarrow> salts \<times> (event_row list \<times> nat list) option" where
  "prepare_rows mv env city b received s =
     (let day = date_of received;
          (s1, session_hash) = hash_id (he_sha env) (he_source env) (ba_session b) day s;
          (s2, cohort_hash) = hash_id (he_sha env) (he_source env) (ba_cohort b) day s1
      in (s2, collect (prepare_event mv city b session_hash cohort_hash received) 0 (ba_events b)))"

section \<open>Helper facts\<close>

lemmas event_schemas = SCHEMAS_def AppOpen_def ScreenView_def SearchSelect_def PlanRequest_def PlanResult_def
  ItinerarySelect_def GoEvent_def StopEvent_def RouteView_def LocateQuery_def HandoffEvent_def RentalStationView_def
  Favorite_def AlertView_def LayerToggle_def ModeToggle_def AssistantQuery_def ErrorEvent_def place_kind_def
  model_def req_def dflt_def schema_fields_def

lemma schemas_well_formed:
  "(t, s) \<in> set SCHEMAS \<Longrightarrow> defaults_ok s \<and> s = SModel (schema_fields s) anything \<and> distinct (map fst (schema_fields s))"
proof -
  have "\<forall>(t, s) \<in> set SCHEMAS. defaults_ok s \<and> s = SModel (schema_fields s) anything \<and> distinct (map fst (schema_fields s))"
    by (simp add: event_schemas anything_def ranged_def at_most_def texts_def)
  then show "(t, s) \<in> set SCHEMAS \<Longrightarrow> ?thesis" by blast
qed

lemma fold_delete: "fold AList.delete ks xs = filter (\<lambda>(k, v). k \<notin> set ks) xs"
proof (induction ks arbitrary: xs)
  case (Cons k ks)
  then show ?case by (auto simp: AList.delete_eq case_prod_beta intro: filter_cong)
qed simp

lemma pval_simps:
  "pval (AList.update k v p) k' = (if k' = k then v else pval p k')"
  by (simp add: pval_def update_conv')

lemma read_props_keys:
  assumes "pydantic mv" "(t, s) \<in> set SCHEMAS" "read_props mv s props = Some p"
  shows "fst ` set p \<subseteq> fst ` set (schema_fields s)" "\<forall>(k, v) \<in> set p. v \<noteq> JNull" "distinct (map fst p)"
proof -
  from assms(3) obtain kvs where k: "mv s (JObj (known_props s props)) = Inr (JObj kvs)" "p = filter (\<lambda>(k, v). v \<noteq> JNull) kvs"
    by (auto simp: read_props_def split: sum.splits json.splits)
  have "fits s (JObj kvs)"
    using assms(1) schemas_well_formed[OF assms(2)] k(1) unfolding pydantic_def by blast
  then have "distinct (map fst kvs) \<and> set (map fst kvs) \<subseteq> fst ` set (schema_fields s)"
    using schemas_well_formed[OF assms(2)]
    by (metis (no_types, lifting) fits.simps(9) json.simps(55) list.set_map)
  then show "fst ` set p \<subseteq> fst ` set (schema_fields s)" "\<forall>(k, v) \<in> set p. v \<noteq> JNull" "distinct (map fst p)"
    using k(2) by (auto simp: distinct_map_filter)
qed

section \<open>What may be stored\<close>

lemma cell_length: "cell a b = Some g \<Longrightarrow> a \<noteq> None \<and> b \<noteq> None"
  by (auto simp: cell_def split: option.splits)

lemma collect_parts:
  "collect f i xs = Some (rows, rejected) \<Longrightarrow>
    length rows + length rejected = length xs \<and> (\<forall>r \<in> set rows. \<exists>x \<in> set xs. f x = Stored r)
    \<and> (\<forall>n \<in> set rejected. i \<le> n \<and> n < i + length xs \<and> f (xs ! (n - i)) = Rejected)"
proof (induction f i xs arbitrary: rows rejected rule: collect.induct)
  case (2 f i x xs)
  show ?case
  proof (cases "f x")
    case (Stored r)
    with 2 show ?thesis by (fastforce simp: nth_Cons')
  next
    case Rejected
    with 2(3) obtain rj where r: "collect f (Suc i) xs = Some (rows, rj)" "rejected = i # rj" by auto
    with 2(2)[OF Rejected r(1)] Rejected show ?thesis by (fastforce simp: nth_Cons')
  qed (use 2(3) in simp)
qed simp

lemma bucket_multiple: "bucket t = Some u \<Longrightarrow> u mod (BUCKET_SECONDS * usec) = 0"
proof -
  assume "bucket t = Some u"
  then obtain v where "u = (v - (v div usec mod 3600) mod 300 * usec) - (v - (v div usec mod 3600) mod 300 * usec) mod usec"
    by (auto simp: bucket_def Let_def BUCKET_SECONDS_def)
  moreover have "(v div usec mod 3600) mod 300 = v div usec mod 300" by (simp add: mod_mod_cancel)
  moreover have "(v - v div usec mod 300 * usec) mod usec = v mod usec"
    by (metis mod_diff_right_eq mod_mult_self2_is_0 diff_zero)
  moreover have "v - v mod usec = v div usec * usec" by (simp add: minus_mod_eq_div_mult)
  ultimately have "u = v div usec div 300 * (300 * usec)"
    by (metis (no_types, opaque_lifting) diff_diff_eq diff_diff_eq2 add.commute left_diff_distrib minus_mod_eq_div_mult mult.assoc diff_right_commute)
  then show ?thesis by (simp add: BUCKET_SECONDS_def)
qed

definition label_allowed :: "event_row \<Rightarrow> bool" where
  \<comment> \<open>a label is that of a selected stop, station or point of interest, or one of the words home and work\<close>
  "label_allowed r \<longleftrightarrow> map_of (er_props r) ''label'' = None
     \<or> er_type r = ''search_select'' \<and> pval (er_props r) ''resultType'' \<in> JStr ` set LABELLED_RESULT_TYPES
     \<or> er_type r \<in> {''favorite_add'', ''favorite_remove''} \<and> pval (er_props r) ''label'' \<in> {JStr ''home'', JStr ''work''}"

definition id_allowed :: "event_row \<Rightarrow> bool" where
  \<comment> \<open>a search keeps the identifier of a stop or station only\<close>
  "id_allowed r \<longleftrightarrow> map_of (er_props r) ''resultId'' = None
     \<or> pval (er_props r) ''resultType'' \<in> JStr ` {''stop'', ''station'', ''rental_station''}"

lemma label_fields:
  assumes "(t, s) \<in> set SCHEMAS"
  shows "''label'' \<in> fst ` set (schema_fields s) \<Longrightarrow> t \<in> {''search_select'', ''favorite_add'', ''favorite_remove''}"
    and "''resultId'' \<in> fst ` set (schema_fields s) \<Longrightarrow> t = ''search_select''"
proof -
  have "\<forall>(t, s) \<in> set SCHEMAS. (list_ex (\<lambda>x. fst x = ''label'') (schema_fields s) \<longrightarrow> t \<in> {''search_select'', ''favorite_add'', ''favorite_remove''})
      \<and> (list_ex (\<lambda>x. fst x = ''resultId'') (schema_fields s) \<longrightarrow> t = ''search_select'')"
    by (simp add: event_schemas)
  then show "''label'' \<in> fst ` set (schema_fields s) \<Longrightarrow> t \<in> {''search_select'', ''favorite_add'', ''favorite_remove''}"
    "''resultId'' \<in> fst ` set (schema_fields s) \<Longrightarrow> t = ''search_select''" using assms by (fastforce simp: list_ex_iff)+
qed

lemma map_of_nonnull:
  "distinct (map fst p) \<Longrightarrow> map_of (filter (\<lambda>(k, v). v \<noteq> JNull) p) k = (if pval p k = JNull then None else map_of p k)"
  by (induction p) (auto simp: pval_def map_of_eq_None_iff rev_image_eqI split: option.splits)

lemma map_of_filter_key: "map_of (filter (\<lambda>(k, v). P k) p) k = (if P k then map_of p k else None)"
  by (induction p) auto

lemma coordinate_keys_not [simp]: "''label'' \<notin> set coordinate_keys" "''resultType'' \<notin> set coordinate_keys" "''resultId'' \<notin> set coordinate_keys"
  by (simp_all add: coordinate_keys_def)

definition kept :: "(string \<times> json) list \<Rightarrow> (string \<times> json) list" where
  \<comment> \<open>the properties of a row: no coordinates, no nulls\<close>
  "kept p = filter (\<lambda>(k, v). v \<noteq> JNull) (filter (\<lambda>(k, v). k \<notin> set coordinate_keys) p)"

lemma kept_lookup:
  "distinct (map fst p) \<Longrightarrow> map_of (kept p) k = (if k \<in> set coordinate_keys \<or> pval p k = JNull then None else map_of p k)"
  unfolding kept_def
  by (subst map_of_nonnull) (auto simp: distinct_map_filter map_of_filter_key pval_def split: if_splits)

lemma kept_value: "distinct (map fst p) \<Longrightarrow> k \<notin> set coordinate_keys \<Longrightarrow> pval (kept p) k = pval p k"
  by (auto simp: pval_def kept_lookup split: option.split)

lemma drop_privacy_keys: "fst ` set (drop_privacy t p) \<subseteq> fst ` set p \<union> {''label'', ''resultId''}"
  by (auto simp: drop_privacy_def Let_def dom_update)

lemma drop_privacy_distinct: "distinct (map fst p) \<Longrightarrow> distinct (map fst (drop_privacy t p))"
  by (simp add: drop_privacy_def Let_def distinct_update)

lemma drop_privacy_other: "k \<notin> {''label'', ''resultId''} \<Longrightarrow> pval (drop_privacy t p) k = pval p k"
  by (simp add: drop_privacy_def Let_def pval_simps)

lemma drop_privacy_label:
  "pval (drop_privacy t p) ''label'' \<noteq> JNull \<Longrightarrow> t \<in> {''search_select'', ''favorite_add'', ''favorite_remove''} \<Longrightarrow>
     t = ''search_select'' \<and> pval p ''resultType'' \<in> JStr ` set LABELLED_RESULT_TYPES
   \<or> t \<in> {''favorite_add'', ''favorite_remove''} \<and> pval (drop_privacy t p) ''label'' \<in> {JStr ''home'', JStr ''work''}"
  by (auto simp: drop_privacy_def Let_def pval_simps split: if_splits)

lemma drop_privacy_id:
  "pval (drop_privacy ''search_select'' p) ''resultId'' \<noteq> JNull \<Longrightarrow> pval p ''resultType'' \<in> JStr ` {''stop'', ''station'', ''rental_station''}"
  by (auto simp: drop_privacy_def Let_def pval_simps split: if_splits)

lemma prepare_event_stored:
  assumes "prepare_event mv city b sh ch received ev = Stored r"
  obtains s p t where "(ev_type ev, s) \<in> set SCHEMAS" "read_props mv s (ev_props ev) = Some p" "bucket (ev_at ev) = Some t"
    "\<bar>received - t\<bar> \<le> 7 * day_usec" "er_at r = t" "er_received r = received" "er_type r = ev_type ev" "er_session r = sh" "er_cohort r = ch"
    "er_city r = city" "er_props r = kept (drop_privacy (ev_type ev) p)"
    "er_gh7 r = None \<or> er_gh7 r = cell (as_float (pval p ''lat'')) (as_float (pval p ''lon''))"
    "er_from r = None \<or> er_from r = cell (as_float (pval p ''fromLat'')) (as_float (pval p ''fromLon''))"
    "er_to r = None \<or> er_to r = cell (as_float (pval p ''toLat'')) (as_float (pval p ''toLon''))"
  using assms
  by (auto simp: prepare_event_def Let_def kept_def fold_delete drop_privacy_other split: option.splits if_splits dest: map_of_SomeD)

definition coarse :: "string option \<Rightarrow> bool" where
  \<comment> \<open>no cell, or the cell of seven characters of a position rounded to three decimals\<close>
  "coarse g \<longleftrightarrow> g = None \<or> (\<exists>la lo. g = cell (Some la) (Some lo))"

definition anonymous_row :: "(string \<Rightarrow> json \<Rightarrow> bool) \<Rightarrow> event_row \<Rightarrow> bool" where
  "anonymous_row field r \<longleftrightarrow> (\<forall>(k, v) \<in> set (er_props r). field k v \<and> k \<notin> set coordinate_keys \<and> v \<noteq> JNull)
     \<and> coarse (er_gh7 r) \<and> coarse (er_from r) \<and> coarse (er_to r) \<and> label_allowed r \<and> id_allowed r
     \<and> er_at r mod (BUCKET_SECONDS * usec) = 0 \<and> \<bar>er_received r - er_at r\<bar> \<le> 7 * day_usec"

definition declared_field :: "string \<Rightarrow> string \<Rightarrow> json \<Rightarrow> bool" where
  \<comment> \<open>a field of the event type's schema\<close>
  "declared_field t k v \<longleftrightarrow> (\<exists>s. map_of SCHEMAS t = Some s \<and> k \<in> fst ` set (schema_fields s))"

lemma coarse_cell: "coarse (cell a b)"
  by (cases a; cases b) (auto simp: coarse_def cell_def)

lemma prepared_event_is_anonymous:
  assumes "pydantic mv" "prepare_event mv city b sh ch received ev = Stored r"
  shows "anonymous_row (declared_field (er_type r)) r"
  using assms(2)
proof (rule prepare_event_stored)
  fix s p t
  assume s: "(ev_type ev, s) \<in> set SCHEMAS" and p: "read_props mv s (ev_props ev) = Some p" and t: "bucket (ev_at ev) = Some t"
    and near: "\<bar>received - t\<bar> \<le> 7 * day_usec" and r: "er_at r = t" "er_received r = received" "er_type r = ev_type ev"
    and props: "er_props r = kept (drop_privacy (ev_type ev) p)"
    and cells: "er_gh7 r = None \<or> er_gh7 r = cell (as_float (pval p ''lat'')) (as_float (pval p ''lon''))"
      "er_from r = None \<or> er_from r = cell (as_float (pval p ''fromLat'')) (as_float (pval p ''fromLon''))"
      "er_to r = None \<or> er_to r = cell (as_float (pval p ''toLat'')) (as_float (pval p ''toLon''))"
  let ?p = "drop_privacy (ev_type ev) p"
  note keys = read_props_keys[OF assms(1) s p]
  have d: "distinct (map fst ?p)" by (rule drop_privacy_distinct[OF keys(3)])
  have "distinct (map fst SCHEMAS)" by (simp add: SCHEMAS_def)
  then have look: "map_of SCHEMAS (ev_type ev) = Some s" using s by simp
  have absent: "pval p k = JNull" if "k \<notin> fst ` set (schema_fields s)" for k
    using keys(1) that map_of_SomeD[of p k] by (cases "map_of p k") (auto simp: pval_def image_iff dest!: subsetD)
  have label: "label_allowed r"
  proof (cases "pval ?p ''label'' = JNull")
    case False
    then have "ev_type ev \<in> {''search_select'', ''favorite_add'', ''favorite_remove''}"
    proof (cases "''label'' \<in> fst ` set (schema_fields s)")
      case no: False
      then have "pval ?p ''label'' = JNull" using absent[OF no]
        by (auto simp: drop_privacy_def Let_def pval_simps)
      with False show ?thesis by simp
    qed (use label_fields(1)[OF s] in blast)
    from drop_privacy_label[OF False this] show ?thesis
      using d by (auto simp: label_allowed_def props r(3) kept_value drop_privacy_other)
  qed (simp add: label_allowed_def props kept_lookup[OF d])
  have ident: "id_allowed r"
  proof (cases "pval ?p ''resultId'' = JNull")
    case False
    have "ev_type ev = ''search_select''"
    proof (cases "''resultId'' \<in> fst ` set (schema_fields s)")
      case no: False
      then have "pval ?p ''resultId'' = JNull" using absent[OF no]
        by (auto simp: drop_privacy_def Let_def pval_simps)
      with False show ?thesis by simp
    qed (use label_fields(2)[OF s] in blast)
    with drop_privacy_id[of p] False show ?thesis
      using d by (auto simp: id_allowed_def props kept_value drop_privacy_other)
  qed (simp add: id_allowed_def props kept_lookup[OF d])
  have "declared_field (er_type r) k v \<and> k \<notin> set coordinate_keys \<and> v \<noteq> JNull" if "(k, v) \<in> set (er_props r)" for k v
  proof -
    have "(k, v) \<in> set ?p" "v \<noteq> JNull" "k \<notin> set coordinate_keys" using that by (auto simp: props kept_def)
    moreover from this have "pval ?p k = v" using d by (simp add: pval_def)
    then have "pval p k = v \<or> k \<in> {''label'', ''resultId''} \<and> pval ?p k = pval p k"
      using \<open>v \<noteq> JNull\<close> by (auto simp: drop_privacy_def Let_def pval_simps split: if_splits)
    then have "pval p k \<noteq> JNull" using \<open>pval ?p k = v\<close> \<open>v \<noteq> JNull\<close> by auto
    then have "k \<in> fst ` set (schema_fields s)" using absent by blast
    ultimately show ?thesis using look by (auto simp: declared_field_def r(3))
  qed
  moreover have "coarse (er_gh7 r)" "coarse (er_from r)" "coarse (er_to r)"
    using cells coarse_cell by (metis coarse_def)+
  ultimately show ?thesis
    using label ident bucket_multiple[OF t] near by (auto simp: anonymous_row_def r)
qed

section \<open>A row does not depend on the position beyond its cell\<close>

definition same_cell :: "event_in \<Rightarrow> event_in \<Rightarrow> string \<Rightarrow> string \<Rightarrow> bool" where
  "same_cell e e' a b \<longleftrightarrow> cell (as_float (pval (ev_props e) a)) (as_float (pval (ev_props e) b))
     = cell (as_float (pval (ev_props e') a)) (as_float (pval (ev_props e') b))"

definition alike :: "event_in \<Rightarrow> event_in \<Rightarrow> bool" where
  \<comment> \<open>two well-typed events that differ only in their coordinates, within a cell, and in their time, within a bucket\<close>
  "alike e e' \<longleftrightarrow> ev_type e' = ev_type e \<and> bucket (ev_at e') = bucket (ev_at e)
     \<and> (\<forall>k. k \<notin> set coordinate_keys \<longrightarrow> map_of (ev_props e') k = map_of (ev_props e) k)
     \<and> same_cell e e' ''lat'' ''lon'' \<and> same_cell e e' ''fromLat'' ''fromLon'' \<and> same_cell e e' ''toLat'' ''toLon''
     \<and> (\<forall>s. map_of SCHEMAS (ev_type e) = Some s \<longrightarrow>
          fits s (JObj (known_props s (ev_props e))) \<and> fits s (JObj (known_props s (ev_props e'))))"

definition unplaced :: "(string \<times> json) list \<Rightarrow> (string \<times> json) list" where
  "unplaced = filter (\<lambda>(k, v). k \<notin> set coordinate_keys)"

lemma unplaced_update: "k \<notin> set coordinate_keys \<Longrightarrow> unplaced (AList.update k v p) = AList.update k v (unplaced p)"
  by (induction p) (auto simp: unplaced_def)

lemma pval_unplaced: "k \<notin> set coordinate_keys \<Longrightarrow> pval (unplaced p) k = pval p k"
  by (simp add: unplaced_def pval_def map_of_filter_key)

lemma unplaced_drop_privacy: "unplaced (drop_privacy t p) = drop_privacy t (unplaced p)"
  by (simp add: drop_privacy_def Let_def unplaced_update pval_unplaced pval_simps)

lemma kept_unplaced: "kept p = filter (\<lambda>(k, v). v \<noteq> JNull) (unplaced p)"
  by (simp add: kept_def unplaced_def)

lemma map_of_known: "k \<in> fst ` set (schema_fields s) \<Longrightarrow> map_of (known_props s props) k = map_of props k"
  by (simp add: known_props_def map_of_filter_key)

lemma read_props_fits:
  assumes "pydantic mv" "map_of SCHEMAS t = Some s" "fits s (JObj (known_props s props))"
  shows "read_props mv s props = Some (filter (\<lambda>(k, v). v \<noteq> JNull)
     (map (\<lambda>(k, s', d). (k, case map_of props k of None \<Rightarrow> or_else d JNull | Some v \<Rightarrow> fill s' v)) (schema_fields s)))"
proof -
  note wf = schemas_well_formed[OF map_of_SomeD[OF assms(2)]]
  obtain fs where s: "s = SModel fs anything" "schema_fields s = fs" using wf by blast
  have "mv s (JObj (known_props s props)) = Inr (fill s (JObj (known_props s props)))"
    using assms(1,3) wf unfolding pydantic_def by blast
  also have "fill s (JObj (known_props s props)) = JObj (fill_fields fs (known_props s props))" by (simp add: s)
  finally have m: "mv s (JObj (known_props s props)) = Inr (JObj (fill_fields fs (known_props s props)))" .
  have "fill_fields fs (known_props s props)
      = map (\<lambda>(k, s', d). (k, case map_of props k of None \<Rightarrow> or_else d JNull | Some v \<Rightarrow> fill s' v)) fs"
    unfolding fill_fields_map by (rule map_cong[OF refl]) (use s(2) in \<open>auto simp: map_of_known rev_image_eqI split: prod.split\<close>)
  then show ?thesis unfolding read_props_def m s(2) by simp
qed

lemma unplaced_read:
  "(\<And>k. k \<notin> set coordinate_keys \<Longrightarrow> map_of props k = map_of props' k) \<Longrightarrow>
   unplaced (filter (\<lambda>(k, v). v \<noteq> JNull) (map (\<lambda>(k, s', d). (k, case map_of props k of None \<Rightarrow> or_else d JNull | Some v \<Rightarrow> fill s' v)) fs))
   = unplaced (filter (\<lambda>(k, v). v \<noteq> JNull) (map (\<lambda>(k, s', d). (k, case map_of props' k of None \<Rightarrow> or_else d JNull | Some v \<Rightarrow> fill s' v)) fs))"
  by (induction fs) (auto simp: unplaced_def)

lemma pval_read:
  "distinct (map fst fs) \<Longrightarrow> pval (filter (\<lambda>(k, v). v \<noteq> JNull) (map (\<lambda>(k, s', d). (k, case map_of props k of None \<Rightarrow> or_else d JNull | Some v \<Rightarrow> fill s' v)) fs)) k
   = (case map_of fs k of None \<Rightarrow> JNull | Some (s', d) \<Rightarrow> (case map_of props k of None \<Rightarrow> or_else d JNull | Some v \<Rightarrow> fill s' v))"
proof (induction fs)
  case (Cons x fs)
  obtain k' s' d where x: "x = (k', s', d)" by (cases x)
  have none: "map_of (filter (\<lambda>(k, v). v \<noteq> JNull) (map (\<lambda>(k, s', d). (k, f k s' d)) fs)) k' = None" for f
    using Cons.prems x by (auto simp: map_of_eq_None_iff rev_image_eqI split: prod.splits)
  show ?case using Cons none[of "\<lambda>k s' d. case map_of props k of None \<Rightarrow> or_else d JNull | Some v \<Rightarrow> fill s' v"] x
    by (auto simp: pval_def split: option.splits)
qed (simp add: pval_def)

lemma schema_of_search: "map_of SCHEMAS ''search_select'' = Some SearchSelect" "map_of SCHEMAS ''plan_request'' = Some PlanRequest"
  by (simp_all add: SCHEMAS_def)

lemma coordinate_fields:
  "map_of (schema_fields SearchSelect) ''lat'' = Some (SOpt (SFloat (ranged (-90) 90)), Some JNull)"
  "map_of (schema_fields SearchSelect) ''lon'' = Some (SOpt (SFloat (ranged (-180) 180)), Some JNull)"
  "map_of (schema_fields PlanRequest) ''fromLat'' = Some (SFloat (ranged (-90) 90), None)"
  "map_of (schema_fields PlanRequest) ''fromLon'' = Some (SFloat (ranged (-180) 180), None)"
  "map_of (schema_fields PlanRequest) ''toLat'' = Some (SFloat (ranged (-90) 90), None)"
  "map_of (schema_fields PlanRequest) ''toLon'' = Some (SFloat (ranged (-180) 180), None)"
  by (simp_all add: SearchSelect_def PlanRequest_def model_def req_def dflt_def schema_fields_def)

lemma coordinates_read:
  assumes "map_of SCHEMAS t = Some s"
    and "t = ''search_select'' \<and> k \<in> {''lat'', ''lon''} \<or> t = ''plan_request'' \<and> k \<in> {''fromLat'', ''fromLon'', ''toLat'', ''toLon''}"
  shows "pval (filter (\<lambda>(k, v). v \<noteq> JNull) (map (\<lambda>(k, s', d). (k, case map_of props k of None \<Rightarrow> or_else d JNull | Some v \<Rightarrow> fill s' v)) (schema_fields s))) k
      = pval props k"
proof -
  have d: "distinct (map fst (schema_fields s))" using schemas_well_formed[OF map_of_SomeD[OF assms(1)]] by simp
  have "\<exists>s' d'. map_of (schema_fields s) k = Some (s', d') \<and> or_else d' JNull = JNull \<and> (\<forall>v. fill s' v = v)"
    using assms(2)
  proof (elim disjE conjE)
    assume t: "t = ''search_select''" and k: "k \<in> {''lat'', ''lon''}"
    then have "s = SearchSelect" using assms(1) schema_of_search by simp
    with k show ?thesis by (elim insertE emptyE) (simp_all add: coordinate_fields)
  next
    assume t: "t = ''plan_request''" and k: "k \<in> {''fromLat'', ''fromLon'', ''toLat'', ''toLon''}"
    then have "s = PlanRequest" using assms(1) schema_of_search by simp
    with k show ?thesis by (elim insertE emptyE) (simp_all add: coordinate_fields)
  qed
  then show ?thesis unfolding pval_read[OF d] by (auto simp: pval_def split: option.split)
qed

lemma coordinates_kept:
  "pval (drop_privacy t p) ''lat'' = pval p ''lat''" "pval (drop_privacy t p) ''lon'' = pval p ''lon''"
  "pval (drop_privacy t p) ''fromLat'' = pval p ''fromLat''" "pval (drop_privacy t p) ''fromLon'' = pval p ''fromLon''"
  "pval (drop_privacy t p) ''toLat'' = pval p ''toLat''" "pval (drop_privacy t p) ''toLon'' = pval p ''toLon''"
  by (simp_all add: drop_privacy_other)

lemma prepare_event_alike:
  assumes "pydantic mv" "alike e e'"
  shows "prepare_event mv city b sh ch received e' = prepare_event mv city b sh ch received e"
proof (cases "map_of SCHEMAS (ev_type e)")
  case None
  then show ?thesis using assms(2) by (simp add: prepare_event_def alike_def)
next
  case (Some s)
  let ?read = "\<lambda>props. filter (\<lambda>(k, v). v \<noteq> JNull)
     (map (\<lambda>(k, s', d). (k, case map_of props k of None \<Rightarrow> or_else d JNull | Some v \<Rightarrow> fill s' v)) (schema_fields s))"
  have f: "fits s (JObj (known_props s (ev_props e)))" "fits s (JObj (known_props s (ev_props e')))"
    using assms(2) Some by (auto simp: alike_def)
  note r = read_props_fits[OF assms(1) Some f(1)] read_props_fits[OF assms(1) Some f(2)]
  have "unplaced (?read (ev_props e)) = unplaced (?read (ev_props e'))"
    by (rule unplaced_read) (use assms(2) in \<open>auto simp: alike_def\<close>)
  then have left: "kept (drop_privacy (ev_type e) (?read (ev_props e))) = kept (drop_privacy (ev_type e) (?read (ev_props e')))"
    by (simp only: kept_unplaced unplaced_drop_privacy)
  have cells: "cell (as_float (pval (?read (ev_props e)) a)) (as_float (pval (?read (ev_props e)) b))
       = cell (as_float (pval (?read (ev_props e')) a)) (as_float (pval (?read (ev_props e')) b))"
    if "ev_type e = ''search_select'' \<and> (a, b) = (''lat'', ''lon'')
      \<or> ev_type e = ''plan_request'' \<and> (a, b) \<in> {(''fromLat'', ''fromLon''), (''toLat'', ''toLon'')}" for a b
  proof -
    have "pval (?read props) a = pval props a" "pval (?read props) b = pval props b" for props
      by (rule coordinates_read[OF Some]; use that in auto)+
    then show ?thesis using assms(2) that by (auto simp: alike_def same_cell_def)
  qed
  have t: "ev_type e' = ev_type e" "bucket (ev_at e') = bucket (ev_at e)" using assms(2) by (simp_all add: alike_def)
  define P P' where "P = ?read (ev_props e)" and "P' = ?read (ev_props e')"
  note cells' = cells[folded P_def P'_def] and left' = left[folded P_def P'_def] and r' = r[folded P_def P'_def]
  have "ev_type e = ''search_select'' \<Longrightarrow> cell (as_float (pval P ''lat'')) (as_float (pval P ''lon'')) = cell (as_float (pval P' ''lat'')) (as_float (pval P' ''lon''))"
    "ev_type e = ''plan_request'' \<Longrightarrow> cell (as_float (pval P ''fromLat'')) (as_float (pval P ''fromLon'')) = cell (as_float (pval P' ''fromLat'')) (as_float (pval P' ''fromLon''))"
    "ev_type e = ''plan_request'' \<Longrightarrow> cell (as_float (pval P ''toLat'')) (as_float (pval P ''toLon'')) = cell (as_float (pval P' ''toLat'')) (as_float (pval P' ''toLon''))"
    by (rule cells'; simp)+
  then show ?thesis
    unfolding prepare_event_def t Some option.case r' Let_def fold_delete kept_def[symmetric] left' coordinates_kept
    by (auto split: option.split)
qed

lemma collect_alike: "list_all2 (\<lambda>x y. f y = f x) xs ys \<Longrightarrow> collect f i ys = collect f i xs"
  by (induction xs ys arbitrary: i rule: list_all2_induct) (auto split: checked.split)

lemma prepare_rows_collects:
  "\<exists>sh ch s'. prepare_rows mv env city b received s = (s', collect (prepare_event mv city b sh ch received) 0 (ba_events b))"
  by (auto simp: prepare_rows_def Let_def split: prod.split)


text \<open>C21: Statistics forget where someone is inside a cell and when inside five minutes: two batches of well-typed events
  that differ only in coordinates of the same cells and in times of the same buckets make the same rows, the
  same list of rejected events and the same salts, so nothing finer can be read from the database.\<close>
theorem rows_forget_the_position:
  assumes "pydantic mv" "list_all2 alike (ba_events b) es"
  shows "prepare_rows mv env city (b\<lparr>ba_events := es\<rparr>) received s = prepare_rows mv env city b received s"
proof -
  have "prepare_event mv city (b\<lparr>ba_events := es\<rparr>) sh ch received = prepare_event mv city b sh ch received" for sh ch
  proof
    have h: "ba_platform (b\<lparr>ba_events := es\<rparr>) = ba_platform b" "ba_version (b\<lparr>ba_events := es\<rparr>) = ba_version b"
      "ba_locale (b\<lparr>ba_events := es\<rparr>) = ba_locale b" by simp_all
    show "prepare_event mv city (b\<lparr>ba_events := es\<rparr>) sh ch received ev = prepare_event mv city b sh ch received ev" for ev
      unfolding prepare_event_def h ..
  qed
  moreover have "list_all2 (\<lambda>x y. prepare_event mv city b sh ch received y = prepare_event mv city b sh ch received x) (ba_events b) es" for sh ch
    using assms(2) by (rule list_all2_mono) (rule prepare_event_alike[OF assms(1)])
  ultimately show ?thesis by (simp add: prepare_rows_def Let_def collect_alike split: prod.split)
qed

definition demo_plan :: "int \<Rightarrow> rat \<Rightarrow> event_in" where
  "demo_plan second lat = \<lparr>ev_type = ''plan_request'', ev_at = (730000 * day_usec + second * usec, Some 0),
     ev_props = [(''fromLat'', JFloat lat), (''fromLon'', JFloat (-74)), (''toLat'', JFloat 5), (''toLon'', JFloat (-74))]\<rparr>"

definition demo_hash :: hash_env where
  "demo_hash = \<lparr>he_sha = (\<lambda>s. ''h'' @ s), he_source = show_int\<rparr>"

definition demo_batch :: "event_in list \<Rightarrow> batch_in" where
  "demo_batch es = \<lparr>ba_session = ''session-1'', ba_cohort = ''cohort-1'', ba_platform = ''web'', ba_version = ''1.0'', ba_locale = ''es'', ba_events = es\<rparr>"

lemma demo_fits: "\<bar>x\<bar> \<le> 90 \<Longrightarrow> fits PlanRequest (JObj (known_props PlanRequest (ev_props (demo_plan t x))))"
  by (auto simp: demo_plan_def known_props_def event_schemas anything_def ranged_def abs_le_iff)

lemma demo_bucket: "bucket (ev_at (demo_plan 60 x)) = Some (730000 * day_usec)" "bucket (ev_at (demo_plan 0 x)) = Some (730000 * day_usec)"
  by (simp_all add: demo_plan_def bucket_def to_utc_def date_of_def day_usec_def usec_def BUCKET_SECONDS_def Let_def)

theorem rows_forget_the_position_witness:
  "prepare_rows strict demo_hash ''bogota'' (demo_batch [demo_plan 60 (46534/10000)]) (730000 * day_usec) [] = prepare_rows strict demo_hash ''bogota'' (demo_batch [demo_plan 0 (46526/10000)]) (730000 * day_usec) []"
proof -
  have r: "py_round_to COARSE_DECIMALS (46534/10000 :: rat) = py_round_to COARSE_DECIMALS (46526/10000)"
  proof -
    have "\<lfloor>23267/5 :: rat\<rfloor> = 4653" "\<lfloor>23263/5 :: rat\<rfloor> = 4652" by (rule floor_unique; simp)+
    then show ?thesis by (simp add: py_round_to_def py_round_def COARSE_DECIMALS_def Let_def)
  qed
  have "alike (demo_plan 0 (46526/10000)) (demo_plan 60 (46534/10000))"
    using r demo_bucket demo_fits[of "46534/10000" 60] demo_fits[of "46526/10000" 0] schema_of_search(2)
    by (auto simp: alike_def same_cell_def cell_def pval_def demo_plan_def coordinate_keys_def as_float_def)
  from rows_forget_the_position[OF strict_pydantic, of "demo_batch [demo_plan 0 (46526/10000)]" "[demo_plan 60 (46534/10000)]" demo_hash "''bogota''" "730000 * day_usec" "[]"] this
  show ?thesis by (simp add: demo_batch_def)
qed


section \<open>The handler\<close>

record request_in =
  rq_key :: string
  rq_body :: string
  rq_gzip :: bool

definition MAX_BODY_BYTES :: nat where "MAX_BODY_BYTES = 32 * 1024"
definition MAX_INFLATED_BYTES :: nat where "MAX_INFLATED_BYTES = 256 * 1024"

definition client_key :: "string option \<Rightarrow> string option \<Rightarrow> string" where
  \<comment> \<open>\<open>_client_key\<close>: the first address of X-Forwarded-For, else the peer\<close>
  "client_key fwd peer = (if truthy_str fwd then strip (hd (split_on (CHR '','') (the fwd))) else or_else peer ''unknown'')"

definition too_many_requests :: "string \<Rightarrow> api_error" where
  "too_many_requests m = raise_error 429 ''RATE_LIMITED'' m None None"

definition too_large :: "string \<Rightarrow> api_error" where
  "too_large m = raise_error 400 ''BAD_REQUEST'' m (Some ''PAYLOAD_TOO_LARGE'') (Some 413)"

record body_env =
  be_gunzip :: "string \<Rightarrow> string option"
  be_read :: "string \<Rightarrow> string + batch_in"  \<comment> \<open>\<open>BatchIn.model_validate(json.loads(...))\<close> or the first error's text\<close>

definition read_body :: "body_env \<Rightarrow> request_in \<Rightarrow> raised + batch_in" where
  "read_body env rq = (if MAX_BODY_BYTES < length (rq_body rq) then Inl (Api (too_large ''batch too large (max 32 KB)''))
     else and_then
       (if rq_gzip rq then (case be_gunzip env (rq_body rq) of
            None \<Rightarrow> Inl (Api (bad_request ''invalid gzip body'' 400))
          | Some b \<Rightarrow> if MAX_INFLATED_BYTES < length b then Inl (Api (too_large ''batch too large'')) else Inr b)
        else Inr (rq_body rq))
       (\<lambda>b. case be_read env (if b = [] then ''{}'' else b) of Inl m \<Rightarrow> Inl (unprocessable m) | Inr batch \<Rightarrow> Inr batch))"

record ingest_state =
  is_limiter :: rate_limiter
  is_salts :: salts
  is_rows :: "event_row list"

definition ingest_events :: "(schema \<Rightarrow> json \<Rightarrow> string + json) \<Rightarrow> hash_env \<Rightarrow> body_env \<Rightarrow> bool \<Rightarrow> string \<Rightarrow> request_in \<Rightarrow> rat \<Rightarrow> int
    \<Rightarrow> ingest_state \<Rightarrow> ingest_state \<times> (raised option + nat \<times> nat list)" where
  \<comment> \<open>accepted and rejected, an error of the handler, or (\<open>None\<close>) the uncaught \<open>OverflowError\<close>; \<open>enabled\<close> is the city's
    switch and \<open>clock\<close> the time in seconds the limiter reads\<close>
  "ingest_events mv env benv enabled city rq clock now st =
     (if \<not> enabled then (st, Inr (0, []))
      else let (lim, ok) = rate_allow (is_limiter st) (rq_key rq) clock; st = st\<lparr>is_limiter := lim\<rparr>
      in if \<not> ok then (st, Inl (Some (Api (too_many_requests ''too many event batches; retry later''))))
      else case read_body benv rq of Inl e \<Rightarrow> (st, Inl (Some e))
      | Inr batch \<Rightarrow> (case prepare_rows mv env city batch now (is_salts st) of
          (salts, None) \<Rightarrow> (st\<lparr>is_salts := salts\<rparr>, Inl None)
        | (salts, Some (rows, rejected)) \<Rightarrow>
            (st\<lparr>is_salts := salts, is_rows := is_rows st @ rows\<rparr>, Inr (length rows, rejected))))"

end
