(* ===== verification/Analytics_Rollup.thy ===== *)
theory Analytics_Rollup
  imports Analytics_Events
begin

text \<open>
  Usage statistics, from rows to aggregates (\<open>app/analytics.py\<close>): \<open>aggregate\<close>, the rollup of the in-memory store
  and of the Postgres store, and what makes the incremental rollup a recomputation.  The offset of the city's time
  zone at an instant is the argument \<open>tz\<close>; a local hour is the number of whole hours on the wall clock.
\<close>

section \<open>Counters\<close>

type_synonym 'k counter = "('k \<times> int) list"

definition cnt :: "'k counter \<Rightarrow> 'k \<Rightarrow> int" where
  \<comment> \<open>\<open>c[k]\<close> of a \<open>Counter\<close>\<close>
  "cnt m k = or_else (map_of m k) 0"

definition tally :: "'k \<Rightarrow> 'k counter \<Rightarrow> 'k counter" where
  \<comment> \<open>\<open>c[k] += 1\<close>\<close>
  "tally k m = AList.update k (cnt m k + 1) m"

type_synonym 'k counters = "('k \<times> string counter) list"

definition tally_at :: "'k \<Rightarrow> string \<Rightarrow> 'k counters \<Rightarrow> 'k counters" where
  \<comment> \<open>\<open>d[k][f] += 1\<close> of a \<open>defaultdict(Counter)\<close>\<close>
  "tally_at k f m = AList.update k (tally f (or_else (map_of m k) [])) m"

definition put_at :: "'k \<Rightarrow> string \<Rightarrow> int \<Rightarrow> 'k counters \<Rightarrow> 'k counters" where
  \<comment> \<open>\<open>d[k][f] = n\<close>\<close>
  "put_at k f n m = AList.update k (AList.update f n (or_else (map_of m k) [])) m"

definition add_to :: "'k \<Rightarrow> 'a \<Rightarrow> ('k \<times> 'a list) list \<Rightarrow> ('k \<times> 'a list) list" where
  \<comment> \<open>\<open>d[k].add(x)\<close> of a \<open>defaultdict(set)\<close>\<close>
  "add_to k x m = AList.update k (List.insert x (or_else (map_of m k) [])) m"

section \<open>Local time\<close>

definition local_of :: "(int \<Rightarrow> int) \<Rightarrow> int \<Rightarrow> int" where
  "local_of tz t = t + tz t"

definition day_of :: "(int \<Rightarrow> int) \<Rightarrow> event_row \<Rightarrow> int" where
  "day_of tz r = date_of (local_of tz (er_at r))"

definition hour_of :: "(int \<Rightarrow> int) \<Rightarrow> event_row \<Rightarrow> int" where
  "hour_of tz r = local_of tz (er_at r) div (3600 * usec)"

lemma day_of_hour: "hour_of tz r div 24 = day_of tz r"
proof -
  have "x div (3600 * usec) div 24 = x div day_usec" for x
    by (simp add: day_usec_def usec_def zdiv_zmult2_eq[symmetric])
  then show ?thesis by (simp add: hour_of_def day_of_def date_of_def)
qed

section \<open>The aggregates of a list of rows\<close>

record aggs =
  ag_od :: "(int \<times> string \<times> string) counter"
  ag_place :: "(int \<times> string \<times> string) counter"
  ag_route :: "(int \<times> json) counters"
  ag_stop :: "(int \<times> json) counters"
  ag_mode :: "(int \<times> string) counters"
  ag_search :: "(int \<times> json \<times> json \<times> json) counter"
  ag_provider :: "(int \<times> json) counters"
  ag_funnel :: "int counters"
  ag_sessions :: "(int \<times> string list) list"
  ag_hours :: "(int \<times> int) counter"
  ag_platform :: "(int \<times> string \<times> string) counters"

definition no_aggs :: aggs where
  "no_aggs = \<lparr>ag_od = [], ag_place = [], ag_route = [], ag_stop = [], ag_mode = [], ag_search = [], ag_provider = [],
     ag_funnel = [], ag_sessions = [], ag_hours = [], ag_platform = []\<rparr>"

definition texts_in :: "json \<Rightarrow> string list" where
  "texts_in j = concat (map (\<lambda>v. case v of JStr s \<Rightarrow> [s] | _ \<Rightarrow> []) (items j))"

definition mode_key :: "(string \<times> json) list \<Rightarrow> string" where
  "mode_key p = (let k = join_with ''+'' (sort (filter (\<lambda>m. m \<in> set MODES) (texts_in (pval p ''modes''))))
     in if k = [] then ''TRANSIT+WALK'' else k)"

definition needed :: "string \<Rightarrow> string list" where
  \<comment> \<open>the properties \<open>aggregate\<close> subscripts: a missing one is a \<open>KeyError\<close>\<close>
  "needed t = (if t = ''route_view'' then [''routeId''] else if t = ''locate_query'' then [''routeId'', ''stopId'']
     else if t = ''stop_view'' \<or> t = ''board_view'' then [''stopId''] else if t = ''handoff'' then [''providerId''] else [])"

definition complete_row :: "event_row \<Rightarrow> bool" where
  "complete_row r = list_all (\<lambda>k. map_of (er_props r) k \<noteq> None) (needed (er_type r))"

definition agg_row :: "(int \<Rightarrow> int) \<Rightarrow> event_row \<Rightarrow> aggs \<Rightarrow> aggs" where
  "agg_row tz r a0 = (let day = day_of tz r; hour = hour_of tz r; p = er_props r; et = er_type r;
     a = a0\<lparr>ag_sessions := add_to day (er_session r) (ag_sessions a0),
            ag_platform := tally_at (day, er_platform r, er_version r) ''n'' (ag_platform a0)\<rparr>
   in if et = ''plan_request'' then
        let b = (case (er_from r, er_to r) of
              (Some f, Some t) \<Rightarrow> a\<lparr>ag_od := tally (hour, f, t) (ag_od a),
                 ag_place := tally (hour, t, ''destination'') (tally (hour, f, ''origin'') (ag_place a))\<rparr>
            | _ \<Rightarrow> a)
        in b\<lparr>ag_mode := tally_at (day, mode_key p) ''requests'' (ag_mode b),
             ag_funnel := tally_at day ''plan_requests'' (ag_funnel b),
             ag_hours := tally (day, hour mod 24) (ag_hours b)\<rparr>
      else if et = ''itinerary_select'' then
        a\<lparr>ag_mode := tally_at (day, mode_key p) ''selects'' (ag_mode a),
          ag_funnel := tally_at day ''itinerary_selects'' (ag_funnel a),
          ag_route := fold (\<lambda>rid. tally_at (day, rid) ''selects'') (items (pval p ''routeIds'')) (ag_route a)\<rparr>
      else if et = ''search_select'' then
        a\<lparr>ag_place := (case er_gh7 r of Some g \<Rightarrow> tally (hour, g, ''search'') (ag_place a) | None \<Rightarrow> ag_place a),
          ag_search := tally (day, pval p ''resultType'', pval p ''resultId'', pval p ''label'') (ag_search a)\<rparr>
      else if et = ''route_view'' then a\<lparr>ag_route := tally_at (day, pval p ''routeId'') ''views'' (ag_route a)\<rparr>
      else if et = ''locate_query'' then
        a\<lparr>ag_route := tally_at (day, pval p ''routeId'') ''locates'' (ag_route a),
          ag_stop := tally_at (day, pval p ''stopId'') ''locates'' (ag_stop a)\<rparr>
      else if et = ''stop_view'' then a\<lparr>ag_stop := tally_at (day, pval p ''stopId'') ''views'' (ag_stop a)\<rparr>
      else if et = ''board_view'' then a\<lparr>ag_stop := tally_at (day, pval p ''stopId'') ''boards'' (ag_stop a)\<rparr>
      else if et = ''handoff'' then
        let h = tally_at (day, pval p ''providerId'') ''handoffs'' (ag_provider a)
        in a\<lparr>ag_provider := (if truthy (pval p ''hadEstimate'') then tally_at (day, pval p ''providerId'') ''had_estimate'' h else h)\<rparr>
      else if et = ''app_open'' then a\<lparr>ag_funnel := tally_at day ''app_opens'' (ag_funnel a)\<rparr>
      else if et = ''go_start'' then a\<lparr>ag_funnel := tally_at day ''go_starts'' (ag_funnel a)\<rparr>
      else if et = ''go_end'' \<and> truthy (pval p ''completed'') then a\<lparr>ag_funnel := tally_at day ''go_completions'' (ag_funnel a)\<rparr>
      else a)"

definition count_sessions :: "aggs \<Rightarrow> aggs" where
  "count_sessions a = a\<lparr>ag_funnel := fold (\<lambda>(day, s). put_at day ''sessions'' (int (length s))) (ag_sessions a) (ag_funnel a)\<rparr>"

datatype agg_val = VDay int | VHour int | VNum int | VText string | VJson json

type_synonym agg_entry = "(string \<times> agg_val) list"

definition metrics :: "string list \<Rightarrow> string counter \<Rightarrow> agg_entry" where
  "metrics fs c = map (\<lambda>f. (f, VNum (cnt c f))) fs"

definition DAILY_TABLES :: "string list" where
  "DAILY_TABLES = [''agg_route_daily'', ''agg_stop_daily'', ''agg_mode_daily'', ''agg_search_daily'', ''agg_provider_daily'',
     ''agg_funnel_daily'', ''agg_hours_daily'', ''agg_platform_daily'']"

definition HOURLY_TABLES :: "string list" where
  "HOURLY_TABLES = [''agg_od_hourly'', ''agg_place_hourly'']"

definition tables_of :: "aggs \<Rightarrow> string \<Rightarrow> agg_entry list" where
  \<comment> \<open>the returned dictionary, as a function of its key\<close>
  "tables_of a t =
    (if t = ''agg_od_hourly'' then map (\<lambda>((h, f, g), n). [(''hour'', VHour h), (''from_gh7'', VText f), (''to_gh7'', VText g), (''n'', VNum n)]) (ag_od a)
     else if t = ''agg_place_hourly'' then map (\<lambda>((h, g, k), n). [(''hour'', VHour h), (''gh7'', VText g), (''kind'', VText k), (''n'', VNum n)]) (ag_place a)
     else if t = ''agg_route_daily'' then map (\<lambda>((d, i), c). (''day'', VDay d) # (''route_id'', VJson i) # metrics [''views'', ''selects'', ''locates''] c) (ag_route a)
     else if t = ''agg_stop_daily'' then map (\<lambda>((d, i), c). (''day'', VDay d) # (''stop_id'', VJson i) # metrics [''views'', ''boards'', ''locates''] c) (ag_stop a)
     else if t = ''agg_mode_daily'' then map (\<lambda>((d, m), c). (''day'', VDay d) # (''mode_set'', VText m) # metrics [''requests'', ''selects''] c) (ag_mode a)
     else if t = ''agg_search_daily'' then map (\<lambda>((d, ty, i, l), n). [(''day'', VDay d), (''result_type'', VJson ty), (''result_id'', VJson i), (''label'', VJson l), (''n'', VNum n)]) (ag_search a)
     else if t = ''agg_provider_daily'' then map (\<lambda>((d, i), c). (''day'', VDay d) # (''provider_id'', VJson i) # metrics [''handoffs'', ''had_estimate''] c) (ag_provider a)
     else if t = ''agg_funnel_daily'' then map (\<lambda>(d, c). (''day'', VDay d) # metrics [''app_opens'', ''sessions'', ''plan_requests'', ''itinerary_selects'', ''go_starts'', ''go_completions''] c) (ag_funnel a)
     else if t = ''agg_hours_daily'' then map (\<lambda>((d, h), n). [(''day'', VDay d), (''hour'', VNum h), (''plan_requests'', VNum n)]) (ag_hours a)
     else if t = ''agg_platform_daily'' then map (\<lambda>((d, p, v), c). [(''day'', VDay d), (''platform'', VText p), (''app_version'', VText v), (''n'', VNum (cnt c ''n''))]) (ag_platform a)
     else [])"

definition aggregate :: "event_row list \<Rightarrow> (int \<Rightarrow> int) \<Rightarrow> (string \<Rightarrow> agg_entry list) option" where
  \<comment> \<open>\<open>None\<close> is a \<open>KeyError\<close>\<close>
  "aggregate rows tz = (if list_all complete_row rows then Some (tables_of (count_sessions (fold (agg_row tz) rows no_aggs))) else None)"

section \<open>Each key of an aggregate depends on its own rows only\<close>

definition only :: "('k \<Rightarrow> bool) \<Rightarrow> ('k \<times> 'v) list \<Rightarrow> ('k \<times> 'v) list" where
  "only P = filter (\<lambda>(k, v). P k)"

lemma only_Cons: "only P (x # xs) = (if P (fst x) then x # only P xs else only P xs)"
  by (simp add: only_def case_prod_beta)

lemma only_Nil: "only P [] = []"
  by (simp add: only_def)

lemma only_update: "only P (AList.update k v m) = (if P k then AList.update k v (only P m) else only P m)"
  by (induction m) (auto simp: only_def)

lemma map_of_only: "map_of (only P m) k = (if P k then map_of m k else None)"
  by (simp add: only_def map_of_filter_key)

lemma only_idem [simp]: "only P (only P m) = only P m"
  by (simp add: only_def)

lemma only_tally [simp]: "only P (tally k m) = (if P k then tally k (only P m) else only P m)"
  by (simp add: tally_def only_update cnt_def map_of_only)

lemma only_tally_at [simp]: "only P (tally_at k f m) = (if P k then tally_at k f (only P m) else only P m)"
  by (simp add: tally_at_def only_update map_of_only)

lemma only_put_at [simp]: "only P (put_at k f n m) = (if P k then put_at k f n (only P m) else only P m)"
  by (simp add: put_at_def only_update map_of_only)

lemma only_add_to [simp]: "only P (add_to k x m) = (if P k then add_to k x (only P m) else only P m)"
  by (simp add: add_to_def only_update map_of_only)

lemma only_fold_tally_at [simp]:
  "only P (fold (\<lambda>i. tally_at (d, i) f) xs m) = (if P' then fold (\<lambda>i. tally_at (d, i) f) xs (only P m) else only P m)"
  if "\<And>i. P (d, i) = P'"
  using that by (induction xs arbitrary: m) auto

definition keep :: "(int \<Rightarrow> bool) \<Rightarrow> (int \<Rightarrow> bool) \<Rightarrow> aggs \<Rightarrow> aggs" where
  \<comment> \<open>the entries of some days and of some hours\<close>
  "keep P Q a = \<lparr>ag_od = only (Q \<circ> fst) (ag_od a), ag_place = only (Q \<circ> fst) (ag_place a), ag_route = only (P \<circ> fst) (ag_route a),
     ag_stop = only (P \<circ> fst) (ag_stop a), ag_mode = only (P \<circ> fst) (ag_mode a), ag_search = only (P \<circ> fst) (ag_search a),
     ag_provider = only (P \<circ> fst) (ag_provider a), ag_funnel = only P (ag_funnel a), ag_sessions = only P (ag_sessions a),
     ag_hours = only (P \<circ> fst) (ag_hours a), ag_platform = only (P \<circ> fst) (ag_platform a)\<rparr>"

lemma keep_no_aggs [simp]: "keep P Q no_aggs = no_aggs"
  by (simp add: keep_def no_aggs_def only_def)

lemma keep_agg_row_cases:
  assumes "er_type r \<in> {''plan_request'', ''itinerary_select'', ''search_select'', ''route_view'', ''locate_query'', ''stop_view'', ''board_view'', ''handoff'', ''app_open'', ''go_start'', ''go_end''} \<or> er_type r \<notin> {''plan_request'', ''itinerary_select'', ''search_select'', ''route_view'', ''locate_query'', ''stop_view'', ''board_view'', ''handoff'', ''app_open'', ''go_start'', ''go_end''}"
  shows "keep P Q (agg_row tz r a) = (if P (day_of tz r) \<or> Q (hour_of tz r) then keep P Q (agg_row tz r (keep P Q a)) else keep P Q a)"
  using assms
proof (elim disjE insertE)
  assume t: "er_type r = ''plan_request''"
  show ?thesis unfolding agg_row_def Let_def t by (simp add: keep_def o_def split: option.split)
next
  assume t: "er_type r = ''itinerary_select''"
  show ?thesis unfolding agg_row_def Let_def t by (simp add: keep_def o_def split: option.split)
next
  assume t: "er_type r = ''search_select''"
  show ?thesis unfolding agg_row_def Let_def t by (simp add: keep_def o_def split: option.split)
next
  assume t: "er_type r = ''route_view''"
  show ?thesis unfolding agg_row_def Let_def t by (simp add: keep_def o_def split: option.split)
next
  assume t: "er_type r = ''locate_query''"
  show ?thesis unfolding agg_row_def Let_def t by (simp add: keep_def o_def split: option.split)
next
  assume t: "er_type r = ''stop_view''"
  show ?thesis unfolding agg_row_def Let_def t by (simp add: keep_def o_def split: option.split)
next
  assume t: "er_type r = ''board_view''"
  show ?thesis unfolding agg_row_def Let_def t by (simp add: keep_def o_def split: option.split)
next
  assume t: "er_type r = ''handoff''"
  show ?thesis unfolding agg_row_def Let_def t by (simp add: keep_def o_def split: option.split)
next
  assume t: "er_type r = ''app_open''"
  show ?thesis unfolding agg_row_def Let_def t by (simp add: keep_def o_def split: option.split)
next
  assume t: "er_type r = ''go_start''"
  show ?thesis unfolding agg_row_def Let_def t by (simp add: keep_def o_def split: option.split)
next
  assume t: "er_type r = ''go_end''"
  show ?thesis unfolding agg_row_def Let_def t by (simp add: keep_def o_def split: option.split)
next
  assume "er_type r \<in> {}" then show ?thesis by simp
next
  assume t: "er_type r \<notin> {''plan_request'', ''itinerary_select'', ''search_select'', ''route_view'', ''locate_query'', ''stop_view'', ''board_view'', ''handoff'', ''app_open'', ''go_start'', ''go_end''}"
  show ?thesis unfolding agg_row_def Let_def using t by (simp add: keep_def o_def)
qed

lemma keep_agg_row:
  "keep P Q (agg_row tz r a) = (if P (day_of tz r) \<or> Q (hour_of tz r) then keep P Q (agg_row tz r (keep P Q a)) else keep P Q a)"
  by (rule keep_agg_row_cases) (rule excluded_middle[THEN disj_comms(1)[THEN iffD1]])

lemma keep_idem [simp]: "keep P Q (keep P Q a) = keep P Q a"
  by (simp add: keep_def)

lemma keep_fold_keep: "keep P Q (fold (agg_row tz) rows (keep P Q a)) = keep P Q (fold (agg_row tz) rows a)"
proof (induction rows arbitrary: a)
  case (Cons r rows)
  have "keep P Q (agg_row tz r (keep P Q a)) = keep P Q (agg_row tz r a)"
    by (metis keep_agg_row keep_idem)
  then have "keep P Q (fold (agg_row tz) rows (keep P Q (agg_row tz r (keep P Q a)))) = keep P Q (fold (agg_row tz) rows (keep P Q (agg_row tz r a)))"
    by simp
  then show ?case by (simp add: Cons)
qed simp

lemma keep_fold:
  "keep P Q (fold (agg_row tz) rows a) = keep P Q (fold (agg_row tz) (filter (\<lambda>r. P (day_of tz r) \<or> Q (hour_of tz r)) rows) a)"
proof (induction rows arbitrary: a)
  case (Cons r rows)
  show ?case
  proof (cases "P (day_of tz r) \<or> Q (hour_of tz r)")
    case False
    then have "keep P Q (agg_row tz r a) = keep P Q a" by (metis keep_agg_row)
    then have "keep P Q (fold (agg_row tz) rows (agg_row tz r a)) = keep P Q (fold (agg_row tz) rows a)"
      using keep_fold_keep by metis
    then show ?thesis using Cons[of a] False by simp
  qed (simp add: Cons)
qed simp

lemma only_sessions_fold:
  "only P (fold (\<lambda>(day, s). put_at day f (int (length s))) ss m) = fold (\<lambda>(day, s). put_at day f (int (length s))) (only P ss) (only P m)"
  by (induction ss arbitrary: m) (auto simp: only_Cons only_Nil)

lemma keep_count_sessions: "keep P Q (count_sessions a) = count_sessions (keep P Q a)"
  by (simp add: keep_def count_sessions_def only_sessions_fold)

lemma keep_aggregate:
  "keep P Q (count_sessions (fold (agg_row tz) rows no_aggs))
   = keep P Q (count_sessions (fold (agg_row tz) (filter (\<lambda>r. P (day_of tz r) \<or> Q (hour_of tz r)) rows) no_aggs))"
  by (metis keep_count_sessions keep_fold keep_no_aggs)

section \<open>Tables by day and hour\<close>

definition e_day :: "agg_entry \<Rightarrow> int" where
  "e_day e = (case map_of e ''day'' of Some (VDay d) \<Rightarrow> d | _ \<Rightarrow> 0)"

definition e_hour :: "agg_entry \<Rightarrow> int" where
  "e_hour e = (case map_of e ''hour'' of Some (VHour h) \<Rightarrow> h | _ \<Rightarrow> 0)"

lemma daily_tables_keep:
  "t \<in> set DAILY_TABLES \<Longrightarrow> tables_of (keep P Q a) t = filter (P \<circ> e_day) (tables_of a t)"
  unfolding DAILY_TABLES_def
  by (simp, elim disjE; simp add: tables_of_def keep_def only_def filter_map o_def e_day_def case_prod_unfold)

lemma hourly_tables_keep:
  "t \<in> set HOURLY_TABLES \<Longrightarrow> tables_of (keep P Q a) t = filter (Q \<circ> e_hour) (tables_of a t)"
  unfolding HOURLY_TABLES_def
  by (simp, elim disjE; simp add: tables_of_def keep_def only_def filter_map o_def e_hour_def case_prod_unfold)

definition totals :: "(int \<Rightarrow> int) \<Rightarrow> event_row list \<Rightarrow> string \<Rightarrow> agg_entry list" where
  "totals tz rows = tables_of (count_sessions (fold (agg_row tz) rows no_aggs))"

lemma aggregate_totals: "aggregate rows tz = Some f \<longleftrightarrow> list_all complete_row rows \<and> f = totals tz rows"
  by (auto simp: aggregate_def totals_def)

lemma daily_local:
  "t \<in> set DAILY_TABLES \<Longrightarrow> filter (P \<circ> e_day) (totals tz rows t) = filter (P \<circ> e_day) (totals tz (filter (\<lambda>r. P (day_of tz r)) rows) t)"
  unfolding totals_def using keep_aggregate[of P "\<lambda>_. False" tz rows]
  by (simp flip: daily_tables_keep[of t P "\<lambda>_. False"])

lemma hourly_local:
  "t \<in> set HOURLY_TABLES \<Longrightarrow> filter (Q \<circ> e_hour) (totals tz rows t) = filter (Q \<circ> e_hour) (totals tz (filter (\<lambda>r. Q (hour_of tz r)) rows) t)"
  unfolding totals_def using keep_aggregate[of "\<lambda>_. False" Q tz rows]
  by (simp flip: hourly_tables_keep[of t "\<lambda>_. False" Q])

section \<open>The rollup\<close>

definition roll_tables :: "int list \<Rightarrow> int list \<Rightarrow> (string \<Rightarrow> agg_entry list) \<Rightarrow> (string \<Rightarrow> agg_entry list) \<Rightarrow> string \<Rightarrow> agg_entry list" where
  \<comment> \<open>the touched days and hours are replaced\<close>
  "roll_tables days hours old fresh t =
    (if t \<in> set DAILY_TABLES then filter (\<lambda>e. e_day e \<notin> set days) (old t) @ filter (\<lambda>e. e_day e \<in> set days) (fresh t)
     else if t \<in> set HOURLY_TABLES then filter (\<lambda>e. e_hour e \<notin> set hours) (old t) @ filter (\<lambda>e. e_hour e \<in> set hours) (fresh t)
     else old t)"

definition touched :: "event_row list \<Rightarrow> (int \<Rightarrow> int) \<Rightarrow> int list \<times> int list" where
  "touched rows tz = (remdups (map (day_of tz) rows), remdups (map (hour_of tz) rows))"

definition newest :: "event_row list \<Rightarrow> int" where
  "newest rows = Max (er_received ` set rows)"

subsection \<open>In memory\<close>

record mem_stats =
  ms_rows :: "event_row list"
  ms_aggs :: "(string \<times> (string \<Rightarrow> agg_entry list)) list"
  ms_watermark :: "(string \<times> int) list"
  ms_last :: "(string \<times> int) list"

definition mem_stats_empty :: mem_stats where
  "mem_stats_empty = \<lparr>ms_rows = [], ms_aggs = [], ms_watermark = [], ms_last = []\<rparr>"

definition mem_insert :: "event_row list \<Rightarrow> mem_stats \<Rightarrow> mem_stats \<times> nat" where
  "mem_insert rows st = (st\<lparr>ms_rows := ms_rows st @ rows\<rparr>, length rows)"

definition mem_rollup :: "(string \<Rightarrow> int \<Rightarrow> int) \<Rightarrow> string \<Rightarrow> int \<Rightarrow> mem_stats \<Rightarrow> (mem_stats \<times> nat \<times> nat) option" where
  "mem_rollup zone city now st = (let tz = zone city; wm = map_of (ms_watermark st) city;
     new = filter (\<lambda>r. er_city r = city \<and> (case wm of None \<Rightarrow> True | Some w \<Rightarrow> w < er_received r)) (ms_rows st);
     last = AList.update city now (ms_last st)
   in if new = [] then Some (st\<lparr>ms_last := last\<rparr>, 0, 0)
      else let (days, hours) = touched new tz;
          scope = filter (\<lambda>r. er_city r = city \<and> day_of tz r \<in> set days) (ms_rows st)
        in (case aggregate scope tz of None \<Rightarrow> None | Some fresh \<Rightarrow>
          let old = or_else (map_of (ms_aggs st) city) (\<lambda>t. [])
          in Some (st\<lparr>ms_aggs := AList.update city (roll_tables days hours old fresh) (ms_aggs st),
              ms_watermark := AList.update city (newest new) (ms_watermark st), ms_last := last\<rparr>,
              length new, length days)))"

subsection \<open>In Postgres\<close>

record pg_stats =
  ps_events :: "event_row list"
  ps_aggs :: "string \<Rightarrow> (string \<times> agg_entry) list"  \<comment> \<open>per table, the city column and the rest\<close>
  ps_state :: "(string \<times> int \<times> int) list"  \<comment> \<open>\<open>analytics_rollup_state\<close>: watermark, last rollup\<close>

definition pg_stats_empty :: pg_stats where
  "pg_stats_empty = \<lparr>ps_events = [], ps_aggs = (\<lambda>t. []), ps_state = []\<rparr>"

definition unix_start :: int where
  \<comment> \<open>1970-01-01\<close>
  "unix_start = 719163 * day_usec"

definition pg_insert :: "event_row list \<Rightarrow> pg_stats \<Rightarrow> pg_stats \<times> nat" where
  "pg_insert rows st = (if rows = [] then (st, 0) else (st\<lparr>ps_events := ps_events st @ rows\<rparr>, length rows))"

definition insert_aggs :: "string \<Rightarrow> (string \<Rightarrow> agg_entry list) \<Rightarrow> int list \<Rightarrow> int list \<Rightarrow> (string \<Rightarrow> (string \<times> agg_entry) list)
    \<Rightarrow> string \<Rightarrow> (string \<times> agg_entry) list" where
  \<comment> \<open>\<open>_insert_aggs\<close>\<close>
  "insert_aggs city fresh days hours tabs t = tabs t @ map (Pair city)
     (if t \<in> set DAILY_TABLES then filter (\<lambda>e. e_day e \<in> set days) (fresh t)
      else if t \<in> set HOURLY_TABLES then filter (\<lambda>e. e_hour e \<in> set hours) (fresh t) else [])"

definition delete_aggs :: "string \<Rightarrow> int list \<Rightarrow> int list \<Rightarrow> (string \<Rightarrow> (string \<times> agg_entry) list) \<Rightarrow> string \<Rightarrow> (string \<times> agg_entry) list" where
  \<comment> \<open>the \<open>DELETE\<close> statements\<close>
  "delete_aggs city days hours tabs t =
     (if t \<in> set DAILY_TABLES then filter (\<lambda>(c, e). \<not> (c = city \<and> e_day e \<in> set days)) (tabs t)
      else if t \<in> set HOURLY_TABLES then filter (\<lambda>(c, e). \<not> (c = city \<and> e_hour e \<in> set hours)) (tabs t) else tabs t)"

definition pg_rollup :: "(string \<Rightarrow> int \<Rightarrow> int) \<Rightarrow> string \<Rightarrow> int \<Rightarrow> pg_stats \<Rightarrow> (pg_stats \<times> nat \<times> nat) option" where
  \<comment> \<open>a \<open>SELECT\<close> is taken to return the rows in the order of insertion\<close>
  "pg_rollup zone city now st = (let tz = zone city; wm = or_else (map_option fst (map_of (ps_state st) city)) unix_start;
     new = filter (\<lambda>r. er_city r = city \<and> wm < er_received r) (ps_events st)
   in if new = [] then Some (st\<lparr>ps_state := AList.update city (wm, now) (ps_state st)\<rparr>, 0, 0)
      else let (days, hours) = touched new tz;
          lo = (Min (set days) - 1) * day_usec; hi = (Max (set days) + 2) * day_usec;
          raw = filter (\<lambda>r. er_city r = city \<and> lo \<le> er_at r \<and> er_at r < hi) (ps_events st);
          rows = filter (\<lambda>r. day_of tz r \<in> set days) raw
        in (case aggregate rows tz of None \<Rightarrow> None | Some fresh \<Rightarrow>
          Some (st\<lparr>ps_aggs := insert_aggs city fresh days hours (delete_aggs city days hours (ps_aggs st)),
              ps_state := AList.update city (newest new, now) (ps_state st)\<rparr>, length new, length days)))"

section \<open>What a rollup promises\<close>

lemma filter_replaced:
  "filter (\<lambda>e. f e = d) (filter (\<lambda>e. f e \<notin> D) xs @ filter (\<lambda>e. f e \<in> D) ys) = filter (\<lambda>e. f e = d) (if d \<in> D then ys else xs)"
proof -
  have "filter (\<lambda>e. f e \<notin> D \<and> f e = d) zs = (if d \<in> D then [] else filter (\<lambda>e. f e = d) zs)" for zs
    by (induction zs) auto
  moreover have "filter (\<lambda>e. f e \<in> D \<and> f e = d) zs = (if d \<in> D then filter (\<lambda>e. f e = d) zs else [])" for zs
    by (induction zs) auto
  ultimately show ?thesis by simp
qed

definition city_rows :: "string \<Rightarrow> event_row list \<Rightarrow> event_row list" where
  "city_rows c = filter (\<lambda>r. er_city r = c)"

definition same_tables :: "(string \<Rightarrow> agg_entry list) \<Rightarrow> (string \<Rightarrow> agg_entry list) \<Rightarrow> bool" where
  \<comment> \<open>the same entries in the same order, day by day and hour by hour\<close>
  "same_tables f g \<longleftrightarrow> (\<forall>t \<in> set DAILY_TABLES. \<forall>d. filter (\<lambda>e. e_day e = d) (f t) = filter (\<lambda>e. e_day e = d) (g t))
     \<and> (\<forall>t \<in> set HOURLY_TABLES. \<forall>h. filter (\<lambda>e. e_hour e = h) (f t) = filter (\<lambda>e. e_hour e = h) (g t))"

lemma replaced_part:
  assumes local: "\<And>rs. filter (\<lambda>e. f e = d) (G rs) = filter (\<lambda>e. f e = d) (G (filter (\<lambda>r. k r = d) rs))"
    and old: "filter (\<lambda>e. f e = d) tab = filter (\<lambda>e. f e = d) (G seen)"
    and scope: "d \<in> D \<Longrightarrow> filter (\<lambda>r. k r = d) scope = filter (\<lambda>r. k r = d) every"
    and kept: "d \<notin> D \<Longrightarrow> filter (\<lambda>r. k r = d) seen = filter (\<lambda>r. k r = d) every"
  shows "filter (\<lambda>e. f e = d) (filter (\<lambda>e. f e \<notin> D) tab @ filter (\<lambda>e. f e \<in> D) (G scope)) = filter (\<lambda>e. f e = d) (G every)"
  unfolding filter_replaced using local[of scope] local[of every] local[of seen] old scope kept by (cases "d \<in> D") simp_all

datatype stat_op = Ingest "event_row list" | Roll string int

fun run_stats :: "(event_row list \<Rightarrow> 's \<Rightarrow> 's \<times> nat) \<Rightarrow> ((string \<Rightarrow> int \<Rightarrow> int) \<Rightarrow> string \<Rightarrow> int \<Rightarrow> 's \<Rightarrow> ('s \<times> nat \<times> nat) option)
    \<Rightarrow> (string \<Rightarrow> int \<Rightarrow> int) \<Rightarrow> stat_op list \<Rightarrow> 's \<Rightarrow> 's option" where
  \<comment> \<open>\<open>None\<close> when a rollup raises\<close>
  "run_stats ins roll zone [] s = Some s"
| "run_stats ins roll zone (Ingest rs # ops) s = run_stats ins roll zone ops (fst (ins rs s))"
| "run_stats ins roll zone (Roll c now # ops) s = (case roll zone c now s of None \<Rightarrow> None | Some (s', n) \<Rightarrow> run_stats ins roll zone ops s')"

fun ingested :: "stat_op list \<Rightarrow> event_row list" where
  "ingested [] = []"
| "ingested (Ingest rs # ops) = rs @ ingested ops"
| "ingested (Roll c now # ops) = ingested ops"

fun timely :: "int \<Rightarrow> stat_op list \<Rightarrow> bool" where
  \<comment> \<open>every batch is received after all earlier ones\<close>
  "timely t [] = True"
| "timely t (Ingest rs # ops) = ((\<forall>r \<in> set rs. t < er_received r) \<and> timely (Max (Set.insert t (er_received ` set rs))) ops)"
| "timely t (Roll c now # ops) = timely t ops"

locale rollup_store =
  fixes zone :: "string \<Rightarrow> int \<Rightarrow> int" and rows :: "'s \<Rightarrow> event_row list" and mark :: "'s \<Rightarrow> string \<Rightarrow> int"
    and table :: "'s \<Rightarrow> string \<Rightarrow> string \<Rightarrow> agg_entry list"
    and insert :: "event_row list \<Rightarrow> 's \<Rightarrow> 's \<times> nat"
    and rollup :: "(string \<Rightarrow> int \<Rightarrow> int) \<Rightarrow> string \<Rightarrow> int \<Rightarrow> 's \<Rightarrow> ('s \<times> nat \<times> nat) option"
    and good :: "event_row \<Rightarrow> bool"
  assumes insert_law: "rows (fst (insert rs s)) = rows s @ rs" "mark (fst (insert rs s)) = mark s" "table (fst (insert rs s)) = table s"
    and rollup_law: "list_all good (rows s) \<Longrightarrow> list_all complete_row (rows s) \<Longrightarrow>
       new = filter (\<lambda>r. er_city r = c \<and> mark s c < er_received r) (rows s) \<Longrightarrow>
       \<exists>s' n. rollup zone c now s = Some (s', n) \<and> rows s' = rows s
         \<and> (\<forall>c'. c' \<noteq> c \<longrightarrow> mark s' c' = mark s c' \<and> table s' c' = table s c')
         \<and> (if new = [] then mark s' c = mark s c \<and> table s' c = table s c
            else mark s' c = newest new \<and>
              (\<forall>t \<in> set (DAILY_TABLES @ HOURLY_TABLES). table s' c t = roll_tables (fst (touched new (zone c))) (snd (touched new (zone c))) (table s c)
                 (totals (zone c) (filter (\<lambda>r. er_city r = c \<and> day_of (zone c) r \<in> set (fst (touched new (zone c)))) (rows s))) t))"
begin

definition merged :: "'s \<Rightarrow> string \<Rightarrow> event_row list" where
  \<comment> \<open>the rows of a city a rollup has seen\<close>
  "merged s c = filter (\<lambda>r. er_city r = c \<and> er_received r \<le> mark s c) (rows s)"

definition consolidated :: "'s \<Rightarrow> string \<Rightarrow> bool" where
  "consolidated s c \<longleftrightarrow> same_tables (table s c) (totals (zone c) (merged s c))"

lemma insert_keeps:
  assumes "consolidated s c" "\<forall>r \<in> set rs. mark s (er_city r) < er_received r"
  shows "consolidated (fst (insert rs s)) c"
proof -
  have "filter (\<lambda>r. er_city r = c \<and> er_received r \<le> mark s c) rs = []"
    using assms(2) by (fastforce simp: filter_empty_conv)
  then show ?thesis using assms(1) by (simp add: consolidated_def merged_def insert_law)
qed

lemma rollup_consolidates:
  assumes "list_all good (rows s)" "list_all complete_row (rows s)" "consolidated s c"
  shows "\<exists>s' n. rollup zone c now s = Some (s', n) \<and> rows s' = rows s \<and> merged s' c = city_rows c (rows s) \<and> consolidated s' c
     \<and> (\<forall>c'. c' \<noteq> c \<longrightarrow> mark s' c' = mark s c' \<and> table s' c' = table s c')
     \<and> (mark s' c = mark s c \<or> (\<exists>r \<in> set (rows s). mark s' c = er_received r))"
proof -
  define new where "new = filter (\<lambda>r. er_city r = c \<and> mark s c < er_received r) (rows s)"
  define days where "days = fst (touched new (zone c))"
  define hours where "hours = snd (touched new (zone c))"
  define scope where "scope = filter (\<lambda>r. er_city r = c \<and> day_of (zone c) r \<in> set days) (rows s)"
  obtain s' n where s': "rollup zone c now s = Some (s', n)" "rows s' = rows s"
      "\<forall>c'. c' \<noteq> c \<longrightarrow> mark s' c' = mark s c' \<and> table s' c' = table s c'"
      "if new = [] then mark s' c = mark s c \<and> table s' c = table s c
       else mark s' c = newest new \<and> (\<forall>t \<in> set (DAILY_TABLES @ HOURLY_TABLES). table s' c t = roll_tables days hours (table s c) (totals (zone c) scope) t)"
    using rollup_law[OF assms(1,2) new_def, of now] unfolding days_def hours_def scope_def by blast
  show ?thesis
  proof (cases "new = []")
    case True
    have "merged s c = city_rows c (rows s)" "merged s' c = merged s c"
      using True s' by (auto simp: merged_def city_rows_def new_def filter_empty_conv not_less intro!: filter_cong)
    then show ?thesis using s' True assms(3) by (auto simp: consolidated_def)
  next
    case False
    have mark': "mark s' c = newest new" using s'(4) False by simp
    have le: "er_received r \<le> mark s' c" if "r \<in> set (rows s)" "er_city r = c" for r
    proof (cases "mark s c < er_received r")
      case True
      then show ?thesis using that unfolding mark' newest_def by (intro Max_ge) (auto simp: new_def)
    next
      case old: False
      obtain x where x: "x \<in> set new" using False by (cases new) auto
      then have "mark s c < er_received x" "er_received x \<le> newest new"
        unfolding newest_def by (auto simp: new_def)
      with old mark' show ?thesis by simp
    qed
    have all: "merged s' c = city_rows c (rows s)"
      using le s'(2) by (auto simp: merged_def city_rows_def intro!: filter_cong)
    have kept: "filter (\<lambda>r. Q r) (merged s c) = filter (\<lambda>r. Q r) (city_rows c (rows s))" if "\<forall>r \<in> set new. \<not> Q r" for Q
      using that by (auto simp: merged_def city_rows_def new_def not_less intro!: filter_cong)
    have inscope: "filter Q scope = filter Q (city_rows c (rows s))" if "\<forall>r. Q r \<longrightarrow> day_of (zone c) r \<in> set days" for Q
      using that by (auto simp: scope_def city_rows_def intro!: filter_cong)
    have old: "same_tables (table s c) (totals (zone c) (merged s c))" using assms(3) by (simp add: consolidated_def)
    have tab: "table s' c t = roll_tables days hours (table s c) (totals (zone c) scope) t" if "t \<in> set (DAILY_TABLES @ HOURLY_TABLES)" for t
      using s'(4) False that by simp
    have "filter (\<lambda>e. e_day e = d) (table s' c t) = filter (\<lambda>e. e_day e = d) (totals (zone c) (city_rows c (rows s)) t)"
      if t: "t \<in> set DAILY_TABLES" for t d
    proof -
      have "filter (\<lambda>e. e_day e = d) (filter (\<lambda>e. e_day e \<notin> set days) (table s c t) @ filter (\<lambda>e. e_day e \<in> set days) (totals (zone c) scope t))
          = filter (\<lambda>e. e_day e = d) (totals (zone c) (city_rows c (rows s)) t)"
      proof (rule replaced_part[where k = "day_of (zone c)" and seen = "merged s c" and G = "\<lambda>rs. totals (zone c) rs t"])
        show "filter (\<lambda>e. e_day e = d) (table s c t) = filter (\<lambda>e. e_day e = d) (totals (zone c) (merged s c) t)"
          using old t by (simp add: same_tables_def)
        show "d \<notin> set days \<Longrightarrow> filter (\<lambda>r. day_of (zone c) r = d) (merged s c) = filter (\<lambda>r. day_of (zone c) r = d) (city_rows c (rows s))"
          by (rule kept) (auto simp: days_def touched_def)
      qed (use daily_local[OF t, of "\<lambda>x. x = d", unfolded o_def] inscope in auto)
      then show ?thesis using tab[of t] t by (simp add: roll_tables_def)
    qed
    moreover have "filter (\<lambda>e. e_hour e = h) (table s' c t) = filter (\<lambda>e. e_hour e = h) (totals (zone c) (city_rows c (rows s)) t)"
      if t: "t \<in> set HOURLY_TABLES" for t h
    proof -
      have nd: "t \<notin> set DAILY_TABLES" using t by (auto simp: DAILY_TABLES_def HOURLY_TABLES_def)
      have "filter (\<lambda>e. e_hour e = h) (filter (\<lambda>e. e_hour e \<notin> set hours) (table s c t) @ filter (\<lambda>e. e_hour e \<in> set hours) (totals (zone c) scope t))
          = filter (\<lambda>e. e_hour e = h) (totals (zone c) (city_rows c (rows s)) t)"
      proof (rule replaced_part[where k = "hour_of (zone c)" and seen = "merged s c" and G = "\<lambda>rs. totals (zone c) rs t"])
        show "filter (\<lambda>e. e_hour e = h) (table s c t) = filter (\<lambda>e. e_hour e = h) (totals (zone c) (merged s c) t)"
          using old t by (simp add: same_tables_def)
        show "h \<notin> set hours \<Longrightarrow> filter (\<lambda>r. hour_of (zone c) r = h) (merged s c) = filter (\<lambda>r. hour_of (zone c) r = h) (city_rows c (rows s))"
          by (rule kept) (auto simp: hours_def touched_def)
        show "filter (\<lambda>r. hour_of (zone c) r = h) scope = filter (\<lambda>r. hour_of (zone c) r = h) (city_rows c (rows s))" if "h \<in> set hours"
          using that by (intro inscope) (auto simp: days_def hours_def touched_def day_of_hour[symmetric])
      qed (use hourly_local[OF t, of "\<lambda>x. x = h", unfolded o_def] in auto)
      then show ?thesis using tab[of t] t nd by (simp add: roll_tables_def)
    qed
    ultimately have "consolidated s' c" by (simp add: consolidated_def all same_tables_def)
    moreover have "\<exists>r \<in> set (rows s). mark s' c = er_received r"
    proof -
      have "Max (er_received ` set new) \<in> er_received ` set new" using False by (intro Max_in) auto
      then show ?thesis by (auto simp: mark' newest_def new_def)
    qed
    ultimately show ?thesis using s' all by blast
  qed
qed

lemma run_consolidates:
  assumes "\<forall>c. mark s c \<le> t" "\<forall>r \<in> set (rows s). er_received r \<le> t" "timely t ops"
    and "list_all good (rows s @ ingested ops)" "list_all complete_row (rows s @ ingested ops)" "\<forall>c. consolidated s c"
  shows "\<exists>s'. run_stats insert rollup zone ops s = Some s' \<and> rows s' = rows s @ ingested ops \<and> (\<forall>c. consolidated s' c)"
  using assms
proof (induction ops arbitrary: s t rule: ingested.induct)
  case (2 rs ops)
  define t' where "t' = Max (Set.insert t (er_received ` set rs))"
  have le: "t \<le> t'" "\<forall>r \<in> set rs. er_received r \<le> t'" by (simp_all add: t'_def)
  have "mark s d \<le> t'" for d using 2(2) le(1) by (meson order.trans)
  moreover have "\<forall>r \<in> set (rows s @ rs). er_received r \<le> t'" using 2(3) le by fastforce
  moreover have "timely t' ops" using 2(4) by (simp add: t'_def)
  moreover have "\<forall>r \<in> set rs. mark s (er_city r) < er_received r" using 2(2,4) by (meson order.strict_trans1 timely.simps(2))
  then have "\<forall>c. consolidated (fst (insert rs s)) c" using 2(7) insert_keeps by blast
  ultimately show ?case using 2(1)[of "fst (insert rs s)" t'] 2(5,6) by (simp add: insert_law)
next
  case (3 c now ops)
  have "list_all good (rows s)" "list_all complete_row (rows s)" "consolidated s c" using 3 by simp_all
  from rollup_consolidates[OF this, of now] obtain s' n where s': "rollup zone c now s = Some (s', n)" "rows s' = rows s"
      "consolidated s' c" "\<forall>c'. c' \<noteq> c \<longrightarrow> mark s' c' = mark s c' \<and> table s' c' = table s c'"
      "mark s' c = mark s c \<or> (\<exists>r \<in> set (rows s). mark s' c = er_received r)" by blast
  have "mark s' d \<le> t" for d using 3(2,3) s'(4,5) by (cases "d = c") auto
  moreover have "consolidated s' d" for d
    using 3(7) s'(2-4) by (cases "d = c") (auto simp: consolidated_def merged_def)
  ultimately show ?case using 3(1)[of s' t] 3(3-6) s'(1,2) by simp
qed simp

lemma run_then_roll:
  assumes "\<forall>c. mark s c \<le> t" "rows s = []" "timely t ops" "list_all good (ingested ops)" "list_all complete_row (ingested ops)"
    and "\<forall>c t. table s c t = []"
  shows "\<exists>s'. run_stats insert rollup zone (ops @ [Roll c now]) s = Some s' \<and> rows s' = ingested ops
     \<and> same_tables (table s' c) (totals (zone c) (city_rows c (ingested ops)))"
proof -
  have "consolidated s c" for c
    using assms(2,6) by (auto simp: consolidated_def merged_def same_tables_def totals_def tables_of_def no_aggs_def count_sessions_def)
  with run_consolidates[of s t ops] assms obtain s1 where s1: "run_stats insert rollup zone ops s = Some s1" "rows s1 = ingested ops" "consolidated s1 c"
    by auto
  from rollup_consolidates[of s1 c now] s1 assms(4,5) obtain s' n where
    "rollup zone c now s1 = Some (s', n)" "rows s' = ingested ops" "merged s' c = city_rows c (ingested ops)" "consolidated s' c" by auto
  moreover have "run_stats insert rollup zone (xs @ [Roll c now]) x = (case run_stats insert rollup zone xs x of None \<Rightarrow> None | Some y \<Rightarrow> map_option fst (rollup zone c now y))" for xs x
    by (induction xs arbitrary: x rule: ingested.induct) (auto split: option.split)
  ultimately show ?thesis using s1 by (simp add: consolidated_def)
qed

end

section \<open>Both stores\<close>

definition good_row :: "(string \<Rightarrow> int \<Rightarrow> int) \<Rightarrow> event_row \<Rightarrow> bool" where
  \<comment> \<open>received after 1970, in a zone whose offset is at most a day\<close>
  "good_row zone r \<longleftrightarrow> unix_start < er_received r \<and> \<bar>zone (er_city r) (er_at r)\<bar> \<le> day_usec"

definition mem_mark :: "mem_stats \<Rightarrow> string \<Rightarrow> int" where
  "mem_mark st c = or_else (map_of (ms_watermark st) c) unix_start"

definition mem_table :: "mem_stats \<Rightarrow> string \<Rightarrow> string \<Rightarrow> agg_entry list" where
  "mem_table st c = or_else (map_of (ms_aggs st) c) (\<lambda>t. [])"

definition pg_mark :: "pg_stats \<Rightarrow> string \<Rightarrow> int" where
  "pg_mark st c = or_else (map_option fst (map_of (ps_state st) c)) unix_start"

definition of_city :: "string \<Rightarrow> (string \<times> agg_entry) list \<Rightarrow> agg_entry list" where
  \<comment> \<open>\<open>WHERE city_id = c\<close>\<close>
  "of_city c xs = map snd (filter (\<lambda>(c', e). c' = c) xs)"

definition pg_table :: "pg_stats \<Rightarrow> string \<Rightarrow> string \<Rightarrow> agg_entry list" where
  "pg_table st c t = of_city c (ps_aggs st t)"

lemma complete_scope: "list_all complete_row rows \<Longrightarrow> aggregate (filter Q rows) tz = Some (totals tz (filter Q rows))"
  by (auto simp: aggregate_totals list_all_iff)

interpretation mem_stats: rollup_store zone ms_rows mem_mark mem_table mem_insert mem_rollup "good_row zone" for zone
proof (unfold_locales, goal_cases)
  case (4 s new c now)
  have "new = filter (\<lambda>r. er_city r = c \<and> (case map_of (ms_watermark s) c of None \<Rightarrow> True | Some w \<Rightarrow> w < er_received r)) (ms_rows s)"
  proof (cases "map_of (ms_watermark s) c")
    case None
    then show ?thesis unfolding 4(3) using 4(1) by (intro filter_cong) (auto simp: mem_mark_def good_row_def list_all_iff)
  qed (simp add: 4(3) mem_mark_def)
  then show ?case using 4(2)
    by (auto simp: mem_rollup_def Let_def complete_scope mem_mark_def mem_table_def case_prod_beta update_conv')
qed (auto simp: mem_insert_def mem_mark_def mem_table_def)

lemma day_usec_pos [simp]: "0 < day_usec"
  by (simp add: day_usec_def usec_def)

lemma in_window:
  assumes "good_row zone r" "day_of (zone (er_city r)) r \<in> set days"
  shows "(Min (set days) - 1) * day_usec \<le> er_at r \<and> er_at r < (Max (set days) + 2) * day_usec"
proof -
  define d where "d = day_of (zone (er_city r)) r"
  let ?l = "er_at r + zone (er_city r) (er_at r)"
  have d: "d = ?l div day_usec" by (simp add: d_def day_of_def date_of_def local_of_def)
  have "d * day_usec \<le> ?l" "?l < (d + 1) * day_usec"
    using div_mult_mod_eq[of ?l day_usec] pos_mod_bound[OF day_usec_pos, of ?l] pos_mod_sign[OF day_usec_pos, of ?l]
    unfolding d distrib_right by linarith+
  moreover have "\<bar>zone (er_city r) (er_at r)\<bar> \<le> day_usec" using assms(1) by (simp add: good_row_def)
  moreover have "Min (set days) - 1 \<le> d - 1" "d + 2 \<le> Max (set days) + 2"
    using Min_le[OF finite_set assms(2)] Max_ge[OF finite_set assms(2)] unfolding d_def by linarith+
  then have "(Min (set days) - 1) * day_usec \<le> (d - 1) * day_usec" "(d + 2) * day_usec \<le> (Max (set days) + 2) * day_usec"
    by (simp_all only: mult_right_mono less_imp_le[OF day_usec_pos])
  ultimately show ?thesis unfolding distrib_right left_diff_distrib by linarith
qed

lemma of_city_simps:
  "of_city c (xs @ ys) = of_city c xs @ of_city c ys"
  "of_city c (map (Pair c') es) = (if c' = c then es else [])"
  "of_city c (filter (\<lambda>(x, e). x = c' \<longrightarrow> Q e) xs) = (if c' = c then filter Q (of_city c xs) else of_city c xs)"
proof -
  show "of_city c (map (Pair c') es) = (if c' = c then es else [])" by (induction es) (auto simp: of_city_def)
  show "of_city c (filter (\<lambda>(x, e). x = c' \<longrightarrow> Q e) xs) = (if c' = c then filter Q (of_city c xs) else of_city c xs)"
    by (induction xs) (auto simp: of_city_def)
qed (simp add: of_city_def)

lemma pg_table_rolled:
  assumes "t \<in> set (DAILY_TABLES @ HOURLY_TABLES)"
  shows "of_city c (insert_aggs c fresh days hours (delete_aggs c days hours tabs) t) = roll_tables days hours (\<lambda>t. of_city c (tabs t)) fresh t"
  using assms by (simp add: insert_aggs_def delete_aggs_def roll_tables_def of_city_simps)

lemma pg_table_other:
  "c' \<noteq> c \<Longrightarrow> of_city c' (insert_aggs c fresh days hours (delete_aggs c days hours tabs) t) = of_city c' (tabs t)"
  by (simp add: insert_aggs_def delete_aggs_def of_city_simps)

lemma pg_rollup_eq:
  assumes "list_all (good_row zone) (ps_events s)" "list_all complete_row (ps_events s)"
    and "new = filter (\<lambda>r. er_city r = c \<and> pg_mark s c < er_received r) (ps_events s)"
    and "days = fst (touched new (zone c))" "hours = snd (touched new (zone c))"
  shows "pg_rollup zone c now s = (if new = [] then Some (s\<lparr>ps_state := AList.update c (pg_mark s c, now) (ps_state s)\<rparr>, 0, 0)
     else Some (s\<lparr>ps_aggs := insert_aggs c (totals (zone c) (filter (\<lambda>r. er_city r = c \<and> day_of (zone c) r \<in> set days) (ps_events s))) days hours
            (delete_aggs c days hours (ps_aggs s)), ps_state := AList.update c (newest new, now) (ps_state s)\<rparr>, length new, length days))"
proof -
  have w: "filter (\<lambda>r. day_of (zone c) r \<in> set days) (filter (\<lambda>r. er_city r = c \<and> (Min (set days) - 1) * day_usec \<le> er_at r
      \<and> er_at r < (Max (set days) + 2) * day_usec) (ps_events s)) = filter (\<lambda>r. er_city r = c \<and> day_of (zone c) r \<in> set days) (ps_events s)"
    using in_window[of zone _ days] assms(1) by (auto simp: list_all_iff intro!: filter_cong)
  have n: "filter (\<lambda>r. er_city r = c \<and> or_else (map_option fst (map_of (ps_state s) c)) unix_start < er_received r) (ps_events s) = new"
    by (simp add: assms(3) pg_mark_def)
  have p: "touched new (zone c) = (days, hours)" by (simp add: assms(4,5))
  show ?thesis unfolding pg_rollup_def Let_def n p prod.case w complete_scope[OF assms(2)] by (simp add: pg_mark_def)
qed

interpretation pg_stats: rollup_store zone ps_events pg_mark pg_table pg_insert pg_rollup "good_row zone" for zone
proof (unfold_locales, goal_cases)
  case (4 s new c now)
  note eq = pg_rollup_eq[OF 4 refl refl, of now]
  show ?case
  proof (cases "new = []")
    case True
    then show ?thesis unfolding eq by (auto simp: pg_mark_def pg_table_def update_conv' fun_eq_iff)
  next
    case False
    have "pg_table s c = (\<lambda>t. of_city c (ps_aggs s t))" by (simp add: fun_eq_iff pg_table_def)
    with False show ?thesis unfolding eq by (auto simp: pg_mark_def pg_table_def update_conv' pg_table_other pg_table_rolled)
  qed
qed (auto simp: pg_insert_def pg_mark_def pg_table_def fun_eq_iff)


definition demo_row :: "int \<Rightarrow> string \<Rightarrow> event_row" where
  "demo_row t s = \<lparr>er_city = ''bogota'', er_at = 730000 * day_usec, er_received = 730000 * day_usec + t, er_type = ''app_open'', er_session = s,
     er_cohort = s, er_platform = ''web'', er_version = ''1.0'', er_locale = ''es'', er_props = [], er_gh7 = None, er_from = None, er_to = None\<rparr>"

definition bogota_zone :: "string \<Rightarrow> int \<Rightarrow> int" where
  "bogota_zone c t = - 5 * 3600 * usec"


section \<open>Where the hypotheses come from, and what breaks them\<close>

lemma needed_fields:
  assumes "map_of SCHEMAS t = Some s" "k \<in> set (needed t)"
  shows "(\<exists>n. map_of (schema_fields s) k = Some (text_upto n, None)) \<and> k \<notin> set coordinate_keys \<and> k \<notin> {''label'', ''resultId''}"
proof -
  have "\<forall>(t, s) \<in> set SCHEMAS. \<forall>k \<in> set (needed t). (\<exists>n. map_of (schema_fields s) k = Some (text_upto n, None))
      \<and> k \<notin> set coordinate_keys \<and> k \<notin> {''label'', ''resultId''}"
    by (simp add: event_schemas needed_def coordinate_keys_def, blast)
  then show ?thesis using map_of_SomeD[OF assms(1)] assms(2) by blast
qed

lemma fits_text_field:
  "fits_fields fs kvs \<Longrightarrow> map_of fs k = Some (SStr ok, None) \<Longrightarrow> \<exists>x. map_of kvs k = Some (JStr x)"
  by (induction fs) (auto split: if_splits option.splits json.splits)

lemma prepared_event_is_complete:
  assumes "pydantic mv" "prepare_event mv city b sh ch received ev = Stored r"
  shows "complete_row r"
  using assms(2)
proof (rule prepare_event_stored)
  fix s p
  assume s: "(ev_type ev, s) \<in> set SCHEMAS" and p: "read_props mv s (ev_props ev) = Some p" and t: "er_type r = ev_type ev"
    and props: "er_props r = kept (drop_privacy (ev_type ev) p)"
  have look: "map_of SCHEMAS (ev_type ev) = Some s" using s by (auto simp: SCHEMAS_def)
  note keys = read_props_keys[OF assms(1) s p]
  obtain kvs where kvs: "mv s (JObj (known_props s (ev_props ev))) = Inr (JObj kvs)" "p = filter (\<lambda>(k, v). v \<noteq> JNull) kvs"
    using p by (auto simp: read_props_def split: sum.splits json.splits)
  have wf: "s = SModel (schema_fields s) anything" "defaults_ok s" using schemas_well_formed[OF s] by auto
  have "fits s (JObj kvs)" using assms(1) wf(2) kvs(1) unfolding pydantic_def by blast
  then have f: "fits_fields (schema_fields s) kvs" "distinct (map fst kvs)" by (subst (asm) wf(1), simp)+
  have "map_of (er_props r) k \<noteq> None" if k: "k \<in> set (needed (ev_type ev))" for k
  proof -
    obtain n where n: "map_of (schema_fields s) k = Some (text_upto n, None)" "k \<notin> set coordinate_keys" "k \<notin> {''label'', ''resultId''}"
      using needed_fields[OF look k] by blast
    obtain x where "map_of kvs k = Some (JStr x)" using fits_text_field[OF f(1) n(1)] by blast
    then have "pval p k = JStr x" using f(2) by (simp add: kvs(2) pval_def map_of_nonnull)
    then have "pval (drop_privacy (ev_type ev) p) k = JStr x" using n(3) by (simp add: drop_privacy_other)
    then have "map_of (drop_privacy (ev_type ev) p) k = Some (JStr x)" by (auto simp: pval_def split: option.splits) (metis or_else_simps json.distinct(7) not_None_eq)
    then show ?thesis using n(2) keys(3) by (simp add: props kept_lookup drop_privacy_distinct pval_def)
  qed
  then show "complete_row r" by (simp add: complete_row_def list_all_iff t)
qed

lemma prepared_rows_are_complete:
  assumes "pydantic mv" "prepare_rows mv env city b received s = (s', Some (rows, rejected))"
  shows "list_all complete_row rows"
proof -
  obtain sh ch where "collect (prepare_event mv city b sh ch received) 0 (ba_events b) = Some (rows, rejected)"
    using assms(2) prepare_rows_collects[of mv env city b received s] by auto
  from collect_parts[OF this] show ?thesis using prepared_event_is_complete[OF assms(1)] by (auto simp: list_all_iff)
qed



end
