(* ===== verification/Analytics_Query.thy ===== *)
theory Analytics_Query
  imports Analytics_Rollup Iso_Print
begin

text \<open>
  Usage statistics, the way out (\<open>app/analytics.py\<close>, \<open>_period\<close> of \<open>app/routers/analytics.py\<close>): the location
  queries with their threshold of devices per day, the top lists over the aggregate tables, and the shaping of the
  admin's answers.  Days are ordinals; the order of a Python set is that of first appearance here.
\<close>

section \<open>Cells and pairs\<close>

type_synonym 'b sightings = "((int \<times> 'b) \<times> string list \<times> int) list"

definition sight :: "(int \<Rightarrow> int) \<Rightarrow> (event_row \<Rightarrow> 'b option) \<Rightarrow> event_row \<Rightarrow> 'b sightings \<Rightarrow> 'b sightings" where
  \<comment> \<open>the devices and the events of a bucket on a day\<close>
  "sight tz key r m = (case key r of None \<Rightarrow> m
     | Some b \<Rightarrow> let k = (day_of tz r, b); (devices, n) = or_else (map_of m k) ([], 0)
         in AList.update k (List.insert (er_cohort r) devices, n + 1) m)"

definition publish :: "nat \<Rightarrow> ((int \<times> 'b) \<times> string list \<times> int) \<Rightarrow> 'b counter \<Rightarrow> 'b counter" where
  "publish k e out = (case e of ((d, b), (devices, n)) \<Rightarrow> if k \<le> length devices then AList.update b (cnt out b + n) out else out)"

definition survivors :: "(int \<Rightarrow> int) \<Rightarrow> nat \<Rightarrow> (event_row \<Rightarrow> 'b option) \<Rightarrow> event_row list \<Rightarrow> 'b counter" where
  "survivors tz k key evs = fold (publish k) (fold (sight tz key) evs []) []"

definition events_of :: "(int \<Rightarrow> int) \<Rightarrow> string \<Rightarrow> int \<Rightarrow> int \<Rightarrow> event_row list \<Rightarrow> event_row list" where
  \<comment> \<open>\<open>_events\<close>\<close>
  "events_of tz city f t rows = filter (\<lambda>r. er_city r = city \<and> f \<le> day_of tz r \<and> day_of tz r \<le> t) rows"

definition pair_key :: "event_row \<Rightarrow> (string \<times> string) option" where
  "pair_key r = (case (er_from r, er_to r) of (Some a, Some b) \<Rightarrow> Some (a, b) | _ \<Rightarrow> None)"

definition search_key :: "event_row \<Rightarrow> string option" where
  "search_key r = (if er_type r = ''search_select'' then er_gh7 r else None)"

record od_cell =
  oc_gh7 :: string
  oc_origins :: int
  oc_destinations :: int
  oc_searches :: int

definition od_rows :: "(int \<Rightarrow> int) \<Rightarrow> string \<Rightarrow> int \<Rightarrow> int \<Rightarrow> nat \<Rightarrow> nat \<Rightarrow> event_row list \<Rightarrow> (string \<times> string \<times> int) list \<times> od_cell list" where
  \<comment> \<open>\<open>MemoryAnalyticsStore.od\<close>\<close>
  "od_rows tz city f t k limit rows = (let evs = events_of tz city f t rows;
     pairs = survivors tz k pair_key evs;
     top = take limit (sort_key (\<lambda>(a, b, n). - n) (map (\<lambda>((a, b), n). (a, b, n)) pairs));
     origins = survivors tz k er_from evs; dests = survivors tz k er_to evs; searches = survivors tz k search_key evs;
     cells = remdups (map fst origins @ map fst dests @ map fst searches)
   in (top, map (\<lambda>g. \<lparr>oc_gh7 = g, oc_origins = cnt origins g, oc_destinations = cnt dests g, oc_searches = cnt searches g\<rparr>)
       (sort_key (\<lambda>g. - cnt origins g) cells)))"

definition place_key :: "string \<Rightarrow> (event_row \<Rightarrow> string option) option" where
  \<comment> \<open>the column of a kind and the filter on the type; \<open>None\<close> is a \<open>KeyError\<close>\<close>
  "place_key kind = (if kind = ''origin'' then Some er_from else if kind = ''destination'' then Some er_to
     else if kind = ''search'' then Some search_key else None)"

definition places_rows :: "(int \<Rightarrow> int) \<Rightarrow> string \<Rightarrow> int \<Rightarrow> int \<Rightarrow> string \<Rightarrow> nat \<Rightarrow> nat \<Rightarrow> event_row list \<Rightarrow> (string \<times> int) list option" where
  "places_rows tz city f t kind k limit rows = map_option (\<lambda>key.
     take limit (sort_key (\<lambda>(g, n). - n) (survivors tz k key (events_of tz city f t rows)))) (place_key kind)"

section \<open>What survives\<close>

definition seen_on :: "(int \<Rightarrow> int) \<Rightarrow> (event_row \<Rightarrow> 'b option) \<Rightarrow> 'b \<Rightarrow> int \<Rightarrow> event_row list \<Rightarrow> event_row list" where
  "seen_on tz key b d evs = filter (\<lambda>r. day_of tz r = d \<and> key r = Some b) evs"

definition devices_on :: "(int \<Rightarrow> int) \<Rightarrow> (event_row \<Rightarrow> 'b option) \<Rightarrow> 'b \<Rightarrow> int \<Rightarrow> event_row list \<Rightarrow> nat" where
  "devices_on tz key b d evs = card (er_cohort ` set (seen_on tz key b d evs))"

definition devices_in :: "event_row list \<Rightarrow> string list" where
  "devices_in rows = fold (\<lambda>r. List.insert (er_cohort r)) rows []"

lemma devices_in: "set (devices_in rows) = er_cohort ` set rows" "distinct (devices_in rows)"
proof -
  have "set (fold (\<lambda>r. List.insert (er_cohort r)) rows xs) = er_cohort ` set rows \<union> set xs
    \<and> (distinct xs \<longrightarrow> distinct (fold (\<lambda>r. List.insert (er_cohort r)) rows xs))" for xs
    by (induction rows arbitrary: xs) auto
  then show "set (devices_in rows) = er_cohort ` set rows" "distinct (devices_in rows)" by (auto simp: devices_in_def)
qed

lemma length_devices_in: "length (devices_in rows) = card (er_cohort ` set rows)"
  using devices_in[of rows] by (metis distinct_card)

lemma seen_snoc: "seen_on tz key b d (evs @ [r]) = seen_on tz key b d evs @ (if day_of tz r = d \<and> key r = Some b then [r] else [])"
  by (simp add: seen_on_def)

lemma sight_lookup:
  "map_of (sight tz key r m) (d, b) = (if day_of tz r = d \<and> key r = Some b
     then let (devices, n) = or_else (map_of m (d, b)) ([], 0) in Some (List.insert (er_cohort r) devices, n + 1) else map_of m (d, b))"
  by (cases "or_else (map_of m (d, b)) ([], 0)") (auto simp: sight_def Let_def update_conv' split: option.split prod.split)

lemma sightings_distinct: "distinct (map fst (fold (sight tz key) evs []))"
  by (induction evs rule: rev_induct) (auto simp: sight_def Let_def distinct_update split: option.split prod.split)

lemma sightings:
  "map_of (fold (sight tz key) evs []) (d, b) = (if seen_on tz key b d evs = [] then None
     else Some (devices_in (seen_on tz key b d evs), int (length (seen_on tz key b d evs))))"
proof (induction evs rule: rev_induct)
  case (snoc r evs)
  then show ?case by (simp add: sight_lookup seen_snoc devices_in_def)
qed (simp add: seen_on_def)

lemma sightings_mem:
  "((d, b), devices, n) \<in> set (fold (sight tz key) evs []) \<longleftrightarrow> seen_on tz key b d evs \<noteq> []
     \<and> devices = devices_in (seen_on tz key b d evs) \<and> n = int (length (seen_on tz key b d evs))"
  using map_of_eq_Some_iff[OF sightings_distinct, of tz key evs "(d, b)" "(devices, n)"] by (auto simp: sightings split: if_splits)

lemma publish_keys: "fst ` set (publish k e out) = fst ` set out \<union> (case e of ((d, b), devices, n) \<Rightarrow> if k \<le> length devices then {b} else {})"
  by (cases e) (simp add: publish_def dom_update split: prod.split)

lemma published_keys:
  "fst ` set (fold (publish k) m out) = fst ` set out \<union> {b. \<exists>d devices n. ((d, b), devices, n) \<in> set m \<and> k \<le> length devices}"
proof (induction m arbitrary: out)
  case (Cons e m)
  obtain d b devices n where "e = ((d, b), devices, n)" by (metis prod.exhaust)
  then show ?case unfolding fold_simps(2) o_apply Cons publish_keys by auto
qed simp

lemma survivors_distinct: "distinct (map fst (survivors tz k key evs))"
proof -
  have "distinct (map fst out) \<Longrightarrow> distinct (map fst (fold (publish k) m out))" for m and out :: "('b \<times> int) list"
    by (induction m arbitrary: out) (auto simp: publish_def distinct_update split: prod.split)
  from this[of "[]"] show ?thesis by (simp add: survivors_def)
qed

lemma published_count:
  "cnt (fold (publish k) m out) b = cnt out b + sum_list (map (\<lambda>((d, c), devices, n). if c = b \<and> k \<le> length devices then n else 0) m)"
  by (induction m arbitrary: out) (auto simp: publish_def cnt_def update_conv' split: prod.split)

lemma survivor_iff:
  assumes "0 < k"
  shows "b \<in> fst ` set (survivors tz k key evs) \<longleftrightarrow> (\<exists>d. k \<le> devices_on tz key b d evs)"
proof -
  have "seen_on tz key b d evs \<noteq> []" if "k \<le> devices_on tz key b d evs" for d using that assms by (auto simp: devices_on_def)
  then show ?thesis unfolding survivors_def published_keys
    by (auto simp: sightings_mem length_devices_in devices_on_def)
qed

definition busy_days :: "(int \<Rightarrow> int) \<Rightarrow> nat \<Rightarrow> (event_row \<Rightarrow> 'b option) \<Rightarrow> 'b \<Rightarrow> event_row list \<Rightarrow> int list" where
  \<comment> \<open>the days on which enough devices saw a bucket\<close>
  "busy_days tz k key b evs = filter (\<lambda>d. k \<le> devices_on tz key b d evs) (remdups (map (day_of tz) evs))"

lemma survivor_count:
  assumes "0 < k"
  shows "cnt (survivors tz k key evs) b = (\<Sum>d \<leftarrow> busy_days tz k key b evs. int (length (seen_on tz key b d evs)))"
proof -
  let ?m = "fold (sight tz key) evs []"
  define f :: "(int \<times> 'a) \<times> string list \<times> int \<Rightarrow> int" where "f = (\<lambda>((d, c), devices, n). if c = b \<and> k \<le> length devices then n else 0)"
  have dm: "distinct ?m" using sightings_distinct distinct_map by blast
  have "cnt (survivors tz k key evs) b = sum f (set ?m)"
    unfolding survivors_def published_count f_def[symmetric] using sum.distinct_set_conv_list[OF dm, of f] by (simp add: cnt_def)
  also have "\<dots> = sum f {e \<in> set ?m. snd (fst e) = b \<and> k \<le> length (fst (snd e))}"
    by (rule sum.mono_neutral_right) (auto simp: f_def split: prod.splits if_splits)
  also have "{e \<in> set ?m. snd (fst e) = b \<and> k \<le> length (fst (snd e))}
      = (\<lambda>d. ((d, b), devices_in (seen_on tz key b d evs), int (length (seen_on tz key b d evs)))) ` set (busy_days tz k key b evs)"
  proof -
    have day: "\<exists>x \<in> set evs. d = day_of tz x" if "k \<le> devices_on tz key b d evs" for d
    proof -
      have "seen_on tz key b d evs \<noteq> []" using that assms by (auto simp: devices_on_def)
      then show ?thesis by (auto simp: seen_on_def filter_empty_conv)
    qed
    have ne: "seen_on tz key b d evs \<noteq> []" if "k \<le> devices_on tz key b d evs" for d
      using that assms by (auto simp: devices_on_def)
    show ?thesis
      using day ne by (auto simp: sightings_mem busy_days_def length_devices_in devices_on_def[symmetric] image_iff)
  qed
  also have "sum f \<dots> = sum (\<lambda>d. int (length (seen_on tz key b d evs))) (set (busy_days tz k key b evs))"
    by (subst sum.reindex) (auto simp: inj_on_def f_def busy_days_def length_devices_in devices_on_def intro!: sum.cong)
  also have "\<dots> = (\<Sum>d \<leftarrow> busy_days tz k key b evs. int (length (seen_on tz key b d evs)))"
    by (rule sum.distinct_set_conv_list) (simp add: busy_days_def)
  finally show ?thesis .
qed


section \<open>One device can reach the threshold\<close>

lemma prepare_plan:
  assumes "pydantic mv" "ev_type ev = ''plan_request''" "fits PlanRequest (JObj (known_props PlanRequest (ev_props ev)))"
    and "bucket (ev_at ev) = Some t" "\<bar>received - t\<bar> \<le> 7 * day_usec"
  shows "\<exists>r. prepare_event mv city b sh ch received ev = Stored r \<and> er_city r = city \<and> er_at r = t \<and> er_cohort r = ch
     \<and> er_from r = cell (as_float (pval (ev_props ev) ''fromLat'')) (as_float (pval (ev_props ev) ''fromLon''))
     \<and> er_to r = cell (as_float (pval (ev_props ev) ''toLat'')) (as_float (pval (ev_props ev) ''toLon''))"
proof -
  obtain p where p: "read_props mv PlanRequest (ev_props ev) = Some p" "pval p ''fromLat'' = pval (ev_props ev) ''fromLat''"
      "pval p ''fromLon'' = pval (ev_props ev) ''fromLon''" "pval p ''toLat'' = pval (ev_props ev) ''toLat''"
      "pval p ''toLon'' = pval (ev_props ev) ''toLon''"
    using read_props_fits[OF assms(1) schema_of_search(2) assms(3)] coordinates_read[OF schema_of_search(2)] by simp
  show ?thesis
    unfolding prepare_event_def assms(2,4) schema_of_search option.case p(1) Let_def coordinates_kept p(2-5) using assms(5) by simp
qed

lemma only_entry:
  assumes "distinct (map fst xs)" "x \<in> fst ` set xs" "\<And>b. b \<in> fst ` set xs \<Longrightarrow> b = x"
  shows "\<exists>n. xs = [(x, n)]"
proof (cases xs)
  case (Cons e ys)
  then have e: "fst e = x" using assms(3) by simp
  have "ys = []"
  proof (cases ys)
    case (Cons e' zs)
    then have "fst e' = x" using assms(3)[of "fst e'"] \<open>xs = e # ys\<close> by simp
    with assms(1) e Cons \<open>xs = e # ys\<close> show ?thesis by simp
  qed simp
  then show ?thesis using Cons e by (cases e) simp
qed (use assms(2) in simp)

definition demo_send :: "hash_env \<Rightarrow> int \<Rightarrow> event_row list option" where
  \<comment> \<open>the rows of one and the same batch, about an event at noon of day 730000, received \<open>i\<close> days later\<close>
  "demo_send env i = map_option fst (snd (prepare_rows strict env ''bogota'' (demo_batch [demo_plan 0 5]) (730000 * day_usec + i * day_usec) []))"

definition demo_from :: string where "demo_from = encode (py_round_to COARSE_DECIMALS 5) (py_round_to COARSE_DECIMALS (-74)) 7"

lemma demo_send_row:
  assumes "0 \<le> i" "i \<le> 7"
  shows "\<exists>r. demo_send env i = Some [r] \<and> er_city r = ''bogota'' \<and> er_at r = 730000 * day_usec \<and> er_from r = Some demo_from
     \<and> er_to r = Some demo_from \<and> er_cohort r = he_sha env (he_source env (730000 + i) @ '':cohort-1'')"
proof -
  let ?e = "demo_plan 0 5" and ?t = "730000 * day_usec + i * day_usec"
  have f: "fits PlanRequest (JObj (known_props PlanRequest (ev_props ?e)))" by (rule demo_fits) simp
  have day: "date_of ?t = 730000 + i"
    unfolding date_of_def distrib_right[symmetric] by (simp add: day_usec_def usec_def)
  have near: "\<not> 7 * day_usec < \<bar>?t - 730000 * day_usec\<bar>"
    using assms by (simp add: day_usec_def usec_def)
  have e: "ev_type ?e = ''plan_request''" "ba_events (demo_batch [?e]) = [?e]" "ba_cohort (demo_batch [?e]) = ''cohort-1''"
    by (simp_all add: demo_plan_def demo_batch_def)
  obtain sh s where p: "prepare_rows strict env ''bogota'' (demo_batch [?e]) ?t []
      = (s, collect (prepare_event strict ''bogota'' (demo_batch [?e]) sh (he_sha env (he_source env (730000 + i) @ '':cohort-1'')) ?t) 0 [?e])"
    by (simp add: prepare_rows_def Let_def hash_id_def salt_def day e)
  have v: "pval (ev_props ?e) ''fromLat'' = JFloat 5" "pval (ev_props ?e) ''fromLon'' = JFloat (-74)"
    "pval (ev_props ?e) ''toLat'' = JFloat 5" "pval (ev_props ?e) ''toLon'' = JFloat (-74)"
    by (simp_all add: demo_plan_def pval_def)
  have n: "\<bar>?t - 730000 * day_usec\<bar> \<le> 7 * day_usec" using near by simp
  define ch where "ch = he_sha env (he_source env (730000 + i) @ '':cohort-1'')"
  obtain rr where rr: "prepare_event strict ''bogota'' (demo_batch [?e]) sh ch ?t ?e = Stored rr" "er_city rr = ''bogota''"
      "er_at rr = 730000 * day_usec" "er_cohort rr = ch"
      "er_from rr = cell (as_float (pval (ev_props ?e) ''fromLat'')) (as_float (pval (ev_props ?e) ''fromLon''))"
      "er_to rr = cell (as_float (pval (ev_props ?e) ''toLat'')) (as_float (pval (ev_props ?e) ''toLon''))"
    using prepare_plan[OF strict_pydantic e(1) f demo_bucket(2) n] by metis
  have "er_from rr = Some demo_from" "er_to rr = Some demo_from"
    unfolding rr(5,6) v by (simp_all add: as_float_def cell_def demo_from_def)
  then show ?thesis using p rr(1-4) by (simp add: demo_send_def ch_def)
qed



lemma survivors_one: "survivors tz 1 key [r] = (case key r of None \<Rightarrow> [] | Some b \<Rightarrow> [(b, 1)])"
  by (simp add: survivors_def sight_def publish_def cnt_def Let_def split: option.split)


end
