(* ===== verification/Analytics_Admin.thy ===== *)
theory Analytics_Admin
  imports Analytics_Query
begin

text \<open>
  The admin's view of usage statistics: \<open>AnalyticsQueries\<close> of \<open>app/analytics.py\<close> and \<open>_period\<close> of
  \<open>app/routers/analytics.py\<close>.  The store's \<open>fetch\<close> for the city is an argument; a table entry is the dictionary
  \<^const>\<open>tables_of\<close> makes.
\<close>

section \<open>Reading the tables\<close>

definition mem_fetch :: "mem_stats \<Rightarrow> string \<Rightarrow> string \<Rightarrow> int \<Rightarrow> int \<Rightarrow> agg_entry list" where
  "mem_fetch st c t f u = (let rows = mem_table st c t in
     if t \<in> set HOURLY_TABLES then filter (\<lambda>e. f \<le> e_hour e div 24 \<and> e_hour e div 24 \<le> u) rows
     else filter (\<lambda>e. f \<le> e_day e \<and> e_day e \<le> u) rows)"

definition pg_fetch_daily :: "pg_stats \<Rightarrow> string \<Rightarrow> string \<Rightarrow> int \<Rightarrow> int \<Rightarrow> agg_entry list" where
  \<comment> \<open>\<open>PgAnalyticsStore.fetch\<close> of a daily table; no query fetches an hourly one\<close>
  "pg_fetch_daily st c t f u = filter (\<lambda>e. f \<le> e_day e \<and> e_day e \<le> u) (pg_table st c t)"

definition num_of :: "agg_entry \<Rightarrow> string \<Rightarrow> int" where
  \<comment> \<open>\<open>r.get(k) or 0\<close>\<close>
  "num_of r k = (case map_of r k of Some (VNum n) \<Rightarrow> n | _ \<Rightarrow> 0)"

definition field_of :: "agg_entry \<Rightarrow> string \<Rightarrow> agg_val" where
  \<comment> \<open>\<open>r[k]\<close>, for the columns every entry of the table has\<close>
  "field_of r k = or_else (map_of r k) (VJson JNull)"

definition sum_of :: "agg_entry list \<Rightarrow> string \<Rightarrow> int" where
  \<comment> \<open>\<open>_sum\<close>\<close>
  "sum_of rows k = sum_list (map (\<lambda>r. num_of r k) rows)"

definition capitalize :: "string \<Rightarrow> string" where
  "capitalize s = (case s of [] \<Rightarrow> [] | c # cs \<Rightarrow> upper_char c # lower cs)"

definition camel :: "string \<Rightarrow> string" where
  "camel k = (case split_on (CHR ''_'') k of [] \<Rightarrow> [] | h # rest \<Rightarrow> h @ concat (map capitalize rest))"

definition camel_dict :: "agg_entry \<Rightarrow> agg_entry" where
  "camel_dict d = fold (\<lambda>(k, v). AList.update (camel k) v) d []"

section \<open>Top lists\<close>

definition top_add :: "string list \<Rightarrow> string list \<Rightarrow> agg_entry \<Rightarrow> (agg_val list \<times> string counter) list \<Rightarrow> (agg_val list \<times> string counter) list" where
  \<comment> \<open>\<open>acc[key].update(...)\<close>\<close>
  "top_add cols ms r acc = (let key = map (field_of r) cols
     in AList.update key (fold (\<lambda>m c. AList.update m (cnt c m + num_of r m) c) ms (or_else (map_of acc key) [])) acc)"

definition top_item :: "string list \<Rightarrow> string list \<Rightarrow> (agg_val \<times> agg_entry) list \<Rightarrow> agg_val list \<times> string counter \<Rightarrow> agg_entry" where
  "top_item cols ms names e = (case e of (key, c) \<Rightarrow>
     let item = fold (\<lambda>m. AList.update m (VNum (cnt c m))) ms (zip cols key)
     in (case map_of names (hd key) of None \<Rightarrow> item | Some extra \<Rightarrow> fold (\<lambda>(k, v). AList.update k v) extra item))"

definition top_list :: "agg_entry list \<Rightarrow> string list \<Rightarrow> string list \<Rightarrow> int \<Rightarrow> string list \<Rightarrow> nat \<Rightarrow> (agg_val \<times> agg_entry) list \<Rightarrow> agg_entry list" where
  \<comment> \<open>\<open>_top\<close>; a single k-metric is a list of one\<close>
  "top_list rows cols ms k kmetrics limit names =
     (let acc = fold (top_add cols ms) rows [];
          enough = filter (\<lambda>(key, c). \<not> Max (cnt c ` set kmetrics) < k) acc;
          out = sort_key (\<lambda>x. - num_of x (hd kmetrics)) (map (top_item cols ms names) enough)
      in map camel_dict (take limit out))"

section \<open>Queries\<close>

type_synonym fetcher = "string \<Rightarrow> int \<Rightarrow> int \<Rightarrow> agg_entry list"

definition totals_of :: "fetcher \<Rightarrow> int \<Rightarrow> int \<Rightarrow> (string \<times> int) list" where
  \<comment> \<open>\<open>_totals\<close>\<close>
  "totals_of fetch f t = (let fr = fetch ''agg_funnel_daily'' f t; pr = fetch ''agg_provider_daily'' f t in
     [(''sessions'', sum_of fr ''sessions''), (''appOpens'', sum_of fr ''app_opens''), (''planRequests'', sum_of fr ''plan_requests''),
      (''itinerarySelects'', sum_of fr ''itinerary_selects''), (''goStarts'', sum_of fr ''go_starts''),
      (''goCompletions'', sum_of fr ''go_completions''), (''handoffs'', sum_of pr ''handoffs''),
      (''activeDays'', int (length (remdups (map e_day (filter (\<lambda>r. num_of r ''sessions'' \<noteq> 0) fr)))))])"

definition q_routes :: "fetcher \<Rightarrow> int \<Rightarrow> int \<Rightarrow> int \<Rightarrow> nat \<Rightarrow> (agg_val \<times> agg_entry) list \<Rightarrow> agg_entry list" where
  "q_routes fetch k f t limit names = top_list (fetch ''agg_route_daily'' f t) [''route_id''] [''views'', ''selects'', ''locates''] k
     [''selects'', ''views'', ''locates''] limit names"

definition q_stops :: "fetcher \<Rightarrow> int \<Rightarrow> int \<Rightarrow> int \<Rightarrow> nat \<Rightarrow> (agg_val \<times> agg_entry) list \<Rightarrow> agg_entry list" where
  "q_stops fetch k f t limit names = top_list (fetch ''agg_stop_daily'' f t) [''stop_id''] [''views'', ''boards'', ''locates''] k
     [''views'', ''boards'', ''locates''] limit names"

definition q_modes :: "fetcher \<Rightarrow> int \<Rightarrow> int \<Rightarrow> int \<Rightarrow> nat \<Rightarrow> agg_entry list" where
  "q_modes fetch k f t limit = top_list (fetch ''agg_mode_daily'' f t) [''mode_set''] [''requests'', ''selects''] k [''requests'', ''selects''] limit []"

definition q_searches :: "fetcher \<Rightarrow> int \<Rightarrow> int \<Rightarrow> int \<Rightarrow> nat \<Rightarrow> agg_entry list" where
  "q_searches fetch k f t limit = top_list (fetch ''agg_search_daily'' f t) [''result_type'', ''result_id'', ''label''] [''n''] k [''n''] limit []"

definition q_providers :: "fetcher \<Rightarrow> int \<Rightarrow> int \<Rightarrow> int \<Rightarrow> agg_entry list" where
  "q_providers fetch k f t = top_list (fetch ''agg_provider_daily'' f t) [''provider_id''] [''handoffs'', ''had_estimate''] k [''handoffs''] 50 []"

record summary =
  su_days :: int
  su_previous :: "int \<times> int"
  su_totals :: "(string \<times> int) list"
  su_previous_totals :: "(string \<times> int) list"
  su_delta :: "(string \<times> int) list"
  su_modes :: "agg_entry list"
  su_routes :: "agg_entry list"
  su_stops :: "agg_entry list"
  su_platforms :: "agg_entry list"
  su_versions :: "agg_entry list"
  su_k :: int

definition q_summary :: "fetcher \<Rightarrow> int \<Rightarrow> int \<Rightarrow> int \<Rightarrow> summary" where
  "q_summary fetch k f t = (let span = t - f + 1; pf = f - span; pt = f - 1;
     cur = totals_of fetch f t; prev = totals_of fetch pf pt
   in \<lparr>su_days = span, su_previous = (pf, pt), su_totals = cur, su_previous_totals = prev,
       su_delta = map (\<lambda>(x, n). (x, n - cnt prev x)) cur,
       su_modes = q_modes fetch k f t 8, su_routes = q_routes fetch k f t 5 [], su_stops = q_stops fetch k f t 5 [],
       su_platforms = top_list (fetch ''agg_platform_daily'' f t) [''platform''] [''n''] 0 [''n''] 3 [],
       su_versions = top_list (fetch ''agg_platform_daily'' f t) [''platform'', ''app_version''] [''n''] k [''n''] 10 [], su_k = k\<rparr>)"

definition FUNNEL_KEYS :: "string list" where
  "FUNNEL_KEYS = [''app_opens'', ''sessions'', ''plan_requests'', ''itinerary_selects'', ''go_starts'', ''go_completions'']"

definition q_funnel :: "fetcher \<Rightarrow> int \<Rightarrow> int \<Rightarrow> (string \<times> (string \<times> int) list) list \<times> (string \<times> int) list" where
  "q_funnel fetch f t = (let rows = sort_key e_day (fetch ''agg_funnel_daily'' f t)
     in (map (\<lambda>r. (show_day (e_day r), map (\<lambda>k. (camel k, num_of r k)) FUNNEL_KEYS)) rows,
         map (\<lambda>k. (camel k, sum_of rows k)) FUNNEL_KEYS))"

definition hour_cell :: "agg_entry list \<Rightarrow> nat \<Rightarrow> nat \<Rightarrow> int" where
  \<comment> \<open>\<open>grid[w][h]\<close> after the loop\<close>
  "hour_cell rows w h = sum_of (filter (\<lambda>r. weekday (e_day r) = w \<and> num_of r ''hour'' = int h) rows) ''plan_requests''"

definition WEEKDAYS :: "string list" where
  "WEEKDAYS = [''mon'', ''tue'', ''wed'', ''thu'', ''fri'', ''sat'', ''sun'']"

definition q_hours :: "fetcher \<Rightarrow> int \<Rightarrow> int \<Rightarrow> int list list \<times> (string \<times> nat \<times> int) list" where
  "q_hours fetch f t = (let rows = fetch ''agg_hours_daily'' f t in
     (map (\<lambda>w. map (hour_cell rows w) [0..<24]) [0..<7],
      concat (map (\<lambda>w. map (\<lambda>h. (WEEKDAYS ! w, h, hour_cell rows w h)) (filter (\<lambda>h. hour_cell rows w h \<noteq> 0) [0..<24])) [0..<7])))"

record od_feature =
  of_gh7 :: string
  of_polygon :: "(rat \<times> rat) list"
  of_center :: "rat \<times> rat"
  of_counts :: "int \<times> int \<times> int"

definition od_feature_of :: "od_cell \<Rightarrow> od_feature option" where
  "od_feature_of c = (case (center (oc_gh7 c), polygon (oc_gh7 c)) of
     (Some (lat, lon), Some p) \<Rightarrow> Some \<lparr>of_gh7 = oc_gh7 c, of_polygon = p, of_center = (lon, lat),
        of_counts = (oc_origins c, oc_destinations c, oc_searches c)\<rparr> | _ \<Rightarrow> None)"

fun all_some :: "'a option list \<Rightarrow> 'a list option" where
  "all_some [] = Some []"
| "all_some (x # xs) = (case x of None \<Rightarrow> None | Some v \<Rightarrow> map_option ((#) v) (all_some xs))"

definition od_threshold :: "nat \<Rightarrow> nat option \<Rightarrow> nat" where
  \<comment> \<open>\<open>max(self.k, k or self.k)\<close>\<close>
  "od_threshold own k = max own (case k of None \<Rightarrow> own | Some n \<Rightarrow> if n = 0 then own else n)"

definition q_od :: "(nat \<Rightarrow> nat \<Rightarrow> (string \<times> string \<times> int) list \<times> od_cell list) \<Rightarrow> nat \<Rightarrow> nat \<Rightarrow> nat option
    \<Rightarrow> (od_feature list \<times> (string \<times> string \<times> (rat \<times> rat) \<times> (rat \<times> rat) \<times> int) list \<times> nat) option" where
  \<comment> \<open>\<open>AnalyticsQueries.od\<close> over the store's answer for a threshold and a limit; \<open>None\<close> is the \<open>KeyError\<close> of a bad hash\<close>
  "q_od store own limit k = (let k' = od_threshold own k; (pairs, cells) = store k' limit in
     (case (all_some (map od_feature_of cells),
            all_some (map (\<lambda>(a, b, n). case (center a, center b) of (Some p, Some q) \<Rightarrow> Some (a, b, p, q, n) | _ \<Rightarrow> None) pairs)) of
       (Some fs, Some ps) \<Rightarrow> Some (fs, ps, k') | _ \<Rightarrow> None))"

definition q_places :: "(string \<times> int) list \<Rightarrow> (string \<times> (rat \<times> rat) \<times> int) list option" where
  "q_places rows = all_some (map (\<lambda>(g, n). map_option (\<lambda>c. (g, c, n)) (center g)) rows)"

definition period :: "int \<Rightarrow> string option \<Rightarrow> string option \<Rightarrow> api_error + int \<times> int" where
  \<comment> \<open>\<open>_period\<close>, on dates written \<open>YYYY-MM-DD\<close>\<close>
  "period today f t =
     (case if truthy_str t then parse_date (the t) else Some today of
       None \<Rightarrow> Inl (bad_request ''from/to must be YYYY-MM-DD'' 422)
     | Some day_to \<Rightarrow> (case if truthy_str f then parse_date (the f) else Some (day_to - 29) of
         None \<Rightarrow> Inl (bad_request ''from/to must be YYYY-MM-DD'' 422)
       | Some day_from \<Rightarrow>
           if day_to < day_from then Inl (bad_request ''from must be <= to'' 422)
           else if 400 < day_to - day_from then Inl (bad_request ''period too long (max 400 days)'' 422)
           else Inr (day_from, day_to)))"

section \<open>What a top list shows\<close>

lemma cnt_fold_update:
  "distinct ms \<Longrightarrow> cnt (fold (\<lambda>m c. AList.update m (cnt c m + f m) c) ms c) x = cnt c x + (if x \<in> set ms then f x else 0)"
proof (induction ms arbitrary: c)
  case (Cons m ms)
  have "cnt (AList.update m (cnt c m + f m) c) x = (if x = m then cnt c m + f m else cnt c x)"
    by (simp add: cnt_def update_conv')
  with Cons show ?case by auto
qed simp

definition of_key :: "string list \<Rightarrow> agg_val list \<Rightarrow> agg_entry list \<Rightarrow> agg_entry list" where
  "of_key cols key rows = filter (\<lambda>r. map (field_of r) cols = key) rows"

lemma top_add_keys: "fst ` set (fold (top_add cols ms) rows acc) = fst ` set acc \<union> (\<lambda>r. map (field_of r) cols) ` set rows"
  by (induction rows arbitrary: acc) (auto simp: top_add_def Let_def dom_update)

lemma top_add_distinct: "distinct (map fst acc) \<Longrightarrow> distinct (map fst (fold (top_add cols ms) rows acc))"
  by (induction rows arbitrary: acc) (auto simp: top_add_def Let_def distinct_update)

lemma top_add_count:
  "distinct ms \<Longrightarrow> m \<in> set ms \<Longrightarrow>
    cnt (or_else (map_of (fold (top_add cols ms) rows acc) key) []) m = cnt (or_else (map_of acc key) []) m + sum_of (of_key cols key rows) m"
proof (induction rows arbitrary: acc)
  case (Cons r rows)
  have "cnt (or_else (map_of (top_add cols ms r acc) key) []) m
      = cnt (or_else (map_of acc key) []) m + (if map (field_of r) cols = key then num_of r m else 0)"
    using Cons.prems by (simp add: top_add_def Let_def update_conv' cnt_fold_update)
  with Cons show ?case by (simp add: sum_of_def of_key_def)
qed (simp add: sum_of_def of_key_def)

text \<open>A top list publishes no row below the threshold: at most \<open>limit\<close> rows come out, each for one combination of
  the grouping columns that occurs in the table, with the sums of that combination's metrics over the whole period, and one of its
  threshold metrics has reached \<open>k\<close>.\<close>
theorem top_lists_respect_the_threshold:
  assumes "distinct ms" "set kmetrics \<subseteq> set ms" "kmetrics \<noteq> []"
  shows "length (top_list rows cols ms k kmetrics limit names) \<le> limit
    \<and> (\<forall>x \<in> set (top_list rows cols ms k kmetrics limit names). \<exists>r c. r \<in> set rows
        \<and> x = camel_dict (top_item cols ms names (map (field_of r) cols, c))
        \<and> (\<forall>m \<in> set ms. cnt c m = sum_of (of_key cols (map (field_of r) cols) rows) m)
        \<and> (\<exists>m \<in> set kmetrics. k \<le> sum_of (of_key cols (map (field_of r) cols) rows) m))"
proof (intro conjI ballI)
  show "length (top_list rows cols ms k kmetrics limit names) \<le> limit" by (simp add: top_list_def Let_def)
next
  fix x assume "x \<in> set (top_list rows cols ms k kmetrics limit names)"
  then obtain key c where e: "(key, c) \<in> set (fold (top_add cols ms) rows [])" "\<not> Max (cnt c ` set kmetrics) < k"
      "x = camel_dict (top_item cols ms names (key, c))"
    by (auto simp: top_list_def Let_def dest!: in_set_takeD)
  have look: "map_of (fold (top_add cols ms) rows []) key = Some c"
    by (rule map_of_is_SomeI[OF top_add_distinct e(1)]) simp
  have key: "key \<in> (\<lambda>r. map (field_of r) cols) ` set rows"
  proof -
    have "key \<in> fst ` set (fold (top_add cols ms) rows [])" using e(1) by (rule image_eqI[rotated]) simp
    then show ?thesis unfolding top_add_keys by simp
  qed
  then obtain r where r: "r \<in> set rows" "key = map (field_of r) cols" by blast
  have c: "cnt c m = sum_of (of_key cols key rows) m" if "m \<in> set ms" for m
    using top_add_count[OF assms(1) that, of cols rows "[]" key] look by (simp add: cnt_def)
  have "Max (cnt c ` set kmetrics) \<in> cnt c ` set kmetrics" using assms(3) by (intro Max_in) auto
  then obtain m where m: "m \<in> set kmetrics" "Max (cnt c ` set kmetrics) = cnt c m" by (elim imageE)
  then have "k \<le> cnt c m" using e(2) by simp
  then show "\<exists>r c. r \<in> set rows \<and> x = camel_dict (top_item cols ms names (map (field_of r) cols, c))
        \<and> (\<forall>m \<in> set ms. cnt c m = sum_of (of_key cols (map (field_of r) cols) rows) m)
        \<and> (\<exists>m \<in> set kmetrics. k \<le> sum_of (of_key cols (map (field_of r) cols) rows) m)"
    using r e(3) c m(1) assms(2) by (intro exI[of _ r] exI[of _ c] conjI bexI[of _ m]) (auto dest: subsetD)
qed

definition demo_view :: "nat \<Rightarrow> event_row" where
  "demo_view i = \<lparr>er_city = ''bogota'', er_at = 730000 * day_usec + int i * 300 * usec, er_received = 730000 * day_usec + 3600 * usec,
     er_type = ''route_view'', er_session = ''s'', er_cohort = ''c'', er_platform = ''web'', er_version = ''1.0'', er_locale = ''es'',
     er_props = [(''routeId'', JStr ''r1'')], er_gh7 = None, er_from = None, er_to = None\<rparr>"

definition demo_views :: "event_row list" where
  "demo_views = map demo_view [0, 1, 2, 3, 4]"

lemma demo_table: "totals (\<lambda>t. 0) demo_views ''agg_route_daily''
    = [[(''day'', VDay 730000), (''route_id'', VJson (JStr ''r1'')), (''views'', VNum 5), (''selects'', VNum 0), (''locates'', VNum 0)]]"
  by (simp add: demo_views_def totals_def demo_view_def agg_row_def no_aggs_def count_sessions_def tables_of_def metrics_def tally_at_def tally_def
      cnt_def add_to_def Let_def day_of_def date_of_def local_of_def day_usec_def usec_def pval_def)


theorem top_lists_respect_the_threshold_witness:
  "\<forall>x \<in> set (top_list [[(''a'', VNum 1), (''n'', VNum 3)]] [''a''] [''n''] 2 [''n''] 1 []).
     \<exists>r. r \<in> {[(''a'', VNum 1), (''n'', VNum 3)]} \<and> 2 \<le> sum_of (of_key [''a''] (map (field_of r) [''a'']) [[(''a'', VNum 1), (''n'', VNum 3)]]) ''n''"
  using top_lists_respect_the_threshold[of "[''n'']" "[''n'']" "[[(''a'', VNum 1), (''n'', VNum 3)]]" "[''a'']" 2 1 "[]"] by fastforce

end
