(* ===== verification/Iso_Order.thy ===== *)
theory Iso_Order
  imports Normalize
begin

text \<open>
  UTC instants printed by the code sort as texts the way they sort as instants: what the merges and boards,
  which compare ISO texts, rely on (\<open>merge_departures\<close> of \<open>app/normalize.py\<close>).
\<close>

lemma lex_append_less: "length u = length v \<Longrightarrow> u < v \<Longrightarrow> u @ x < v @ (y :: string)"
  by (induction u v rule: list_induct2) auto

lemma lex_append_same: "u @ x < u @ y \<longleftrightarrow> x < (y :: string)"
  by (induction u) auto

lemma digit_order: "is_digit a \<Longrightarrow> is_digit b \<Longrightarrow> digit_val a < digit_val b \<Longrightarrow> a < b"
  by (auto simp: is_digit_def digit_val_def less_char_def Let_def)

lemma digit_inj: "is_digit a \<Longrightarrow> is_digit b \<Longrightarrow> digit_val a = digit_val b \<Longrightarrow> a = b"
  by (auto simp: is_digit_def digit_val_def Let_def) (metis diff_diff_cancel le_add_diff_inverse of_char_eq_iff)

lemma digit_bound: "is_digit a \<Longrightarrow> digit_val a < 10"
  by (auto simp: is_digit_def digit_val_def Let_def)

abbreviation value_from :: "nat \<Rightarrow> string \<Rightarrow> nat" where
  "value_from n s \<equiv> foldl (\<lambda>n c. 10 * n + digit_val c) n s"

lemma value_from: "value_from n s = n * 10 ^ length s + value_from 0 s"
proof (induction s arbitrary: n)
  case (Cons c s)
  show ?case using Cons[of "10 * n + digit_val c"] Cons[of "digit_val c"] by (simp add: algebra_simps)
qed simp

lemma value_bound: "list_all is_digit s \<Longrightarrow> value_from 0 s < 10 ^ length s"
proof (induction s)
  case (Cons c s)
  then have "value_from 0 s < 10 ^ length s" "digit_val c + 1 \<le> 10" using digit_bound[of c] by simp_all
  then have "digit_val c * 10 ^ length s + value_from 0 s < (digit_val c + 1) * 10 ^ length s" by simp
  also have "\<dots> \<le> 10 * 10 ^ length s" using \<open>digit_val c + 1 \<le> 10\<close> by (rule mult_le_mono1)
  finally show ?case using value_from[of "digit_val c" s] by simp
qed simp

lemma digits_less: "length u = length v \<Longrightarrow> list_all is_digit u \<Longrightarrow> list_all is_digit v \<Longrightarrow> value_from 0 u < value_from 0 v \<Longrightarrow> u < v"
proof (induction u v rule: list_induct2)
  case (Cons a u b v)
  have val: "value_from 0 (a # u) = digit_val a * 10 ^ length v + value_from 0 u" "value_from 0 (b # v) = digit_val b * 10 ^ length v + value_from 0 v"
    using value_from[of "digit_val a" u] value_from[of "digit_val b" v] Cons.hyps by simp_all
  have dig: "is_digit a" "is_digit b" "list_all is_digit u" "list_all is_digit v" using Cons.prems by simp_all
  show ?case
  proof (cases "digit_val a = digit_val b")
    case True
    then show ?thesis using Cons.IH dig val Cons.prems(3) digit_inj[OF dig(1,2)] by simp
  next
    case False
    have "digit_val a < digit_val b"
    proof (rule ccontr)
      assume "\<not> digit_val a < digit_val b"
      then have "(digit_val b + 1) * 10 ^ length v \<le> digit_val a * 10 ^ length v" using False by (intro mult_le_mono1) simp
      then show False using value_bound[OF dig(4)] val Cons.prems(3) by simp
    qed
    then show ?thesis using digit_order[OF dig(1,2)] by simp
  qed
qed simp

lemma pad2_less: "a < b \<Longrightarrow> b < 100 \<Longrightarrow> pad2 a < pad2 b"
proof (rule digits_less)
  assume "a < b" "b < 100"
  then show "length (pad2 a) = length (pad2 b)" by (simp add: length_pad2)
  have "value_from 0 (pad2 n) = n" for n using show_nat_value[of n] by (simp add: pad2_def)
  then show "value_from 0 (pad2 a) < value_from 0 (pad2 b)" using \<open>a < b\<close> by simp
qed (simp_all add: pad2_digits)

lemma pad4_less: "a < b \<Longrightarrow> b < 10000 \<Longrightarrow> pad_to 4 a < pad_to 4 b"
proof (rule digits_less)
  assume ab: "a < b" "b < 10000"
  have len: "length (pad_to 4 n) = 4" if "n < 10000" for n
    using fixed_pad_to[of n 3] that by (simp add: fixed_nat_def split: if_splits)
  then show "length (pad_to 4 a) = length (pad_to 4 b)" using ab by simp
  have "value_from 0 (pad_to 4 n) = n" for n using foldl_zeros[of _ "show_nat n"] show_nat_value[of n] by (simp add: pad_to_def del: foldl_append)
  then show "value_from 0 (pad_to 4 a) < value_from 0 (pad_to 4 b)" using ab by simp
qed (simp_all add: pad_to_digits)

section \<open>Clocks and days\<close>

lemma hms_cases:
  fixes h m x h' m' x' :: nat
  assumes "h * 3600 + m * 60 + x < h' * 3600 + m' * 60 + x'" "m < 60" "x < 60" "m' < 60" "x' < 60"
  shows "h < h' \<or> (h = h' \<and> m < m') \<or> (h = h' \<and> m = m' \<and> x < x')"
proof (cases "h < h'")
  case False
  then have "h' \<le> h" by simp
  show ?thesis
  proof (cases "h = h'")
    case True
    then have "m * 60 + x < m' * 60 + x'" using assms(1) by simp
    then show ?thesis using True assms(3,5) by arith
  next
    case False
    then have "h' * 3600 + 3600 \<le> h * 3600" using \<open>h' \<le> h\<close> by simp
    then show ?thesis using assms by arith
  qed
qed simp

lemma show_clock_less:
  assumes "s < s'" "s' < 86400"
  shows "show_clock s < show_clock s'"
proof -
  have b: "t div 3600 < 24" "t mod 3600 div 60 < 60" "t mod 60 < 60" if "t < 86400" for t :: nat using that by (simp_all add: less_mult_imp_div_less)
  have s: "s < 86400" using assms by simp
  note bs = b[OF s] and bs' = b[OF assms(2)]
  have whole: "t div 3600 * 3600 + t mod 3600 div 60 * 60 + t mod 60 = t" for t :: nat
    using hms[of t] by (simp add: mult.commute)
  consider "s div 3600 < s' div 3600" | "s div 3600 = s' div 3600" "s mod 3600 div 60 < s' mod 3600 div 60"
    | "s div 3600 = s' div 3600" "s mod 3600 div 60 = s' mod 3600 div 60" "s mod 60 < s' mod 60"
    using hms_cases[OF _ bs(2,3) bs'(2,3), of "s div 3600" "s' div 3600"] whole[of s] whole[of s'] assms(1) by metis
  then show ?thesis
  proof cases
    case 1
    then have "pad2 (s div 3600) < pad2 (s' div 3600)" using bs' by (intro pad2_less) auto
    then show ?thesis using bs bs' by (simp add: show_clock_def lex_append_less length_pad2)
  next
    case 2
    then have "pad2 (s mod 3600 div 60) < pad2 (s' mod 3600 div 60)" using bs' by (intro pad2_less) auto
    then show ?thesis using 2(1) bs bs' by (simp add: show_clock_def lex_append_same lex_append_less length_pad2)
  next
    case 3
    then have "pad2 (s mod 60) < pad2 (s' mod 60)" using bs'(3) by (intro pad2_less) linarith+
    then show ?thesis using 3(1,2) by (simp add: show_clock_def lex_append_same)
  qed
qed

lemma length_show_clock: "s < 86400 \<Longrightarrow> length (show_clock s) = 8"
  by (simp add: show_clock_def length_pad2 less_mult_imp_div_less)

lemma year_of_mono: "1 \<le> n \<Longrightarrow> n \<le> n' \<Longrightarrow> year_of n \<le> year_of n'"
proof (rule ccontr)
  assume a: "1 \<le> n" "n \<le> n'" "\<not> year_of n \<le> year_of n'"
  then have "ordinal (year_of n' + 1) 1 1 \<le> ordinal (year_of n) 1 1" by (intro years_grow) simp
  then show False using year_of_bounds[of n] year_of_bounds[of n'] a by linarith
qed

lemma month_of_mono:
  assumes "ordinal y 1 1 \<le> n" "n \<le> n'" "n' < ordinal (y + 1) 1 1"
  shows "month_of n y \<le> month_of n' y"
proof (rule ccontr)
  assume a: "\<not> month_of n y \<le> month_of n' y"
  have m: "1 \<le> month_of n' y" "n' < ordinal y (month_of n' y) 1 + month_days y (month_of n' y)" "ordinal y (month_of n y) 1 \<le> n"
    using month_of_bounds[of y n] month_of_bounds[of y n'] assms by auto
  have "ordinal y (Suc (month_of n' y)) 1 \<le> ordinal y (month_of n y) 1" using a by (intro months_mono) auto
  then show False using m ordinal_month[OF m(1), of y] assms(2) by simp
qed

lemma show_day_less:
  assumes "1 \<le> n" "n < n'" "n' \<le> 3652059"
  shows "show_day n < show_day n'"
proof -
  let ?y = year_of and ?m = "\<lambda>n. month_of n (year_of n)" and ?d = "\<lambda>n. n - ordinal (year_of n) (month_of n (year_of n)) 1 + 1"
  have y: "1 \<le> ?y k" "?y k \<le> 9999" "ordinal (?y k) 1 1 \<le> k" "k < ordinal (?y k + 1) 1 1" if "1 \<le> k" "k \<le> 3652059" for k
    using year_of_bounds[OF that(1)] year_of_limit[OF that] by auto
  have m: "1 \<le> ?m k" "?m k \<le> 12" "1 \<le> ?d k" "?d k \<le> 31" if "1 \<le> k" "k \<le> 3652059" for k
    using month_of_bounds[OF y(3,4)[OF that]] month_days_bounds(2)[of "?y k" "?m k"] by auto
  have range: "1 \<le> n" "n \<le> 3652059" "1 \<le> n'" "n' \<le> 3652059" using assms by simp_all
  note yn = y[OF range(1,2)] y[OF range(3,4)] and mn = m[OF range(1,2)] m[OF range(3,4)]
  have ly: "length (pad_to 4 (nat (?y k))) = 4" if "1 \<le> k" "k \<le> 3652059" for k
    using fixed_pad_to[of "nat (?y k)" 3] y[OF that] by (simp add: fixed_nat_def nat_less_iff split: if_splits)
  have len: "length (pad_to 4 (nat (?y n))) = length (pad_to 4 (nat (?y n')))" "length (pad2 (?m n)) = length (pad2 (?m n'))"
    using ly[OF range(1,2)] ly[OF range(3,4)] mn by (simp_all add: length_pad2)
  have yle: "?y n \<le> ?y n'" using year_of_mono assms by simp
  consider "?y n < ?y n'" | "?y n = ?y n'" "?m n < ?m n'" | "?y n = ?y n'" "?m n = ?m n'" "?d n < ?d n'"
    using yle month_of_mono[of "?y n" n n'] yn assms by fastforce
  then show ?thesis
  proof cases
    case 1
    then have "pad_to 4 (nat (?y n)) < pad_to 4 (nat (?y n'))" using yn by (intro pad4_less) auto
    then show ?thesis using len by (simp add: show_day_def Let_def lex_append_less)
  next
    case 2
    then have "pad2 (?m n) < pad2 (?m n')" using mn by (intro pad2_less) auto
    then show ?thesis using 2 len by (simp add: show_day_def Let_def lex_append_same lex_append_less)
  next
    case 3
    then have "pad2 (nat (?d n)) < pad2 (nat (?d n'))" using mn by (intro pad2_less) auto
    then show ?thesis using 3 by (simp add: show_day_def Let_def lex_append_same)
  qed
qed

lemma utc_iso_less:
  assumes "in_calendar a" "in_calendar b" "a < b"
  shows "utc_iso a < utc_iso b"
proof -
  let ?d = "\<lambda>t. (t + unix_epoch) div 86400" and ?s = "\<lambda>t. nat ((t + unix_epoch) mod 86400)"
  have d: "1 \<le> ?d t" "?d t \<le> 3652059" if "in_calendar t" for t
    using that zdiv_mono1[of 86400 "t + unix_epoch" 86400] by (auto simp: in_calendar_def)
  have s: "?s t < 86400" for t by (simp add: nat_less_iff)
  have le: "?d a \<le> ?d b" using assms(3) by (simp add: zdiv_mono1)
  show ?thesis
  proof (cases "?d a = ?d b")
    case True
    have "(a + unix_epoch) mod 86400 < (b + unix_epoch) mod 86400"
      using assms(3) True div_mult_mod_eq[of "a + unix_epoch" 86400] div_mult_mod_eq[of "b + unix_epoch" 86400] by linarith
    then have "?s a < ?s b" by (simp add: nat_less_eq_zless)
    from show_clock_less[OF this s] show ?thesis
      by (simp add: utc_iso_text True lex_append_same lex_append_less length_show_clock[OF s])
  next
    case False
    then have "show_day (?d a) < show_day (?d b)" using le d assms by (intro show_day_less) auto
    moreover have "length (show_day (?d a)) = length (show_day (?d b))"
      using parse_show_day[OF _ year_of_limit] d[OF assms(1)] d[OF assms(2)] by simp
    ultimately show ?thesis unfolding utc_iso_text by (rule lex_append_less[rotated])
  qed
qed

text \<open>C27: Sorting printed instants as texts sorts them as instants: for any two UTC instants of the years 1 to 9999 the
  printed texts compare exactly as the instants do, so the merges that order by text order by time.\<close>
theorem text_order_is_time_order:
  assumes "in_calendar a" "in_calendar b"
  shows "utc_iso a < utc_iso b \<longleftrightarrow> a < b"
  using utc_iso_less[OF assms] utc_iso_less[OF assms(2,1)] by (metis less_asym' linorder_neqE_linordered_idom less_irrefl)

theorem text_order_is_time_order_witness: "utc_iso 1767599999 < utc_iso 1767600000"
  using text_order_is_time_order[of 1767599999 1767600000] by (simp add: in_calendar_def unix_epoch_def)

end
