(* ===== verification/Spec2Isabelle.thy ===== *)
theory Spec2Isabelle
  imports Plan_Merge Share Admin_Auth Geo Polyline Network Iso_Time Features Tariff Rate_Limit Rt Rt_Cache
    Geohash Segments Schedule Forecast Operations Curb_Admin Config_Store On_Demand Oidc Departures
    Analytics_Admin Iso_Order
begin

text \<open>
  A verification library of opentransit-api, the multi-city trip-planning backend in \<open>src/\<close>
  (Python: \<open>src/app/\<close>, with the handlers in \<open>src/app/routers/\<close>).  Paths below are relative to \<open>src/\<close>.

  \<^bold>\<open>The program.\<close>  One process serves several cities.  For each, \<open>app/cities.py\<close> holds a configuration read
  from YAML, \<open>app/admin_config.py\<close> an override an operator saved on top of it, \<open>app/otp.py\<close> asks a router
  (OpenTripPlanner) for plans, stops and timetables, \<open>app/normalize.py\<close> turns its answers into the public
  contract, \<open>app/rt.py\<close> polls GTFS-Realtime and keeps a frame of vehicles with deltas for the subscribers.  The plan
  handler (\<open>app/routers/plan.py\<close>) folds several router searches (transit, rental, taxi, parking) into one list;
  \<open>app/ondemand.py\<close>, \<open>app/tariff.py\<close> and \<open>app/features.py\<close> price and correct its legs.  Around this core stand the
  stop boards, the forecast of departures, the map of the network, the open-mobility (CDS/MDS) store with its
  importers, shared ETA links, anonymous usage statistics, and the admin accounts with their sign-in.

  \<^bold>\<open>How the model reads.\<close>  A Python class is a record or a datatype; a dictionary an association list in insertion
  order (\<^const>\<open>AList.update\<close>); a raised \<open>ApiError\<close> is the left side of a sum, and an exception the code does not
  catch (\<open>KeyError\<close>, \<open>IndexError\<close>, \<open>ValueError\<close>) is \<open>None\<close> or an error value of its own.  A string is a list of bytes in
  UTF-8; case mapping and white space are those of ASCII.  Python integers are \<open>int\<close>; floats are rationals (or reals
  where the code uses trigonometry), so rounding errors of binary floating point are not part of the model,
  \<open>round\<close> is half to even.  The clock, random tokens, digests, the holiday calendar, \<open>json.dumps\<close>, the answers of
  downloads and other third-party results are arguments of the definitions that use them; what the code relies on
  of such a library is a named predicate (\<open>pydantic\<close>, \<open>pyjwt\<close>) with a concrete instance that satisfies it.  Shared
  mutable objects are modelled where a claim depends on them: itineraries carry their identity, a frame's vehicles are
  one list the index and the delta point into.  An \<open>await\<close> is atomic inside a handler, except in the theorem that
  splits a guard from its act.

  \<^bold>\<open>Theories and code.\<close>
  \<^item> \<open>Prelude\<close>, \<open>Py_Text\<close>, \<open>Json_Value\<close>, \<open>Api_Error\<close> (\<open>app/errors.py\<close>): Python's idioms on texts, dictionaries,
    JSON values and errors, the lemmas about them, and the contract \<open>picker\<close> of the list merges.
  \<^item> \<open>Iso_Time\<close>, \<open>Iso_Print\<close>: dates, instants, \<open>fromisoformat\<close> and \<open>isoformat\<close> with their round trip.
  \<^item> \<open>Geo\<close>, \<open>Polyline\<close> (\<open>app/geo.py\<close>), \<open>Geohash\<close> (\<open>app/geohash.py\<close>), \<open>Network\<close> (\<open>app/network_dedupe.py\<close>,
    \<open>app/route_merge.py\<close>): geometry, the polyline codec, cells, what the map draws once.
  \<^item> \<open>Trip_Model\<close> (\<open>app/models.py\<close>), \<open>Normalize\<close> (\<open>app/normalize.py\<close>), \<open>Plan_Merge\<close> (the merges of
    \<open>app/routers/plan.py\<close> and \<open>app/parkride.py\<close>), \<open>On_Demand\<close> and \<open>Handoff\<close> (\<open>app/ondemand.py\<close>,
    \<open>app/routers/ondemand.py\<close>), \<open>Tariff\<close> (\<open>app/tariff.py\<close>), \<open>Features\<close> (\<open>app/features.py\<close>), \<open>Forecast\<close>
    (\<open>app/forecast.py\<close>): a plan from the router's answer to the rider.
  \<^item> \<open>Departures\<close> (\<open>app/routers/board.py\<close> and the stop functions of \<open>app/normalize.py\<close>), \<open>Schedule\<close>
    (\<open>app/schedule.py\<close>), \<open>Segments\<close> (\<open>app/segments.py\<close>): boards and timetables.
  \<^item> \<open>Rt\<close>, \<open>Rt_Cache\<close> (\<open>app/rt.py\<close>): feed messages, and the cache with its deltas, history and subscribers.
  \<^item> \<open>City_Config\<close>, \<open>City_Views\<close> (\<open>app/cities.py\<close>), \<open>Config_Schema\<close>, \<open>Admin_Schema\<close>, \<open>Admin_Config\<close>,
    \<open>City_Build\<close>, \<open>Credentials\<close>, \<open>City_Roundtrip\<close>, \<open>Config_Store\<close> (\<open>app/admin_config.py\<close> and the config handlers of
    \<open>app/routers/admin.py\<close>): the registry, the validation classes, the merge of an override, its stores and the
    running city.
  \<^item> \<open>Curb_Time\<close>, \<open>Curb_Rules\<close>, \<open>Curb_Import\<close>, \<open>Curb_Store\<close>, \<open>Curb_Admin\<close> (\<open>app/openmobility.py\<close>,
    \<open>app/routers/openmobility.py\<close>): time spans, rules and prices, importers, stores and admin handlers.
  \<^item> \<open>Share\<close> (\<open>app/share.py\<close>, \<open>app/routers/share.py\<close>), \<open>Admin_Auth\<close> (\<open>app/admin_auth.py\<close>,
    \<open>app/routers/admin.py\<close>), \<open>Oidc\<close> (\<open>app/oidc.py\<close>), \<open>Rate_Limit\<close> (the limiters of \<open>app/analytics.py\<close>,
    \<open>app/assistant/budget.py\<close> and \<open>app/admin_auth.py\<close>): who may do what, and how often.
  \<^item> \<open>Operations\<close> (\<open>app/walk_limit.py\<close>, \<open>app/feed_shrink.py\<close>, \<open>app/graph_drift.py\<close>, \<open>app/ops_alerts.py\<close>,
    \<open>app/reports.py\<close>, \<open>app/runtime.py\<close>): the signals an operator meets.
  \<^item> \<open>Analytics_Events\<close> (event schemas, privacy, rows and the handler \<open>ingest_events\<close>), \<open>Analytics_Rollup\<close> (\<open>aggregate\<close>
    and the rollup of both stores), \<open>Analytics_Query\<close> (cells and pairs with their threshold), \<open>Analytics_Admin\<close>
    (top lists and the admin's answers): \<open>app/analytics.py\<close> and \<open>app/routers/analytics.py\<close>.
  \<^item> \<open>Iso_Order\<close>: printed UTC instants (\<open>app/rt.py\<close>, \<open>iso\<close>) sort as the instants do.
  Each definition has the name of the function it models, with a prefix where a name is taken.

  \<^bold>\<open>Interfaces.\<close>  Where a component relies on another through a contract, the contract is a locale and the model's
  own definitions interpret it: \<open>share_store\<close>, \<open>config_store\<close>, \<open>doc_store\<close>, \<open>curb_store\<close>, \<open>rollup_store\<close> and \<open>oidc_states\<close> are
  what the handlers and jobs use of a store, each interpreted for the store in memory and the one in Postgres (tables are lists
  of rows with the constraints of \<open>app/sql/001_schema.sql\<close>); \<open>fixed_window\<close> is the limiter that two modules write
  twice; \<open>picker\<close> is the choice of the row a merge may drop, with three interpretations.

  \<^bold>\<open>What the lemmas show.\<close>
  \<^item> Access: a share changes only with its write key; an owner always remains (and two interleaved requests can break
    that); a change of account revokes sessions; a completed sign-in was started by the same browser, and its state is
    spent once; the login throttle blocks exactly the keys its specification blocks.
  \<^item> Plans: the router's answer becomes a coherent itinerary; a merge keeps its size, its promised rentals and the best
    transit row; traffic corrections keep the timetable after a ride (and move what is before it).
  \<^item> Boards: predictions are used once, the board is the grouping it is meant to be and always answers.
  \<^item> Configuration: the validation classes are sound as declared; the running city is the stored one after any
    sequence of operations; secrets survive the trip through the panel.
  \<^item> Realtime: deltas rebuild the frame, subscribers see the newest one.
  \<^item> Curbs: policies stay resolvable through every accepted operation; the next change of a rule is exact without dates.
  \<^item> Codecs: polylines, delays and ISO texts read back what was written.
  \<^item> Statistics: a stored row has no coordinate and only declared properties, its label is of an allowed kind, and it does not depend on the
    position beyond its cell; the incremental rollup equals aggregating from scratch, in both stores; a published place had the
    threshold's number of device hashes on a day (and one device can make that number by itself).
  Where the code does not do what it means to, a theorem states what it does at a concrete input.

  \<^bold>\<open>Recursion and bounds.\<close>  Recursive definitions are structural or have a measure: the decoding loop of the
  polyline the rest of the text, Douglas-Peucker's stack the size of its segments, the deep merge and the validators
  the size of the JSON value.  Text removal (\<open>drop_all\<close> of \<open>Curb_Import\<close>) runs with the length of the text as fuel, and every
  round takes at least one character off it, so the fuel never runs out.  Loops without an end (the pollers) are
  modelled one cycle at a time, and properties of them hold after any number of cycles.

  \<^bold>\<open>Not modelled.\<close>
  \<^item> \<open>app/main.py\<close>, \<open>app/config.py\<close>, \<open>app/db.py\<close>, \<open>app/logging_setup.py\<close>: wiring, settings from the environment, the
    connection pool.
  \<^item> \<open>app/otp.py\<close>, \<open>app/geocode.py\<close>, \<open>app/places.py\<close>, \<open>app/gbfs.py\<close>, \<open>app/push.py\<close> and \<open>app/assistant/\<close> apart from the budget: clients of
    other services; their own rules (ranking of names, availability of stations, which device is woken when) were not reached.
  \<^item> Of the statistics: the SQL twins of the location queries and of \<open>health\<close>, the partitions with their
    retention, and the CSV writer. The Postgres rollup reads its rows in the order of insertion.
  \<^item> The plan handler's own request parsing and its router queries; the read-only endpoints, which render what the stores hold;
    \<open>app/gtfs_static.py\<close>, whose rules are SQL and CSV handling.
  \<^item> \<open>scripts/\<close>: command line tools around the modules above.
  \<^item> Reading YAML, the landing page classes of \<open>app/cities.py\<close> (kept as the value they dump), asyncio and HTTP.
\<close>

end
